(* ===== verification/BCP_Prelude.thy ===== *)
theory BCP_Prelude
  imports Main "HOL-Library.List_Lexorder"
begin

text \<open>
  Shared vocabulary of the development.

  \<^item> Python values: a \<open>str\<close> is the list of its code points (\<open>pystr\<close>), a \<open>bytes\<close> object the
    list of its byte values, an unbounded \<open>int\<close> an \<open>int\<close>; \<open>lit\<close> turns an ASCII literal of the
    source into a \<open>pystr\<close>. The order on \<open>pystr\<close> is the lexicographic order on code points, which
    is Python's order on \<open>str\<close>.
  \<^item> Exceptions: \<open>exn\<close> has one constructor per exception class the sources raise, \<open>'a result\<close> is
    the outcome of fallible code, and \<open>('s, 'a) op\<close> is code that mutates a state \<open>'s\<close> and
    returns or raises. An exception keeps the mutations made before it, as in Python.
  \<^item> \<open>bind_op\<close>, \<open>try_op\<close> and \<open>finally_op\<close> are sequencing, \<open>try/except Exception\<close> and
    \<open>try/finally\<close>.
  \<^item> \<open>guarantees R m\<close> says that every execution of \<open>m\<close>, normal or exceptional, relates its
    first and last state by \<open>R\<close>. The locale \<open>run_order\<close> derives the rules for all combinators
    from reflexivity and transitivity of \<open>R\<close>; components interpret it for their own orders.
\<close>

section \<open>Python values\<close>

type_synonym pystr = "int list"
type_synonym bytes = "int list"

definition lit :: "string \<Rightarrow> pystr" where
  "lit s = map of_char s"

lemma lit_inject [simp]: "lit a = lit b \<longleftrightarrow> a = b"
  by (simp add: lit_def inj_map_eq_map inj_def)

lemma length_lit [simp]: "length (lit s) = length s"
  by (simp add: lit_def)

lemma lit_Nil_iff [simp]: "lit s = [] \<longleftrightarrow> s = []" "[] = lit s \<longleftrightarrow> s = []"
  by (auto simp: lit_def)

section \<open>Exceptions and stateful operations\<close>

datatype exn =
    ValueError string
  | TypeError string
  | ValidationError string
  | RuntimeError string
  | BufferError string
  | PermissionError string
  | OverflowError string
  | AssertionError
  | StopIteration
  | KeyError
  | OSError string
  | TransportError string

type_synonym 'a result = "exn + 'a"
type_synonym ('s, 'a) op = "'s \<Rightarrow> 'a result \<times> 's"

fun bind_result :: "'a result \<Rightarrow> ('a \<Rightarrow> 'b result) \<Rightarrow> 'b result" where
  "bind_result (Inl e) f = Inl e"
| "bind_result (Inr x) f = f x"

lemma bind_result_eq_Inr [simp]:
  "bind_result r f = Inr y \<longleftrightarrow> (\<exists>x. r = Inr x \<and> f x = Inr y)"
  by (cases r) auto

lemma bind_result_cong [fundef_cong]:
  "r = r' \<Longrightarrow> (\<And>x. r' = Inr x \<Longrightarrow> f x = f' x) \<Longrightarrow> bind_result r f = bind_result r' f'"
  by (cases r') auto

text \<open>Evaluation unfolds \<open>bind_result\<close> to a case distinction, which does not look under the binder early.\<close>

lemma bind_result_case [code_unfold]: "bind_result r f = (case r of Inl e \<Rightarrow> Inl e | Inr x \<Rightarrow> f x)"
  by (cases r) auto

definition ret_op :: "'a \<Rightarrow> ('s, 'a) op" where
  "ret_op x s = (Inr x, s)"

definition raise_op :: "exn \<Rightarrow> ('s, 'a) op" where
  "raise_op e s = (Inl e, s)"

definition get_op :: "('s \<Rightarrow> 'a) \<Rightarrow> ('s, 'a) op" where
  "get_op f s = (Inr (f s), s)"

definition modify_op :: "('s \<Rightarrow> 's) \<Rightarrow> ('s, unit) op" where
  "modify_op f s = (Inr (), f s)"

definition lift_result :: "'a result \<Rightarrow> ('s, 'a) op" where
  "lift_result r s = (r, s)"

definition bind_op :: "('s, 'a) op \<Rightarrow> ('a \<Rightarrow> ('s, 'b) op) \<Rightarrow> ('s, 'b) op" where
  "bind_op m f s = (case m s of (Inl e, s') \<Rightarrow> (Inl e, s') | (Inr x, s') \<Rightarrow> f x s')"

definition try_op :: "('s, 'a) op \<Rightarrow> (exn \<Rightarrow> ('s, 'a) op) \<Rightarrow> ('s, 'a) op" where
  "try_op m h s = (case m s of (Inl e, s') \<Rightarrow> h e s' | (Inr x, s') \<Rightarrow> (Inr x, s'))"

definition finally_op :: "('s, 'a) op \<Rightarrow> ('s \<Rightarrow> 's) \<Rightarrow> ('s, 'a) op" where
  "finally_op m f s = (case m s of (r, s') \<Rightarrow> (r, f s'))"

text \<open>
  An operation on a component acts on a larger state through a field of it: \<open>get\<close> reads the
  component and \<open>put\<close> stores it back.
\<close>

definition on_part :: "('w \<Rightarrow> 's) \<Rightarrow> ('s \<Rightarrow> 'w \<Rightarrow> 'w) \<Rightarrow> ('s, 'a) op \<Rightarrow> ('w, 'a) op" where
  "on_part get put m w = (case m (get w) of (r, s) \<Rightarrow> (r, put s w))"

named_theorems op_simps \<open>unfolding of the state-and-exception combinators\<close>

lemmas op_defs [op_simps] =
  ret_op_def raise_op_def get_op_def modify_op_def lift_result_def bind_op_def try_op_def
  finally_op_def on_part_def

lemma bind_op_Inr:
  "bind_op m f s = (Inr y, s') \<longleftrightarrow> (\<exists>x s1. m s = (Inr x, s1) \<and> f x s1 = (Inr y, s'))"
  by (auto simp: bind_op_def split: prod.splits sum.splits)

lemma bind_op_Inl:
  "bind_op m f s = (Inl e, s') \<longleftrightarrow>
     m s = (Inl e, s') \<or> (\<exists>x s1. m s = (Inr x, s1) \<and> f x s1 = (Inl e, s'))"
  by (auto simp: bind_op_def split: prod.splits sum.splits)

lemma try_op_Inr:
  "try_op m h s = (Inr y, s') \<longleftrightarrow>
     m s = (Inr y, s') \<or> (\<exists>e s1. m s = (Inl e, s1) \<and> h e s1 = (Inr y, s'))"
  by (auto simp: try_op_def split: prod.splits sum.splits)

section \<open>Guarantees\<close>

definition guarantees :: "('s \<Rightarrow> 's \<Rightarrow> bool) \<Rightarrow> ('s, 'a) op \<Rightarrow> bool" where
  "guarantees R m \<longleftrightarrow> (\<forall>s. R s (snd (m s)))"

lemma guaranteesI: "(\<And>s. R s (snd (m s))) \<Longrightarrow> guarantees R m"
  by (simp add: guarantees_def)

lemma guaranteesD: "guarantees R m \<Longrightarrow> R s (snd (m s))"
  by (simp add: guarantees_def)

lemma guarantees_run: "guarantees R m \<Longrightarrow> m s = (r, s') \<Longrightarrow> R s s'"
  by (metis guaranteesD snd_conv)

locale run_order =
  fixes R :: "'s \<Rightarrow> 's \<Rightarrow> bool"
  assumes run_refl: "R s s"
    and run_trans: "R s t \<Longrightarrow> R t u \<Longrightarrow> R s u"
begin

lemma g_ret: "guarantees R (ret_op x)"
  by (simp add: guarantees_def ret_op_def run_refl)

lemma g_raise: "guarantees R (raise_op e)"
  by (simp add: guarantees_def raise_op_def run_refl)

lemma g_get: "guarantees R (get_op f)"
  by (simp add: guarantees_def get_op_def run_refl)

lemma g_lift: "guarantees R (lift_result r)"
  by (simp add: guarantees_def lift_result_def run_refl)

lemma g_modify: "(\<And>s. R s (f s)) \<Longrightarrow> guarantees R (modify_op f)"
  by (simp add: guarantees_def modify_op_def)

lemma g_bind: "guarantees R m \<Longrightarrow> (\<And>x. guarantees R (f x)) \<Longrightarrow> guarantees R (bind_op m f)"
  unfolding guarantees_def bind_op_def
  by (auto split: prod.splits sum.splits) (metis snd_conv run_trans)+

lemma g_try: "guarantees R m \<Longrightarrow> (\<And>e. guarantees R (h e)) \<Longrightarrow> guarantees R (try_op m h)"
  unfolding guarantees_def try_op_def
  by (auto split: prod.splits sum.splits) (metis snd_conv run_trans)+

lemma g_finally: "guarantees R m \<Longrightarrow> (\<And>s. R s (f s)) \<Longrightarrow> guarantees R (finally_op m f)"
  unfolding guarantees_def finally_op_def
  by (auto split: prod.splits) (metis snd_conv run_trans)

lemma g_if: "(b \<Longrightarrow> guarantees R m) \<Longrightarrow> (\<not> b \<Longrightarrow> guarantees R n) \<Longrightarrow> guarantees R (if b then m else n)"
  by simp

lemma g_option:
  "guarantees R m \<Longrightarrow> (\<And>x. guarantees R (f x)) \<Longrightarrow>
     guarantees R (case v of None \<Rightarrow> m | Some x \<Rightarrow> f x)"
  by (cases v) auto

lemma g_sum:
  "(\<And>x. guarantees R (f x)) \<Longrightarrow> (\<And>y. guarantees R (g y)) \<Longrightarrow>
     guarantees R (case v of Inl x \<Rightarrow> f x | Inr y \<Rightarrow> g y)"
  by (cases v) auto

lemmas g_rules = g_ret g_raise g_get g_lift g_bind g_try g_if g_option g_sum

end

section \<open>Specifications\<close>

text \<open>
  \<open>spec R A m B X\<close>: from a state that satisfies \<open>A\<close>, the operation \<open>m\<close> moves along \<open>R\<close> and ends in \<open>B x\<close>
  when it returns \<open>x\<close> and in \<open>X e\<close> when it raises \<open>e\<close>. An assertion that \<open>R\<close> cannot falsify is \<open>stable\<close>:
  other threads, which move along \<open>R\<close>, keep it, and so does every operation that guarantees \<open>R\<close>.
\<close>

definition spec ::
  "('s \<Rightarrow> 's \<Rightarrow> bool) \<Rightarrow> ('s \<Rightarrow> bool) \<Rightarrow> ('s, 'a) op \<Rightarrow> ('a \<Rightarrow> 's \<Rightarrow> bool) \<Rightarrow> (exn \<Rightarrow> 's \<Rightarrow> bool) \<Rightarrow> bool" where
  "spec R A m B X \<longleftrightarrow>
     (\<forall>s. A s \<longrightarrow> R s (snd (m s)) \<and> (case fst (m s) of Inl e \<Rightarrow> X e (snd (m s)) | Inr x \<Rightarrow> B x (snd (m s))))"

definition stable :: "('s \<Rightarrow> 's \<Rightarrow> bool) \<Rightarrow> ('s \<Rightarrow> bool) \<Rightarrow> bool" where
  "stable R A \<longleftrightarrow> (\<forall>s t. A s \<longrightarrow> R s t \<longrightarrow> A t)"

lemma specD: "spec R A m B X \<Longrightarrow> A s \<Longrightarrow> m s = (r, t) \<Longrightarrow> R s t \<and> (case r of Inl e \<Rightarrow> X e t | Inr x \<Rightarrow> B x t)"
  unfolding spec_def by (metis fst_conv snd_conv)

lemma s_conseq:
  "spec R A m B X \<Longrightarrow> (\<And>s. A' s \<Longrightarrow> A s) \<Longrightarrow> (\<And>x s. B x s \<Longrightarrow> B' x s) \<Longrightarrow> (\<And>e s. X e s \<Longrightarrow> X' e s) \<Longrightarrow> spec R A' m B' X'"
  unfolding spec_def by (fastforce split: sum.splits)

lemma s_pre: "spec R A m B X \<Longrightarrow> (\<And>s. A' s \<Longrightarrow> A s) \<Longrightarrow> spec R A' m B X"
  by (erule s_conseq)

lemma s_frame: "guarantees R m \<Longrightarrow> stable R A \<Longrightarrow> (\<And>e s. A s \<Longrightarrow> X e s) \<Longrightarrow> spec R A m (\<lambda>_. A) X"
  unfolding spec_def guarantees_def stable_def by (auto split: sum.splits)

lemma s_guarantees: "spec R (\<lambda>_. True) m B X \<Longrightarrow> guarantees R m"
  by (simp add: spec_def guarantees_def)

lemma s_if: "(b \<Longrightarrow> spec R A m B X) \<Longrightarrow> (\<not> b \<Longrightarrow> spec R A n B X) \<Longrightarrow> spec R A (if b then m else n) B X"
  by simp

lemma s_option:
  "(v = None \<Longrightarrow> spec R A m B X) \<Longrightarrow> (\<And>x. v = Some x \<Longrightarrow> spec R A (f x) B X) \<Longrightarrow>
     spec R A (case v of None \<Rightarrow> m | Some x \<Rightarrow> f x) B X"
  by (cases v) auto

lemma s_assume: "(\<And>s. A s \<Longrightarrow> q) \<Longrightarrow> (q \<Longrightarrow> spec R A m B X) \<Longrightarrow> spec R A m B X"
  unfolding spec_def by blast

context run_order
begin

lemma s_bind: "spec R A m B X \<Longrightarrow> (\<And>x. spec R (B x) (f x) C X) \<Longrightarrow> spec R A (bind_op m f) C X"
  unfolding spec_def bind_op_def
  by (auto split: prod.splits sum.splits) (metis fst_conv snd_conv run_trans sum.case)+

lemma s_try: "spec R A m B Y \<Longrightarrow> (\<And>e. spec R (Y e) (h e) B X) \<Longrightarrow> spec R A (try_op m h) B X"
  unfolding spec_def try_op_def
  by (auto split: prod.splits sum.splits) (metis fst_conv snd_conv run_trans sum.case)+

lemma s_ret: "(\<And>s. A s \<Longrightarrow> B x s) \<Longrightarrow> spec R A (ret_op x) B X"
  by (simp add: spec_def ret_op_def run_refl)

lemma s_raise: "(\<And>s. A s \<Longrightarrow> X e s) \<Longrightarrow> spec R A (raise_op e) B X"
  by (simp add: spec_def raise_op_def run_refl)

lemma s_get: "(\<And>s. A s \<Longrightarrow> B (f s) s) \<Longrightarrow> spec R A (get_op f) B X"
  by (simp add: spec_def get_op_def run_refl)

lemma s_lift: "(\<And>e s. v = Inl e \<Longrightarrow> A s \<Longrightarrow> X e s) \<Longrightarrow> (\<And>x s. v = Inr x \<Longrightarrow> A s \<Longrightarrow> B x s) \<Longrightarrow> spec R A (lift_result v) B X"
  by (cases v) (simp_all add: spec_def lift_result_def run_refl)

lemma s_modify: "(\<And>s. A s \<Longrightarrow> R s (f s)) \<Longrightarrow> (\<And>s. A s \<Longrightarrow> B () (f s)) \<Longrightarrow> spec R A (modify_op f) B X"
  by (simp add: spec_def modify_op_def)

end

section \<open>Sequences of calls and write-once stores\<close>

fun run_ops :: "('a \<Rightarrow> ('s, 'v) op) \<Rightarrow> 'a list \<Rightarrow> 's \<Rightarrow> ('a \<times> 'v result) list \<times> 's" where
  "run_ops f [] s = ([], s)"
| "run_ops f (a # as) s =
     (case f a s of (r, s1) \<Rightarrow> case run_ops f as s1 of (rs, s2) \<Rightarrow> ((a, r) # rs, s2))"

lemma run_ops_two:
  obtains r q s' where "run_ops f [a, b] s = ([(a, r), (b, q)], s')"
  by (cases "f a s"; cases "f b (snd (f a s))") auto

text \<open>
  A store whose entries never change once written: a successful call returns what is stored under its
  key afterwards. All successful calls with one key then return the same value.
\<close>

locale write_once =
  fixes stored :: "'s \<Rightarrow> 'k \<Rightarrow> 'v option"
    and key_of :: "'a \<Rightarrow> 'k"
    and call :: "'a \<Rightarrow> ('s, 'v) op"
  assumes call_returns: "call a s = (Inr v, s') \<Longrightarrow> stored s' (key_of a) = Some v"
    and call_keeps: "call a s = (r, s') \<Longrightarrow> stored s k = Some v \<Longrightarrow> stored s' k = Some v"
begin

lemma run_keeps: "run_ops call as s = (rs, s') \<Longrightarrow> stored s k = Some v \<Longrightarrow> stored s' k = Some v"
  by (induction as arbitrary: s rs) (auto split: prod.splits dest: call_keeps)

lemma run_stores:
  "run_ops call as s = (rs, s') \<Longrightarrow> (a, Inr v) \<in> set rs \<Longrightarrow> stored s' (key_of a) = Some v"
proof (induction as arbitrary: s rs)
  case (Cons c as)
  obtain q t where c: "call c s = (q, t)" by fastforce
  obtain qs where r: "run_ops call as t = (qs, s')" "rs = (c, q) # qs"
    using Cons.prems(1) c by (auto split: prod.splits)
  show ?case
  proof (cases "(a, Inr v) \<in> set qs")
    case True
    then show ?thesis using Cons.IH r(1) by blast
  next
    case False
    with r Cons.prems(2) c have "call a s = (Inr v, t)" by auto
    then show ?thesis using run_keeps [OF r(1)] call_returns by blast
  qed
qed simp

lemma run_agrees:
  assumes "run_ops call as s = (rs, s')" "(a, Inr v) \<in> set rs" "(b, Inr w) \<in> set rs" "key_of a = key_of b"
  shows "v = w"
  using run_stores [OF assms(1,2)] run_stores [OF assms(1,3)] assms(4) by simp

end

section \<open>Sorted, duplicate-free sequences\<close>

text \<open>\<open>xs == tuple(sorted(set(xs)))\<close> holds exactly of the strictly increasing lists.\<close>

fun strictly_sorted :: "'a::linorder list \<Rightarrow> bool" where
  "strictly_sorted [] \<longleftrightarrow> True"
| "strictly_sorted [x] \<longleftrightarrow> True"
| "strictly_sorted (x # y # zs) \<longleftrightarrow> x < y \<and> strictly_sorted (y # zs)"

lemma strictly_sorted_iff: "strictly_sorted xs \<longleftrightarrow> sorted xs \<and> distinct xs"
proof (induction xs rule: strictly_sorted.induct)
  case (3 x y zs)
  show ?case
  proof
    assume s: "strictly_sorted (x # y # zs)"
    then have "sorted (y # zs)" "distinct (y # zs)" "x < y" using 3 by auto
    then show "sorted (x # y # zs) \<and> distinct (x # y # zs)" by fastforce
  next
    assume "sorted (x # y # zs) \<and> distinct (x # y # zs)"
    then show "strictly_sorted (x # y # zs)" using 3 by auto
  qed
qed auto

lemma sorted_set_fixpoint:
  "xs = sorted_list_of_set (set xs) \<longleftrightarrow> strictly_sorted (xs :: 'a::linorder list)"
  unfolding strictly_sorted_iff
  by (metis List.finite_set sorted_list_of_set.idem_if_sorted_distinct
      sorted_list_of_set.distinct_sorted_key_list_of_set
      sorted_list_of_set.sorted_sorted_key_list_of_set)

lemma sorted_le_last: "sorted xs \<Longrightarrow> x \<in> set xs \<Longrightarrow> x \<le> last xs"
  by (induction xs rule: rev_induct) (auto simp: sorted_append)

section \<open>Finite sums over partial maps\<close>

definition map_total :: "('k \<rightharpoonup> int) \<Rightarrow> int" where
  "map_total m = (\<Sum>k\<in>dom m. the (m k))"

lemma map_total_empty [simp]: "map_total (\<lambda>_. None) = 0"
  by (simp add: map_total_def)

lemma map_total_insert:
  "finite (dom m) \<Longrightarrow> m k = None \<Longrightarrow> map_total (m(k \<mapsto> v)) = map_total m + v"
proof -
  assume fin: "finite (dom m)" and k: "m k = None"
  then have "k \<notin> dom m" by auto
  moreover have "(\<Sum>x\<in>dom m. the ((m(k \<mapsto> v)) x)) = (\<Sum>x\<in>dom m. the (m x))"
    using k by (intro sum.cong) auto
  ultimately show ?thesis using fin by (simp add: map_total_def)
qed

lemma map_total_delete:
  "finite (dom m) \<Longrightarrow> m k = Some v \<Longrightarrow> map_total (m(k := None)) = map_total m - v"
proof -
  assume fin: "finite (dom m)" and k: "m k = Some v"
  have "map_total ((m(k := None))(k \<mapsto> v)) = map_total (m(k := None)) + v"
    using fin by (intro map_total_insert) auto
  moreover have "(m(k := None))(k \<mapsto> v) = m" using k by auto
  ultimately show ?thesis by simp
qed

lemma card_dom_insert: "finite (dom m) \<Longrightarrow> m k = None \<Longrightarrow> card (dom (m(k \<mapsto> v))) = Suc (card (dom m))"
  by (simp add: domIff)

lemma card_dom_delete:
  "finite (dom m) \<Longrightarrow> m k = Some v \<Longrightarrow> Suc (card (dom (m(k := None)))) = card (dom m)"
  using card_Suc_Diff1 [of "dom m" k] by (simp add: domI)

lemma map_total_nonneg: "(\<And>k v. m k = Some v \<Longrightarrow> 0 \<le> v) \<Longrightarrow> 0 \<le> map_total m"
  unfolding map_total_def by (intro sum_nonneg) auto

end
