(* ===== verification/BCP_Utf8.thy ===== *)
theory BCP_Utf8
  imports BCP_Prelude
begin

text \<open>
  The parts of Python's \<open>str.encode\<close> and \<open>bytes.decode\<close> the protocol uses: strict UTF-8 in both
  directions and the UTF-16 big-endian form by which \<^verbatim>\<open>app/models.py\<close> sorts object keys.

  Shown here: decoding inverts encoding on Unicode scalar values, encoding inverts every accepted
  decoding (so no two byte strings decode to the same text), and the UTF-16 form determines its
  string.
\<close>

section \<open>Strings\<close>

definition surrogate :: "int \<Rightarrow> bool" where
  "surrogate c \<longleftrightarrow> 55296 \<le> c \<and> c \<le> 57343"

subsection \<open>UTF-8\<close>

definition scalar_value :: "int \<Rightarrow> bool" where
  "scalar_value c \<longleftrightarrow> 0 \<le> c \<and> c \<le> 1114111 \<and> \<not> surrogate c"

definition utf8_char :: "int \<Rightarrow> bytes" where
  "utf8_char c =
     (if c < 128 then [c]
      else if c < 2048 then [192 + c div 64, 128 + c mod 64]
      else if c < 65536 then [224 + c div 4096, 128 + c div 64 mod 64, 128 + c mod 64]
      else [240 + c div 262144, 128 + c div 4096 mod 64, 128 + c div 64 mod 64, 128 + c mod 64])"

text \<open>\<open>value.encode("utf-8")\<close>: a surrogate raises \<open>UnicodeEncodeError\<close>, a \<open>ValueError\<close>.\<close>

definition utf8_encode :: "pystr \<Rightarrow> bytes result" where
  "utf8_encode s =
     (if \<exists>c\<in>set s. \<not> scalar_value c then Inl (ValueError ''surrogates not allowed'')
      else Inr (concat (map utf8_char s)))"

definition continuation :: "int \<Rightarrow> bool" where
  "continuation b \<longleftrightarrow> 128 \<le> b \<and> b < 192"

definition join2 :: "int \<Rightarrow> int \<Rightarrow> int" where
  "join2 b b1 = (b - 192) * 64 + (b1 - 128)"

definition join3 :: "int \<Rightarrow> int \<Rightarrow> int \<Rightarrow> int" where
  "join3 b b1 b2 = (b - 224) * 4096 + (b1 - 128) * 64 + (b2 - 128)"

definition join4 :: "int \<Rightarrow> int \<Rightarrow> int \<Rightarrow> int \<Rightarrow> int" where
  "join4 b b1 b2 b3 = (b - 240) * 262144 + (b1 - 128) * 4096 + (b2 - 128) * 64 + (b3 - 128)"

text \<open>\<open>value.decode("utf-8")\<close>: overlong forms, surrogates and values past U+10FFFF are refused.\<close>

fun utf8_decode :: "bytes \<Rightarrow> pystr result" where
  "utf8_decode [] = Inr []"
| "utf8_decode (b # bs) =
     (if 0 \<le> b \<and> b < 128 then bind_result (utf8_decode bs) (\<lambda>cs. Inr (b # cs))
      else if 192 \<le> b \<and> b < 224 then
        (case bs of b1 # bs1 \<Rightarrow>
           if continuation b1 \<and> 128 \<le> join2 b b1
           then bind_result (utf8_decode bs1) (\<lambda>cs. Inr (join2 b b1 # cs))
           else Inl (ValueError ''invalid UTF-8'')
         | _ \<Rightarrow> Inl (ValueError ''invalid UTF-8''))
      else if 224 \<le> b \<and> b < 240 then
        (case bs of b1 # b2 # bs2 \<Rightarrow>
           if continuation b1 \<and> continuation b2 \<and> 2048 \<le> join3 b b1 b2 \<and> \<not> surrogate (join3 b b1 b2)
           then bind_result (utf8_decode bs2) (\<lambda>cs. Inr (join3 b b1 b2 # cs))
           else Inl (ValueError ''invalid UTF-8'')
         | _ \<Rightarrow> Inl (ValueError ''invalid UTF-8''))
      else if 240 \<le> b \<and> b < 248 then
        (case bs of b1 # b2 # b3 # bs3 \<Rightarrow>
           if continuation b1 \<and> continuation b2 \<and> continuation b3 \<and>
              65536 \<le> join4 b b1 b2 b3 \<and> join4 b b1 b2 b3 \<le> 1114111
           then bind_result (utf8_decode bs3) (\<lambda>cs. Inr (join4 b b1 b2 b3 # cs))
           else Inl (ValueError ''invalid UTF-8'')
         | _ \<Rightarrow> Inl (ValueError ''invalid UTF-8''))
      else Inl (ValueError ''invalid UTF-8''))"

subsection \<open>UTF-16 sort keys\<close>

text \<open>\<open>item.encode("utf-16-be")\<close>, the key by which object members are sorted.\<close>

definition utf16_unit :: "int \<Rightarrow> bytes" where
  "utf16_unit u = [u div 256, u mod 256]"

definition utf16_char :: "int \<Rightarrow> bytes" where
  "utf16_char c =
     (if c < 65536 then utf16_unit c
      else utf16_unit (55296 + (c - 65536) div 1024) @ utf16_unit (56320 + (c - 65536) mod 1024))"

definition utf16_be :: "pystr \<Rightarrow> bytes" where
  "utf16_be s = concat (map utf16_char s)"

subsection \<open>UTF-8 encoding and decoding are inverse\<close>

lemma div_64_64: "(c::int) div 4096 = c div 64 div 64" "(c::int) div 262144 = c div 64 div 64 div 64"
  by (simp_all add: zdiv_zmult2_eq [symmetric])

lemma split64: "0 \<le> z \<Longrightarrow> z < 64 \<Longrightarrow> (a * 64 + z) div 64 = (a::int)" "0 \<le> z \<Longrightarrow> z < 64 \<Longrightarrow> (a * 64 + z) mod 64 = (z::int)"
  by auto

lemma digits64:
  "q * 64 + z = c \<Longrightarrow> x * 64 + y = q \<Longrightarrow> x * 4096 + y * 64 + z = (c::int)"
  "q * 64 + z = c \<Longrightarrow> p * 64 + y = q \<Longrightarrow> x * 64 + w = p \<Longrightarrow>
     x * 262144 + w * 4096 + y * 64 + z = (c::int)"
  by (auto simp: algebra_simps)

lemma utf8_char2:
  assumes "128 \<le> c" "c < 2048"
  obtains b b1 where "utf8_char c = [b, b1]" "192 \<le> b" "b < 224" "continuation b1" "join2 b b1 = c"
proof
  show "utf8_char c = [192 + c div 64, 128 + c mod 64]" using assms by (simp add: utf8_char_def)
  show "192 \<le> 192 + c div 64" "192 + c div 64 < 224" using assms by auto
  show "continuation (128 + c mod 64)" by (simp add: continuation_def)
  show "join2 (192 + c div 64) (128 + c mod 64) = c" by (simp add: join2_def)
qed

lemma utf8_char3:
  assumes "2048 \<le> c" "c < 65536"
  obtains b b1 b2 where "utf8_char c = [b, b1, b2]" "224 \<le> b" "b < 240" "continuation b1"
    "continuation b2" "join3 b b1 b2 = c"
proof
  show "utf8_char c = [224 + c div 4096, 128 + c div 64 mod 64, 128 + c mod 64]"
    using assms by (simp add: utf8_char_def)
  show "224 \<le> 224 + c div 4096" "224 + c div 4096 < 240" using assms by auto
  show "continuation (128 + c div 64 mod 64)" "continuation (128 + c mod 64)"
    by (simp_all add: continuation_def)
  show "join3 (224 + c div 4096) (128 + c div 64 mod 64) (128 + c mod 64) = c"
    unfolding join3_def div_64_64 add_diff_cancel_left' by (rule digits64(1)) (rule div_mult_mod_eq)+
qed

lemma utf8_char4:
  assumes "65536 \<le> c" "c \<le> 1114111"
  obtains b b1 b2 b3 where "utf8_char c = [b, b1, b2, b3]" "240 \<le> b" "b < 248" "continuation b1"
    "continuation b2" "continuation b3" "join4 b b1 b2 b3 = c"
proof
  show "utf8_char c = [240 + c div 262144, 128 + c div 4096 mod 64, 128 + c div 64 mod 64, 128 + c mod 64]"
    using assms by (simp add: utf8_char_def)
  show "240 \<le> 240 + c div 262144" "240 + c div 262144 < 248" using assms by auto
  show "continuation (128 + c div 4096 mod 64)" "continuation (128 + c div 64 mod 64)"
    "continuation (128 + c mod 64)"
    by (simp_all add: continuation_def)
  show "join4 (240 + c div 262144) (128 + c div 4096 mod 64) (128 + c div 64 mod 64) (128 + c mod 64) = c"
    unfolding join4_def div_64_64 add_diff_cancel_left' by (rule digits64(2)) (rule div_mult_mod_eq)+
qed

lemma utf8_decode_char:
  assumes "scalar_value c"
  shows "utf8_decode (utf8_char c @ bs) = bind_result (utf8_decode bs) (\<lambda>cs. Inr (c # cs))"
proof -
  have c: "0 \<le> c" "c \<le> 1114111" "\<not> surrogate c" using assms by (auto simp: scalar_value_def)
  consider "c < 128" | "128 \<le> c" "c < 2048" | "2048 \<le> c" "c < 65536" | "65536 \<le> c" by linarith
  then show ?thesis
  proof cases
    case 1 then show ?thesis using c by (simp add: utf8_char_def)
  next
    case 2
    then obtain b b1 where "utf8_char c = [b, b1]" "192 \<le> b" "b < 224" "continuation b1" "join2 b b1 = c"
      by (rule utf8_char2)
    with 2 show ?thesis by simp
  next
    case 3
    then obtain b b1 b2 where "utf8_char c = [b, b1, b2]" "224 \<le> b" "b < 240" "continuation b1"
      "continuation b2" "join3 b b1 b2 = c"
      by (rule utf8_char3)
    with 3 c show ?thesis by simp
  next
    case 4
    then obtain b b1 b2 b3 where "utf8_char c = [b, b1, b2, b3]" "240 \<le> b" "b < 248" "continuation b1"
      "continuation b2" "continuation b3" "join4 b b1 b2 b3 = c"
      using c(2) by (rule utf8_char4)
    with 4 c show ?thesis by simp
  qed
qed

lemma utf8_decode_encode:
  "\<forall>c\<in>set s. scalar_value c \<Longrightarrow> utf8_decode (concat (map utf8_char s)) = Inr s"
  by (induction s) (simp_all add: utf8_decode_char)

lemma utf8_char_join2:
  assumes "192 \<le> b" "b < 224" "continuation b1" "128 \<le> join2 b b1"
  shows "utf8_char (join2 b b1) = [b, b1]" "scalar_value (join2 b b1)"
proof -
  have "0 \<le> b1 - 128" "b1 - 128 < 64" using assms(3) by (auto simp: continuation_def)
  then have "join2 b b1 div 64 = b - 192" "join2 b b1 mod 64 = b1 - 128"
    unfolding join2_def by (simp_all only: split64)
  moreover have "b \<le> 223" "b1 \<le> 191" using assms(2,3) by (auto simp: continuation_def)
  then have "join2 b b1 < 2048" by (simp add: join2_def)
  ultimately show "utf8_char (join2 b b1) = [b, b1]" "scalar_value (join2 b b1)"
    using assms(4) by (simp_all add: utf8_char_def scalar_value_def surrogate_def)
qed

lemma utf8_char_join3:
  assumes "224 \<le> b" "b < 240" "continuation b1" "continuation b2"
    and "2048 \<le> join3 b b1 b2" "\<not> surrogate (join3 b b1 b2)"
  shows "utf8_char (join3 b b1 b2) = [b, b1, b2]" "scalar_value (join3 b b1 b2)"
proof -
  have r: "0 \<le> b1 - 128" "b1 - 128 < 64" "0 \<le> b2 - 128" "b2 - 128 < 64"
    using assms(3,4) by (auto simp: continuation_def)
  have j: "join3 b b1 b2 = ((b - 224) * 64 + (b1 - 128)) * 64 + (b2 - 128)" by (simp add: join3_def)
  have "join3 b b1 b2 div 4096 = b - 224" "join3 b b1 b2 div 64 mod 64 = b1 - 128"
    "join3 b b1 b2 mod 64 = b2 - 128"
    unfolding div_64_64 j using r by (simp_all only: split64)
  moreover have "b \<le> 239" "b1 \<le> 191" "b2 \<le> 191" using assms(2-4) by (auto simp: continuation_def)
  then have "join3 b b1 b2 < 65536" by (simp add: join3_def)
  ultimately show "utf8_char (join3 b b1 b2) = [b, b1, b2]" "scalar_value (join3 b b1 b2)"
    using assms by (simp_all add: utf8_char_def scalar_value_def)
qed

lemma utf8_char_join4:
  assumes "240 \<le> b" "continuation b1" "continuation b2" "continuation b3"
    and "65536 \<le> join4 b b1 b2 b3" "join4 b b1 b2 b3 \<le> 1114111"
  shows "utf8_char (join4 b b1 b2 b3) = [b, b1, b2, b3]" "scalar_value (join4 b b1 b2 b3)"
proof -
  have r: "0 \<le> b1 - 128" "b1 - 128 < 64" "0 \<le> b2 - 128" "b2 - 128 < 64" "0 \<le> b3 - 128" "b3 - 128 < 64"
    using assms(2-4) by (auto simp: continuation_def)
  have j: "join4 b b1 b2 b3 = (((b - 240) * 64 + (b1 - 128)) * 64 + (b2 - 128)) * 64 + (b3 - 128)"
    by (simp add: join4_def)
  have "join4 b b1 b2 b3 div 262144 = b - 240" "join4 b b1 b2 b3 div 4096 mod 64 = b1 - 128"
    "join4 b b1 b2 b3 div 64 mod 64 = b2 - 128" "join4 b b1 b2 b3 mod 64 = b3 - 128"
    unfolding div_64_64 j using r by (simp_all only: split64)
  then have "[240 + join4 b b1 b2 b3 div 262144, 128 + join4 b b1 b2 b3 div 4096 mod 64,
      128 + join4 b b1 b2 b3 div 64 mod 64, 128 + join4 b b1 b2 b3 mod 64] = [b, b1, b2, b3]"
    by (simp only: add_diff_eq) simp
  moreover have "\<not> join4 b b1 b2 b3 < 128" "\<not> join4 b b1 b2 b3 < 2048" "\<not> join4 b b1 b2 b3 < 65536"
    using assms(5) by simp_all
  ultimately show "utf8_char (join4 b b1 b2 b3) = [b, b1, b2, b3]"
    unfolding utf8_char_def by (simp only: if_False)
  show "scalar_value (join4 b b1 b2 b3)"
    using assms(5,6) by (simp add: scalar_value_def surrogate_def)
qed

lemma utf8_encode_decode:
  "utf8_decode bs = Inr s \<Longrightarrow> concat (map utf8_char s) = bs \<and> (\<forall>c\<in>set s. scalar_value c)"
proof (induction bs arbitrary: s rule: utf8_decode.induct)
  case 1 then show ?case by simp
next
  case (2 b bs)
  consider "0 \<le> b" "b < 128" | "192 \<le> b" "b < 224" | "224 \<le> b" "b < 240" | "240 \<le> b" "b < 248"
    using 2(5) by (fastforce split: if_splits)
  then show ?case
  proof cases
    case 1
    with 2(5) 2(1) show ?thesis
      by (auto simp: utf8_char_def scalar_value_def surrogate_def)
  next
    case c: 2
    with 2(5) obtain b1 bs1 cs where "bs = b1 # bs1" "continuation b1" "128 \<le> join2 b b1"
      "utf8_decode bs1 = Inr cs" "s = join2 b b1 # cs"
      by (auto split: list.splits if_splits)
    with c 2(2) [of b1 bs1 cs] show ?thesis by (simp add: utf8_char_join2)
  next
    case c: 3
    with 2(5) obtain b1 b2 bs2 cs where "bs = b1 # b2 # bs2" "continuation b1" "continuation b2"
      "2048 \<le> join3 b b1 b2" "\<not> surrogate (join3 b b1 b2)"
      "utf8_decode bs2 = Inr cs" "s = join3 b b1 b2 # cs"
      by (auto split: list.splits if_splits)
    with c 2(3) [of b1 "b2 # bs2" b2 bs2 cs] show ?thesis by (simp add: utf8_char_join3)
  next
    case c: 4
    with 2(5) obtain b1 b2 b3 bs3 cs where "bs = b1 # b2 # b3 # bs3" "continuation b1" "continuation b2"
      "continuation b3" "65536 \<le> join4 b b1 b2 b3" "join4 b b1 b2 b3 \<le> 1114111"
      "utf8_decode bs3 = Inr cs" "s = join4 b b1 b2 b3 # cs"
      by (auto split: list.splits if_splits)
    with c 2(4) [of b1 "b2 # b3 # bs3" b2 "b3 # bs3" b3 bs3 cs] show ?thesis by (simp add: utf8_char_join4)
  qed
qed

subsection \<open>UTF-16 forms determine their strings\<close>

lemma utf16_unit_inject: "0 \<le> u \<Longrightarrow> 0 \<le> v \<Longrightarrow> utf16_unit u = utf16_unit v \<Longrightarrow> u = v"
  by (simp add: utf16_unit_def) (metis div_mult_mod_eq)

text \<open>The first unit of a character tells whether a second one follows.\<close>

lemma utf16_char_inject:
  assumes "scalar_value c" "scalar_value d" "utf16_char c @ x = utf16_char d @ y"
  shows "c = d \<and> x = y"
proof -
  have cd: "0 \<le> c" "c \<le> 1114111" "\<not> surrogate c" "0 \<le> d" "d \<le> 1114111" "\<not> surrogate d"
    using assms(1,2) by (auto simp: scalar_value_def)
  define hi where "hi e = 55296 + (e - 65536) div 1024" for e :: int
  define lo where "lo e = 56320 + (e - 65536) mod 1024" for e :: int
  have hi: "surrogate (hi e)" "0 \<le> hi e" if "65536 \<le> e" "e \<le> 1114111" for e
  proof -
    have "(e - 65536) div 1024 \<le> 1048575 div 1024" using that by (intro zdiv_mono1) auto
    with that show "surrogate (hi e)" "0 \<le> hi e" by (auto simp: hi_def surrogate_def)
  qed
  have lo: "0 \<le> lo e" for e by (simp add: lo_def)
  have big: "utf16_char e = utf16_unit (hi e) @ utf16_unit (lo e)" if "65536 \<le> e" for e
    using that by (simp add: utf16_char_def hi_def lo_def)
  have small: "utf16_char e = utf16_unit e" if "e < 65536" for e
    using that by (simp add: utf16_char_def)
  have units: "u = v \<and> r = s" if "0 \<le> u" "0 \<le> v" "utf16_unit u @ r = utf16_unit v @ s" for u v r s
    using that utf16_unit_inject [of u v] by (simp add: utf16_unit_def)
  consider (ss) "c < 65536" "d < 65536" | (sb) "c < 65536" "65536 \<le> d" | (bs) "65536 \<le> c" "d < 65536"
    | (bb) "65536 \<le> c" "65536 \<le> d" by linarith
  then show ?thesis
  proof cases
    case ss with assms(3) cd units [of c d x y] show ?thesis by (simp add: small)
  next
    case sb
    with assms(3) have "utf16_unit c @ x = utf16_unit (hi d) @ (utf16_unit (lo d) @ y)" by (simp add: small big)
    with units [of c "hi d"] hi [of d] sb cd have "c = hi d" by blast
    with hi [of d] sb cd show ?thesis by simp
  next
    case bs
    with assms(3) have "utf16_unit (hi c) @ (utf16_unit (lo c) @ x) = utf16_unit d @ y" by (simp add: small big)
    with units [of "hi c" d] hi [of c] bs cd have "d = hi c" by blast
    with hi [of c] bs cd show ?thesis by simp
  next
    case bb
    with assms(3) have "utf16_unit (hi c) @ (utf16_unit (lo c) @ x) = utf16_unit (hi d) @ (utf16_unit (lo d) @ y)"
      by (simp add: big)
    with units [of "hi c" "hi d"] hi bb cd
    have "hi c = hi d" "utf16_unit (lo c) @ x = utf16_unit (lo d) @ y" by blast+
    with units [of "lo c" "lo d"] lo have "hi c = hi d" "lo c = lo d" "x = y" by auto
    then have "(c - 65536) div 1024 = (d - 65536) div 1024" "(c - 65536) mod 1024 = (d - 65536) mod 1024" "x = y"
      by (auto simp: hi_def lo_def)
    then have "c - 65536 = d - 65536" "x = y" by (metis div_mult_mod_eq)+
    then show ?thesis by simp
  qed
qed

lemma utf16_be_inject:
  "\<forall>c\<in>set s. scalar_value c \<Longrightarrow> \<forall>c\<in>set t. scalar_value c \<Longrightarrow> utf16_be s = utf16_be t \<Longrightarrow> s = t"
proof (induction s arbitrary: t)
  case Nil
  then show ?case
    by (cases t) (auto simp: utf16_be_def utf16_char_def utf16_unit_def split: if_splits)
next
  case (Cons c s)
  show ?case
  proof (cases t)
    case Nil
    with Cons.prems show ?thesis by (auto simp: utf16_be_def utf16_char_def utf16_unit_def split: if_splits)
  next
    case (Cons d t')
    with Cons.prems Cons.IH [of t'] utf16_char_inject [of c d "utf16_be s" "utf16_be t'"] show ?thesis
      by (simp add: utf16_be_def)
  qed
qed

end
