(* ===== verification/BCP_Json.thy ===== *)
theory BCP_Json
  imports BCP_Utf8 "HOL-Library.Multiset"
begin

text \<open>
  The canonical JSON profile of \<^verbatim>\<open>app/models.py\<close>: the limits, \<open>_require_nfc\<close>,
  \<open>_validate_json_value\<close>, \<open>_order_for_jcs\<close>, \<open>canonical_json_bytes\<close> and \<open>canonical_json\<close>, with
  the parts of Python's \<open>json.dumps\<close>, \<open>str.encode\<close> and \<open>bytes.decode\<close> they use.

  \<open>pyval\<close> is a Python value handed to the canonicalizer (a pydantic model stands for its
  \<open>model_dump\<close>, a mapping from field names), \<open>json\<close> a validated JSON value. The Unicode
  tables behind \<open>unicodedata.normalize\<close> and \<open>str.lower\<close> are the parameters \<open>p_nfc\<close> and \<open>p_lower\<close>, the hash function and the
  signature scheme of the \<open>cryptography\<close> package are \<open>p_sha256\<close>, \<open>p_sign\<close> and \<open>p_verify\<close>.

  The path argument of \<open>_validate_json_value\<close> only labels error messages and is left out; messages
  keep their fixed part.
\<close>

section \<open>Primitives supplied from outside\<close>

record prims =
  p_nfc :: "pystr \<Rightarrow> pystr"
  p_lower :: "pystr \<Rightarrow> pystr"
  p_sha256 :: "bytes \<Rightarrow> bytes"
  p_sign :: "bytes \<Rightarrow> bytes \<Rightarrow> bytes"
  p_public :: "bytes \<Rightarrow> bytes"
  p_verify :: "bytes \<Rightarrow> bytes \<Rightarrow> bytes \<Rightarrow> bool"

text \<open>
  A concrete instance for evaluating examples: normalization of text without combining marks, a
  32-byte positional checksum with a fixed prefix, and a signature that repeats key and message digest.
\<close>

fun checksum :: "int \<Rightarrow> bytes \<Rightarrow> int" where
  "checksum acc [] = acc"
| "checksum acc (b # bs) = checksum ((acc * 257 + b + 1) mod 65521) bs"

definition sample_sha256 :: "bytes \<Rightarrow> bytes" where
  "sample_sha256 b = (let c = checksum 1 b in [17, 34] @ concat (replicate 15 [c div 256, c mod 256]))"

definition sample_prims :: prims where
  "sample_prims = \<lparr> p_nfc = (\<lambda>s. s), p_lower = map (\<lambda>c. if 65 \<le> c \<and> c \<le> 90 then c + 32 else c), p_sha256 = sample_sha256,
     p_sign = (\<lambda>sk m. sk @ sample_sha256 m), p_public = (\<lambda>sk. sk),
     p_verify = (\<lambda>pk m sig. sig = pk @ sample_sha256 m) \<rparr>"

section \<open>Limits\<close>

definition MAX_SAFE_INTEGER :: int where "MAX_SAFE_INTEGER = 9007199254740991"
definition MAX_CANONICAL_JSON_BYTES :: int where "MAX_CANONICAL_JSON_BYTES = 4194304"
definition MAX_EVENT_PAYLOAD_BYTES :: int where "MAX_EVENT_PAYLOAD_BYTES = 1048576"
definition MAX_JSON_DEPTH :: int where "MAX_JSON_DEPTH = 64"
definition MAX_JSON_NODES :: int where "MAX_JSON_NODES = 100000"

lemmas json_limits =
  MAX_SAFE_INTEGER_def MAX_CANONICAL_JSON_BYTES_def MAX_EVENT_PAYLOAD_BYTES_def
  MAX_JSON_DEPTH_def MAX_JSON_NODES_def

lemma max_safe_integer_power: "MAX_SAFE_INTEGER = 2 ^ 53 - 1"
  by (simp add: MAX_SAFE_INTEGER_def)

section \<open>Python values and JSON values\<close>

datatype pykey = KStr pystr | KOther

datatype pyval =
    PNone
  | PBool bool
  | PInt int
  | PFloat
  | PStr pystr
  | PSeq "pyval list"
  | PMap "(pykey \<times> pyval) list"
  | POther

datatype json =
    JNull
  | JBool bool
  | JInt int
  | JStr pystr
  | JArr "json list"
  | JObj "(pystr \<times> json) list"

text \<open>A validated value is again a Python value.\<close>

fun py_of_json :: "json \<Rightarrow> pyval" where
  "py_of_json JNull = PNone"
| "py_of_json (JBool b) = PBool b"
| "py_of_json (JInt i) = PInt i"
| "py_of_json (JStr s) = PStr s"
| "py_of_json (JArr js) = PSeq (map py_of_json js)"
| "py_of_json (JObj kvs) = PMap (map (\<lambda>(k, v). (KStr k, py_of_json v)) kvs)"

section \<open>Strings\<close>

text \<open>
  The code points of a Python string lie between 0 and 0x10FFFF, so among them the surrogates are
  exactly the non-scalar values.
\<close>

definition require_nfc :: "prims \<Rightarrow> pystr \<Rightarrow> pystr result" where
  "require_nfc P value =
     (if p_nfc P value \<noteq> value then Inl (ValueError ''must be NFC-normalized'')
      else if \<exists>c\<in>set value. \<not> scalar_value c
      then Inl (ValueError ''must not contain Unicode surrogates'')
      else Inr value)"

lemma require_nfc_Inr [simp]:
  "require_nfc P v = Inr w \<longleftrightarrow> w = v \<and> p_nfc P v = v \<and> (\<forall>c\<in>set v. scalar_value c)"
  by (auto simp: require_nfc_def)

section \<open>Validation\<close>

definition enter_node :: "int \<Rightarrow> int \<Rightarrow> int result" where
  "enter_node depth budget =
     (if depth > MAX_JSON_DEPTH then Inl (ValueError ''JSON nesting exceeds limit'')
      else if budget - 1 < 0 then Inl (ValueError ''JSON value exceeds node limit'')
      else Inr (budget - 1))"

fun validate_json_value :: "prims \<Rightarrow> int \<Rightarrow> int \<Rightarrow> pyval \<Rightarrow> (json \<times> int) result"
  and validate_items :: "prims \<Rightarrow> int \<Rightarrow> int \<Rightarrow> pyval list \<Rightarrow> (json list \<times> int) result"
  and validate_pairs ::
    "prims \<Rightarrow> int \<Rightarrow> int \<Rightarrow> pystr list \<Rightarrow> (pykey \<times> pyval) list \<Rightarrow> ((pystr \<times> json) list \<times> int) result"
where
  "validate_json_value P depth budget PNone =
     bind_result (enter_node depth budget) (\<lambda>b. Inr (JNull, b))"
| "validate_json_value P depth budget (PBool v) =
     bind_result (enter_node depth budget) (\<lambda>b. Inr (JBool v, b))"
| "validate_json_value P depth budget (PInt i) =
     bind_result (enter_node depth budget) (\<lambda>b.
       if \<bar>i\<bar> > MAX_SAFE_INTEGER then Inl (ValueError ''integer exceeds the I-JSON safe range'')
       else Inr (JInt i, b))"
| "validate_json_value P depth budget PFloat =
     bind_result (enter_node depth budget) (\<lambda>b. Inl (TypeError ''floats are forbidden''))"
| "validate_json_value P depth budget (PStr s) =
     bind_result (enter_node depth budget) (\<lambda>b.
       bind_result (require_nfc P s) (\<lambda>t. Inr (JStr t, b)))"
| "validate_json_value P depth budget (PSeq vs) =
     bind_result (enter_node depth budget) (\<lambda>b.
       bind_result (validate_items P (depth + 1) b vs) (\<lambda>(js, b'). Inr (JArr js, b')))"
| "validate_json_value P depth budget (PMap kvs) =
     bind_result (enter_node depth budget) (\<lambda>b.
       bind_result (validate_pairs P (depth + 1) b [] kvs) (\<lambda>(js, b'). Inr (JObj js, b')))"
| "validate_json_value P depth budget POther =
     bind_result (enter_node depth budget) (\<lambda>b. Inl (TypeError ''unsupported canonical JSON type''))"
| "validate_items P depth budget [] = Inr ([], budget)"
| "validate_items P depth budget (v # vs) =
     bind_result (validate_json_value P depth budget v) (\<lambda>(j, b).
       bind_result (validate_items P depth b vs) (\<lambda>(js, b'). Inr (j # js, b')))"
| "validate_pairs P depth budget seen [] = Inr ([], budget)"
| "validate_pairs P depth budget seen ((k, v) # kvs) =
     (case k of
        KOther \<Rightarrow> Inl (TypeError ''JSON object keys must be strings'')
      | KStr key \<Rightarrow>
          bind_result (require_nfc P key) (\<lambda>_.
            if p_nfc P key \<in> set seen then Inl (ValueError ''duplicate key after NFC normalization'')
            else bind_result (validate_json_value P depth budget v) (\<lambda>(j, b).
              bind_result (validate_pairs P depth b (p_nfc P key # seen) kvs) (\<lambda>(js, b').
                Inr ((key, j) # js, b')))))"

section \<open>Key order and serialization\<close>

lemma json_member_size: "(k, v) \<in> set kvs \<Longrightarrow> size v \<le> size_list (size_prod (\<lambda>x. 0) size) kvs"
  by (induction kvs) auto

lemma json_item_size: "(j :: json) \<in> set js \<Longrightarrow> size j \<le> size_list size js"
  by (induction js) auto

function order_for_jcs :: "json \<Rightarrow> json" where
  "order_for_jcs (JObj kvs) =
     JObj (map (\<lambda>(k, v). (k, order_for_jcs v)) (sort_key (\<lambda>(k, v). utf16_be k) kvs))"
| "order_for_jcs (JArr js) = JArr (map order_for_jcs js)"
| "order_for_jcs JNull = JNull"
| "order_for_jcs (JBool b) = JBool b"
| "order_for_jcs (JInt i) = JInt i"
| "order_for_jcs (JStr s) = JStr s"
  by pat_completeness auto
termination
  by (relation "measure size") (auto simp: less_Suc_eq_le intro: json_member_size json_item_size)

fun dec_digits :: "nat \<Rightarrow> pystr" where
  "dec_digits n = (if n < 10 then [48 + int n] else dec_digits (n div 10) @ [48 + int (n mod 10)])"

declare dec_digits.simps [simp del]

definition int_repr :: "int \<Rightarrow> pystr" where
  "int_repr i = (if i < 0 then 45 # dec_digits (nat (- i)) else dec_digits (nat i))"

text \<open>The same digits computed on integers, for evaluation.\<close>

function dec_int :: "int \<Rightarrow> pystr" where
  "dec_int i = (if i < 10 then [48 + i] else dec_int (i div 10) @ [48 + i mod 10])"
  by pat_completeness auto
termination
  by (relation "measure nat") auto

declare dec_int.simps [simp del]

lemma dec_digits_int: "dec_digits n = dec_int (int n)"
proof (induction n rule: dec_digits.induct)
  case (1 n)
  show ?case
  proof (cases "n < 10")
    case True
    then have "int n < 10" by simp
    then show ?thesis using True by (simp only: dec_digits.simps [of n] dec_int.simps [of "int n"] if_True)
  next
    case False
    then have "\<not> int n < 10" by simp
    with False 1 [OF False] show ?thesis
      by (simp only: dec_digits.simps [of n] dec_int.simps [of "int n"] if_False zdiv_int zmod_int of_nat_numeral)
  qed
qed

lemma int_repr_code [code]: "int_repr i = (if i < 0 then 45 # dec_int (- i) else dec_int i)"
  by (simp add: int_repr_def dec_digits_int)

definition hex_digit :: "int \<Rightarrow> int" where
  "hex_digit d = (if d < 10 then 48 + d else 87 + d)"

text \<open>\<open>json.dumps(..., ensure_ascii=False)\<close> escapes quotes, backslashes and C0 controls only.\<close>

definition escape_char :: "int \<Rightarrow> pystr" where
  "escape_char c =
     (if c = 34 then [92, 34]
      else if c = 92 then [92, 92]
      else if c = 8 then [92, 98]
      else if c = 12 then [92, 102]
      else if c = 10 then [92, 110]
      else if c = 13 then [92, 114]
      else if c = 9 then [92, 116]
      else if 0 \<le> c \<and> c < 32 then [92, 117, 48, 48, hex_digit (c div 16), hex_digit (c mod 16)]
      else [c])"

definition dumps_str :: "pystr \<Rightarrow> pystr" where
  "dumps_str s = 34 # concat (map escape_char s) @ [34]"

fun dumps :: "json \<Rightarrow> pystr"
  and dumps_items :: "json list \<Rightarrow> pystr"
  and dumps_pairs :: "(pystr \<times> json) list \<Rightarrow> pystr"
where
  "dumps JNull = lit ''null''"
| "dumps (JBool b) = (if b then lit ''true'' else lit ''false'')"
| "dumps (JInt i) = int_repr i"
| "dumps (JStr s) = dumps_str s"
| "dumps (JArr js) = 91 # dumps_items js @ [93]"
| "dumps (JObj kvs) = 123 # dumps_pairs kvs @ [125]"
| "dumps_items [] = []"
| "dumps_items (j # js) = dumps j @ (if js = [] then [] else 44 # dumps_items js)"
| "dumps_pairs [] = []"
| "dumps_pairs ((k, v) # kvs) =
     dumps_str k @ 58 # dumps v @ (if kvs = [] then [] else 44 # dumps_pairs kvs)"

definition canonical_text :: "prims \<Rightarrow> pyval \<Rightarrow> pystr result" where
  "canonical_text P value =
     bind_result (validate_json_value P 0 MAX_JSON_NODES value) (\<lambda>(validated, _).
       Inr (dumps (order_for_jcs validated)))"

definition canonical_json_bytes :: "prims \<Rightarrow> pyval \<Rightarrow> bytes result" where
  "canonical_json_bytes P value =
     bind_result (canonical_text P value) (\<lambda>text.
     bind_result (utf8_encode text) (\<lambda>encoded.
       if int (length encoded) > MAX_CANONICAL_JSON_BYTES
       then Inl (ValueError ''canonical JSON exceeds the BCP-1 hard byte limit'')
       else Inr encoded))"

definition canonical_json :: "prims \<Rightarrow> pyval \<Rightarrow> pystr result" where
  "canonical_json P value = bind_result (canonical_json_bytes P value) utf8_decode"

end
