(* ===== verification/BCP_Json_Parse.thy ===== *)
theory BCP_Json_Parse
  imports BCP_Json
begin

text \<open>
  \<open>parse_canonical_json\<close> of \<^verbatim>\<open>app/models.py\<close> with its hooks \<open>_unique_object\<close>, \<open>_parse_safe_int\<close>,
  \<open>_reject_float\<close> and \<open>_reject_constant\<close>, over a model of the scanner behind Python's
  \<open>json.loads\<close> (strict mode): whitespace, strings with escapes and surrogate pairs, the number
  grammar, literals, arrays and objects.

  The scanner recurses on a counter that starts at twice the length of the input plus two. Every two
  nested calls consume at least one character, so the counter never runs out, and a larger one gives
  the same result (\<open>parser_fuel_enough\<close>). The source makes a \<open>ValueError\<close> of the \<open>RecursionError\<close>
  that Python raises on input nested beyond its stack; such input exceeds \<open>MAX_JSON_DEPTH\<close> and is a
  \<open>ValueError\<close> here too.
\<close>

section \<open>Hooks\<close>

definition parse_safe_int :: "int \<Rightarrow> int result" where
  "parse_safe_int parsed =
     (if \<bar>parsed\<bar> > MAX_SAFE_INTEGER then Inl (ValueError ''JSON integer exceeds the I-JSON safe range'')
      else Inr parsed)"

definition reject_float :: "'a result" where
  "reject_float = Inl (ValueError ''floating-point JSON numbers are forbidden; use a string'')"

definition reject_constant :: "'a result" where
  "reject_constant = Inl (ValueError ''non-finite JSON number is forbidden'')"

fun unique_object :: "prims \<Rightarrow> pystr list \<Rightarrow> (pystr \<times> pyval) list \<Rightarrow> (pystr \<times> pyval) list result" where
  "unique_object P seen [] = Inr []"
| "unique_object P seen ((key, v) # pairs) =
     bind_result (require_nfc P key) (\<lambda>_.
       if p_nfc P key \<in> set seen then Inl (ValueError ''duplicate JSON object key'')
       else bind_result (unique_object P (p_nfc P key # seen) pairs) (\<lambda>rest. Inr ((key, v) # rest)))"

section \<open>Scanner\<close>

definition invalid_json :: "'a result" where
  "invalid_json = Inl (ValueError ''invalid JSON'')"

definition is_ws :: "int \<Rightarrow> bool" where
  "is_ws c \<longleftrightarrow> c = 32 \<or> c = 9 \<or> c = 10 \<or> c = 13"

definition skip_ws :: "pystr \<Rightarrow> pystr" where
  "skip_ws s = dropWhile is_ws s"

definition is_digit :: "int \<Rightarrow> bool" where
  "is_digit c \<longleftrightarrow> 48 \<le> c \<and> c \<le> 57"

definition hex_value :: "int \<Rightarrow> int option" where
  "hex_value c =
     (if is_digit c then Some (c - 48)
      else if 97 \<le> c \<and> c \<le> 102 then Some (c - 87)
      else if 65 \<le> c \<and> c \<le> 70 then Some (c - 55)
      else None)"

fun hex4 :: "pystr \<Rightarrow> (int \<times> pystr) option" where
  "hex4 (a # b # c # d # rest) =
     (case (hex_value a, hex_value b, hex_value c, hex_value d) of
        (Some w, Some x, Some y, Some z) \<Rightarrow> Some (((w * 16 + x) * 16 + y) * 16 + z, rest)
      | _ \<Rightarrow> None)"
| "hex4 _ = None"

lemma hex4_shorter: "hex4 s = Some (u, rest) \<Longrightarrow> length rest < length s"
  by (induction s rule: hex4.induct) (auto split: option.splits)

definition unescape :: "int \<Rightarrow> int option" where
  "unescape e =
     (if e = 34 then Some 34 else if e = 92 then Some 92 else if e = 47 then Some 47
      else if e = 98 then Some 8 else if e = 102 then Some 12 else if e = 110 then Some 10
      else if e = 114 then Some 13 else if e = 116 then Some 9 else None)"

definition push_char :: "int \<Rightarrow> (pystr \<times> pystr) result \<Rightarrow> (pystr \<times> pystr) result" where
  "push_char c r = bind_result r (\<lambda>(s, rest). Inr (c # s, rest))"

definition low_surrogate_escape :: "pystr \<Rightarrow> (int \<times> pystr) option" where
  "low_surrogate_escape s =
     (if take 2 s = [92, 117] then
        (case hex4 (drop 2 s) of
           Some (u, rest) \<Rightarrow> if 56320 \<le> u \<and> u \<le> 57343 then Some (u, rest) else None
         | None \<Rightarrow> None)
      else None)"

lemma low_surrogate_escape_shorter:
  "low_surrogate_escape s = Some (u, rest) \<Longrightarrow> length rest < length s"
  by (auto simp: low_surrogate_escape_def split: option.splits if_splits dest!: hex4_shorter)

text \<open>\<open>scan_string\<close> starts after the opening quote.\<close>

function scan_string :: "pystr \<Rightarrow> (pystr \<times> pystr) result" where
  "scan_string [] = invalid_json"
| "scan_string (c # cs) =
     (if c = 34 then Inr ([], cs)
      else if c = 92 then
        (case cs of
           [] \<Rightarrow> invalid_json
         | e # cs1 \<Rightarrow>
             if e = 117 then
               (case hex4 cs1 of
                  None \<Rightarrow> invalid_json
                | Some (u, cs2) \<Rightarrow>
                    (case (if 55296 \<le> u \<and> u \<le> 56319 then low_surrogate_escape cs2 else None) of
                       Some (u2, cs3) \<Rightarrow>
                         push_char (65536 + (u - 55296) * 1024 + (u2 - 56320)) (scan_string cs3)
                     | None \<Rightarrow> push_char u (scan_string cs2)))
             else (case unescape e of
                     None \<Rightarrow> invalid_json
                   | Some x \<Rightarrow> push_char x (scan_string cs1)))
      else if c < 32 then invalid_json
      else push_char c (scan_string cs))"
  by pat_completeness auto
termination
  by (relation "measure length")
    (auto dest!: hex4_shorter low_surrogate_escape_shorter split: if_splits)

definition digits_value :: "pystr \<Rightarrow> int" where
  "digits_value ds = foldl (\<lambda>a d. 10 * a + (d - 48)) 0 ds"

definition has_fraction :: "pystr \<Rightarrow> bool" where
  "has_fraction s \<longleftrightarrow> (case s of p # d # _ \<Rightarrow> p = 46 \<and> is_digit d | _ \<Rightarrow> False)"

definition has_exponent :: "pystr \<Rightarrow> bool" where
  "has_exponent s \<longleftrightarrow>
     (case s of
        e # d # rest \<Rightarrow>
          (e = 101 \<or> e = 69) \<and>
          (is_digit d \<or> ((d = 43 \<or> d = 45) \<and> (case rest of x # _ \<Rightarrow> is_digit x | [] \<Rightarrow> False)))
      | _ \<Rightarrow> False)"

definition integer_digits :: "pystr \<Rightarrow> pystr" where
  "integer_digits s =
     (case s of [] \<Rightarrow> [] | d # _ \<Rightarrow> if d = 48 then [d] else takeWhile is_digit s)"

definition scan_number :: "pystr \<Rightarrow> (pyval \<times> pystr) result" where
  "scan_number s =
     (let negative = (case s of c # _ \<Rightarrow> c = 45 | [] \<Rightarrow> False);
          s1 = (if negative then tl s else s);
          digits = integer_digits s1;
          rest = drop (length digits) s1
      in if digits = [] then invalid_json
         else if has_fraction rest \<or> has_exponent rest then reject_float
         else bind_result (parse_safe_int (if negative then - digits_value digits else digits_value digits))
                (\<lambda>i. Inr (PInt i, rest)))"

definition starts_with :: "pystr \<Rightarrow> pystr \<Rightarrow> bool" where
  "starts_with p s \<longleftrightarrow> take (length p) s = p"

fun parse_value :: "prims \<Rightarrow> nat \<Rightarrow> pystr \<Rightarrow> (pyval \<times> pystr) result"
  and parse_items :: "prims \<Rightarrow> nat \<Rightarrow> pystr \<Rightarrow> (pyval list \<times> pystr) result"
  and parse_members :: "prims \<Rightarrow> nat \<Rightarrow> pystr \<Rightarrow> ((pystr \<times> pyval) list \<times> pystr) result"
where
  "parse_value P 0 s = invalid_json"
| "parse_value P (Suc n) s =
     (case s of
        [] \<Rightarrow> invalid_json
      | c # cs \<Rightarrow>
          if c = 34 then bind_result (scan_string cs) (\<lambda>(t, rest). Inr (PStr t, rest))
          else if c = 123 then
            (case skip_ws cs of
               [] \<Rightarrow> invalid_json
             | d # ds \<Rightarrow>
                 if d = 125 then Inr (PMap [], ds)
                 else if d = 34 then
                   bind_result (parse_members P n ds) (\<lambda>(pairs, rest).
                   bind_result (unique_object P [] pairs) (\<lambda>obj.
                     Inr (PMap (map (\<lambda>(k, v). (KStr k, v)) obj), rest)))
                 else invalid_json)
          else if c = 91 then
            (case skip_ws cs of
               [] \<Rightarrow> invalid_json
             | d # ds \<Rightarrow>
                 if d = 93 then Inr (PSeq [], ds)
                 else bind_result (parse_items P n (d # ds)) (\<lambda>(vs, rest). Inr (PSeq vs, rest)))
          else if starts_with (lit ''null'') s then Inr (PNone, drop 4 s)
          else if starts_with (lit ''true'') s then Inr (PBool True, drop 4 s)
          else if starts_with (lit ''false'') s then Inr (PBool False, drop 5 s)
          else if starts_with (lit ''NaN'') s \<or> starts_with (lit ''Infinity'') s \<or>
                  starts_with (lit ''-Infinity'') s then reject_constant
          else scan_number s)"
| "parse_items P 0 s = invalid_json"
| "parse_items P (Suc n) s =
     bind_result (parse_value P n s) (\<lambda>(v, rest).
       case skip_ws rest of
         [] \<Rightarrow> invalid_json
       | d # ds \<Rightarrow>
           if d = 93 then Inr ([v], ds)
           else if d = 44 then
             bind_result (parse_items P n (skip_ws ds)) (\<lambda>(vs, rest'). Inr (v # vs, rest'))
           else invalid_json)"
| "parse_members P 0 s = invalid_json"
| "parse_members P (Suc n) s =
     bind_result (scan_string s) (\<lambda>(key, rest).
       case skip_ws rest of
         [] \<Rightarrow> invalid_json
       | d # ds \<Rightarrow>
           if d \<noteq> 58 then invalid_json
           else bind_result (parse_value P n (skip_ws ds)) (\<lambda>(v, rest1).
             case skip_ws rest1 of
               [] \<Rightarrow> invalid_json
             | x # xs \<Rightarrow>
                 if x = 125 then Inr ([(key, v)], xs)
                 else if x = 44 then
                   (case skip_ws xs of
                      [] \<Rightarrow> invalid_json
                    | y # ys \<Rightarrow>
                        if y = 34 then
                          bind_result (parse_members P n ys) (\<lambda>(kvs, rest2). Inr ((key, v) # kvs, rest2))
                        else invalid_json)
                 else invalid_json))"

definition json_loads :: "prims \<Rightarrow> pystr \<Rightarrow> pyval result" where
  "json_loads P s =
     bind_result (parse_value P (2 * length s + 2) (skip_ws s)) (\<lambda>(v, rest).
       if skip_ws rest \<noteq> [] then invalid_json else Inr v)"

section \<open>The strict parser\<close>

datatype json_input = InStr pystr | InBytes bytes

definition input_text :: "json_input \<Rightarrow> pystr result" where
  "input_text value =
     (case value of
        InStr s \<Rightarrow> Inr s
      | InBytes b \<Rightarrow> (case utf8_decode b of Inl _ \<Rightarrow> Inl (ValueError ''invalid UTF-8 JSON'') | Inr s \<Rightarrow> Inr s))"

definition parse_canonical_json :: "prims \<Rightarrow> json_input \<Rightarrow> json result" where
  "parse_canonical_json P value =
     bind_result (input_text value) (\<lambda>text.
       if starts_with [65279] text then Inl (ValueError ''UTF-8 BOM is forbidden'')
       else bind_result (utf8_encode text) (\<lambda>encoded.
         if int (length encoded) > MAX_CANONICAL_JSON_BYTES
         then Inl (ValueError ''JSON input exceeds the BCP-1 hard byte limit'')
         else bind_result (json_loads P text) (\<lambda>parsed.
           bind_result (validate_json_value P 0 MAX_JSON_NODES parsed) (\<lambda>(j, _). Inr j))))"

text \<open>\<open>canonicalize_json_text\<close> returns its argument or raises.\<close>

definition canonicalize_json_text :: "prims \<Rightarrow> pystr \<Rightarrow> pystr result" where
  "canonicalize_json_text P value =
     bind_result (require_nfc P value) (\<lambda>_.
     bind_result (parse_canonical_json P (InStr value)) (\<lambda>parsed.
     bind_result (canonical_json P (py_of_json parsed)) (\<lambda>canonical.
       if canonical \<noteq> value
       then Inl (ValueError ''JSON text is valid but is not in canonical BCP-1 form'')
       else Inr value)))"

section \<open>The counter is enough\<close>

lemma skip_ws_length: "length (skip_ws s) \<le> length s"
  by (simp add: skip_ws_def length_dropWhile_le)

lemma skip_ws_Cons_length: "skip_ws s = c # cs \<Longrightarrow> length cs < length s"
  using skip_ws_length [of s] by simp

lemma push_char_Inr: "push_char c r = Inr (t, rest) \<longleftrightarrow> (\<exists>t'. r = Inr (t', rest) \<and> t = c # t')"
  by (auto simp: push_char_def)

lemma scan_string_step:
  assumes "scan_string (c # cs) = Inr (t, rest)"
  shows "rest = cs \<or> (\<exists>u t'. length u \<le> length cs \<and> scan_string u = Inr (t', rest))"
proof (cases "c = 34 \<or> c \<noteq> 92")
  case True
  with assms show ?thesis by (auto simp: push_char_Inr invalid_json_def split: if_splits)
next
  case False
  then obtain e cs1 where cs: "cs = e # cs1" using assms by (cases cs) (auto simp: invalid_json_def)
  show ?thesis
  proof (cases "e = 117")
    case True
    then obtain u cs2 where h: "hex4 cs1 = Some (u, cs2)" using assms False cs by (cases "hex4 cs1") (auto simp: invalid_json_def)
    obtain v t' where "length v \<le> length cs2" "scan_string v = Inr (t', rest)"
      using assms False cs True h low_surrogate_escape_shorter [THEN less_imp_le, of cs2]
      by (auto simp: push_char_Inr split: option.splits if_splits)
    with hex4_shorter [OF h] show ?thesis by (auto simp: cs)
  next
    case False
    with \<open>\<not> (c = 34 \<or> c \<noteq> 92)\<close> assms show ?thesis by (auto simp: cs push_char_Inr invalid_json_def split: option.splits)
  qed
qed

lemma scan_string_length: "scan_string s = Inr (t, rest) \<Longrightarrow> length rest \<le> length s"
proof (induction s arbitrary: t rest rule: length_induct)
  case (1 s)
  show ?case
  proof (cases s)
    case (Cons c cs)
    from scan_string_step [OF 1(2) [unfolded Cons]] show ?thesis
    proof (elim disjE exE conjE)
      fix u t' assume u: "length u \<le> length cs" "scan_string u = Inr (t', rest)"
      with 1(1) Cons have "length rest \<le> length u" by simp
      with u(1) Cons show ?thesis by simp
    qed (simp add: Cons)
  qed (use 1(2) in \<open>simp add: invalid_json_def\<close>)
qed

lemma scan_number_length: "scan_number s = Inr (v, rest) \<Longrightarrow> length rest \<le> length s"
  by (auto simp: scan_number_def Let_def invalid_json_def reject_float_def split: if_splits)

lemma parse_length:
  "parse_value P n s = Inr (v, rest) \<Longrightarrow> length rest \<le> length s"
  "parse_items P n s = Inr (vs, rest) \<Longrightarrow> length rest \<le> length s"
  "parse_members P n s = Inr (kvs, rest) \<Longrightarrow> length rest \<le> length s"
proof (induction n arbitrary: s v rest vs kvs)
  case (Suc n)
  {
    case 1
    then obtain c cs where s: "s = c # cs" by (cases s) (auto simp: invalid_json_def)
    show ?case
    proof (cases "c = 123 \<or> c = 91")
      case True
      with 1 s obtain d ds where w: "skip_ws cs = d # ds" by (cases "skip_ws cs") (auto simp: invalid_json_def split: if_splits)
      note l = skip_ws_Cons_length [OF w]
      have m: "length r \<le> length ds" if "parse_members P n ds = Inr (kvs, r)" for kvs r using Suc.IH(3) [OF that] .
      have i: "length r \<le> Suc (length ds)" if "parse_items P n (d # ds) = Inr (vs, r)" for vs r using Suc.IH(2) [OF that] by simp
      from True 1 w s l show ?thesis by (auto simp: invalid_json_def dest!: m i split: if_splits)
    next
      case False
      with 1 s show ?thesis
        by (auto simp: reject_constant_def dest!: scan_string_length scan_number_length split: if_splits)
    qed
  next
    case 2
    then obtain x r where x: "parse_value P n s = Inr (x, r)" by (auto split: prod.splits)
    with 2 obtain d ds where w: "skip_ws r = d # ds" by (cases "skip_ws r") (auto simp: invalid_json_def)
    have i: "length r' \<le> length (skip_ws ds)" if "parse_items P n (skip_ws ds) = Inr (vs', r')" for vs' r' using Suc.IH(2) [OF that] .
    from 2 x w Suc.IH(1) [OF x] skip_ws_Cons_length [OF w] skip_ws_length [of ds] show ?case
      by (auto simp: invalid_json_def dest!: i split: if_splits)
  next
    case 3
    then obtain k r where k: "scan_string s = Inr (k, r)" by (auto split: prod.splits)
    with 3 obtain d ds where w: "skip_ws r = d # ds" by (cases "skip_ws r") (auto simp: invalid_json_def)
    with 3 k obtain x r1 where x: "parse_value P n (skip_ws ds) = Inr (x, r1)" by (auto simp: invalid_json_def split: if_splits)
    with 3 k w obtain y ys where w1: "skip_ws r1 = y # ys" by (cases "skip_ws r1") (auto simp: invalid_json_def split: if_splits)
    have m: "length r' \<le> length ys'" if "parse_members P n ys' = Inr (kvs', r')" for kvs' r' ys' using Suc.IH(3) [OF that] .
    have ys: "length ys < length s"
      using scan_string_length [OF k] skip_ws_Cons_length [OF w] skip_ws_length [of ds] Suc.IH(1) [OF x] skip_ws_Cons_length [OF w1] by simp
    from 3 k w x w1 ys show ?case
      by (auto simp: invalid_json_def dest!: m skip_ws_Cons_length split: if_splits list.splits)
  }
qed (simp_all add: invalid_json_def)

lemma fuel_Suc:
  "2 * length s + 1 \<le> n \<Longrightarrow> parse_value P (Suc n) s = parse_value P n s"
  "2 * length s + 2 \<le> n \<Longrightarrow> parse_items P (Suc n) s = parse_items P n s"
  "2 * length s + 2 \<le> n \<Longrightarrow> parse_members P (Suc n) s = parse_members P n s"
proof (induction n arbitrary: s)
  case (Suc n)
  {
    case 1
    show ?case
    proof (cases s)
      case (Cons c cs)
      show ?thesis
      proof (cases "skip_ws cs")
        case Nil
        then show ?thesis by (simp add: Cons)
      next
        case (Cons d ds)
        have "2 * length ds + 2 \<le> n" "2 * length (d # ds) + 2 \<le> n"
          using 1 skip_ws_Cons_length [OF Cons] by (simp_all add: \<open>s = c # cs\<close>)
        from Suc.IH(3) [OF this(1)] Suc.IH(2) [OF this(2)] show ?thesis
          by (simp only: \<open>s = c # cs\<close> Cons parse_value.simps(2) list.case)
      qed
    qed simp
  next
    case 2
    have v: "parse_value P (Suc n) s = parse_value P n s" using 2 by (intro Suc.IH(1)) simp
    show ?case
    proof (cases "parse_value P n s")
      case (Inr p)
      then obtain x r where x: "parse_value P n s = Inr (x, r)" by (cases p) auto
      have "parse_items P (Suc n) (skip_ws ds) = parse_items P n (skip_ws ds)" if "skip_ws r = d # ds" for d ds
        using 2 parse_length(1) [OF x] skip_ws_Cons_length [OF that] skip_ws_length [of ds] by (intro Suc.IH(2)) simp
      then show ?thesis by (simp only: parse_items.simps(2) v x bind_result.simps prod.case cong: list.case_cong)
    qed (simp only: parse_items.simps(2) v bind_result.simps)
  next
    case 3
    show ?case
    proof (cases "scan_string s")
      case (Inr p)
      then obtain k r where k: "scan_string s = Inr (k, r)" by (cases p) auto
      have v: "parse_value P (Suc n) (skip_ws ds) = parse_value P n (skip_ws ds)" if "skip_ws r = d # ds" for d ds
        using 3 scan_string_length [OF k] skip_ws_Cons_length [OF that] skip_ws_length [of ds] by (intro Suc.IH(1)) simp
      have m: "parse_members P (Suc n) zs = parse_members P n zs"
        if "skip_ws r = d # ds" "parse_value P n (skip_ws ds) = Inr (x, r1)" "skip_ws r1 = y # ys" "skip_ws ys = z # zs" for d ds x r1 y ys z zs
        using 3 scan_string_length [OF k] skip_ws_Cons_length [OF that(1)] skip_ws_length [of ds] parse_length(1) [OF that(2)]
          skip_ws_Cons_length [OF that(3)] skip_ws_Cons_length [OF that(4)] by (intro Suc.IH(3)) simp
      show ?thesis
      proof (cases "skip_ws r")
        case (Cons d ds)
        show ?thesis
        proof (cases "parse_value P n (skip_ws ds)")
          case (Inr q)
          then obtain x r1 where x: "parse_value P n (skip_ws ds) = Inr (x, r1)" by (cases q) auto
          show ?thesis using m [OF Cons x]
            by (simp only: parse_members.simps(2) k Cons v [OF Cons] x bind_result.simps prod.case list.case cong: list.case_cong)
        qed (simp only: parse_members.simps(2) k Cons v [OF Cons] bind_result.simps prod.case list.case)
      qed (simp only: parse_members.simps(2) k bind_result.simps prod.case list.case)
    qed (simp only: parse_members.simps(2) bind_result.simps)
  }
qed simp_all

text \<open>
  The counter is large enough: \<open>json_loads\<close> gives the same result, an error or a value, for every larger counter.
\<close>

lemma parser_fuel_enough:
  "json_loads P s = bind_result (parse_value P (2 * length s + 2 + n) (skip_ws s)) (\<lambda>(v, rest).
     if skip_ws rest \<noteq> [] then invalid_json else Inr v)"
proof -
  have "parse_value P (2 * length s + 2 + n) (skip_ws s) = parse_value P (2 * length s + 2) (skip_ws s)"
  proof (induction n)
    case (Suc n)
    have "2 * length (skip_ws s) + 1 \<le> 2 * length s + 2 + n" using skip_ws_length [of s] by simp
    from fuel_Suc(1) [OF this] Suc show ?case by (simp only: add_Suc_right)
  qed simp
  then show ?thesis by (simp only: json_loads_def)
qed

end
