(* ===== verification/BCP_Json_Canon.thy ===== *)
theory BCP_Json_Canon
  imports BCP_Json
begin

text \<open>
  What the canonicalizer of \<open>BCP_Json\<close> accepts and produces. \<open>validate_sound\<close> and
  \<open>validate_complete\<close> characterize validation: it succeeds exactly on the images of JSON values
  with safe integers, normalized scalar strings and distinct keys that fit the depth and node
  budgets. \<open>json_sim\<close> is equality up to the order in which objects list their members, at every
  level; canonical bytes do not depend on that order.
\<close>

section \<open>What validation accepts\<close>

definition str_ok :: "prims \<Rightarrow> pystr \<Rightarrow> bool" where
  "str_ok P s \<longleftrightarrow> p_nfc P s = s \<and> (\<forall>c\<in>set s. scalar_value c)"

fun json_ok :: "prims \<Rightarrow> json \<Rightarrow> bool" where
  "json_ok P JNull \<longleftrightarrow> True"
| "json_ok P (JBool b) \<longleftrightarrow> True"
| "json_ok P (JInt i) \<longleftrightarrow> \<bar>i\<bar> \<le> MAX_SAFE_INTEGER"
| "json_ok P (JStr s) \<longleftrightarrow> str_ok P s"
| "json_ok P (JArr js) \<longleftrightarrow> (\<forall>j\<in>set js. json_ok P j)"
| "json_ok P (JObj kvs) \<longleftrightarrow>
     distinct (map fst kvs) \<and> (\<forall>(k, v)\<in>set kvs. str_ok P k \<and> json_ok P v)"

fun json_nodes :: "json \<Rightarrow> int" where
  "json_nodes (JArr js) = 1 + sum_list (map json_nodes js)"
| "json_nodes (JObj kvs) = 1 + sum_list (map (\<lambda>(k, v). json_nodes v) kvs)"
| "json_nodes _ = 1"

fun json_fits :: "int \<Rightarrow> json \<Rightarrow> bool" where
  "json_fits d (JArr js) \<longleftrightarrow> d \<le> MAX_JSON_DEPTH \<and> (\<forall>j\<in>set js. json_fits (d + 1) j)"
| "json_fits d (JObj kvs) \<longleftrightarrow> d \<le> MAX_JSON_DEPTH \<and> (\<forall>(k, v)\<in>set kvs. json_fits (d + 1) v)"
| "json_fits d _ \<longleftrightarrow> d \<le> MAX_JSON_DEPTH"

lemma enter_node_Inr [simp]:
  "enter_node d b = Inr b' \<longleftrightarrow> d \<le> MAX_JSON_DEPTH \<and> b' = b - 1 \<and> 0 \<le> b'"
  by (auto simp: enter_node_def)

lemma json_nodes_pos: "1 \<le> json_nodes j"
proof (induction j rule: json_nodes.induct)
  case (1 js)
  then have "0 \<le> sum_list (map json_nodes js)" by (intro sum_list_nonneg) fastforce
  then show ?case by simp
next
  case (2 kvs)
  then have "0 \<le> sum_list (map (\<lambda>(k, v). json_nodes v) kvs)" by (intro sum_list_nonneg) fastforce
  then show ?case by simp
qed auto

lemma sum_nodes_nonneg:
  "0 \<le> sum_list (map json_nodes js)" "0 \<le> sum_list (map (\<lambda>(k, v). json_nodes v) kvs)"
  by (auto intro!: sum_list_nonneg order_trans [OF zero_le_one json_nodes_pos])

lemma validate_sound:
  "validate_json_value P d b v = Inr (j, b') \<Longrightarrow>
     v = py_of_json j \<and> json_ok P j \<and> json_fits d j \<and> b' = b - json_nodes j \<and> 0 \<le> b'"
  "validate_items P d b vs = Inr (js, b') \<Longrightarrow>
     vs = map py_of_json js \<and> (\<forall>j\<in>set js. json_ok P j \<and> json_fits d j) \<and>
     b' = b - sum_list (map json_nodes js) \<and> (js = [] \<or> 0 \<le> b')"
  "validate_pairs P d b seen kvs = Inr (ps, b') \<Longrightarrow>
     kvs = map (\<lambda>(k, v). (KStr k, py_of_json v)) ps \<and>
     (\<forall>(k, v)\<in>set ps. str_ok P k \<and> json_ok P v \<and> json_fits d v \<and> k \<notin> set seen) \<and>
     distinct (map fst ps) \<and>
     b' = b - sum_list (map (\<lambda>(k, v). json_nodes v) ps) \<and> (ps = [] \<or> 0 \<le> b')"
proof (induction P d b v and P d b vs and P d b seen kvs arbitrary: j b' and js b' and ps b'
    rule: validate_json_value_validate_items_validate_pairs.induct)
  case (6 P d b vs)
  then show ?case by (fastforce)
next
  case (7 P d b kvs)
  then show ?case by (fastforce)
next
  case (10 P d b v vs)
  from 10(3) obtain j0 b0 js0 where *: "validate_json_value P d b v = Inr (j0, b0)"
    "validate_items P d b0 vs = Inr (js0, b')" "js = j0 # js0" by auto
  from 10(1)[OF *(1)] 10(2)[OF *(1) refl *(2)] *(3) show ?case by auto
next
  case (12 P d b seen k v kvs)
  show ?case
  proof (cases k)
    case KOther with 12(3) show ?thesis by simp
  next
    case (KStr key)
    with 12(3) obtain j0 b0 ps0 where *: "p_nfc P key = key" "\<forall>c\<in>set key. scalar_value c" "key \<notin> set seen"
      "validate_json_value P d b v = Inr (j0, b0)"
      "validate_pairs P d b0 (key # seen) kvs = Inr (ps0, b')" "ps = (key, j0) # ps0"
      by (auto split: if_splits)
    have "require_nfc P key = Inr key" using * by simp
    from 12(1)[OF KStr this _ *(4)] 12(2)[OF KStr this _ *(4) refl, unfolded *(1), OF _ *(5)] * KStr show ?thesis
      by (auto simp: str_ok_def rev_image_eqI)
  qed
qed (auto simp: str_ok_def split: if_splits)

lemma validate_complete:
  "json_ok P j \<Longrightarrow> json_fits d j \<Longrightarrow> json_nodes j \<le> b \<Longrightarrow>
     validate_json_value P d b (py_of_json j) = Inr (j, b - json_nodes j)"
proof (induction j arbitrary: d b)
  case (JArr js)
  have "(\<forall>j\<in>set ks. json_ok P j \<and> json_fits (d + 1) j) \<Longrightarrow> set ks \<subseteq> set js \<Longrightarrow> sum_list (map json_nodes ks) \<le> c \<Longrightarrow>
     validate_items P (d + 1) c (map py_of_json ks) = Inr (ks, c - sum_list (map json_nodes ks))" for ks c
  proof (induction ks arbitrary: c)
    case (Cons k ks)
    have "0 \<le> sum_list (map json_nodes ks)" by (rule sum_nodes_nonneg)
    with Cons.prems have "json_nodes k \<le> c" "sum_list (map json_nodes ks) \<le> c - json_nodes k" by auto
    with Cons JArr.IH [of k "d + 1" c] show ?case by (simp add: algebra_simps)
  qed simp
  from this [of js "b - 1"] JArr.prems
  have "validate_items P (d + 1) (b - 1) (map py_of_json js) = Inr (js, b - 1 - sum_list (map json_nodes js))"
    by simp
  moreover have "enter_node d b = Inr (b - 1)"
    using JArr.prems sum_nodes_nonneg(1) [of js] by simp
  ultimately show ?case by (simp del: bind_result_eq_Inr enter_node_Inr add: diff_diff_eq)
next
  case (JObj kvs)
  have "(\<forall>(k, v)\<in>set ks. str_ok P k \<and> json_ok P v \<and> json_fits (d + 1) v \<and> k \<notin> set seen) \<Longrightarrow>
      distinct (map fst ks) \<Longrightarrow> set ks \<subseteq> set kvs \<Longrightarrow> sum_list (map (\<lambda>(k, v). json_nodes v) ks) \<le> c \<Longrightarrow>
     validate_pairs P (d + 1) c seen (map (\<lambda>(k, v). (KStr k, py_of_json v)) ks)
       = Inr (ks, c - sum_list (map (\<lambda>(k, v). json_nodes v) ks))" for ks c seen
  proof (induction ks arbitrary: c seen)
    case (Cons kv ks)
    obtain k v where kv: "kv = (k, v)" by fastforce
    have "0 \<le> sum_list (map (\<lambda>(k, v). json_nodes v) ks)" by (rule sum_nodes_nonneg)
    with Cons.prems kv have le: "json_nodes v \<le> c" "sum_list (map (\<lambda>(k, v). json_nodes v) ks) \<le> c - json_nodes v"
      by auto
    have v: "validate_json_value P (d + 1) c (py_of_json v) = Inr (v, c - json_nodes v)"
      using Cons.prems kv le by (intro JObj.IH [of "(k, v)"]) auto
    have "validate_pairs P (d + 1) (c - json_nodes v) (k # seen) (map (\<lambda>(k, v). (KStr k, py_of_json v)) ks)
      = Inr (ks, c - json_nodes v - sum_list (map (\<lambda>(k, v). json_nodes v) ks))"
      using Cons.prems kv le by (intro Cons.IH) (auto simp: rev_image_eqI)
    moreover have "require_nfc P k = Inr k" "p_nfc P k = k" "k \<notin> set seen"
      using Cons.prems kv by (auto simp: str_ok_def)
    ultimately show ?case using v kv by (simp add: algebra_simps)
  qed simp
  from this [of kvs "[]" "b - 1"] JObj.prems
  have "validate_pairs P (d + 1) (b - 1) [] (map (\<lambda>(k, v). (KStr k, py_of_json v)) kvs)
      = Inr (kvs, b - 1 - sum_list (map (\<lambda>(k, v). json_nodes v) kvs))"
    by (auto simp: split_def)
  moreover have "enter_node d b = Inr (b - 1)"
    using JObj.prems sum_nodes_nonneg(2) [of kvs] by simp
  ultimately show ?case by (simp del: bind_result_eq_Inr enter_node_Inr add: diff_diff_eq)
qed (auto simp: str_ok_def)
section \<open>Serialized text\<close>

lemma scalar_valueI: "0 \<le> c \<Longrightarrow> c < 55296 \<Longrightarrow> scalar_value c"
  by (simp add: scalar_value_def surrogate_def)

lemma lit_scalar: "c \<in> set (lit s) \<Longrightarrow> scalar_value c"
proof -
  assume "c \<in> set (lit s)"
  then obtain x where "c = of_char x" by (auto simp: lit_def)
  moreover have "0 \<le> (of_char x :: int)" "(of_char x :: int) < 256"
    by (simp_all add: of_char_def)
  ultimately show ?thesis by (auto intro: scalar_valueI)
qed

lemma dec_digits_range: "c \<in> set (dec_digits n) \<Longrightarrow> 48 \<le> c \<and> c \<le> 57"
proof (induction n rule: dec_digits.induct)
  case (1 n)
  show ?case
  proof (cases "n < 10")
    case True with 1(2) show ?thesis by (auto simp: dec_digits.simps [of n])
  next
    case False with 1 show ?thesis by (auto simp: dec_digits.simps [of n])
  qed
qed

lemma escape_char_scalar: "scalar_value c \<Longrightarrow> x \<in> set (escape_char c) \<Longrightarrow> scalar_value x"
  by (auto simp: escape_char_def hex_digit_def split: if_splits intro!: scalar_valueI)

lemma dumps_str_scalar: "\<forall>c\<in>set s. scalar_value c \<Longrightarrow> x \<in> set (dumps_str s) \<Longrightarrow> scalar_value x"
  by (auto simp: dumps_str_def intro: escape_char_scalar scalar_valueI)

lemma dumps_scalar:
  "json_ok P j \<Longrightarrow> \<forall>c\<in>set (dumps j). scalar_value c"
  "\<forall>j\<in>set js. json_ok P j \<Longrightarrow> \<forall>c\<in>set (dumps_items js). scalar_value c"
  "\<forall>(k, v)\<in>set kvs. str_ok P k \<and> json_ok P v \<Longrightarrow> \<forall>c\<in>set (dumps_pairs kvs). scalar_value c"
proof (induction j and js and kvs rule: dumps_dumps_items_dumps_pairs.induct)
  case (3 i)
  then show ?case
    by (auto simp: int_repr_def dest!: dec_digits_range intro!: scalar_valueI split: if_splits)
next
  case (10 k v kvs)
  then show ?case
    by (auto simp: str_ok_def intro: dumps_str_scalar scalar_valueI)
qed (auto simp: str_ok_def intro: lit_scalar dumps_str_scalar scalar_valueI)

section \<open>Canonicalization ignores the order of members\<close>

inductive json_sim :: "json \<Rightarrow> json \<Rightarrow> bool" where
  sim_null: "json_sim JNull JNull"
| sim_bool: "json_sim (JBool b) (JBool b)"
| sim_int: "json_sim (JInt i) (JInt i)"
| sim_str: "json_sim (JStr s) (JStr s)"
| sim_arr: "list_all2 json_sim js ks \<Longrightarrow> json_sim (JArr js) (JArr ks)"
| sim_obj: "mset kvs = mset lvs \<Longrightarrow>
    list_all2 (\<lambda>p q. fst p = fst q \<and> json_sim (snd p) (snd q)) lvs mvs \<Longrightarrow>
    json_sim (JObj kvs) (JObj mvs)"

lemma sort_key_perm:
  assumes "mset xs = mset ys" "inj_on f (set xs)"
  shows "sort_key f xs = sort_key f ys"
  using assms by (intro sort_key_inj_key_eq) auto

lemma json_keys_inj:
  assumes "json_ok P (JObj kvs)"
  shows "inj_on (\<lambda>(k, v). utf16_be k) (set kvs)"
proof (rule inj_onI, clarify)
  fix k v l w
  assume kv: "(k, v) \<in> set kvs" and lw: "(l, w) \<in> set kvs" and "utf16_be k = utf16_be l"
  then have "k = l" using assms utf16_be_inject [of k l] by (fastforce simp: str_ok_def)
  moreover have "distinct (map fst kvs)" using assms by simp
  ultimately show "k = l \<and> v = w" using kv lw by (auto dest: eq_key_imp_eq_value)
qed

lemma sort_key_list_all2:
  assumes "list_all2 (\<lambda>p q. f p = f q \<and> R p q) xs ys"
  shows "list_all2 (\<lambda>p q. f p = f q \<and> R p q) (sort_key f xs) (sort_key f ys)"
proof -
  have ins: "list_all2 (\<lambda>p q. f p = f q \<and> R p q) (insort_key f x us) (insort_key f y vs)"
    if "list_all2 (\<lambda>p q. f p = f q \<and> R p q) us vs" "f x = f y" "R x y" for x y us vs
    using that by (induction us vs rule: list_all2_induct) auto
  show ?thesis using assms
    by (induction xs ys rule: list_all2_induct) (auto intro: ins)
qed

lemma order_sim:
  "json_sim j k \<Longrightarrow> json_ok P j \<Longrightarrow> order_for_jcs j = order_for_jcs k"
proof (induction rule: json_sim.induct)
  case (sim_arr js ks)
  then have "list_all2 (\<lambda>j k. order_for_jcs j = order_for_jcs k) js ks"
    by (auto simp: list_all2_conv_all_nth)
  then show ?case by (auto simp: list_all2_conv_all_nth intro: nth_equalityI)
next
  case (sim_obj kvs lvs mvs)
  let ?f = "\<lambda>(k :: pystr, v :: json). utf16_be k"
  let ?R = "\<lambda>p q. fst p = fst q \<and> order_for_jcs (snd p) = order_for_jcs (snd q)"
  have "set lvs = set kvs" using sim_obj(1) by (metis set_mset_mset)
  with sim_obj(3) have lvs_ok: "\<forall>(k, v)\<in>set lvs. json_ok P v" by auto
  have "list_all2 (\<lambda>p q. ?f p = ?f q \<and> ?R p q) lvs mvs"
    using sim_obj(2) lvs_ok by (fastforce simp: list_all2_conv_all_nth split_def)
  then have "list_all2 (\<lambda>p q. ?f p = ?f q \<and> ?R p q) (sort_key ?f lvs) (sort_key ?f mvs)"
    by (rule sort_key_list_all2)
  then have "map (\<lambda>(k, v). (k, order_for_jcs v)) (sort_key ?f lvs) = map (\<lambda>(k, v). (k, order_for_jcs v)) (sort_key ?f mvs)"
    by (auto simp: list_all2_conv_all_nth split_def intro!: nth_equalityI)
  moreover have "sort_key ?f kvs = sort_key ?f lvs"
    using sim_obj(1) json_keys_inj [OF sim_obj(3)] by (rule sort_key_perm)
  ultimately show ?case by simp
qed auto

lemma sim_keys: "list_all2 (\<lambda>p q. fst p = fst q \<and> Q p q) lvs mvs \<Longrightarrow> map fst lvs = map fst mvs"
  by (induction rule: list_all2_induct) auto

lemma list_all2_ball:
  "list_all2 (\<lambda>x y. S x y \<and> (P x \<longleftrightarrow> Q y)) xs ys \<Longrightarrow> (\<forall>x\<in>set xs. P x) \<longleftrightarrow> (\<forall>y\<in>set ys. Q y)"
  by (induction rule: list_all2_induct) auto

lemma list_all2_sum:
  "list_all2 (\<lambda>x y. S x y \<and> f x = g y) xs ys \<Longrightarrow> sum_list (map f xs) = sum_list (map g ys)"
  by (induction rule: list_all2_induct) auto

lemma mset_sum_list: "mset xs = mset ys \<Longrightarrow> sum_list (map f xs) = (sum_list (map f ys) :: int)"
  by (metis mset_map sum_mset_sum_list)

lemma sim_invariant:
  "json_sim j k \<Longrightarrow> (json_ok P j \<longleftrightarrow> json_ok P k) \<and> json_nodes j = json_nodes k \<and> (\<forall>d. json_fits d j \<longleftrightarrow> json_fits d k)"
proof (induction rule: json_sim.induct)
  case (sim_arr js ks)
  have "(\<forall>j\<in>set js. json_ok P j) \<longleftrightarrow> (\<forall>k\<in>set ks. json_ok P k)"
    by (rule list_all2_ball [where S = json_sim]) (use sim_arr in \<open>auto elim: list_all2_mono\<close>)
  moreover have "sum_list (map json_nodes js) = sum_list (map json_nodes ks)"
    by (rule list_all2_sum [where S = json_sim]) (use sim_arr in \<open>auto elim: list_all2_mono\<close>)
  moreover have "(\<forall>j\<in>set js. json_fits d j) \<longleftrightarrow> (\<forall>k\<in>set ks. json_fits d k)" for d
    by (rule list_all2_ball [where S = json_sim]) (use sim_arr in \<open>auto elim: list_all2_mono\<close>)
  ultimately show ?case by simp
next
  case (sim_obj kvs lvs mvs)
  have s: "set kvs = set lvs" using sim_obj(1) by (metis set_mset_mset)
  have d: "distinct (map fst kvs) \<longleftrightarrow> distinct (map fst mvs)"
    using sim_obj(1) sim_keys [OF sim_obj(2)] by (metis mset_eq_imp_distinct_iff mset_map)
  have "(\<forall>(k, v)\<in>set lvs. str_ok P k \<and> json_ok P v) \<longleftrightarrow> (\<forall>(k, v)\<in>set mvs. str_ok P k \<and> json_ok P v)"
    by (rule list_all2_ball [where S = "\<lambda>_ _. True"]) (use sim_obj(2) in \<open>auto elim: list_all2_mono\<close>)
  moreover have "sum_list (map (\<lambda>(k, v). json_nodes v) lvs) = sum_list (map (\<lambda>(k, v). json_nodes v) mvs)"
    by (rule list_all2_sum [where S = "\<lambda>_ _. True"]) (use sim_obj(2) in \<open>auto elim: list_all2_mono\<close>)
  moreover have "(\<forall>(k, v)\<in>set lvs. json_fits d v) \<longleftrightarrow> (\<forall>(k, v)\<in>set mvs. json_fits d v)" for d
    by (rule list_all2_ball [where S = "\<lambda>_ _. True"]) (use sim_obj(2) in \<open>auto elim: list_all2_mono\<close>)
  ultimately show ?case using s d mset_sum_list [OF sim_obj(1), of "\<lambda>(k, v). json_nodes v"] by simp
qed auto

section \<open>Canonical bytes and canonical text\<close>

lemma canonical_text_Inr:
  "canonical_text P v = Inr t \<longleftrightarrow>
     (\<exists>j. v = py_of_json j \<and> json_ok P j \<and> json_fits 0 j \<and> json_nodes j \<le> MAX_JSON_NODES \<and>
          t = dumps (order_for_jcs j))"
  (is "?l \<longleftrightarrow> ?r")
proof
  assume ?l
  then obtain j b where "validate_json_value P 0 MAX_JSON_NODES v = Inr (j, b)" "t = dumps (order_for_jcs j)"
    by (auto simp: canonical_text_def)
  with validate_sound(1) [OF this(1)] show ?r by auto
next
  assume ?r
  then show ?l using validate_complete by (auto simp: canonical_text_def simp del: bind_result_eq_Inr)
qed

lemma json_ok_order: "json_ok P j \<Longrightarrow> json_ok P (order_for_jcs j)"
proof (induction j rule: order_for_jcs.induct)
  case (1 kvs)
  let ?s = "sort_key (\<lambda>(k, v). utf16_be k) kvs"
  have "distinct (map fst ?s)"
    using 1(2) by (metis json_ok.simps(6) mset_eq_imp_distinct_iff mset_map mset_sort)
  with 1 show ?case by (auto simp: comp_def split_def)
qed auto

lemma canonical_text_scalar:
  "canonical_text P v = Inr t \<Longrightarrow> \<forall>c\<in>set t. scalar_value c"
  using dumps_scalar(1) json_ok_order by (fastforce simp: canonical_text_Inr)

lemma canonical_json_bytes_Inr:
  "canonical_json_bytes P v = Inr b \<longleftrightarrow>
     (\<exists>t. canonical_text P v = Inr t \<and> b = concat (map utf8_char t) \<and> int (length b) \<le> MAX_CANONICAL_JSON_BYTES)"
  using canonical_text_scalar [of P v]
  by (cases "canonical_text P v") (auto simp: canonical_json_bytes_def utf8_encode_def)

lemma canonical_json_Inr:
  "canonical_json P v = Inr t \<longleftrightarrow>
     canonical_text P v = Inr t \<and> int (length (concat (map utf8_char t))) \<le> MAX_CANONICAL_JSON_BYTES"
proof -
  have "utf8_decode (concat (map utf8_char s)) = Inr s" if "canonical_text P v = Inr s" for s
    using that by (intro utf8_decode_encode canonical_text_scalar)
  then show ?thesis by (auto simp: canonical_json_def canonical_json_bytes_Inr)
qed

lemma py_of_json_inject: "py_of_json j = py_of_json k \<Longrightarrow> j = k"
proof (induction j arbitrary: k)
  case (JArr js)
  then obtain ks where k: "k = JArr ks" "map py_of_json js = map py_of_json ks" by (cases k) auto
  have "js = ks" using k(2) JArr.IH
  proof (induction js arbitrary: ks)
    case (Cons j js) then show ?case by (cases ks) auto
  qed simp
  with k show ?case by simp
next
  case (JObj kvs)
  then obtain lvs where k: "k = JObj lvs"
    "map (\<lambda>(k, v). (KStr k, py_of_json v)) kvs = map (\<lambda>(k, v). (KStr k, py_of_json v)) lvs" by (cases k) auto
  have "kvs = lvs" using k(2) JObj.IH
  proof (induction kvs arbitrary: lvs)
    case (Cons p kvs) then show ?case by (cases lvs) (fastforce split: prod.splits)+
  qed simp
  with k show ?case by simp
qed (case_tac k; simp)+

lemma canonical_bytes_sim:
  assumes "json_sim j k" "canonical_json_bytes P (py_of_json j) = Inr b"
  shows "canonical_json_bytes P (py_of_json k) = Inr b"
proof -
  from assms(2) obtain j' where j': "py_of_json j = py_of_json j'" "json_ok P j'" "json_fits 0 j'"
    "json_nodes j' \<le> MAX_JSON_NODES" "b = concat (map utf8_char (dumps (order_for_jcs j')))"
    "int (length b) \<le> MAX_CANONICAL_JSON_BYTES"
    by (auto simp: canonical_json_bytes_Inr canonical_text_Inr)
  then have "j' = j" using py_of_json_inject by simp
  with j' sim_invariant [OF assms(1), of P] order_sim [OF assms(1), of P] show ?thesis
    by (auto simp: canonical_json_bytes_Inr canonical_text_Inr)
qed
end
