(* ===== verification/BCP_Json_Roundtrip.thy ===== *)
theory BCP_Json_Roundtrip
  imports BCP_Json_Parse BCP_Json_Canon
begin

text \<open>
  The strict parser inverts the serializer: what \<open>json.dumps\<close> writes for a validated value is read
  back by \<open>json.loads\<close> with the BCP-1 hooks as the same value. Hence \<open>parse_canonical_json\<close> inverts
  \<open>canonical_json\<close> up to member order, \<open>canonicalize_json_text\<close> accepts exactly the texts that
  \<open>canonical_json\<close> produces, and two values have the same canonical bytes exactly when they are equal
  up to member order.
\<close>

section \<open>Scanning what the serializer writes\<close>

lemma hex_digit_value: "0 \<le> d \<Longrightarrow> d < 16 \<Longrightarrow> hex_value (hex_digit d) = Some d"
  by (auto simp: hex_value_def hex_digit_def is_digit_def)

lemma scan_escape:
  assumes "scalar_value c"
  shows "scan_string (escape_char c @ rest) = push_char c (scan_string rest)"
proof (cases "c = 34 \<or> c = 92 \<or> c = 8 \<or> c = 12 \<or> c = 10 \<or> c = 13 \<or> c = 9")
  case True
  then show ?thesis by (auto simp: escape_char_def unescape_def)
next
  case False
  show ?thesis
  proof (cases "c < 32")
    case True
    have c: "0 \<le> c" using assms by (simp add: scalar_value_def)
    have "c div 16 * 16 + c mod 16 = c" by simp
    moreover have "0 \<le> c div 16" "c div 16 < 16" "0 \<le> c mod 16" "c mod 16 < 16" using c True by auto
    ultimately have "hex4 (48 # 48 # hex_digit (c div 16) # hex_digit (c mod 16) # rest) = Some (c, rest)"
      by (simp add: hex_digit_value) (simp add: hex_value_def is_digit_def)
    with False True c show ?thesis by (simp add: escape_char_def)
  next
    case f: False
    with False show ?thesis by (simp add: escape_char_def)
  qed
qed

lemma scan_string_dumps:
  "\<forall>c\<in>set s. scalar_value c \<Longrightarrow> scan_string (concat (map escape_char s) @ 34 # rest) = Inr (s, rest)"
  by (induction s) (auto simp: scan_escape push_char_def)

lemma digits_value_append: "digits_value (xs @ [d]) = 10 * digits_value xs + (d - 48)"
  by (simp add: digits_value_def)

lemma digits_value_dec: "digits_value (dec_digits n) = int n"
proof (induction n rule: dec_digits.induct)
  case (1 n)
  show ?case
  proof (cases "n < 10")
    case True then show ?thesis by (simp add: dec_digits.simps [of n] digits_value_def)
  next
    case False
    then have "digits_value (dec_digits n) = 10 * int (n div 10) + int (n mod 10)"
      using 1 by (simp add: dec_digits.simps [of n] digits_value_append)
    then show ?thesis by (simp only: of_nat_mult [symmetric] of_nat_add [symmetric] mult_div_mod_eq)
        (metis mult_div_mod_eq of_nat_add of_nat_mult of_nat_numeral)
  qed
qed

lemma dec_digits_Cons:
  obtains d ds where "dec_digits n = d # ds" "48 \<le> d" "d \<le> 57" "d = 48 \<longrightarrow> n = 0"
proof -
  have "\<exists>d ds. dec_digits n = d # ds \<and> 48 \<le> d \<and> d \<le> 57 \<and> (d = 48 \<longrightarrow> n = 0)"
  proof (induction n rule: dec_digits.induct)
    case (1 n)
    show ?case
    proof (cases "n < 10")
      case True then show ?thesis by (simp add: dec_digits.simps [of n])
    next
      case False
      with 1 obtain d ds where "dec_digits (n div 10) = d # ds" "48 \<le> d" "d \<le> 57" "d = 48 \<longrightarrow> n div 10 = 0"
        by auto
      with False show ?thesis by (auto simp: dec_digits.simps [of n])
    qed
  qed
  with that show ?thesis by blast
qed

definition ends_number :: "pystr \<Rightarrow> bool" where
  "ends_number rest \<longleftrightarrow> rest = [] \<or> (hd rest = 44 \<or> hd rest = 93 \<or> hd rest = 125)"

lemma takeWhile_dec_digits:
  "ends_number rest \<Longrightarrow> takeWhile is_digit (dec_digits n @ rest) = dec_digits n"
proof -
  assume r: "ends_number rest"
  have "\<forall>c\<in>set (dec_digits n). is_digit c" using dec_digits_range by (auto simp: is_digit_def)
  moreover have "takeWhile is_digit rest = []"
    using r by (cases rest) (auto simp: ends_number_def is_digit_def)
  ultimately show ?thesis by (simp add: takeWhile_append2)
qed

lemma dec_digits_0: "dec_digits 0 = [48]"
  by (simp add: dec_digits.simps)

lemma integer_digits_dec:
  assumes "ends_number rest"
  shows "integer_digits (dec_digits n @ rest) = dec_digits n"
proof -
  obtain d ds where d: "dec_digits n = d # ds" "d = 48 \<longrightarrow> n = 0" by (rule dec_digits_Cons [of n])
  show ?thesis
  proof (cases "d = 48")
    case True with d show ?thesis by (simp add: integer_digits_def dec_digits_0)
  next
    case False with d takeWhile_dec_digits [OF assms, of n] show ?thesis by (simp add: integer_digits_def)
  qed
qed

lemma ends_number_plain: "ends_number rest \<Longrightarrow> \<not> has_fraction rest \<and> \<not> has_exponent rest"
  by (auto simp: ends_number_def has_fraction_def has_exponent_def split: list.splits)

lemma scan_number_int_repr:
  assumes "ends_number rest" "\<bar>i\<bar> \<le> MAX_SAFE_INTEGER"
  shows "scan_number (int_repr i @ rest) = Inr (PInt i, rest)"
proof -
  define n where "n = nat \<bar>i\<bar>"
  obtain d ds where d: "dec_digits n = d # ds" "48 \<le> d" by (rule dec_digits_Cons)
  have minus: "(case dec_digits n @ rest of [] \<Rightarrow> False | c # _ \<Rightarrow> c = 45) = False" using d by simp
  have repr: "int_repr i = (if i < 0 then 45 # dec_digits n else dec_digits n)"
    by (simp add: int_repr_def n_def)
  have val: "(if i < 0 then - digits_value (dec_digits n) else digits_value (dec_digits n)) = i"
    by (simp add: digits_value_dec n_def)
  have "dec_digits n \<noteq> []" using d by simp
  with minus val integer_digits_dec [OF assms(1), of n] ends_number_plain [OF assms(1)]
  have "scan_number (int_repr i @ rest) = bind_result (parse_safe_int i) (\<lambda>i. Inr (PInt i, rest))"
    by (cases "i < 0") (simp_all add: scan_number_def Let_def repr del: bind_result_eq_Inr)
  then show ?thesis using assms(2) by (simp add: parse_safe_int_def)
qed

section \<open>Parsing inverts serialization\<close>

lemma skip_ws_Cons: "\<not> is_ws c \<Longrightarrow> skip_ws (c # cs) = c # cs"
  by (simp add: skip_ws_def)

lemma dumps_first:
  obtains c cs where "dumps j = c # cs" "\<not> is_ws c" "c \<noteq> 93" "c < 128"
proof (cases j)
  case (JInt i)
  obtain d ds where d: "dec_digits (nat \<bar>i\<bar>) = d # ds" "48 \<le> d" "d \<le> 57" by (rule dec_digits_Cons)
  show ?thesis
  proof (cases "i < 0")
    case True with JInt that [of 45] show ?thesis by (simp add: int_repr_def is_ws_def)
  next
    case False with JInt d that [of d ds] show ?thesis by (simp add: int_repr_def is_ws_def)
  qed
next
  case (JBool b) with that show ?thesis by (cases b) (auto simp: lit_def is_ws_def)
qed (use that in \<open>auto simp: lit_def is_ws_def dumps_str_def\<close>)

lemma dumps_pairs_first: "kvs \<noteq> [] \<Longrightarrow> \<exists>cs. dumps_pairs kvs = 34 # cs"
  by (cases kvs) (auto simp: dumps_str_def)

lemma unique_object_id:
  "\<forall>(k, v)\<in>set ps. str_ok P k \<and> k \<notin> set seen \<Longrightarrow> distinct (map fst ps) \<Longrightarrow> unique_object P seen ps = Inr ps"
proof (induction ps arbitrary: seen)
  case (Cons p ps)
  obtain k v where p: "p = (k, v)" by fastforce
  have "unique_object P (k # seen) ps = Inr ps"
    using Cons.prems p by (intro Cons.IH) (auto simp: rev_image_eqI)
  moreover have "require_nfc P k = Inr k" "p_nfc P k = k" "k \<notin> set seen"
    using Cons.prems p by (auto simp: str_ok_def)
  ultimately show ?case using p by simp
qed simp

lemma parse_int_token:
  assumes "ends_number rest" "\<bar>i\<bar> \<le> MAX_SAFE_INTEGER"
  shows "parse_value P (Suc n) (int_repr i @ rest) = Inr (PInt i, rest)"
proof -
  obtain d ds where d: "dec_digits (nat \<bar>i\<bar>) = d # ds" "48 \<le> d" "d \<le> 57" by (rule dec_digits_Cons)
  show ?thesis
  proof (cases "i < 0")
    case True
    then have r: "int_repr i @ rest = 45 # d # ds @ rest" using d by (simp add: int_repr_def)
    with d scan_number_int_repr [OF assms] show ?thesis
      by (simp add: starts_with_def lit_def)
  next
    case False
    then have r: "int_repr i @ rest = d # ds @ rest" using d by (simp add: int_repr_def)
    with d scan_number_int_repr [OF assms] show ?thesis
      by (simp add: starts_with_def lit_def)
  qed
qed

lemma parse_dumps:
  "json_ok P j \<Longrightarrow> ends_number rest \<Longrightarrow> length (dumps j) < n \<Longrightarrow>
     parse_value P n (dumps j @ rest) = Inr (py_of_json j, rest)"
  "\<forall>j\<in>set js. json_ok P j \<Longrightarrow> js \<noteq> [] \<Longrightarrow> Suc (length (dumps_items js)) < n \<Longrightarrow>
     parse_items P n (dumps_items js @ 93 # rest) = Inr (map py_of_json js, rest)"
  "\<forall>(k, v)\<in>set kvs. str_ok P k \<and> json_ok P v \<Longrightarrow> kvs \<noteq> [] \<Longrightarrow> Suc (length (dumps_pairs kvs)) < n \<Longrightarrow>
     parse_members P n (tl (dumps_pairs kvs) @ 125 # rest) = Inr (map (\<lambda>(k, v). (k, py_of_json v)) kvs, rest)"
proof (induction j and js and kvs arbitrary: n rest and n rest and n rest
    rule: dumps_dumps_items_dumps_pairs.induct)
  case 1
  then obtain m where "n = Suc m" by (cases n) auto
  then show ?case by (simp add: lit_def starts_with_def)
next
  case (2 b)
  then obtain m where "n = Suc m" by (cases n) auto
  then show ?case by (cases b) (simp_all add: lit_def starts_with_def)
next
  case (3 i)
  then obtain m where "n = Suc m" by (cases n) auto
  with 3 show ?case using parse_int_token [of rest i P m] by simp
next
  case (4 s)
  then obtain m where "n = Suc m" by (cases n) auto
  with 4 scan_string_dumps [of s rest] show ?case by (simp add: dumps_str_def str_ok_def)
next
  case (5 js)
  then obtain m where n: "n = Suc m" by (cases n) auto
  show ?case
  proof (cases js)
    case Nil with n show ?thesis by (simp add: skip_ws_def is_ws_def)
  next
    case (Cons j0 js0)
    obtain c cs where c: "dumps j0 = c # cs" "\<not> is_ws c" "c \<noteq> 93" by (rule dumps_first)
    with Cons obtain ds where ds: "dumps_items js = c # ds" by simp
    have "parse_items P m (dumps_items js @ 93 # rest) = Inr (map py_of_json js, rest)"
      using 5 n Cons by (intro 5(1)) auto
    with n ds c skip_ws_Cons [of c] show ?thesis by simp
  qed
next
  case (6 kvs)
  then obtain m where n: "n = Suc m" by (cases n) auto
  show ?case
  proof (cases "kvs = []")
    case True with n show ?thesis by (simp add: skip_ws_def is_ws_def)
  next
    case False
    then obtain cs where cs: "dumps_pairs kvs = 34 # cs" using dumps_pairs_first by blast
    have "parse_members P m (tl (dumps_pairs kvs) @ 125 # rest) = Inr (map (\<lambda>(k, v). (k, py_of_json v)) kvs, rest)"
      using 6 n False by (intro 6(1)) auto
    then have pm: "parse_members P m (cs @ 125 # rest) = Inr (map (\<lambda>(k, v). (k, py_of_json v)) kvs, rest)"
      using cs by simp
    have "unique_object P [] (map (\<lambda>(k, v). (k, py_of_json v)) kvs) = Inr (map (\<lambda>(k, v). (k, py_of_json v)) kvs)"
      using 6(2) by (intro unique_object_id) (auto simp: comp_def split_def)
    with n cs pm show ?thesis by (simp add: skip_ws_Cons is_ws_def comp_def split_def)
  qed
next
  case 7
  then show ?case by simp
next
  case (8 j js)
  then obtain m where n: "n = Suc m" by (cases n) auto
  show ?case
  proof (cases "js = []")
    case True
    have "parse_value P m (dumps j @ 93 # rest) = Inr (py_of_json j, 93 # rest)"
      using 8 n True by (intro 8(1)) (auto simp: ends_number_def)
    with n True show ?thesis by (simp add: skip_ws_def is_ws_def)
  next
    case False
    then obtain j1 js1 where js: "js = j1 # js1" by (cases js) auto
    obtain c cs where c: "dumps j1 = c # cs" "\<not> is_ws c" "c \<noteq> 93" by (rule dumps_first)
    with js obtain ds where ds: "dumps_items js = c # ds" by simp
    obtain c0 cs0 where c0: "dumps j = c0 # cs0" by (rule dumps_first)
    have "parse_value P m (dumps j @ 44 # dumps_items js @ 93 # rest)
        = Inr (py_of_json j, 44 # dumps_items js @ 93 # rest)"
      using 8 n False by (intro 8(1)) (auto simp: ends_number_def)
    moreover have "parse_items P m (dumps_items js @ 93 # rest) = Inr (map py_of_json js, rest)"
      using 8(3-5) n False c0 by (intro 8(2)) auto
    ultimately show ?thesis using n False ds c by (simp add: skip_ws_Cons is_ws_def)
  qed
next
  case 9
  then show ?case by simp
next
  case (10 k v kvs)
  then obtain m where n: "n = Suc m" by (cases n) auto
  have k: "scan_string (concat (map escape_char k) @ 34 # r) = Inr (k, r)" for r
    using 10(3) by (intro scan_string_dumps) (auto simp: str_ok_def)
  obtain c cs where c: "dumps v = c # cs" "\<not> is_ws c" by (rule dumps_first)
  have v: "parse_value P m (dumps v @ r) = Inr (py_of_json v, r)" if "ends_number r" for r
    using 10(3,5) n that by (intro 10(1)) (auto simp: dumps_str_def)
  have v': "parse_value P m (c # cs @ r) = Inr (py_of_json v, r)" if "ends_number r" for r
    using v [OF that] c by simp
  show ?case
  proof (cases "kvs = []")
    case True
    with n k c v' [of "125 # rest"] show ?thesis
      by (simp add: dumps_str_def skip_ws_Cons is_ws_def ends_number_def)
  next
    case False
    then obtain ds where ds: "dumps_pairs kvs = 34 # ds" using dumps_pairs_first by blast
    have "parse_members P m (tl (dumps_pairs kvs) @ 125 # rest) = Inr (map (\<lambda>(k, v). (k, py_of_json v)) kvs, rest)"
      using 10(3,5) n False c by (intro 10(2)) (auto simp: dumps_str_def)
    with ds have "parse_members P m (ds @ 125 # rest) = Inr (map (\<lambda>(k, v). (k, py_of_json v)) kvs, rest)"
      by simp
    with n k c ds False v' [of "44 # 34 # ds @ 125 # rest"] show ?thesis
      by (simp add: dumps_str_def skip_ws_Cons is_ws_def ends_number_def)
  qed
qed


section \<open>The canonical form is read back\<close>

lemma order_eq_sim: "order_for_jcs j = order_for_jcs k \<Longrightarrow> json_sim j k"
proof (induction j arbitrary: k)
  case (JArr js)
  from JArr.prems obtain ks where k: "k = JArr ks" "map order_for_jcs js = map order_for_jcs ks" by (cases k) auto
  then have len: "length js = length ks" by (metis map_eq_imp_length_eq)
  have "list_all2 json_sim js ks"
    unfolding list_all2_conv_all_nth using JArr.IH len k(2) by (metis nth_map nth_mem)
  with k show ?case by (simp add: sim_arr)
next
  case (JObj kvs)
  let ?f = "\<lambda>(k :: pystr, v :: json). utf16_be k"
  let ?R = "\<lambda>p q. fst p = fst q \<and> json_sim (snd p) (snd q)"
  from JObj.prems obtain lvs where k: "k = JObj lvs" by (cases k) auto
  have m: "map (\<lambda>(k, v). (k, order_for_jcs v)) (sort_key ?f kvs) = map (\<lambda>(k, v). (k, order_for_jcs v)) (sort_key ?f lvs)"
    using JObj.prems k by simp
  have IH: "order_for_jcs (snd p) = order_for_jcs w \<Longrightarrow> json_sim (snd p) w" if "p \<in> set (sort_key ?f kvs)" for p w
    using JObj.IH [of p "snd p" w] that by (cases p) (auto simp: snds.intros)
  have "list_all2 ?R (sort_key ?f kvs) (sort_key ?f lvs)"
    unfolding list_all2_conv_all_nth
  proof (intro conjI allI impI)
    show len: "length (sort_key ?f kvs) = length (sort_key ?f lvs)" using m by (rule map_eq_imp_length_eq)
    fix i assume i: "i < length (sort_key ?f kvs)"
    define p q where "p = sort_key ?f kvs ! i" and "q = sort_key ?f lvs ! i"
    have "map (\<lambda>(k, v). (k, order_for_jcs v)) (sort_key ?f kvs) ! i = map (\<lambda>(k, v). (k, order_for_jcs v)) (sort_key ?f lvs) ! i"
      using m by simp
    then have eq: "fst p = fst q \<and> order_for_jcs (snd p) = order_for_jcs (snd q)"
      using i len by (simp add: p_def q_def split_def)
    have "p \<in> set (sort_key ?f kvs)" using i by (simp add: p_def del: set_sort)
    with eq IH have "fst p = fst q \<and> json_sim (snd p) (snd q)" by blast
    then show "fst (sort_key ?f kvs ! i) = fst (sort_key ?f lvs ! i)"
      "json_sim (snd (sort_key ?f kvs ! i)) (snd (sort_key ?f lvs ! i))"
      by (simp_all add: p_def q_def)
  qed
  then have r: "list_all2 (\<lambda>q p. ?R p q) (sort_key ?f lvs) (sort_key ?f kvs)"
    by (simp add: list_all2_conv_all_nth)
  have "mset lvs = mset (sort_key ?f lvs)" by simp
  from list_all2_reorder_left_invariance [OF r this] obtain ws
    where ws: "list_all2 (\<lambda>q p. ?R p q) lvs ws" "mset ws = mset kvs" by auto
  have "list_all2 ?R ws lvs" using ws(1) by (simp add: list_all2_conv_all_nth)
  with ws(2) have "json_sim (JObj kvs) (JObj lvs)" using sim_obj [of kvs ws lvs] by simp
  with k show ?case by simp
qed (case_tac k; auto intro: json_sim.intros)+

lemma order_idem: "json_ok P j \<Longrightarrow> order_for_jcs (order_for_jcs j) = order_for_jcs j"
proof (induction j rule: order_for_jcs.induct)
  case (1 kvs)
  let ?f = "\<lambda>(k :: pystr, v :: json). utf16_be k"
  let ?g = "\<lambda>(k, v). (k, order_for_jcs v)"
  have "map ?f (map ?g (sort_key ?f kvs)) = map ?f (sort_key ?f kvs)" by (simp add: comp_def split_def)
  then have "sorted (map ?f (map ?g (sort_key ?f kvs)))" by (simp only: sorted_sort_key)
  then have "sort_key ?f (map ?g (sort_key ?f kvs)) = map ?g (sort_key ?f kvs)"
    by (rule sort_key_id_if_sorted)
  with 1 show ?case by (auto simp: comp_def split_def)
qed auto

lemma order_sim_self: "json_ok P j \<Longrightarrow> json_sim j (order_for_jcs j)"
  by (rule order_eq_sim) (simp add: order_idem)

lemma canonical_value:
  assumes "json_ok P j" "json_fits 0 j" "json_nodes j \<le> MAX_JSON_NODES"
  shows "json_ok P (order_for_jcs j)" "json_fits 0 (order_for_jcs j)"
    "json_nodes (order_for_jcs j) \<le> MAX_JSON_NODES"
  using assms sim_invariant [OF order_sim_self [OF assms(1)], of P] by auto

lemma json_loads_dumps:
  assumes "json_ok P j"
  shows "json_loads P (dumps j) = Inr (py_of_json j)"
proof -
  obtain c cs where c: "dumps j = c # cs" "\<not> is_ws c" by (rule dumps_first)
  then have "skip_ws (dumps j) = dumps j" by (simp add: skip_ws_Cons)
  moreover have "parse_value P (2 * length (dumps j) + 2) (dumps j) = Inr (py_of_json j, [])"
    using parse_dumps(1) [OF assms, of "[]" "2 * length (dumps j) + 2"] by (simp add: ends_number_def)
  ultimately show ?thesis by (simp add: json_loads_def skip_ws_def)
qed

lemma parse_canonical_dumps:
  assumes ok: "json_ok P j" "json_fits 0 j" "json_nodes j \<le> MAX_JSON_NODES"
    and size: "int (length (concat (map utf8_char (dumps j)))) \<le> MAX_CANONICAL_JSON_BYTES"
  shows "parse_canonical_json P (InStr (dumps j)) = Inr j"
proof -
  obtain c cs where c: "dumps j = c # cs" "c < 128" by (rule dumps_first)
  then have bom: "\<not> starts_with [65279] (dumps j)" by (simp add: starts_with_def)
  have enc: "utf8_encode (dumps j) = Inr (concat (map utf8_char (dumps j)))"
    using dumps_scalar(1) [OF ok(1)] by (auto simp: utf8_encode_def)
  show ?thesis
    using bom enc size json_loads_dumps [OF ok(1)] validate_complete [OF ok]
    by (simp add: parse_canonical_json_def input_text_def)
qed

lemma canonical_json_parse:
  assumes "canonical_json P v = Inr t"
  obtains j where "v = py_of_json j" "json_ok P j" "parse_canonical_json P (InStr t) = Inr (order_for_jcs j)"
    "canonical_json P (py_of_json (order_for_jcs j)) = Inr t"
proof -
  from assms obtain j where j: "v = py_of_json j" "json_ok P j" "json_fits 0 j"
    "json_nodes j \<le> MAX_JSON_NODES" "t = dumps (order_for_jcs j)"
    "int (length (concat (map utf8_char t))) \<le> MAX_CANONICAL_JSON_BYTES"
    by (auto simp: canonical_json_Inr canonical_text_Inr)
  note o = canonical_value [OF j(2-4)]
  have "parse_canonical_json P (InStr t) = Inr (order_for_jcs j)"
    using parse_canonical_dumps [OF o] j(5,6) by simp
  moreover have "canonical_json P (py_of_json (order_for_jcs j)) = Inr t"
    unfolding canonical_json_Inr canonical_text_Inr using o j order_idem [OF j(2)] by auto
  ultimately show ?thesis using that j(1,2) by blast
qed

section \<open>Properties\<close>

text \<open>
  C30. Canonical bytes identify a JSON value up to the order of object members, at every depth: two
  values have the same canonical bytes exactly when they differ only in member order. Every digest
  and signature of the protocol is taken over these bytes.
\<close>

theorem canonical_bytes_iff:
  assumes "canonical_json_bytes P (py_of_json j) = Inr b"
  shows "canonical_json_bytes P (py_of_json k) = Inr b \<longleftrightarrow> json_sim j k"
proof
  assume "json_sim j k"
  from canonical_bytes_sim [OF this assms] show "canonical_json_bytes P (py_of_json k) = Inr b" .
next
  assume k: "canonical_json_bytes P (py_of_json k) = Inr b"
  from assms obtain t where t: "canonical_json P (py_of_json j) = Inr t" "b = concat (map utf8_char t)"
    by (auto simp: canonical_json_Inr canonical_json_bytes_Inr)
  from k obtain u where u: "canonical_json P (py_of_json k) = Inr u" "b = concat (map utf8_char u)"
    by (auto simp: canonical_json_Inr canonical_json_bytes_Inr)
  have "utf8_decode b = Inr t" "utf8_decode b = Inr u"
    using assms k t(1) u(1) by (simp_all add: canonical_json_def)
  then have tu: "t = u" by simp
  from canonical_json_parse [OF t(1)] obtain j' where
    "py_of_json j = py_of_json j'" and j': "parse_canonical_json P (InStr t) = Inr (order_for_jcs j')" .
  then have j: "j' = j" by (simp add: py_of_json_inject)
  from canonical_json_parse [OF u(1)] obtain k' where
    "py_of_json k = py_of_json k'" and k': "parse_canonical_json P (InStr u) = Inr (order_for_jcs k')" .
  then have "k' = k" by (simp add: py_of_json_inject)
  with j j' k' tu have "order_for_jcs j = order_for_jcs k" by simp
  then show "json_sim j k" by (rule order_eq_sim)
qed

theorem canonical_bytes_iff_witness:
  "canonical_json_bytes sample_prims (py_of_json (JObj [(lit ''b'', JInt 1), (lit ''a'', JNull)])) =
     Inr (lit ''{\"a\":null,\"b\":1}'') \<and>
   (canonical_json_bytes sample_prims (py_of_json (JObj [(lit ''a'', JNull), (lit ''b'', JInt 1)])) =
      Inr (lit ''{\"a\":null,\"b\":1}'') \<longleftrightarrow>
    json_sim (JObj [(lit ''b'', JInt 1), (lit ''a'', JNull)]) (JObj [(lit ''a'', JNull), (lit ''b'', JInt 1)]))"
proof -
  have "canonical_json_bytes sample_prims (py_of_json (JObj [(lit ''b'', JInt 1), (lit ''a'', JNull)])) =
     Inr (lit ''{\"a\":null,\"b\":1}'')" by code_simp
  from this canonical_bytes_iff [OF this] show ?thesis by blast
qed

lemma canonicalize_canonical:
  assumes "canonical_json P v = Inr t" "p_nfc P t = t"
  shows "canonicalize_json_text P t = Inr t"
proof -
  obtain j where j: "v = py_of_json j" "json_ok P j" "parse_canonical_json P (InStr t) = Inr (order_for_jcs j)"
    "canonical_json P (py_of_json (order_for_jcs j)) = Inr t"
    by (rule canonical_json_parse [OF assms(1)])
  have "\<forall>c\<in>set t. scalar_value c" using assms(1) canonical_text_scalar by (auto simp: canonical_json_Inr)
  with j assms(2) show ?thesis by (simp add: canonicalize_json_text_def)
qed

text \<open>
  C31. Parsing inverts canonical serialization, and the canonical-text check does so exactly on normalized text: a text that
  \<open>canonical_json\<close> produced is always read back by the strict parser as the same value up to member order;
  \<open>canonicalize_json_text\<close> returns it unchanged when the text is NFC-normalized and refuses it otherwise. The values inside
  it are normalized, but the escape letter of a control character can compose with a combining mark that follows it, so
  \<open>canonicalize_json_text\<close> does refuse some texts of \<open>canonical_json\<close>.
\<close>

theorem canonical_json_roundtrip:
  assumes "canonical_json P v = Inr t"
  shows "(\<exists>j k. v = py_of_json j \<and> parse_canonical_json P (InStr t) = Inr k \<and> json_sim j k) \<and>
    canonicalize_json_text P t = (if p_nfc P t = t then Inr t else Inl (ValueError ''must be NFC-normalized''))"
proof -
  have "canonicalize_json_text P t = Inl (ValueError ''must be NFC-normalized'')" if "p_nfc P t \<noteq> t"
    using that by (simp add: canonicalize_json_text_def require_nfc_def)
  then show ?thesis using canonicalize_canonical [OF assms] canonical_json_parse [OF assms] order_sim_self by metis
qed

text \<open>One composition of the normal form: the letter n (U+006E) with a combining tilde (U+0303).\<close>

fun compose_tilde :: "pystr \<Rightarrow> pystr" where
  "compose_tilde (c # d # s) = (if c = 110 \<and> d = 771 then 241 # compose_tilde s else c # compose_tilde (d # s))"
| "compose_tilde s = s"

definition tilde_prims :: prims where
  "tilde_prims = sample_prims\<lparr> p_nfc := compose_tilde \<rparr>"

theorem canonical_json_roundtrip_witness:
  "canonicalize_json_text sample_prims (lit ''{\"a\":\"'' @ [92, 110] @ lit ''\",\"b\":[-12]}'') =
     Inr (lit ''{\"a\":\"'' @ [92, 110] @ lit ''\",\"b\":[-12]}'') \<and>
   canonical_json tilde_prims (PStr [10, 771]) = Inr [34, 92, 110, 771, 34] \<and>
   canonicalize_json_text tilde_prims [34, 92, 110, 771, 34] = Inl (ValueError ''must be NFC-normalized'') \<and>
   (\<exists>k. parse_canonical_json tilde_prims (InStr [34, 92, 110, 771, 34]) = Inr k)"
proof -
  have c: "canonical_json sample_prims (PMap [(KStr (lit ''b''), PSeq [PInt (-12)]), (KStr (lit ''a''), PStr [10])]) =
     Inr (lit ''{\"a\":\"'' @ [92, 110] @ lit ''\",\"b\":[-12]}'')" by code_simp
  have d: "canonical_json tilde_prims (PStr [10, 771]) = Inr [34, 92, 110, 771, 34]" by code_simp
  have "p_nfc sample_prims t = t" for t by (simp add: sample_prims_def)
  moreover have "p_nfc tilde_prims [34, 92, 110, 771, 34] \<noteq> [34, 92, 110, 771, 34]" by code_simp
  ultimately show ?thesis using canonical_json_roundtrip [OF c] canonical_json_roundtrip [OF d] d by auto
qed

end
