(* ===== verification/BCP_Json_Size.thy ===== *)
theory BCP_Json_Size
  imports BCP_Json_Roundtrip
begin

text \<open>
  When serialization succeeds: a bound on the canonical text, computed from the value alone, and the
  criterion \<open>json_value\<close> under which \<open>canonical_json\<close> returns. The limits of the profile are the only
  other reasons to refuse a value.
\<close>

section \<open>Size of the canonical text\<close>

definition utf8_len :: "pystr \<Rightarrow> int" where
  "utf8_len s = int (length (concat (map utf8_char s)))"

lemma utf8_len_simps [simp]:
  "utf8_len [] = 0" "utf8_len (c # s) = int (length (utf8_char c)) + utf8_len s" "utf8_len (s @ t) = utf8_len s + utf8_len t"
  by (simp_all add: utf8_len_def)

lemma utf8_len_ascii: "\<forall>c\<in>set s. c < 128 \<Longrightarrow> utf8_len s = int (length s)"
  by (induction s) (auto simp: utf8_char_def)

lemma utf8_len_nonneg [simp]: "0 \<le> utf8_len s"
  by (simp add: utf8_len_def)

fun json_cost :: "json \<Rightarrow> int" where
  "json_cost JNull = 4"
| "json_cost (JBool b) = 5"
| "json_cost (JInt i) = 17"
| "json_cost (JStr s) = 2 + 6 * int (length s)"
| "json_cost (JArr js) = 2 + sum_list (map (\<lambda>j. 1 + json_cost j) js)"
| "json_cost (JObj kvs) = 2 + sum_list (map (\<lambda>(k, v). 4 + 6 * int (length k) + json_cost v) kvs)"

lemma dec_digits_length: "1 \<le> k \<Longrightarrow> n < 10 ^ k \<Longrightarrow> length (dec_digits n) \<le> k"
proof (induction n arbitrary: k rule: dec_digits.induct)
  case (1 n)
  show ?case
  proof (cases "n < 10")
    case True then show ?thesis using 1(2) by (simp add: dec_digits.simps [of n])
  next
    case False
    then obtain j where k: "k = Suc j" "1 \<le> j" using 1(2,3) by (cases k; cases "k = 1") auto
    then have "n div 10 < 10 ^ j" using 1(3) by (simp add: less_mult_imp_div_less)
    from 1(1) [OF False k(2) this] False k show ?thesis by (simp add: dec_digits.simps [of n])
  qed
qed

lemma int_repr_len: "\<bar>i\<bar> \<le> MAX_SAFE_INTEGER \<Longrightarrow> utf8_len (int_repr i) \<le> 17"
proof -
  assume "\<bar>i\<bar> \<le> MAX_SAFE_INTEGER"
  then have "nat \<bar>i\<bar> < 10 ^ 16" by (simp add: MAX_SAFE_INTEGER_def)
  from dec_digits_length [OF _ this] have "length (dec_digits (nat \<bar>i\<bar>)) \<le> 16" by simp
  moreover have "utf8_len (dec_digits n) = int (length (dec_digits n))" for n
    using dec_digits_range by (intro utf8_len_ascii) fastforce
  ultimately show ?thesis by (auto simp: int_repr_def utf8_char_def abs_if split: if_splits)
qed

lemma utf8_char_len: "length (utf8_char c) \<le> 4"
  by (simp add: utf8_char_def)

lemma escape_char_len: "utf8_len (escape_char c) \<le> 6"
proof (cases "c = 34 \<or> c = 92 \<or> c = 8 \<or> c = 12 \<or> c = 10 \<or> c = 13 \<or> c = 9 \<or> (0 \<le> c \<and> c < 32)")
  case True
  have "hex_digit d < 128" if "d < 16" for d using that by (simp add: hex_digit_def)
  moreover have "c div 16 < 16" "c mod 16 < 16" using True by auto
  ultimately show ?thesis using True by (auto simp: escape_char_def utf8_char_def)
next
  case False
  then have "escape_char c = [c]" by (auto simp: escape_char_def)
  with utf8_char_len [of c] show ?thesis by simp
qed

lemma dumps_str_len: "utf8_len (dumps_str s) \<le> 2 + 6 * int (length s)"
proof -
  have "utf8_len (concat (map escape_char s)) \<le> 6 * int (length s)"
  proof (induction s)
    case (Cons c s) then show ?case using escape_char_len [of c] by simp
  qed simp
  then show ?thesis by (simp add: dumps_str_def utf8_char_def)
qed

lemma dumps_len:
  "json_ok P j \<Longrightarrow> utf8_len (dumps j) \<le> json_cost j"
  "\<forall>j\<in>set js. json_ok P j \<Longrightarrow> utf8_len (dumps_items js) \<le> sum_list (map (\<lambda>j. 1 + json_cost j) js)"
  "\<forall>(k, v)\<in>set kvs. str_ok P k \<and> json_ok P v \<Longrightarrow>
     utf8_len (dumps_pairs kvs) \<le> sum_list (map (\<lambda>(k, v). 4 + 6 * int (length k) + json_cost v) kvs)"
proof (induction j and js and kvs rule: dumps_dumps_items_dumps_pairs.induct)
  case (3 i) then show ?case by (simp add: int_repr_len)
next
  case (4 s) then show ?case using dumps_str_len [of s] by simp
next
  case (10 k v kvs)
  then have "utf8_len (dumps v) \<le> json_cost v"
    "utf8_len (dumps_pairs kvs) \<le> sum_list (map (\<lambda>(k, v). 4 + 6 * int (length k) + json_cost v) kvs)"
    by (cases kvs; auto)+
  with dumps_str_len [of k] show ?case by (cases kvs) (auto simp: utf8_char_def)
next
  case (8 j js) then show ?case by (cases js) (auto simp: utf8_char_def)
qed (auto simp: utf8_char_def lit_def)

lemma json_cost_order: "json_cost (order_for_jcs j) = json_cost j"
proof (induction j rule: order_for_jcs.induct)
  case (1 kvs)
  let ?c = "\<lambda>(k, v). 4 + 6 * int (length k) + json_cost v"
  let ?s = "sort_key (\<lambda>(k, v). utf16_be k) kvs"
  have "sum_list (map ?c (map (\<lambda>(k, v). (k, order_for_jcs v)) ?s)) = sum_list (map ?c ?s)"
    using 1 by (intro arg_cong [of _ _ sum_list]) (auto simp: split_def)
  also have "\<dots> = sum_list (map ?c kvs)" by (rule mset_sum_list) simp
  finally show ?case by simp
next
  case (2 js) then show ?case by (simp add: comp_def cong: map_cong)
qed auto

section \<open>Values that serialize\<close>

text \<open>The JSON value of a Python value; the two types JSON has no room for are sent to \<open>null\<close>.\<close>

fun json_of_py :: "pyval \<Rightarrow> json" where
  "json_of_py PNone = JNull"
| "json_of_py (PBool b) = JBool b"
| "json_of_py (PInt i) = JInt i"
| "json_of_py (PStr s) = JStr s"
| "json_of_py (PSeq vs) = JArr (map json_of_py vs)"
| "json_of_py (PMap kvs) = JObj (map (\<lambda>(k, v). (case k of KStr s \<Rightarrow> s | KOther \<Rightarrow> [], json_of_py v)) kvs)"
| "json_of_py PFloat = JNull"
| "json_of_py POther = JNull"

definition json_value :: "prims \<Rightarrow> pyval \<Rightarrow> bool" where
  "json_value P v \<longleftrightarrow>
     py_of_json (json_of_py v) = v \<and> json_ok P (json_of_py v) \<and> json_fits 0 (json_of_py v) \<and>
     json_nodes (json_of_py v) \<le> MAX_JSON_NODES \<and> json_cost (json_of_py v) \<le> MAX_CANONICAL_JSON_BYTES"

lemma canonical_json_total:
  assumes "json_value P v"
  shows "\<exists>t. canonical_json P v = Inr t \<and> canonical_json_bytes P v = Inr (concat (map utf8_char t)) \<and>
    utf8_len t \<le> json_cost (json_of_py v) \<and> (\<forall>c\<in>set t. scalar_value c)"
proof -
  let ?j = "json_of_py v" and ?t = "dumps (order_for_jcs (json_of_py v))"
  have t: "canonical_text P v = Inr ?t" using assms by (auto simp: canonical_text_Inr json_value_def intro!: exI [of _ ?j])
  have "utf8_len ?t \<le> json_cost ?j"
    using dumps_len(1) [OF json_ok_order, of P ?j] assms json_cost_order [of ?j] by (simp add: json_value_def)
  with t assms canonical_text_scalar [OF t] show ?thesis
    by (auto simp: canonical_json_Inr canonical_json_bytes_Inr utf8_len_def json_value_def intro!: exI [of _ ?t])
qed


section \<open>ASCII text\<close>

text \<open>Unicode normalization leaves ASCII text alone; this is the only fact about it that is used.\<close>

definition ascii :: "pystr \<Rightarrow> bool" where
  "ascii s \<longleftrightarrow> list_all (\<lambda>c. 0 \<le> c \<and> c < 128) s"

definition nfc_fixes_ascii :: "prims \<Rightarrow> bool" where
  "nfc_fixes_ascii P \<longleftrightarrow> (\<forall>s. ascii s \<longrightarrow> p_nfc P s = s)"

lemma ascii_scalar: "ascii s \<Longrightarrow> c \<in> set s \<Longrightarrow> scalar_value c"
  by (auto simp: ascii_def list_all_iff scalar_value_def surrogate_def)

lemma ascii_str_ok: "nfc_fixes_ascii P \<Longrightarrow> ascii s \<Longrightarrow> str_ok P s"
  by (auto simp: nfc_fixes_ascii_def str_ok_def intro: ascii_scalar)

lemma ascii_append [simp]: "ascii (s @ t) \<longleftrightarrow> ascii s \<and> ascii t"
  by (simp add: ascii_def)

lemma ascii_Nil [simp]: "ascii []" and ascii_Cons [simp]: "ascii (c # s) \<longleftrightarrow> 0 \<le> c \<and> c < 128 \<and> ascii s"
  by (simp_all add: ascii_def)

lemma ascii_utf8_len: "ascii s \<Longrightarrow> utf8_len s = int (length s)"
  by (intro utf8_len_ascii) (auto simp: ascii_def list_all_iff)

fun json_ascii :: "json \<Rightarrow> bool" where
  "json_ascii (JStr s) \<longleftrightarrow> ascii s"
| "json_ascii (JArr js) \<longleftrightarrow> (\<forall>j\<in>set js. json_ascii j)"
| "json_ascii (JObj kvs) \<longleftrightarrow> (\<forall>(k, v)\<in>set kvs. ascii k \<and> json_ascii v)"
| "json_ascii _ \<longleftrightarrow> True"

lemma dumps_str_ascii: "ascii s \<Longrightarrow> ascii (dumps_str s)"
proof -
  have "ascii (escape_char c)" if "0 \<le> c" "c < 128" for c
    using that by (auto simp: escape_char_def hex_digit_def)
  then have "ascii s \<Longrightarrow> ascii (concat (map escape_char s))" by (induction s) auto
  then show "ascii s \<Longrightarrow> ascii (dumps_str s)" by (simp add: dumps_str_def)
qed

lemma dumps_ascii:
  "json_ascii j \<Longrightarrow> ascii (dumps j)"
  "\<forall>j\<in>set js. json_ascii j \<Longrightarrow> ascii (dumps_items js)"
  "\<forall>(k, v)\<in>set kvs. ascii k \<and> json_ascii v \<Longrightarrow> ascii (dumps_pairs kvs)"
proof (induction j and js and kvs rule: dumps_dumps_items_dumps_pairs.induct)
  case (3 i)
  have "ascii (dec_digits n)" for n using dec_digits_range by (fastforce simp: ascii_def list_all_iff)
  then show ?case by (simp add: int_repr_def)
next
  case (10 k v kvs) then show ?case by (cases kvs) (auto simp: dumps_str_ascii)
next
  case (8 j js) then show ?case by (cases js) auto
qed (auto simp: dumps_str_ascii lit_def)

lemma json_ascii_order: "json_ascii j \<Longrightarrow> json_ascii (order_for_jcs j)"
  by (induction j rule: order_for_jcs.induct) (auto simp: split_def)

lemma canonical_json_ascii:
  assumes "canonical_json P v = Inr t" "json_ascii (json_of_py v)"
  shows "ascii t"
proof -
  obtain j where j: "v = py_of_json j" "t = dumps (order_for_jcs j)"
    using assms(1) by (auto simp: canonical_json_Inr canonical_text_Inr)
  have "json_of_py (py_of_json j) = j"
    by (induction j rule: py_of_json.induct) (auto simp: comp_def split_def intro!: map_idI)
  with assms(2) j show ?thesis by (simp add: dumps_ascii json_ascii_order)
qed

end
