(* ===== verification/BCP_Encoding.thy ===== *)
theory BCP_Encoding
  imports BCP_Json
begin

text \<open>
  Textual encodings of \<^verbatim>\<open>app/models.py\<close>: lowercase hexadecimal digests, unpadded
  base64url (\<open>_b64url_encode\<close>, \<open>_b64url_decode\<close>) and the single timestamp representation
  (\<open>format_utc_timestamp\<close>, \<open>_validate_timestamp\<close>).

  Digests and base64url are inverse pairs on the values they accept, and the string order on
  timestamps is the chronological order, which the models rely on when they compare timestamps as
  strings.
\<close>

section \<open>Hexadecimal digests\<close>

definition hex_byte :: "int \<Rightarrow> pystr" where
  "hex_byte b = [hex_digit (b div 16), hex_digit (b mod 16)]"

definition hexdigest :: "bytes \<Rightarrow> pystr" where
  "hexdigest b = concat (map hex_byte b)"

definition lower_hex :: "int \<Rightarrow> bool" where
  "lower_hex c \<longleftrightarrow> (48 \<le> c \<and> c \<le> 57) \<or> (97 \<le> c \<and> c \<le> 102)"

definition hex_nibble :: "int \<Rightarrow> int" where
  "hex_nibble c = (if c \<le> 57 then c - 48 else c - 87)"

fun fromhex :: "pystr \<Rightarrow> bytes" where
  "fromhex (a # b # cs) = (16 * hex_nibble a + hex_nibble b) # fromhex cs"
| "fromhex _ = []"

definition sha256_hex_text :: "pystr \<Rightarrow> bool" where
  "sha256_hex_text s \<longleftrightarrow> length s = 64 \<and> list_all lower_hex s"

definition is_byte :: "int \<Rightarrow> bool" where
  "is_byte b \<longleftrightarrow> 0 \<le> b \<and> b < 256"

lemma hex_nibble_digit: "0 \<le> d \<Longrightarrow> d < 16 \<Longrightarrow> hex_nibble (hex_digit d) = d \<and> lower_hex (hex_digit d)"
  by (auto simp: hex_nibble_def hex_digit_def lower_hex_def)

lemma hex_byte_range:
  assumes "is_byte b"
  shows "0 \<le> b div 16" "b div 16 < 16" "0 \<le> b mod 16" "b mod 16 < 16"
  using assms by (auto simp: is_byte_def)

lemma hexdigest_length [simp]: "length (hexdigest b) = 2 * length b"
  by (induction b) (auto simp: hexdigest_def hex_byte_def)

lemma hexdigest_lower: "list_all is_byte b \<Longrightarrow> list_all lower_hex (hexdigest b)"
  by (induction b)
    (auto simp: hexdigest_def hex_byte_def dest: hex_byte_range intro!: hex_nibble_digit [THEN conjunct2])

lemma fromhex_hexdigest: "list_all is_byte b \<Longrightarrow> fromhex (hexdigest b) = b"
proof (induction b)
  case (Cons x xs)
  then have x: "is_byte x" by simp
  have "hex_nibble (hex_digit (x div 16)) = x div 16" "hex_nibble (hex_digit (x mod 16)) = x mod 16"
    using hex_byte_range [OF x] hex_nibble_digit by blast+
  with Cons show ?case by (simp add: hexdigest_def hex_byte_def)
qed (simp add: hexdigest_def)

section \<open>base64url\<close>

definition b64_char :: "int \<Rightarrow> int" where
  "b64_char d =
     (if d < 26 then 65 + d
      else if d < 52 then 71 + d
      else if d < 62 then d - 4
      else if d = 62 then 45
      else 95)"

definition b64_value :: "int \<Rightarrow> int option" where
  "b64_value c =
     (if 65 \<le> c \<and> c \<le> 90 then Some (c - 65)
      else if 97 \<le> c \<and> c \<le> 122 then Some (c - 71)
      else if 48 \<le> c \<and> c \<le> 57 then Some (c + 4)
      else if c = 45 then Some 62
      else if c = 95 then Some 63
      else None)"

text \<open>\<open>base64.urlsafe_b64encode(value).rstrip(b"=")\<close>: the padding is simply not written.\<close>

fun b64url_encode :: "bytes \<Rightarrow> pystr" where
  "b64url_encode [] = []"
| "b64url_encode [a] = [b64_char (a div 4), b64_char (a mod 4 * 16)]"
| "b64url_encode [a, b] =
     [b64_char (a div 4), b64_char (a mod 4 * 16 + b div 16), b64_char (b mod 16 * 4)]"
| "b64url_encode (a # b # c # r) =
     [b64_char (a div 4), b64_char (a mod 4 * 16 + b div 16), b64_char (b mod 16 * 4 + c div 64), b64_char (c mod 64)]
     @ b64url_encode r"

text \<open>
  \<open>b64decode(value + "=" * (-len(value) % 4), validate=True)\<close> on the sextets of an unpadded text: a
  single trailing sextet is an error, trailing bits beyond the last byte are dropped.
\<close>

fun b64_sextets :: "int list \<Rightarrow> bytes option" where
  "b64_sextets [] = Some []"
| "b64_sextets [w] = None"
| "b64_sextets [w, x] = Some [w * 4 + x div 16]"
| "b64_sextets [w, x, y] = Some [w * 4 + x div 16, x mod 16 * 16 + y div 4]"
| "b64_sextets (w # x # y # z # r) =
     map_option (\<lambda>t. [w * 4 + x div 16, x mod 16 * 16 + y div 4, y mod 4 * 64 + z] @ t) (b64_sextets r)"

definition b64_text :: "pystr \<Rightarrow> bool" where
  "b64_text s \<longleftrightarrow> s \<noteq> [] \<and> list_all (\<lambda>c. b64_value c \<noteq> None) s"

definition b64url_decode :: "int \<Rightarrow> pystr \<Rightarrow> bytes result" where
  "b64url_decode expected_length value =
     (if \<not> b64_text value then Inl (ValueError ''value must be unpadded base64url'')
      else case b64_sextets (map (\<lambda>c. the (b64_value c)) value) of
             None \<Rightarrow> Inl (ValueError ''invalid base64url value'')
           | Some decoded \<Rightarrow>
               if int (length decoded) \<noteq> expected_length
               then Inl (ValueError ''decoded value has the wrong length'')
               else if b64url_encode decoded \<noteq> value
               then Inl (ValueError ''base64url value is not canonical'')
               else Inr decoded)"

lemma b64_value_char: "0 \<le> d \<Longrightarrow> d < 64 \<Longrightarrow> b64_value (b64_char d) = Some d"
  by (auto simp: b64_value_def b64_char_def)

lemma b64_pieces:
  assumes "is_byte a" "is_byte b" "is_byte c"
  shows "0 \<le> a div 4" "a div 4 < 64" "0 \<le> a mod 4 * 16" "a mod 4 * 16 < 64"
    "0 \<le> a mod 4 * 16 + b div 16" "a mod 4 * 16 + b div 16 < 64"
    "0 \<le> b mod 16 * 4" "b mod 16 * 4 < 64"
    "0 \<le> b mod 16 * 4 + c div 64" "b mod 16 * 4 + c div 64 < 64"
    "0 \<le> c mod 64" "c mod 64 < 64"
proof -
  have a: "0 \<le> a mod 4" "a mod 4 \<le> 3" and b: "0 \<le> b mod 16" "b mod 16 \<le> 15" by auto
  have bd: "0 \<le> b div 16" "b div 16 \<le> 15" and cd: "0 \<le> c div 64" "c div 64 \<le> 3"
    using assms by (auto simp: is_byte_def)
  show "0 \<le> a div 4" "a div 4 < 64" using assms(1) by (auto simp: is_byte_def)
  show "0 \<le> c mod 64" "c mod 64 < 64" by auto
  show "0 \<le> a mod 4 * 16" "a mod 4 * 16 < 64" "0 \<le> a mod 4 * 16 + b div 16" "a mod 4 * 16 + b div 16 < 64"
    "0 \<le> b mod 16 * 4" "b mod 16 * 4 < 64" "0 \<le> b mod 16 * 4 + c div 64" "b mod 16 * 4 + c div 64 < 64"
    using a b bd cd by linarith+
qed

lemma b64_piece_values:
  assumes "is_byte a" "is_byte b" "is_byte c"
  shows "b64_value (b64_char (a div 4)) = Some (a div 4)"
    "b64_value (b64_char (a mod 4 * 16)) = Some (a mod 4 * 16)"
    "b64_value (b64_char (a mod 4 * 16 + b div 16)) = Some (a mod 4 * 16 + b div 16)"
    "b64_value (b64_char (b mod 16 * 4)) = Some (b mod 16 * 4)"
    "b64_value (b64_char (b mod 16 * 4 + c div 64)) = Some (b mod 16 * 4 + c div 64)"
    "b64_value (b64_char (c mod 64)) = Some (c mod 64)"
  using b64_pieces [OF assms] by (blast intro: b64_value_char)+

lemma sextet_div_mod:
  fixes q r m :: int
  assumes "0 \<le> r" "r < m" shows "(q * m + r) div m = q" "(q * m + r) mod m = r"
  using assms by (simp_all add: div_mult_self3 div_pos_pos_trivial mod_pos_pos_trivial)

lemma sextet_join:
  assumes "is_byte a" "is_byte b" "is_byte c"
  shows "a div 4 * 4 + (a mod 4 * 16) div 16 = a"
    "a div 4 * 4 + (a mod 4 * 16 + b div 16) div 16 = a"
    "(a mod 4 * 16 + b div 16) mod 16 * 16 + (b mod 16 * 4) div 4 = b"
    "(a mod 4 * 16 + b div 16) mod 16 * 16 + (b mod 16 * 4 + c div 64) div 4 = b"
    "(b mod 16 * 4 + c div 64) mod 4 * 64 + c mod 64 = c"
proof -
  have r: "0 \<le> b div 16" "b div 16 < 16" "0 \<le> c div 64" "c div 64 < 4"
    using assms by (auto simp: is_byte_def)
  have q: "(a mod 4 * 16 + b div 16) div 16 = a mod 4" "(a mod 4 * 16 + b div 16) mod 16 = b div 16"
    "(b mod 16 * 4 + c div 64) div 4 = b mod 16" "(b mod 16 * 4 + c div 64) mod 4 = c div 64"
    using sextet_div_mod [OF r(1,2), of "a mod 4"] sextet_div_mod [OF r(3,4), of "b mod 16"] by blast+
  have z: "(a mod 4 * 16) div 16 = a mod 4" "(b mod 16 * 4) div 4 = b mod 16" by simp_all
  show "a div 4 * 4 + (a mod 4 * 16) div 16 = a"
    "a div 4 * 4 + (a mod 4 * 16 + b div 16) div 16 = a"
    "(a mod 4 * 16 + b div 16) mod 16 * 16 + (b mod 16 * 4) div 4 = b"
    "(a mod 4 * 16 + b div 16) mod 16 * 16 + (b mod 16 * 4 + c div 64) div 4 = b"
    "(b mod 16 * 4 + c div 64) mod 4 * 64 + c mod 64 = c"
    by (simp_all only: q z div_mult_mod_eq)
qed

lemmas b64_unfold =
  b64url_encode.simps list.pred_inject list_all_append list.map map_append append_Cons append_Nil
  b64_sextets.simps option.map option.sel option.distinct simp_thms

lemma b64url_encode_sextets:
  "list_all is_byte b \<Longrightarrow>
     list_all (\<lambda>c. b64_value c \<noteq> None) (b64url_encode b) \<and>
     b64_sextets (map (\<lambda>c. the (b64_value c)) (b64url_encode b)) = Some b"
proof (induction b rule: b64url_encode.induct)
  case (2 a)
  then have "is_byte a" by simp
  from b64_piece_values [OF this this this] sextet_join [OF this this this] show ?case
    by (simp only: b64_unfold)
next
  case (3 a b)
  then have ab: "is_byte a" "is_byte b" by simp_all
  from b64_piece_values [OF ab ab(2)] sextet_join [OF ab ab(2)] show ?case
    by (simp only: b64_unfold)
next
  case (4 a b c r)
  then have abc: "is_byte a" "is_byte b" "is_byte c" by simp_all
  from b64_piece_values [OF abc] sextet_join [OF abc] 4 show ?case
    by (simp only: b64_unfold)
qed simp

lemma b64url_encode_Nil [simp]: "b64url_encode b = [] \<longleftrightarrow> b = []"
  by (cases b rule: b64url_encode.cases) auto

lemma b64url_decode_encode:
  assumes "list_all is_byte b" "b \<noteq> []" "int (length b) = n"
  shows "b64url_decode n (b64url_encode b) = Inr b"
  using assms b64url_encode_sextets [OF assms(1)]
  by (simp add: b64url_decode_def b64_text_def)

lemma b64url_decode_Inr:
  "b64url_decode n s = Inr b \<Longrightarrow> s = b64url_encode b \<and> int (length b) = n"
  by (auto simp: b64url_decode_def split: if_splits option.splits)

lemma b64url_decode_inject:
  "b64url_decode n s = Inr b \<Longrightarrow> b64url_decode m t = Inr b \<Longrightarrow> s = t"
  by (auto dest!: b64url_decode_Inr)

section \<open>Timestamps\<close>

text \<open>
  A \<open>datetime\<close> is given by its UTC fields; \<open>dt_aware\<close> is false for a naive value, whose \<open>tzinfo\<close> or
  \<open>utcoffset\<close> is \<open>None\<close>. The year is written without padding, as \<open>strftime\<close> of the C library of
  the deployment image does, so a timestamp before the year 1000 is never in canonical form.
\<close>

record datetime =
  dt_year :: int
  dt_month :: int
  dt_day :: int
  dt_hour :: int
  dt_minute :: int
  dt_second :: int
  dt_micro :: int
  dt_aware :: bool

fun pad_digits :: "nat \<Rightarrow> int \<Rightarrow> pystr" where
  "pad_digits 0 n = []"
| "pad_digits (Suc k) n = pad_digits k (n div 10) @ [48 + n mod 10]"

definition strftime_utc :: "datetime \<Rightarrow> pystr" where
  "strftime_utc d =
     int_repr (dt_year d) @ [45] @ pad_digits 2 (dt_month d) @ [45] @ pad_digits 2 (dt_day d) @ [84] @
     pad_digits 2 (dt_hour d) @ [58] @ pad_digits 2 (dt_minute d) @ [58] @ pad_digits 2 (dt_second d) @ [46] @
     pad_digits 6 (dt_micro d) @ [90]"

definition format_utc_timestamp :: "datetime \<Rightarrow> pystr result" where
  "format_utc_timestamp value =
     (if \<not> dt_aware value then Inl (ValueError ''datetime must be timezone-aware'')
      else Inr (strftime_utc value))"

definition leap_year :: "int \<Rightarrow> bool" where
  "leap_year y \<longleftrightarrow> y mod 4 = 0 \<and> (y mod 100 \<noteq> 0 \<or> y mod 400 = 0)"

definition days_in_month :: "int \<Rightarrow> int \<Rightarrow> int" where
  "days_in_month y m =
     (if m = 2 then (if leap_year y then 29 else 28)
      else if m = 4 \<or> m = 6 \<or> m = 9 \<or> m = 11 then 30 else 31)"

definition real_time :: "datetime \<Rightarrow> bool" where
  "real_time d \<longleftrightarrow>
     1 \<le> dt_year d \<and> dt_year d \<le> 9999 \<and> 1 \<le> dt_month d \<and> dt_month d \<le> 12 \<and>
     1 \<le> dt_day d \<and> dt_day d \<le> days_in_month (dt_year d) (dt_month d) \<and>
     0 \<le> dt_hour d \<and> dt_hour d \<le> 23 \<and> 0 \<le> dt_minute d \<and> dt_minute d \<le> 59 \<and>
     0 \<le> dt_second d \<and> dt_second d \<le> 59 \<and> 0 \<le> dt_micro d \<and> dt_micro d \<le> 999999"

definition field_value :: "pystr \<Rightarrow> int" where
  "field_value s = foldl (\<lambda>v c. 10 * v + (c - 48)) 0 s"

text \<open>
  The regular expression of the timestamp, position by position. The class \<open>\d\<close> also admits digits
  of other scripts; such a text differs from its canonical form and is refused all the same.
\<close>

definition timestamp_shape :: "pystr \<Rightarrow> bool" where
  "timestamp_shape s \<longleftrightarrow>
     length s = 27 \<and>
     list_all2 (\<lambda>c p. if p = 100 then 48 \<le> c \<and> c \<le> 57 else c = p)
       s (lit ''dddd-dd-ddTdd:dd:dd.ddddddZ'')"

definition strptime_fields :: "pystr \<Rightarrow> datetime" where
  "strptime_fields s =
     \<lparr> dt_year = field_value (take 4 s), dt_month = field_value (take 2 (drop 5 s)),
       dt_day = field_value (take 2 (drop 8 s)), dt_hour = field_value (take 2 (drop 11 s)),
       dt_minute = field_value (take 2 (drop 14 s)), dt_second = field_value (take 2 (drop 17 s)),
       dt_micro = field_value (take 6 (drop 20 s)), dt_aware = True \<rparr>"

definition validate_timestamp :: "prims \<Rightarrow> pystr \<Rightarrow> pystr result" where
  "validate_timestamp P value =
     bind_result (require_nfc P value) (\<lambda>_.
       if \<not> timestamp_shape value then Inl (ValueError ''timestamp must be UTC RFC 3339 with six fractional digits'')
       else if \<not> real_time (strptime_fields value)
       then Inl (ValueError ''timestamp is not a real calendar time'')
       else bind_result (format_utc_timestamp (strptime_fields value)) (\<lambda>t.
         if t \<noteq> value then Inl (ValueError ''timestamp is not in canonical form'') else Inr value))"


text \<open>The fields of a timestamp as one number, most significant field first.\<close>

definition instant :: "datetime \<Rightarrow> int" where
  "instant d =
     (((((dt_year d * 100 + dt_month d) * 100 + dt_day d) * 100 + dt_hour d) * 100 + dt_minute d) * 100
       + dt_second d) * 1000000 + dt_micro d"

definition ascii_digit :: "int \<Rightarrow> bool" where
  "ascii_digit c \<longleftrightarrow> 48 \<le> c \<and> c \<le> 57"

lemma field_value_snoc: "field_value (s @ [c]) = 10 * field_value s + (c - 48)"
  by (simp add: field_value_def)

lemma field_value_bounds:
  "list_all ascii_digit s \<Longrightarrow> 0 \<le> field_value s \<and> field_value s < 10 ^ length s"
proof (induction s rule: rev_induct)
  case (snoc c s)
  then have "0 \<le> field_value s" "field_value s + 1 \<le> 10 ^ length s" "48 \<le> c" "c \<le> 57"
    by (auto simp: ascii_digit_def)
  then show ?case by (simp add: field_value_snoc)
qed (simp add: field_value_def)

lemma field_value_Cons: "field_value (c # s) = (c - 48) * 10 ^ length s + field_value s"
proof (induction s rule: rev_induct)
  case (snoc d s)
  have "field_value (c # s @ [d]) = 10 * field_value (c # s) + (d - 48)"
    using field_value_snoc [of "c # s" d] by simp
  with snoc show ?case by (simp add: field_value_snoc algebra_simps)
qed (simp add: field_value_def)

lemma field_value_less:
  "length s = length t \<Longrightarrow> list_all ascii_digit s \<Longrightarrow> list_all ascii_digit t \<Longrightarrow>
     s < t \<longleftrightarrow> field_value s < field_value t"
proof (induction s t rule: list_induct2)
  case (Cons c s d t)
  have b: "0 \<le> field_value s" "field_value s < 10 ^ length s" "0 \<le> field_value t" "field_value t < 10 ^ length s"
    using field_value_bounds [of s] field_value_bounds [of t] Cons by auto
  let ?p = "10 ^ length s :: int"
  consider "c < d" | "c = d" | "d < c" by linarith
  then show ?case
  proof cases
    case 1
    then have "(c - 48 + 1) * ?p \<le> (d - 48) * ?p" by (intro mult_right_mono) auto
    then have "field_value (c # s) < field_value (d # t)"
      using b Cons.hyps by (simp add: field_value_Cons algebra_simps)
    with 1 show ?thesis by simp
  next
    case 2 with Cons show ?thesis by (simp add: field_value_Cons)
  next
    case 3
    then have "(d - 48 + 1) * ?p \<le> (c - 48) * ?p" by (intro mult_right_mono) auto
    then have "field_value (d # t) < field_value (c # s)"
      using b Cons.hyps by (simp add: field_value_Cons algebra_simps)
    with 3 show ?thesis by simp
  qed
qed simp

definition digits_at :: "pystr \<Rightarrow> pystr \<Rightarrow> pystr" where
  "digits_at p s = map fst (filter (\<lambda>(c, q). q = 100) (zip s p))"

lemma digits_at_Cons: "digits_at (q # p) (c # s) = (if q = 100 then c # digits_at p s else digits_at p s)"
  by (simp add: digits_at_def)

lemma shape_less:
  "list_all2 (\<lambda>c q. if q = 100 then 48 \<le> c \<and> c \<le> 57 else c = q) s p \<Longrightarrow>
   list_all2 (\<lambda>c q. if q = 100 then 48 \<le> c \<and> c \<le> 57 else c = q) t p \<Longrightarrow>
     (s < t \<longleftrightarrow> digits_at p s < digits_at p t) \<and> length (digits_at p s) = length (digits_at p t) \<and>
     list_all ascii_digit (digits_at p s)"
proof (induction p arbitrary: s t)
  case (Cons q p)
  then obtain c s' d t' where "s = c # s'" "t = d # t'" by (auto simp: list_all2_Cons2)
  with Cons show ?case by (auto simp: digits_at_Cons ascii_digit_def split: if_splits)
qed (simp add: digits_at_def)

lemma instant_digits:
  assumes "length s = 27"
  shows "field_value (digits_at (lit ''dddd-dd-ddTdd:dd:dd.ddddddZ'') s) = instant (strptime_fields s)"
proof -
  obtain c0 c1 c2 c3 c4 c5 c6 c7 c8 c9 c10 c11 c12 c13 c14 c15 c16 c17 c18 c19 c20 c21 c22 c23 c24 c25 c26
    where s: "s = [c0, c1, c2, c3, c4, c5, c6, c7, c8, c9, c10, c11, c12, c13, c14, c15, c16, c17, c18, c19,
      c20, c21, c22, c23, c24, c25, c26]"
    using assms by (auto simp: length_Suc_conv numeral_eq_Suc)
  show ?thesis
    by (simp add: s lit_def digits_at_def instant_def strptime_fields_def field_value_def)
qed

lemma validate_timestamp_Inr:
  "validate_timestamp P s = Inr t \<longleftrightarrow>
     t = s \<and> p_nfc P s = s \<and> (\<forall>c\<in>set s. scalar_value c) \<and> timestamp_shape s \<and> real_time (strptime_fields s) \<and>
     strftime_utc (strptime_fields s) = s"
  by (auto simp: validate_timestamp_def format_utc_timestamp_def strptime_fields_def)

lemma timestamp_less_iff:
  assumes "timestamp_shape s" "timestamp_shape t"
  shows "s < t \<longleftrightarrow> instant (strptime_fields s) < instant (strptime_fields t)"
proof -
  let ?p = "lit ''dddd-dd-ddTdd:dd:dd.ddddddZ''"
  have "s < t \<longleftrightarrow> digits_at ?p s < digits_at ?p t"
    using shape_less [of s ?p t] assms by (simp add: timestamp_shape_def)
  also have "\<dots> \<longleftrightarrow> field_value (digits_at ?p s) < field_value (digits_at ?p t)"
    using shape_less [of s ?p t] shape_less [of t ?p s] assms
    by (intro field_value_less) (simp_all add: timestamp_shape_def)
  finally show ?thesis using assms by (simp add: instant_digits timestamp_shape_def)
qed

lemma dec_digits_pad:
  "10 ^ k \<le> n \<Longrightarrow> n < 10 ^ Suc k \<Longrightarrow> dec_digits n = pad_digits (Suc k) (int n)" if "0 < k"
  using that
proof (induction k arbitrary: n rule: nat_induct_non_zero)
  case 1
  then have "dec_digits n = dec_digits (n div 10) @ [48 + int (n mod 10)]" "n div 10 < 10"
    by (auto simp: dec_digits.simps [of n])
  moreover from this(2) have "dec_digits (n div 10) = [48 + int (n div 10)]" by (simp only: dec_digits.simps [of "n div 10"] if_True)
  ultimately show ?case by (simp add: zdiv_int zmod_int)
next
  case (Suc k)
  have "10 ^ k \<le> n div 10" "n div 10 < 10 ^ Suc k"
    using Suc.prems by (auto simp: less_eq_div_iff_mult_less_eq less_mult_imp_div_less mult.commute)
  then have "dec_digits (n div 10) = pad_digits (Suc k) (int (n div 10))" by (rule Suc.IH)
  moreover have "(1::nat) \<le> 10 ^ k" by simp
  then have "\<not> n < 10" using Suc.prems(1) by (simp only: power_Suc)
  then have "dec_digits n = dec_digits (n div 10) @ [48 + int (n mod 10)]"
    by (simp only: dec_digits.simps [of n] if_False)
  ultimately show ?case by (simp only: pad_digits.simps(2) [of "Suc k"] zdiv_int zmod_int of_nat_numeral)
qed

lemma int_repr_year:
  assumes "1000 \<le> y" "y \<le> 9999"
  shows "int_repr y = pad_digits 4 y"
  using assms dec_digits_pad [of 3 "nat y"] by (simp add: int_repr_def)

lemma pad_digits_length [simp]: "length (pad_digits k n) = k"
  by (induction k n rule: pad_digits.induct) auto

lemma pad_digits_ascii: "list_all ascii_digit (pad_digits k n)"
  by (induction k n rule: pad_digits.induct) (auto simp: ascii_digit_def)

lemma pad_digits_value: "0 \<le> n \<Longrightarrow> n < 10 ^ k \<Longrightarrow> field_value (pad_digits k n) = n"
proof (induction k n rule: pad_digits.induct)
  case (2 k n)
  then have "field_value (pad_digits k (n div 10)) = n div 10" by (intro 2(1)) auto
  then show ?case by (simp add: field_value_snoc)
qed (simp add: field_value_def)

lemma pad_shape:
  "list_all2 (\<lambda>c p. if p = 100 then 48 \<le> c \<and> c \<le> 57 else c = p) (pad_digits k n) (replicate k 100)"
  using pad_digits_ascii [of k n]
  by (auto simp: list_all2_conv_all_nth list_all_length ascii_digit_def)

lemma shape_ascii:
  assumes "length s = 27 \<and> list_all2 (\<lambda>c p. if p = 100 then 48 \<le> c \<and> c \<le> 57 else c = p) s (lit ''dddd-dd-ddTdd:dd:dd.ddddddZ'')"
  shows "list_all (\<lambda>c. 0 \<le> c \<and> c < 128) s"
proof -
  have "\<forall>p\<in>set (lit ''dddd-dd-ddTdd:dd:dd.ddddddZ''). 0 \<le> p \<and> p < 128" by (simp add: lit_def)
  with assms show ?thesis unfolding list_all_length list_all2_conv_all_nth
    by (smt (verit) nth_mem)
qed

lemma strftime_shape:
  assumes "real_time d" "1000 \<le> dt_year d"
  shows "timestamp_shape (strftime_utc d)" "dt_aware d \<Longrightarrow> strptime_fields (strftime_utc d) = d"
proof -
  have y: "int_repr (dt_year d) = pad_digits 4 (dt_year d)"
    using assms by (intro int_repr_year) (auto simp: real_time_def)
  have p: "lit ''dddd-dd-ddTdd:dd:dd.ddddddZ'' = replicate 4 100 @ [45] @ replicate 2 100 @ [45] @ replicate 2 100 @ [84] @
    replicate 2 100 @ [58] @ replicate 2 100 @ [58] @ replicate 2 100 @ [46] @ replicate 6 100 @ [90]"
    by (simp add: lit_def numeral_eq_Suc)
  show "timestamp_shape (strftime_utc d)"
    unfolding timestamp_shape_def strftime_utc_def y p
    by (intro conjI list_all2_appendI pad_shape) auto
  assume "dt_aware d"
  have "dt_day d \<le> 31" using assms(1) by (auto simp: real_time_def days_in_month_def split: if_splits)
  then show "strptime_fields (strftime_utc d) = d"
    using assms \<open>dt_aware d\<close> unfolding strptime_fields_def strftime_utc_def y
    by (cases d) (simp add: pad_digits_value real_time_def)
qed
section \<open>Properties\<close>

text \<open>
  Timestamps: a timezone-aware time from year 1000 on is formatted to a text that
  \<open>_validate_timestamp\<close> accepts and that parses back to the same time, and comparing two such texts
  as strings, as all models and the policy do, compares the times.
\<close>

theorem timestamp_roundtrip_order:
  assumes "real_time d" "1000 \<le> dt_year d" "dt_aware d" "real_time e" "1000 \<le> dt_year e" "dt_aware e"
    and nfc: "\<And>s. list_all (\<lambda>c. 0 \<le> c \<and> c < 128) s \<Longrightarrow> p_nfc P s = s"
  shows "\<exists>s t. format_utc_timestamp d = Inr s \<and> format_utc_timestamp e = Inr t \<and>
    validate_timestamp P s = Inr s \<and> strptime_fields s = d \<and> (s < t \<longleftrightarrow> instant d < instant e)"
proof -
  note d = strftime_shape(1) [OF assms(1,2)] strftime_shape(2) [OF assms(1-3)]
  note e = strftime_shape(1) [OF assms(4,5)] strftime_shape(2) [OF assms(4-6)]
  have "list_all (\<lambda>c. 0 \<le> c \<and> c < 128) (strftime_utc d)"
    using shape_ascii d(1) unfolding timestamp_shape_def by blast
  then have "validate_timestamp P (strftime_utc d) = Inr (strftime_utc d)"
    using nfc d assms(1) by (auto simp: validate_timestamp_Inr list_all_iff scalar_value_def surrogate_def)
  with assms d e timestamp_less_iff [OF d(1) e(1)] show ?thesis
    by (auto simp: format_utc_timestamp_def)
qed

definition sample_time :: "int \<Rightarrow> datetime" where
  "sample_time us =
     \<lparr> dt_year = 2026, dt_month = 7, dt_day = 1, dt_hour = 12, dt_minute = 0, dt_second = 0, dt_micro = us,
       dt_aware = True \<rparr>"

theorem timestamp_roundtrip_order_witness:
  "real_time (sample_time 5) \<and>
   (\<exists>s t. format_utc_timestamp (sample_time 5) = Inr s \<and> format_utc_timestamp (sample_time 12) = Inr t \<and>
     validate_timestamp sample_prims s = Inr s \<and> strptime_fields s = sample_time 5 \<and>
     (s < t \<longleftrightarrow> instant (sample_time 5) < instant (sample_time 12)))"
proof -
  have r: "real_time (sample_time 5)" "real_time (sample_time 12)" by code_simp+
  have "\<exists>s t. format_utc_timestamp (sample_time 5) = Inr s \<and> format_utc_timestamp (sample_time 12) = Inr t \<and>
     validate_timestamp sample_prims s = Inr s \<and> strptime_fields s = sample_time 5 \<and>
     (s < t \<longleftrightarrow> instant (sample_time 5) < instant (sample_time 12))"
    by (rule timestamp_roundtrip_order) (use r in \<open>simp_all add: sample_time_def sample_prims_def\<close>)
  with r show ?thesis by blast
qed

text \<open>
  base64url: decoding inverts encoding, and every byte string has exactly one accepted text, so
  keys, pins and signatures cannot be respelled.
\<close>

theorem b64url_canonical:
  assumes "list_all is_byte b" "b \<noteq> []"
  shows "b64url_decode (int (length b)) s = Inr b \<longleftrightarrow> s = b64url_encode b"
  using b64url_decode_encode [OF assms] b64url_decode_Inr by blast

theorem b64url_canonical_witness:
  "list_all is_byte [255, 0, 254, 17] \<and>
   (b64url_decode 4 (lit ''_wD-EQ'') = Inr [255, 0, 254, 17] \<longleftrightarrow> lit ''_wD-EQ'' = b64url_encode [255, 0, 254, 17])"
  using b64url_canonical [of "[255, 0, 254, 17]" "lit ''_wD-EQ''"] by (simp add: is_byte_def)

end
