(* ===== verification/BCP_Net.thy ===== *)
theory BCP_Net
  imports BCP_Encoding
begin

text \<open>
  Canonical names of network endpoints: the part of Python's \<open>ipaddress\<close> module that
  \<^verbatim>\<open>app/models.py\<close>, \<^verbatim>\<open>app/action.py\<close> and \<^verbatim>\<open>app/policy.py\<close> use (\<open>ip_address\<close>,
  \<open>ip_network\<close>, \<open>compressed\<close>, \<open>with_prefixlen\<close>, membership), \<open>_canonical_host\<close>,
  \<open>_canonical_cidr\<close>, \<open>_canonical_path_prefix\<close>, the identifier pattern and the numeric field types.
  \<open>str.lower\<close> beyond ASCII is the parameter \<open>p_lower\<close>.
\<close>

section \<open>Splitting strings\<close>

fun split_on :: "int \<Rightarrow> pystr \<Rightarrow> pystr list" where
  "split_on sep [] = [[]]"
| "split_on sep (c # cs) =
     (if c = sep then [] # split_on sep cs
      else case split_on sep cs of [] \<Rightarrow> [[c]] | p # ps \<Rightarrow> (c # p) # ps)"

fun join_with :: "int \<Rightarrow> pystr list \<Rightarrow> pystr" where
  "join_with sep [] = []"
| "join_with sep [p] = p"
| "join_with sep (p # q # ps) = p @ [sep] @ join_with sep (q # ps)"

definition rstrip :: "int \<Rightarrow> pystr \<Rightarrow> pystr" where
  "rstrip c s = rev (dropWhile (\<lambda>x. x = c) (rev s))"

fun contains :: "pystr \<Rightarrow> pystr \<Rightarrow> bool" where
  "contains p [] \<longleftrightarrow> p = []"
| "contains p (c # cs) \<longleftrightarrow> take (length p) (c # cs) = p \<or> contains p cs"

definition str_startswith :: "pystr \<Rightarrow> pystr \<Rightarrow> bool" where
  "str_startswith s p \<longleftrightarrow> take (length p) s = p"

lemma split_on_nonempty [simp]: "split_on sep s \<noteq> []"
  by (induction s) (auto split: list.splits)

lemma join_split: "join_with sep (split_on sep s) = s"
proof (induction s)
  case (Cons c cs)
  show ?case
  proof (cases "split_on sep cs")
    case (Cons p ps)
    with \<open>join_with sep (split_on sep cs) = cs\<close> show ?thesis by (cases ps) auto
  qed simp
qed simp

section \<open>IP addresses\<close>

datatype ip_version = V4 | V6

record ip_addr =
  ip_version :: ip_version
  ip_int :: int
  ip_scope :: "pystr option"

definition max_prefixlen :: "ip_version \<Rightarrow> nat" where
  "max_prefixlen v = (case v of V4 \<Rightarrow> 32 | V6 \<Rightarrow> 128)"

definition parse_octet :: "pystr \<Rightarrow> int option" where
  "parse_octet s =
     (if s = [] \<or> \<not> list_all ascii_digit s \<or> length s > 3 \<or> (s \<noteq> [48] \<and> hd s = 48) \<or> field_value s > 255
      then None else Some (field_value s))"

definition ipv4_int :: "pystr \<Rightarrow> int option" where
  "ipv4_int s =
     (case map parse_octet (split_on 46 s) of
        [Some a, Some b, Some c, Some d] \<Rightarrow> Some (((a * 256 + b) * 256 + c) * 256 + d)
      | _ \<Rightarrow> None)"

definition hex_value_any :: "int \<Rightarrow> int option" where
  "hex_value_any c =
     (if 48 \<le> c \<and> c \<le> 57 then Some (c - 48)
      else if 97 \<le> c \<and> c \<le> 102 then Some (c - 87)
      else if 65 \<le> c \<and> c \<le> 70 then Some (c - 55)
      else None)"

text \<open>An empty hextet fails in \<open>int(hextet_str, 16)\<close>.\<close>

definition parse_hextet :: "pystr \<Rightarrow> int option" where
  "parse_hextet s =
     (if s = [] \<or> length s > 4 \<or> list_ex (\<lambda>c. hex_value_any c = None) s then None
      else Some (foldl (\<lambda>v c. 16 * v + the (hex_value_any c)) 0 s))"

function hex_repr :: "int \<Rightarrow> pystr" where
  "hex_repr n = (if n < 16 then [hex_digit n] else hex_repr (n div 16) @ [hex_digit (n mod 16)])"
  by pat_completeness auto
termination
  by (relation "measure nat") auto

declare hex_repr.simps [simp del]

definition parse_hextets :: "int \<Rightarrow> pystr list \<Rightarrow> int option" where
  "parse_hextets start parts =
     (if list_ex (\<lambda>p. parse_hextet p = None) parts then None
      else Some (foldl (\<lambda>v p. v * 65536 + the (parse_hextet p)) start parts))"

text \<open>The IPv4-style suffix of an IPv6 text, converted to two hextets.\<close>

definition expand_ipv4_suffix :: "pystr list \<Rightarrow> pystr list option" where
  "expand_ipv4_suffix parts =
     (if 46 \<in> set (last parts)
      then map_option (\<lambda>v. butlast parts @ [hex_repr (v div 65536), hex_repr (v mod 65536)])
             (ipv4_int (last parts))
      else Some parts)"

definition empty_inner :: "pystr list \<Rightarrow> nat list" where
  "empty_inner parts = filter (\<lambda>i. parts ! i = []) [1..<length parts - 1]"

definition ipv6_hextets :: "pystr list \<Rightarrow> int option" where
  "ipv6_hextets parts =
     (if length parts > 9 then None
      else case empty_inner parts of
             [] \<Rightarrow>
               if length parts \<noteq> 8 \<or> hd parts = [] \<or> last parts = [] then None
               else parse_hextets 0 parts
           | [skip] \<Rightarrow>
               (let hi = (if hd parts = [] then skip - 1 else skip);
                    lo = (if last parts = [] then length parts - skip - 2 else length parts - skip - 1)
                in if (hd parts = [] \<and> hi \<noteq> 0) \<or> (last parts = [] \<and> lo \<noteq> 0) then None
                   else if hi + lo \<ge> 8 then None
                   else case parse_hextets 0 (take hi parts) of
                          None \<Rightarrow> None
                        | Some v \<Rightarrow> parse_hextets (v * 65536 ^ (8 - (hi + lo))) (drop (length parts - lo) parts))
           | _ \<Rightarrow> None)"

definition ipv6_int :: "pystr \<Rightarrow> int option" where
  "ipv6_int s =
     (let parts = split_on 58 s
      in if length parts < 3 then None
         else case expand_ipv4_suffix parts of None \<Rightarrow> None | Some ps \<Rightarrow> ipv6_hextets ps)"

definition split_scope_id :: "pystr \<Rightarrow> (pystr \<times> pystr option) option" where
  "split_scope_id s =
     (case split_on 37 s of
        [a] \<Rightarrow> Some (a, None)
      | [a, scope] \<Rightarrow> (if scope = [] then None else Some (a, Some scope))
      | _ \<Rightarrow> None)"

definition ipv6_address :: "pystr \<Rightarrow> ip_addr option" where
  "ipv6_address s =
     (if 47 \<in> set s then None
      else case split_scope_id s of
             None \<Rightarrow> None
           | Some (a, scope) \<Rightarrow>
               map_option (\<lambda>v. \<lparr> ip_version = V6, ip_int = v, ip_scope = scope \<rparr>) (ipv6_int a))"

definition ipv4_address :: "pystr \<Rightarrow> ip_addr option" where
  "ipv4_address s =
     (if 47 \<in> set s then None
      else map_option (\<lambda>v. \<lparr> ip_version = V4, ip_int = v, ip_scope = None \<rparr>) (ipv4_int s))"

definition ip_address :: "pystr \<Rightarrow> ip_addr option" where
  "ip_address s = (case ipv4_address s of Some a \<Rightarrow> Some a | None \<Rightarrow> ipv6_address s)"

subsection \<open>Canonical spelling\<close>

definition ipv4_string :: "int \<Rightarrow> pystr" where
  "ipv4_string v =
     join_with 46 (map int_repr [v div 16777216, v div 65536 mod 256, v div 256 mod 256, v mod 256])"

definition hextets_of :: "int \<Rightarrow> pystr list" where
  "hextets_of v = map (\<lambda>i. hex_repr (v div 65536 ^ i mod 65536)) [7, 6, 5, 4, 3, 2, 1, 0]"

text \<open>The longest run of \<open>"0"\<close> hextets, the first one of that length: its start and length.\<close>

fun zero_run :: "nat \<Rightarrow> nat \<times> nat \<Rightarrow> nat \<times> nat \<Rightarrow> pystr list \<Rightarrow> nat \<times> nat" where
  "zero_run i (s, l) best [] = best"
| "zero_run i (s, l) (bs, bl) (h # hs) =
     (if h = [48] then
        (let s' = (if l = 0 then i else s) in
           zero_run (Suc i) (s', Suc l) (if Suc l > bl then (s', Suc l) else (bs, bl)) hs)
      else zero_run (Suc i) (0, 0) (bs, bl) hs)"

definition compress_hextets :: "pystr list \<Rightarrow> pystr list" where
  "compress_hextets hs =
     (case zero_run 0 (0, 0) (0, 0) hs of
        (s, l) \<Rightarrow>
          if l > 1 then
            (if s = 0 then [[]] else []) @ take s hs @ [[]] @ drop (s + l) hs @ (if s + l = length hs then [[]] else [])
          else hs)"

definition ipv6_string :: "int \<Rightarrow> pystr" where
  "ipv6_string v = join_with 58 (compress_hextets (hextets_of v))"

text \<open>
  The spelling of an address up to Python 3.12, the version of the project's image; from 3.13 on, an IPv4-mapped IPv6
  address is spelled with the dotted IPv4 address at its end.
\<close>

definition ip_compressed :: "ip_addr \<Rightarrow> pystr" where
  "ip_compressed a =
     (case ip_version a of
        V4 \<Rightarrow> ipv4_string (ip_int a)
      | V6 \<Rightarrow> ipv6_string (ip_int a) @ (case ip_scope a of None \<Rightarrow> [] | Some sc \<Rightarrow> 37 # sc))"

subsection \<open>Networks\<close>

record ip_net =
  net_address :: ip_addr
  net_prefixlen :: nat

definition host_span :: "ip_version \<Rightarrow> nat \<Rightarrow> int" where
  "host_span v p = 2 ^ (max_prefixlen v - p)"

text \<open>The address with its host bits cleared: \<open>ip & netmask\<close>.\<close>

definition mask_ip :: "ip_version \<Rightarrow> nat \<Rightarrow> int \<Rightarrow> int" where
  "mask_ip v p i = i div host_span v p * host_span v p"

definition all_ones :: "ip_version \<Rightarrow> int" where
  "all_ones v = 2 ^ max_prefixlen v - 1"

definition prefix_from_ip_int :: "ip_version \<Rightarrow> int \<Rightarrow> nat option" where
  "prefix_from_ip_int v i = find (\<lambda>p. mask_ip v p (all_ones v) = i) [0..<Suc (max_prefixlen v)]"

definition prefix_from_prefix_string :: "ip_version \<Rightarrow> pystr \<Rightarrow> nat option" where
  "prefix_from_prefix_string v s =
     (if s \<noteq> [] \<and> list_all ascii_digit s \<and> field_value s \<le> int (max_prefixlen v)
      then Some (nat (field_value s)) else None)"

definition prefix_from_ip_string :: "pystr \<Rightarrow> nat option" where
  "prefix_from_ip_string s =
     (case ipv4_int s of
        None \<Rightarrow> None
      | Some i \<Rightarrow>
          (case prefix_from_ip_int V4 i of
             Some p \<Rightarrow> Some p
           | None \<Rightarrow> prefix_from_ip_int V4 (all_ones V4 - i)))"

definition make_netmask :: "ip_version \<Rightarrow> pystr option \<Rightarrow> nat option" where
  "make_netmask v netmask =
     (case netmask of
        None \<Rightarrow> Some (max_prefixlen v)
      | Some s \<Rightarrow>
          (case prefix_from_prefix_string v s of
             Some p \<Rightarrow> Some p
           | None \<Rightarrow> (case v of V4 \<Rightarrow> prefix_from_ip_string s | V6 \<Rightarrow> None)))"

text \<open>
  \<open>_split_optional_netmask\<close> admits at most one slash. A well-formed address with host bits set
  raises a plain \<open>ValueError\<close>, which \<open>ip_network\<close> does not catch; every failure is a \<open>ValueError\<close>.
\<close>

datatype net_result = NoNet | HostBits | Net ip_net

definition make_network :: "ip_version \<Rightarrow> ip_addr option \<Rightarrow> pystr option \<Rightarrow> net_result" where
  "make_network v addr netmask =
     (case (addr, make_netmask v netmask) of
        (Some a, Some p) \<Rightarrow>
          if mask_ip v p (ip_int a) \<noteq> ip_int a then HostBits
          else Net \<lparr> net_address = a, net_prefixlen = p \<rparr>
      | _ \<Rightarrow> NoNet)"

definition ip_network :: "pystr \<Rightarrow> ip_net option" where
  "ip_network s =
     (case split_on 47 s of
        a # rest \<Rightarrow>
          if length rest > 1 then None
          else
            (let netmask = (case rest of [] \<Rightarrow> None | m # _ \<Rightarrow> Some m)
             in case make_network V4 (ipv4_address a) netmask of
                  Net n \<Rightarrow> Some n
                | HostBits \<Rightarrow> None
                | NoNet \<Rightarrow>
                    (case make_network V6 (ipv6_address a) netmask of Net n \<Rightarrow> Some n | _ \<Rightarrow> None))
      | [] \<Rightarrow> None)"

definition with_prefixlen :: "ip_net \<Rightarrow> pystr" where
  "with_prefixlen n = ip_compressed (net_address n) @ [47] @ int_repr (int (net_prefixlen n))"

definition net_contains :: "ip_net \<Rightarrow> ip_addr \<Rightarrow> bool" where
  "net_contains n a \<longleftrightarrow>
     ip_version (net_address n) = ip_version a \<and>
     mask_ip (ip_version a) (net_prefixlen n) (ip_int a) = ip_int (net_address n)"

section \<open>Canonical names\<close>

definition lower_alnum :: "int \<Rightarrow> bool" where
  "lower_alnum c \<longleftrightarrow> (97 \<le> c \<and> c \<le> 122) \<or> (48 \<le> c \<and> c \<le> 57)"

definition dns_label :: "pystr \<Rightarrow> bool" where
  "dns_label s \<longleftrightarrow>
     s \<noteq> [] \<and> length s \<le> 63 \<and> lower_alnum (hd s) \<and> lower_alnum (last s) \<and>
     list_all (\<lambda>c. lower_alnum c \<or> c = 45) s"

definition canonical_host :: "prims \<Rightarrow> pystr \<Rightarrow> pystr result" where
  "canonical_host P value =
     bind_result (require_nfc P value) (\<lambda>_.
       if value \<noteq> p_lower P value \<or> (value \<noteq> [] \<and> last value = 46) \<or> 42 \<in> set value
       then Inl (ValueError ''host must be lowercase, exact, and contain no wildcard'')
       else case ip_address value of
              Some a \<Rightarrow>
                if ip_compressed a \<noteq> value then Inl (ValueError ''IP address must use canonical spelling'')
                else Inr value
            | None \<Rightarrow>
                if \<not> list_all dns_label (split_on 46 value)
                then Inl (ValueError ''host must be an ASCII DNS name or canonical IP'')
                else if length value > 253 then Inl (ValueError ''DNS name is too long'')
                else Inr value)"

definition canonical_cidr :: "prims \<Rightarrow> pystr \<Rightarrow> pystr result" where
  "canonical_cidr P value =
     bind_result (require_nfc P value) (\<lambda>_.
       case ip_network value of
         None \<Rightarrow> Inl (ValueError ''CIDR must be a canonical network address'')
       | Some network \<Rightarrow>
           if with_prefixlen network \<noteq> value then Inl (ValueError ''CIDR must use canonical spelling'')
           else Inr value)"

text \<open>
  \<open>str(PurePosixPath(value))\<close>: the root (two leading slashes are kept, three or more collapse) and
  the components other than empty ones and \<open>"."\<close>.
\<close>

definition posix_path_str :: "pystr \<Rightarrow> pystr" where
  "posix_path_str s =
     (let root = (if str_startswith s [47, 47] \<and> \<not> str_startswith s [47, 47, 47] then [47, 47]
                  else if str_startswith s [47] then [47] else []);
          parts = filter (\<lambda>p. p \<noteq> [] \<and> p \<noteq> [46]) (split_on 47 s)
      in if root = [] \<and> parts = [] then [46] else root @ join_with 47 parts)"

definition dot_segment :: "pystr \<Rightarrow> bool" where
  "dot_segment p \<longleftrightarrow> p = [46] \<or> p = [46, 46]"

definition canonical_path_prefix :: "prims \<Rightarrow> pystr \<Rightarrow> pystr result" where
  "canonical_path_prefix P value =
     bind_result (require_nfc P value) (\<lambda>_.
       if \<not> str_startswith value [47] \<or> 63 \<in> set value \<or> 35 \<in> set value \<or> 92 \<in> set value
       then Inl (ValueError ''path prefix must be an absolute URL path only'')
       else if 37 \<in> set value
       then Inl (ValueError ''percent escapes are forbidden in manifest path prefixes'')
       else if contains [47, 47] value \<or> list_ex dot_segment (split_on 47 value)
       then Inl (ValueError ''path prefix must not contain empty or dot segments'')
       else if posix_path_str value \<noteq> rstrip 47 value \<and> value \<noteq> [47]
       then Inl (ValueError ''path prefix is not normalized'')
       else Inr value)"

definition opaque_id :: "pystr \<Rightarrow> bool" where
  "opaque_id s \<longleftrightarrow>
     s \<noteq> [] \<and> length s \<le> 128 \<and> lower_alnum (hd s) \<and>
     list_all (\<lambda>c. lower_alnum c \<or> c = 46 \<or> c = 95 \<or> c = 58 \<or> c = 45) (tl s)"

definition safe_nonneg :: "int \<Rightarrow> bool" where
  "safe_nonneg i \<longleftrightarrow> 0 \<le> i \<and> i \<le> MAX_SAFE_INTEGER"

definition safe_pos :: "int \<Rightarrow> bool" where
  "safe_pos i \<longleftrightarrow> 1 \<le> i \<and> i \<le> MAX_SAFE_INTEGER"

definition port_number :: "int \<Rightarrow> bool" where
  "port_number i \<longleftrightarrow> 1 \<le> i \<and> i \<le> 65535"

end
