(* ===== verification/BCP_Contract.thy ===== *)
theory BCP_Contract
  imports BCP_Net
begin

text \<open>
  Digests, signatures and the manifest of \<^verbatim>\<open>app/models.py\<close>: \<open>sha256_hex\<close>, \<open>domain_hash\<close>,
  \<open>signing_message\<close>, \<open>_private_key\<close>, \<open>_verify_signature\<close>, the signature and key models,
  \<open>EgressRule\<close>, \<open>CredentialGrant\<close>, \<open>KillCriteria\<close>, \<open>SecondHopAttestation\<close> and \<open>Manifest\<close>.

  A pydantic model is a record of its fields. \<open>validate_X\<close> is construction of the model from values
  of the declared types: every field constraint, field validator and model validator in the order of
  the source, a failure being a \<open>ValidationError\<close>. \<open>dump_X\<close> is \<open>model_dump\<close>, the value that is
  hashed. Fields of a \<open>Literal\<close> type with a single value are constants of the dump and have no field
  in the record. \<open>CanonicalTrue\<close> fields are kept as booleans that validation requires to be true.
\<close>

section \<open>Validation\<close>

fun validated :: "(bool \<times> string) list \<Rightarrow> 'a \<Rightarrow> 'a result" where
  "validated [] x = Inr x"
| "validated ((ok, msg) # cs) x = (if ok then validated cs x else Inl (ValidationError msg))"

definition is_ok :: "'a result \<Rightarrow> bool" where
  "is_ok r \<longleftrightarrow> (case r of Inl _ \<Rightarrow> False | Inr _ \<Rightarrow> True)"

lemma validated_Inr [simp]: "validated cs x = Inr y \<longleftrightarrow> y = x \<and> list_all fst cs"
  by (induction cs) (auto split: if_splits)

lemma validated_cases: "validated cs x = Inr x \<or> (\<exists>m. validated cs x = Inl (ValidationError m))"
  by (induction cs) (auto split: if_splits)

declare validated.simps(2) [simp del]

lemma is_ok_simps [simp]: "is_ok (Inr x)" "\<not> is_ok (Inl e)"
  by (simp_all add: is_ok_def)

lemma is_ok_iff: "is_ok r \<longleftrightarrow> (\<exists>x. r = Inr x)"
  by (cases r) auto

definition obj :: "(string \<times> pyval) list \<Rightarrow> pyval" where
  "obj fs = PMap (map (\<lambda>(k, v). (KStr (lit k), v)) fs)"

definition opt_str :: "pystr option \<Rightarrow> pyval" where
  "opt_str v = (case v of None \<Rightarrow> PNone | Some s \<Rightarrow> PStr s)"

definition opt_int :: "int option \<Rightarrow> pyval" where
  "opt_int v = (case v of None \<Rightarrow> PNone | Some i \<Rightarrow> PInt i)"

definition opt_all :: "('a \<Rightarrow> bool) \<Rightarrow> 'a option \<Rightarrow> bool" where
  "opt_all p v \<longleftrightarrow> (case v of None \<Rightarrow> True | Some x \<Rightarrow> p x)"

lemma opt_all_simps [simp]: "opt_all p None" "opt_all p (Some x) \<longleftrightarrow> p x"
  by (simp_all add: opt_all_def)

definition utc_timestamp :: "prims \<Rightarrow> pystr \<Rightarrow> bool" where
  "utc_timestamp P s \<longleftrightarrow> is_ok (validate_timestamp P s)"

section \<open>Digests and signing messages\<close>

definition PROTOCOL :: pystr where "PROTOCOL = lit ''BCP-1''"
definition SCHEMA_VERSION :: pystr where "SCHEMA_VERSION = lit ''1.0''"
definition GENESIS_HASH :: pystr where "GENESIS_HASH = replicate 64 48"

definition sha256_hex :: "prims \<Rightarrow> bytes \<Rightarrow> pystr" where
  "sha256_hex P value = hexdigest (p_sha256 P value)"

definition payload_sha256 :: "prims \<Rightarrow> pystr \<Rightarrow> pystr result" where
  "payload_sha256 P s = bind_result (utf8_encode s) (\<lambda>b. Inr (sha256_hex P b))"

definition domain_hash :: "prims \<Rightarrow> string \<Rightarrow> pyval \<Rightarrow> pystr result" where
  "domain_hash P domain value =
     bind_result (canonical_json_bytes P value) (\<lambda>b.
       Inr (sha256_hex P (PROTOCOL @ [0] @ lit domain @ [0] @ b)))"

definition signing_message :: "string \<Rightarrow> pystr \<Rightarrow> bytes result" where
  "signing_message domain digest =
     (if \<not> sha256_hex_text digest then Inl (ValueError ''digest must be lowercase SHA-256 hex'')
      else Inr (PROTOCOL @ [0] @ lit domain @ [0] @ lit ''SHA-256'' @ [0] @ fromhex digest))"

text \<open>
  What the protocol relies on from the hash function and the signature scheme: digests are 32 bytes,
  a signature is 64 bytes and verifies under the public key of the signing key.
\<close>

definition digest_ok :: "prims \<Rightarrow> bool" where
  "digest_ok P \<longleftrightarrow> (\<forall>b. length (p_sha256 P b) = 32 \<and> list_all is_byte (p_sha256 P b))"

definition signature_ok :: "prims \<Rightarrow> bool" where
  "signature_ok P \<longleftrightarrow>
     (\<forall>sk m. length sk = 32 \<and> list_all is_byte sk \<longrightarrow>
        length (p_sign P sk m) = 64 \<and> list_all is_byte (p_sign P sk m) \<and>
        length (p_public P sk) = 32 \<and> list_all is_byte (p_public P sk) \<and>
        p_verify P (p_public P sk) m (p_sign P sk m))"

lemma sha256_hex_ok: "digest_ok P \<Longrightarrow> sha256_hex_text (sha256_hex P b)"
  by (simp add: digest_ok_def sha256_hex_text_def sha256_hex_def hexdigest_lower)

lemma domain_hash_hex: "digest_ok P \<Longrightarrow> domain_hash P d v = Inr h \<Longrightarrow> sha256_hex_text h"
  by (auto simp: domain_hash_def sha256_hex_ok)

section \<open>Signatures and keys\<close>

record ed_signature =
  sig_key_id :: pystr
  sig_value :: pystr

record ed_public_key =
  key_id :: pystr
  key_value :: pystr

definition validate_signature :: "ed_signature \<Rightarrow> ed_signature result" where
  "validate_signature s =
     validated
       [(opaque_id (sig_key_id s), ''key_id''), (is_ok (b64url_decode 64 (sig_value s)), ''value'')] s"

definition dump_signature :: "ed_signature \<Rightarrow> pyval" where
  "dump_signature s =
     obj [(''key_id'', PStr (sig_key_id s)), (''algorithm'', PStr (lit ''Ed25519'')), (''value'', PStr (sig_value s))]"

definition signature_from_bytes :: "pystr \<Rightarrow> bytes \<Rightarrow> ed_signature result" where
  "signature_from_bytes kid value =
     (if length value \<noteq> 64 then Inl (ValueError ''Ed25519 signature must be 64 bytes'')
      else validate_signature \<lparr> sig_key_id = kid, sig_value = b64url_encode value \<rparr>)"

definition validate_public_key :: "ed_public_key \<Rightarrow> ed_public_key result" where
  "validate_public_key k =
     validated [(opaque_id (key_id k), ''key_id''), (is_ok (b64url_decode 32 (key_value k)), ''value'')] k"

definition dump_public_key :: "ed_public_key \<Rightarrow> pyval" where
  "dump_public_key k =
     obj [(''key_id'', PStr (key_id k)), (''algorithm'', PStr (lit ''Ed25519'')), (''value'', PStr (key_value k))]"

definition public_key_from_bytes :: "pystr \<Rightarrow> bytes \<Rightarrow> ed_public_key result" where
  "public_key_from_bytes kid value =
     (if length value \<noteq> 32 then Inl (ValueError ''Ed25519 public key must be 32 bytes'')
      else validate_public_key \<lparr> key_id = kid, key_value = b64url_encode value \<rparr>)"

definition sign_bytes :: "prims \<Rightarrow> bytes \<Rightarrow> bytes \<Rightarrow> bytes result" where
  "sign_bytes P private_key msg =
     (if length private_key \<noteq> 32 then Inl (TypeError ''private key must be Ed25519PrivateKey or 32 raw bytes'')
      else Inr (p_sign P private_key msg))"

definition verify_signature :: "prims \<Rightarrow> bytes \<Rightarrow> ed_signature \<Rightarrow> bytes \<Rightarrow> unit result" where
  "verify_signature P public_key s msg =
     (if length public_key \<noteq> 32 then Inl (TypeError ''public key must be Ed25519PublicKey or 32 raw bytes'')
      else bind_result (b64url_decode 64 (sig_value s)) (\<lambda>sb.
        if p_verify P public_key msg sb then Inr () else Inl (ValueError ''invalid Ed25519 signature'')))"

text \<open>\<open>sign\<close> of every envelope: hash, sign the domain-separated message, wrap the signature.\<close>

definition sign_digest :: "prims \<Rightarrow> string \<Rightarrow> pystr \<Rightarrow> bytes \<Rightarrow> pystr \<Rightarrow> ed_signature result" where
  "sign_digest P domain kid private_key digest =
     bind_result (signing_message domain digest) (\<lambda>msg.
     bind_result (sign_bytes P private_key msg) (\<lambda>sb.
       signature_from_bytes kid sb))"

definition verify_digest :: "prims \<Rightarrow> string \<Rightarrow> ed_public_key \<Rightarrow> ed_signature \<Rightarrow> pystr \<Rightarrow> unit result" where
  "verify_digest P domain k s digest =
     bind_result (b64url_decode 32 (key_value k)) (\<lambda>pk.
     bind_result (signing_message domain digest) (\<lambda>msg.
       verify_signature P pk s msg))"

lemma b64url_decode_length: "b64url_decode n s = Inr b \<Longrightarrow> int (length b) = n"
  by (auto dest: b64url_decode_Inr)

lemma verify_sign_digest:
  assumes "signature_ok P" "length sk = 32" "list_all is_byte sk" "opaque_id kid" "sha256_hex_text digest"
    "key_value k = b64url_encode (p_public P sk)"
  shows "\<exists>s. sign_digest P domain kid sk digest = Inr s \<and> sig_key_id s = kid \<and> verify_digest P domain k s digest = Inr ()"
proof -
  let ?m = "PROTOCOL @ [0] @ lit domain @ [0] @ lit ''SHA-256'' @ [0] @ fromhex digest"
  have p: "length (p_sign P sk ?m) = 64" "list_all is_byte (p_sign P sk ?m)" "length (p_public P sk) = 32"
    "list_all is_byte (p_public P sk)" "p_verify P (p_public P sk) ?m (p_sign P sk ?m)"
    using assms(1-3) by (simp_all add: signature_ok_def)
  have s: "b64url_decode 64 (b64url_encode (p_sign P sk ?m)) = Inr (p_sign P sk ?m)"
    using p by (intro b64url_decode_encode) auto
  have k: "b64url_decode 32 (key_value k) = Inr (p_public P sk)"
    unfolding assms(6) using p by (intro b64url_decode_encode) auto
  have "sign_digest P domain kid sk digest = Inr \<lparr> sig_key_id = kid, sig_value = b64url_encode (p_sign P sk ?m) \<rparr>"
    using assms p s
    by (simp add: sign_digest_def signing_message_def sign_bytes_def signature_from_bytes_def validate_signature_def)
  moreover have "verify_digest P domain k \<lparr> sig_key_id = kid, sig_value = b64url_encode (p_sign P sk ?m) \<rparr> digest = Inr ()"
    using assms p s k by (simp add: verify_digest_def signing_message_def verify_signature_def)
  ultimately show ?thesis by simp
qed

section \<open>Manifest components\<close>

datatype http_method = DELETE | GET | HEAD | PATCH | POST | PUT

definition method_name :: "http_method \<Rightarrow> pystr" where
  "method_name m = lit (case m of DELETE \<Rightarrow> ''DELETE'' | GET \<Rightarrow> ''GET'' | HEAD \<Rightarrow> ''HEAD'' |
     PATCH \<Rightarrow> ''PATCH'' | POST \<Rightarrow> ''POST'' | PUT \<Rightarrow> ''PUT'')"

definition str_tuple :: "pystr list \<Rightarrow> pyval" where
  "str_tuple ss = PSeq (map PStr ss)"

record egress_rule =
  rule_id :: pystr
  rule_host :: pystr
  rule_port :: int
  rule_methods :: "http_method list"
  path_prefixes :: "pystr list"
  resolved_ip_cidrs :: "pystr list"
  rule_tls_spki_sha256 :: "pystr list"
  max_requests :: int
  max_request_bytes :: int
  max_response_bytes :: int

definition validate_egress_rule :: "prims \<Rightarrow> egress_rule \<Rightarrow> egress_rule result" where
  "validate_egress_rule P r =
     validated
       [(opaque_id (rule_id r), ''rule_id''),
        (is_ok (canonical_host P (rule_host r)), ''host''),
        (port_number (rule_port r), ''port''),
        (rule_methods r \<noteq> [], ''methods''),
        (strictly_sorted (map method_name (rule_methods r)), ''methods must be sorted and contain no duplicates''),
        (path_prefixes r \<noteq> [] \<and> list_all (\<lambda>p. is_ok (canonical_path_prefix P p)) (path_prefixes r), ''path_prefixes''),
        (strictly_sorted (path_prefixes r), ''manifest lists must be sorted and contain no duplicates''),
        (resolved_ip_cidrs r \<noteq> [] \<and> list_all (\<lambda>c. is_ok (canonical_cidr P c)) (resolved_ip_cidrs r), ''resolved_ip_cidrs''),
        (strictly_sorted (resolved_ip_cidrs r), ''manifest lists must be sorted and contain no duplicates''),
        (strictly_sorted (rule_tls_spki_sha256 r), ''manifest lists must be sorted and contain no duplicates''),
        (list_all (\<lambda>p. is_ok (b64url_decode 32 p)) (rule_tls_spki_sha256 r), ''tls_spki_sha256''),
        (safe_pos (max_requests r), ''max_requests''),
        (safe_pos (max_request_bytes r), ''max_request_bytes''),
        (safe_pos (max_response_bytes r), ''max_response_bytes''),
        (rule_tls_spki_sha256 r \<noteq> [], ''HTTPS rules require at least one TLS SPKI SHA-256 pin'')] r"

definition dump_egress_rule :: "egress_rule \<Rightarrow> pyval" where
  "dump_egress_rule r =
     obj [(''rule_id'', PStr (rule_id r)), (''scheme'', PStr (lit ''https'')), (''host'', PStr (rule_host r)),
          (''port'', PInt (rule_port r)), (''methods'', str_tuple (map method_name (rule_methods r))),
          (''path_prefixes'', str_tuple (path_prefixes r)),
          (''resolved_ip_cidrs'', str_tuple (resolved_ip_cidrs r)),
          (''tls_spki_sha256'', str_tuple (rule_tls_spki_sha256 r)),
          (''max_requests'', PInt (max_requests r)),
          (''max_request_bytes'', PInt (max_request_bytes r)),
          (''max_response_bytes'', PInt (max_response_bytes r))]"

record credential_grant =
  credential_id :: pystr
  broker_ref :: pystr
  audience :: pystr
  allowed_rule_ids :: "pystr list"
  scopes :: "pystr list"
  grant_expires_at :: pystr
  max_uses :: int
  is_canary :: bool

definition validate_credential_grant :: "prims \<Rightarrow> credential_grant \<Rightarrow> credential_grant result" where
  "validate_credential_grant P g =
     validated
       [(opaque_id (credential_id g), ''credential_id''),
        (opaque_id (broker_ref g), ''broker_ref''),
        (is_ok (canonical_host P (audience g)), ''audience''),
        (allowed_rule_ids g \<noteq> [] \<and> list_all opaque_id (allowed_rule_ids g), ''allowed_rule_ids''),
        (list_all (\<lambda>s. is_ok (require_nfc P s)) (allowed_rule_ids g @ scopes g), ''credential grant value''),
        (strictly_sorted (allowed_rule_ids g), ''credential grant values must be sorted and contain no duplicates''),
        (strictly_sorted (scopes g), ''credential grant values must be sorted and contain no duplicates''),
        (utc_timestamp P (grant_expires_at g), ''expires_at''),
        (safe_pos (max_uses g), ''max_uses'')] g"

definition dump_credential_grant :: "credential_grant \<Rightarrow> pyval" where
  "dump_credential_grant g =
     obj [(''credential_id'', PStr (credential_id g)), (''broker_ref'', PStr (broker_ref g)),
          (''audience'', PStr (audience g)), (''allowed_rule_ids'', str_tuple (allowed_rule_ids g)),
          (''scopes'', str_tuple (scopes g)), (''expires_at'', PStr (grant_expires_at g)),
          (''max_uses'', PInt (max_uses g)), (''is_canary'', PBool (is_canary g))]"

record kill_criteria =
  deny_is_kill :: bool
  max_runtime_ms :: int
  max_total_events :: int
  max_admitted_requests :: int
  max_inflight_requests :: int
  max_requests_per_window :: int
  rate_window_ms :: int
  max_queued_events :: int
  max_event_payload_bytes :: int
  max_total_egress_bytes :: int
  supervisor_kill_latency_sla_ms :: int

definition validate_kill_criteria :: "kill_criteria \<Rightarrow> kill_criteria result" where
  "validate_kill_criteria k =
     validated
       [(deny_is_kill k, ''value must be the JSON boolean true''),
        (safe_pos (max_runtime_ms k), ''max_runtime_ms''),
        (safe_pos (max_total_events k), ''max_total_events''),
        (safe_pos (max_admitted_requests k), ''max_admitted_requests''),
        (safe_pos (max_inflight_requests k), ''max_inflight_requests''),
        (safe_pos (max_requests_per_window k), ''max_requests_per_window''),
        (safe_pos (rate_window_ms k), ''rate_window_ms''),
        (safe_pos (max_queued_events k), ''max_queued_events''),
        (safe_pos (max_event_payload_bytes k), ''max_event_payload_bytes''),
        (safe_pos (max_total_egress_bytes k), ''max_total_egress_bytes''),
        (safe_pos (supervisor_kill_latency_sla_ms k), ''supervisor_kill_latency_sla_ms''),
        (max_event_payload_bytes k \<le> MAX_EVENT_PAYLOAD_BYTES, ''max_event_payload_bytes exceeds protocol hard limit''),
        (max_requests_per_window k \<le> max_admitted_requests k, ''max_requests_per_window cannot exceed max_admitted_requests''),
        (max_inflight_requests k \<le> max_admitted_requests k, ''max_inflight_requests cannot exceed max_admitted_requests''),
        (max_queued_events k \<le> max_total_events k, ''max_queued_events cannot exceed max_total_events'')] k"

definition dump_kill_criteria :: "kill_criteria \<Rightarrow> pyval" where
  "dump_kill_criteria k =
     obj [(''deny_is_kill'', PBool (deny_is_kill k)), (''max_runtime_ms'', PInt (max_runtime_ms k)),
          (''max_total_events'', PInt (max_total_events k)),
          (''max_admitted_requests'', PInt (max_admitted_requests k)),
          (''max_inflight_requests'', PInt (max_inflight_requests k)),
          (''max_requests_per_window'', PInt (max_requests_per_window k)),
          (''rate_window_ms'', PInt (rate_window_ms k)),
          (''max_queued_events'', PInt (max_queued_events k)),
          (''max_event_payload_bytes'', PInt (max_event_payload_bytes k)),
          (''max_total_egress_bytes'', PInt (max_total_egress_bytes k)),
          (''supervisor_kill_latency_sla_ms'', PInt (supervisor_kill_latency_sla_ms k))]"

section \<open>Second-hop attestations\<close>

record second_hop_body =
  sh_run_id :: pystr
  sh_provider_id :: pystr
  sh_provider_key_id :: pystr
  sh_endpoint_host :: pystr
  sh_accountable_org :: pystr
  sh_responsible_operator :: pystr
  sh_security_contact :: pystr
  sh_issued_at :: pystr
  sh_expires_at :: pystr
  sh_evidence_sha256 :: "pystr list"
  sh_authenticated :: bool
  sh_non_root_workload :: bool
  sh_tenant_isolation :: bool
  sh_default_deny_egress :: bool
  sh_no_ambient_secrets :: bool
  sh_bounded_requests :: bool
  sh_abuse_monitoring :: bool
  sh_automatic_containment_authorized :: bool
  sh_evidence_exchange_required :: bool

definition validate_second_hop_body :: "prims \<Rightarrow> second_hop_body \<Rightarrow> second_hop_body result" where
  "validate_second_hop_body P b =
     validated
       [(list_all opaque_id [sh_run_id b, sh_provider_id b, sh_provider_key_id b], ''opaque id''),
        (is_ok (canonical_host P (sh_endpoint_host b)), ''endpoint_host''),
        (list_all opaque_id [sh_accountable_org b, sh_responsible_operator b], ''opaque id''),
        (is_ok (require_nfc P (sh_security_contact b)), ''second-hop security contact''),
        (utc_timestamp P (sh_issued_at b), ''issued_at''),
        (utc_timestamp P (sh_expires_at b), ''expires_at''),
        (list_all sha256_hex_text (sh_evidence_sha256 b), ''evidence_sha256''),
        (sh_authenticated b \<and> sh_non_root_workload b \<and> sh_tenant_isolation b \<and> sh_default_deny_egress b \<and>
         sh_no_ambient_secrets b \<and> sh_bounded_requests b \<and> sh_abuse_monitoring b \<and>
         sh_automatic_containment_authorized b \<and> sh_evidence_exchange_required b,
         ''value must be the JSON boolean true''),
        (sh_issued_at b < sh_expires_at b, ''second-hop evidence must expire after issue''),
        (sh_evidence_sha256 b \<noteq> [], ''second-hop evidence requires at least one digest''),
        (strictly_sorted (sh_evidence_sha256 b), ''second-hop evidence digests must be sorted and contain no duplicates'')] b"

definition dump_second_hop_body :: "second_hop_body \<Rightarrow> pyval" where
  "dump_second_hop_body b =
     obj [(''run_id'', PStr (sh_run_id b)), (''provider_id'', PStr (sh_provider_id b)),
          (''provider_key_id'', PStr (sh_provider_key_id b)), (''endpoint_host'', PStr (sh_endpoint_host b)),
          (''accountable_org'', PStr (sh_accountable_org b)),
          (''responsible_operator'', PStr (sh_responsible_operator b)),
          (''security_contact'', PStr (sh_security_contact b)), (''issued_at'', PStr (sh_issued_at b)),
          (''expires_at'', PStr (sh_expires_at b)), (''evidence_sha256'', str_tuple (sh_evidence_sha256 b)),
          (''authenticated'', PBool (sh_authenticated b)),
          (''non_root_workload'', PBool (sh_non_root_workload b)),
          (''tenant_isolation'', PBool (sh_tenant_isolation b)),
          (''default_deny_egress'', PBool (sh_default_deny_egress b)),
          (''no_ambient_secrets'', PBool (sh_no_ambient_secrets b)),
          (''bounded_requests'', PBool (sh_bounded_requests b)),
          (''abuse_monitoring'', PBool (sh_abuse_monitoring b)),
          (''automatic_containment_authorized'', PBool (sh_automatic_containment_authorized b)),
          (''evidence_exchange_required'', PBool (sh_evidence_exchange_required b))]"

record second_hop =
  hop_body :: second_hop_body
  hop_provider_key :: ed_public_key
  hop_attestation_hash :: pystr
  hop_provider_signature :: ed_signature

definition validate_second_hop :: "prims \<Rightarrow> second_hop \<Rightarrow> second_hop result" where
  "validate_second_hop P h =
     validated
       [(sha256_hex_text (hop_attestation_hash h), ''attestation_hash''),
        (key_id (hop_provider_key h) = sh_provider_key_id (hop_body h), ''second-hop provider key ID does not match body''),
        (sig_key_id (hop_provider_signature h) = sh_provider_key_id (hop_body h), ''second-hop signature key ID does not match body''),
        (domain_hash P ''SECOND-HOP-ATTESTATION-HASH'' (dump_second_hop_body (hop_body h)) = Inr (hop_attestation_hash h),
         ''second-hop attestation hash does not match body'')] h"

definition dump_second_hop :: "second_hop \<Rightarrow> pyval" where
  "dump_second_hop h =
     obj [(''body'', dump_second_hop_body (hop_body h)), (''provider_key'', dump_public_key (hop_provider_key h)),
          (''attestation_hash'', PStr (hop_attestation_hash h)),
          (''provider_signature'', dump_signature (hop_provider_signature h))]"

definition sign_second_hop :: "prims \<Rightarrow> second_hop_body \<Rightarrow> bytes \<Rightarrow> ed_public_key \<Rightarrow> second_hop result" where
  "sign_second_hop P body private_key provider_key =
     bind_result (domain_hash P ''SECOND-HOP-ATTESTATION-HASH'' (dump_second_hop_body body)) (\<lambda>digest.
     bind_result (sign_digest P ''SECOND-HOP-ATTESTATION-SIGNATURE'' (sh_provider_key_id body) private_key digest) (\<lambda>s.
       validate_second_hop P
         \<lparr> hop_body = body, hop_provider_key = provider_key, hop_attestation_hash = digest, hop_provider_signature = s \<rparr>))"

definition verify_second_hop :: "prims \<Rightarrow> second_hop \<Rightarrow> unit result" where
  "verify_second_hop P h =
     verify_digest P ''SECOND-HOP-ATTESTATION-SIGNATURE'' (hop_provider_key h) (hop_provider_signature h) (hop_attestation_hash h)"

section \<open>The manifest\<close>

record manifest_body =
  mb_manifest_id :: pystr
  mb_run_id :: pystr
  mb_issued_at :: pystr
  mb_not_before :: pystr
  mb_expires_at :: pystr
  mb_operator_key_id :: pystr
  mb_gateway_key :: ed_public_key
  mb_supervisor_key :: ed_public_key
  mb_witness_key :: ed_public_key
  mb_allowed_egress :: "egress_rule list"
  mb_credentials :: "credential_grant list"
  mb_second_hops :: "second_hop list"
  mb_kill_criteria :: kill_criteria

text \<open>\<open>rules[rule_id]\<close> of the dictionary built from the rules; the identifiers are distinct.\<close>

definition find_rule :: "egress_rule list \<Rightarrow> pystr \<Rightarrow> egress_rule option" where
  "find_rule rules i = find (\<lambda>r. rule_id r = i) rules"

definition grant_matches_rules :: "egress_rule list \<Rightarrow> credential_grant \<Rightarrow> bool" where
  "grant_matches_rules rules g \<longleftrightarrow>
     list_all (\<lambda>i. case find_rule rules i of None \<Rightarrow> False | Some r \<Rightarrow> rule_host r = audience g) (allowed_rule_ids g)"

definition validate_manifest_body :: "prims \<Rightarrow> manifest_body \<Rightarrow> manifest_body result" where
  "validate_manifest_body P m =
     validated
       [(opaque_id (mb_manifest_id m), ''manifest_id''),
        (opaque_id (mb_run_id m), ''run_id''),
        (utc_timestamp P (mb_issued_at m), ''issued_at''),
        (utc_timestamp P (mb_not_before m), ''not_before''),
        (utc_timestamp P (mb_expires_at m), ''expires_at''),
        (opaque_id (mb_operator_key_id m), ''operator_key_id''),
        (strictly_sorted (map rule_id (mb_allowed_egress m)), ''egress rule IDs must be sorted and contain no duplicates''),
        (strictly_sorted (map credential_id (mb_credentials m)), ''credential IDs must be sorted and contain no duplicates''),
        (strictly_sorted (map (\<lambda>h. sh_provider_id (hop_body h)) (mb_second_hops m)),
         ''second-hop provider IDs must be sorted and contain no duplicates''),
        (mb_not_before m < mb_expires_at m, ''not_before must be earlier than expires_at''),
        (mb_issued_at m \<le> mb_not_before m, ''issued_at must not be later than not_before''),
        (distinct [mb_operator_key_id m, key_id (mb_gateway_key m), key_id (mb_supervisor_key m), key_id (mb_witness_key m)],
         ''operator, gateway, supervisor, and witness keys must be distinct''),
        (list_all (grant_matches_rules (mb_allowed_egress m)) (mb_credentials m),
         ''credential references unknown egress rule or audience does not match''),
        (list_all (\<lambda>g. grant_expires_at g \<le> mb_expires_at m) (mb_credentials m),
         ''credential expiry exceeds manifest expiry'')] m"

definition dump_manifest_body :: "manifest_body \<Rightarrow> pyval" where
  "dump_manifest_body m =
     obj [(''protocol'', PStr PROTOCOL), (''schema_version'', PStr SCHEMA_VERSION),
          (''manifest_id'', PStr (mb_manifest_id m)), (''run_id'', PStr (mb_run_id m)),
          (''issued_at'', PStr (mb_issued_at m)), (''not_before'', PStr (mb_not_before m)),
          (''expires_at'', PStr (mb_expires_at m)), (''operator_key_id'', PStr (mb_operator_key_id m)),
          (''gateway_key'', dump_public_key (mb_gateway_key m)),
          (''supervisor_key'', dump_public_key (mb_supervisor_key m)),
          (''witness_key'', dump_public_key (mb_witness_key m)),
          (''allowed_egress'', PSeq (map dump_egress_rule (mb_allowed_egress m))),
          (''credentials'', PSeq (map dump_credential_grant (mb_credentials m))),
          (''second_hops'', PSeq (map dump_second_hop (mb_second_hops m))),
          (''kill_criteria'', dump_kill_criteria (mb_kill_criteria m))]"

record manifest =
  m_body :: manifest_body
  m_hash :: pystr
  m_signature :: ed_signature

definition validate_manifest :: "prims \<Rightarrow> manifest \<Rightarrow> manifest result" where
  "validate_manifest P m =
     validated
       [(sha256_hex_text (m_hash m), ''manifest_hash''),
        (domain_hash P ''MANIFEST-HASH'' (dump_manifest_body (m_body m)) = Inr (m_hash m),
         ''manifest_hash does not match manifest body''),
        (sig_key_id (m_signature m) = mb_operator_key_id (m_body m), ''operator signature key ID does not match manifest'')] m"

fun verify_second_hops :: "prims \<Rightarrow> manifest_body \<Rightarrow> second_hop list \<Rightarrow> unit result" where
  "verify_second_hops P body [] = Inr ()"
| "verify_second_hops P body (a # rest) =
     bind_result (verify_second_hop P a) (\<lambda>_.
       if sh_run_id (hop_body a) \<noteq> mb_run_id body
       then Inl (ValueError ''second-hop attestation is bound to another run'')
       else if sh_issued_at (hop_body a) > mb_not_before body \<or> sh_expires_at (hop_body a) < mb_expires_at body
       then Inl (ValueError ''second-hop attestation does not cover the manifest lifetime'')
       else verify_second_hops P body rest)"

definition sign_manifest :: "prims \<Rightarrow> manifest_body \<Rightarrow> bytes \<Rightarrow> manifest result" where
  "sign_manifest P body private_key =
     bind_result (verify_second_hops P body (mb_second_hops body)) (\<lambda>_.
     bind_result (domain_hash P ''MANIFEST-HASH'' (dump_manifest_body body)) (\<lambda>digest.
     bind_result (sign_digest P ''MANIFEST-SIGNATURE'' (mb_operator_key_id body) private_key digest) (\<lambda>s.
       validate_manifest P \<lparr> m_body = body, m_hash = digest, m_signature = s \<rparr>)))"

definition verify_manifest :: "prims \<Rightarrow> bytes \<Rightarrow> manifest \<Rightarrow> unit result" where
  "verify_manifest P operator_public_key m =
     bind_result (signing_message ''MANIFEST-SIGNATURE'' (m_hash m)) (\<lambda>msg.
     bind_result (verify_signature P operator_public_key (m_signature m) msg) (\<lambda>_.
       verify_second_hops P (m_body m) (mb_second_hops (m_body m))))"

text \<open>Limits used in the examples.\<close>

definition sample_criteria :: kill_criteria where
  "sample_criteria =
     \<lparr> deny_is_kill = True, max_runtime_ms = 1000, max_total_events = 20, max_admitted_requests = 4,
       max_inflight_requests = 1, max_requests_per_window = 3, rate_window_ms = 100, max_queued_events = 5,
       max_event_payload_bytes = 4096, max_total_egress_bytes = 500, supervisor_kill_latency_sla_ms = 50 \<rparr>"

end
