(* ===== verification/BCP_Records.thy ===== *)
theory BCP_Records
  imports BCP_Contract BCP_Json_Parse
begin

text \<open>
  The run records of \<^verbatim>\<open>app/models.py\<close>: event payloads, \<open>EventBody\<close> and \<open>Event\<close>,
  \<open>DecisionBody\<close> and \<open>Decision\<close>, \<open>KillAcknowledgement\<close>, \<open>WitnessCheckpoint\<close>, \<open>ReceiptBody\<close>
  and \<open>Receipt\<close> with \<open>verify_against\<close>. Conventions are those of the manifest models.
\<close>

section \<open>Event payloads\<close>

datatype event_kind =
    REQUEST | DECISION | DISPATCH | RESULT | CANCELLATION | VIOLATION
  | KILL_REQUESTED | KILL_ACKNOWLEDGED | OVERLOAD_SUMMARY

definition event_kind_name :: "event_kind \<Rightarrow> pystr" where
  "event_kind_name k = lit (case k of
     REQUEST \<Rightarrow> ''REQUEST'' | DECISION \<Rightarrow> ''DECISION'' | DISPATCH \<Rightarrow> ''DISPATCH'' | RESULT \<Rightarrow> ''RESULT''
   | CANCELLATION \<Rightarrow> ''CANCELLATION'' | VIOLATION \<Rightarrow> ''VIOLATION'' | KILL_REQUESTED \<Rightarrow> ''KILL_REQUESTED''
   | KILL_ACKNOWLEDGED \<Rightarrow> ''KILL_ACKNOWLEDGED'' | OVERLOAD_SUMMARY \<Rightarrow> ''OVERLOAD_SUMMARY'')"

record dispatch_payload =
  dp_action_sha256 :: pystr
  dp_authorization_id :: pystr
  dp_decision_hash :: pystr
  dp_kill_epoch :: int

definition validate_dispatch_payload :: "dispatch_payload \<Rightarrow> dispatch_payload result" where
  "validate_dispatch_payload p =
     validated
       [(sha256_hex_text (dp_action_sha256 p), ''action_sha256''), (opaque_id (dp_authorization_id p), ''authorization_id''),
        (sha256_hex_text (dp_decision_hash p), ''decision_hash''), (safe_nonneg (dp_kill_epoch p), ''kill_epoch'')] p"

definition dump_dispatch_payload :: "dispatch_payload \<Rightarrow> pyval" where
  "dump_dispatch_payload p =
     obj [(''action_sha256'', PStr (dp_action_sha256 p)), (''authorization_id'', PStr (dp_authorization_id p)),
          (''decision_hash'', PStr (dp_decision_hash p)), (''kill_epoch'', PInt (dp_kill_epoch p))]"

record result_payload =
  rp_action_sha256 :: pystr
  rp_authorization_id :: pystr
  rp_decision_hash :: pystr
  rp_kill_epoch :: int
  rp_response_bytes :: int
  rp_response_sha256 :: pystr
  rp_status_code :: int

definition validate_result_payload :: "result_payload \<Rightarrow> result_payload result" where
  "validate_result_payload p =
     validated
       [(sha256_hex_text (rp_action_sha256 p), ''action_sha256''), (opaque_id (rp_authorization_id p), ''authorization_id''),
        (sha256_hex_text (rp_decision_hash p), ''decision_hash''), (safe_nonneg (rp_kill_epoch p), ''kill_epoch''),
        (safe_nonneg (rp_response_bytes p), ''response_bytes''), (sha256_hex_text (rp_response_sha256 p), ''response_sha256''),
        (100 \<le> rp_status_code p \<and> rp_status_code p \<le> 599, ''status_code'')] p"

definition dump_result_payload :: "result_payload \<Rightarrow> pyval" where
  "dump_result_payload p =
     obj [(''action_sha256'', PStr (rp_action_sha256 p)), (''authorization_id'', PStr (rp_authorization_id p)),
          (''decision_hash'', PStr (rp_decision_hash p)), (''kill_epoch'', PInt (rp_kill_epoch p)),
          (''response_bytes'', PInt (rp_response_bytes p)), (''response_sha256'', PStr (rp_response_sha256 p)),
          (''status_code'', PInt (rp_status_code p))]"

datatype cancellation_status = SIGNALLED | CONFIRMED

record cancellation_payload =
  cp_action_sha256 :: pystr
  cp_authorization_id :: pystr
  cp_decision_hash :: pystr
  cp_kill_epoch :: int
  cp_status :: cancellation_status
  cp_evidence_sha256 :: "pystr option"

definition validate_cancellation_payload :: "cancellation_payload \<Rightarrow> cancellation_payload result" where
  "validate_cancellation_payload p =
     validated
       [(sha256_hex_text (cp_action_sha256 p), ''action_sha256''), (opaque_id (cp_authorization_id p), ''authorization_id''),
        (sha256_hex_text (cp_decision_hash p), ''decision_hash''), (safe_nonneg (cp_kill_epoch p), ''kill_epoch''),
        (opt_all sha256_hex_text (cp_evidence_sha256 p), ''evidence_sha256''),
        (\<not> (cp_status p = CONFIRMED \<and> cp_evidence_sha256 p = None), ''confirmed cancellation requires evidence''),
        (\<not> (cp_status p = SIGNALLED \<and> cp_evidence_sha256 p \<noteq> None),
         ''a cancellation signal cannot carry confirmation evidence'')] p"

definition dump_cancellation_payload :: "cancellation_payload \<Rightarrow> pyval" where
  "dump_cancellation_payload p =
     obj [(''action_sha256'', PStr (cp_action_sha256 p)), (''authorization_id'', PStr (cp_authorization_id p)),
          (''decision_hash'', PStr (cp_decision_hash p)), (''kill_epoch'', PInt (cp_kill_epoch p)),
          (''status'', PStr (lit (case cp_status p of SIGNALLED \<Rightarrow> ''SIGNALLED'' | CONFIRMED \<Rightarrow> ''CONFIRMED''))),
          (''evidence_sha256'', opt_str (cp_evidence_sha256 p))]"

record violation_payload =
  vp_reason_code :: pystr
  vp_raw_bytes :: "int option"
  vp_raw_sha256 :: "pystr option"
  vp_action_sha256 :: "pystr option"
  vp_decision_hash :: "pystr option"

definition validate_violation_payload :: "violation_payload \<Rightarrow> violation_payload result" where
  "validate_violation_payload p =
     validated
       [(opaque_id (vp_reason_code p), ''reason_code''), (opt_all safe_nonneg (vp_raw_bytes p), ''raw_bytes''),
        (opt_all sha256_hex_text (vp_raw_sha256 p), ''raw_sha256''), (opt_all sha256_hex_text (vp_action_sha256 p), ''action_sha256''),
        (opt_all sha256_hex_text (vp_decision_hash p), ''decision_hash''),
        ((vp_raw_bytes p = None) = (vp_raw_sha256 p = None), ''raw violation fields must be supplied together''),
        ((vp_action_sha256 p = None) = (vp_decision_hash p = None), ''action violation fields must be supplied together''),
        (\<not> (vp_raw_bytes p \<noteq> None \<and> vp_action_sha256 p \<noteq> None), ''violation cannot mix raw and action bindings'')] p"

definition dump_violation_payload :: "violation_payload \<Rightarrow> pyval" where
  "dump_violation_payload p =
     obj [(''reason_code'', PStr (vp_reason_code p)), (''raw_bytes'', opt_int (vp_raw_bytes p)),
          (''raw_sha256'', opt_str (vp_raw_sha256 p)), (''action_sha256'', opt_str (vp_action_sha256 p)),
          (''decision_hash'', opt_str (vp_decision_hash p))]"

record overload_payload =
  op_first_excess_monotonic_ns :: int
  op_raw_bytes :: int
  op_raw_sha256 :: pystr

definition validate_overload_payload :: "overload_payload \<Rightarrow> overload_payload result" where
  "validate_overload_payload p =
     validated
       [(safe_nonneg (op_first_excess_monotonic_ns p), ''first_excess_monotonic_ns''),
        (safe_nonneg (op_raw_bytes p), ''raw_bytes''), (sha256_hex_text (op_raw_sha256 p), ''raw_sha256'')] p"

definition dump_overload_payload :: "overload_payload \<Rightarrow> pyval" where
  "dump_overload_payload p =
     obj [(''first_excess_monotonic_ns'', PInt (op_first_excess_monotonic_ns p)), (''raw_bytes'', PInt (op_raw_bytes p)),
          (''raw_sha256'', PStr (op_raw_sha256 p)), (''reason_code'', PStr (lit ''admission.overload''))]"

section \<open>Events\<close>

record event_body =
  eb_run_id :: pystr
  eb_manifest_hash :: pystr
  eb_sequence :: int
  eb_previous_event_hash :: pystr
  eb_kind :: event_kind
  eb_request_id :: "pystr option"
  eb_producer_instance_id :: pystr
  eb_observed_at :: pystr
  eb_monotonic_ns :: int
  eb_payload_canonical_json :: pystr
  eb_payload_sha256 :: pystr

definition utf8_size :: "pystr \<Rightarrow> int" where
  "utf8_size s = int (length (concat (map utf8_char s)))"

definition validate_event_body :: "prims \<Rightarrow> event_body \<Rightarrow> event_body result" where
  "validate_event_body P b =
     validated
       [(opaque_id (eb_run_id b), ''run_id''),
        (sha256_hex_text (eb_manifest_hash b), ''manifest_hash''),
        (safe_nonneg (eb_sequence b), ''sequence''),
        (sha256_hex_text (eb_previous_event_hash b), ''previous_event_hash''),
        (opt_all opaque_id (eb_request_id b), ''request_id''),
        (opaque_id (eb_producer_instance_id b), ''producer_instance_id''),
        (utc_timestamp P (eb_observed_at b), ''observed_at''),
        (safe_nonneg (eb_monotonic_ns b), ''monotonic_ns''),
        (is_ok (canonicalize_json_text P (eb_payload_canonical_json b)), ''payload_canonical_json''),
        (utf8_size (eb_payload_canonical_json b) \<le> MAX_EVENT_PAYLOAD_BYTES,
         ''event payload exceeds the protocol hard byte limit''),
        (sha256_hex_text (eb_payload_sha256 b), ''payload_sha256''),
        (payload_sha256 P (eb_payload_canonical_json b) = Inr (eb_payload_sha256 b),
         ''payload_sha256 does not match payload_canonical_json''),
        (\<not> (eb_sequence b = 0 \<and> eb_previous_event_hash b \<noteq> GENESIS_HASH), ''event zero must reference the genesis hash''),
        (\<not> (eb_sequence b > 0 \<and> eb_previous_event_hash b = GENESIS_HASH), ''only event zero may reference the genesis hash'')] b"

definition dump_event_body :: "event_body \<Rightarrow> pyval" where
  "dump_event_body b =
     obj [(''protocol'', PStr PROTOCOL), (''schema_version'', PStr SCHEMA_VERSION),
          (''run_id'', PStr (eb_run_id b)), (''manifest_hash'', PStr (eb_manifest_hash b)),
          (''sequence'', PInt (eb_sequence b)), (''previous_event_hash'', PStr (eb_previous_event_hash b)),
          (''kind'', PStr (event_kind_name (eb_kind b))), (''request_id'', opt_str (eb_request_id b)),
          (''producer_instance_id'', PStr (eb_producer_instance_id b)), (''observed_at'', PStr (eb_observed_at b)),
          (''monotonic_ns'', PInt (eb_monotonic_ns b)),
          (''payload_canonical_json'', PStr (eb_payload_canonical_json b)),
          (''payload_sha256'', PStr (eb_payload_sha256 b))]"

record event =
  ev_body :: event_body
  ev_hash :: pystr

definition validate_event :: "prims \<Rightarrow> event \<Rightarrow> event result" where
  "validate_event P e =
     validated
       [(sha256_hex_text (ev_hash e), ''event_hash''),
        (domain_hash P ''EVENT-HASH'' (dump_event_body (ev_body e)) = Inr (ev_hash e), ''event_hash does not match event body'')] e"

definition dump_event :: "event \<Rightarrow> pyval" where
  "dump_event e = obj [(''body'', dump_event_body (ev_body e)), (''event_hash'', PStr (ev_hash e))]"

text \<open>
  \<open>Event.create\<close>: the payload is serialized, bound by its digest into a validated body, and the body
  is hashed. Every refusal is a \<open>ValueError\<close> (of which \<open>ValidationError\<close> is a subclass) or, for a
  payload outside the JSON profile, a \<open>TypeError\<close>.
\<close>

definition create_event ::
  "prims \<Rightarrow> pyval \<Rightarrow> pystr \<Rightarrow> pystr \<Rightarrow> int \<Rightarrow> pystr \<Rightarrow> event_kind \<Rightarrow> pystr \<Rightarrow> pystr \<Rightarrow> int \<Rightarrow> pystr option \<Rightarrow> event result" where
  "create_event P payload run mhash sequence prev kind producer observed mono_ns req =
     bind_result (canonical_json P payload) (\<lambda>payload_json.
     bind_result (payload_sha256 P payload_json) (\<lambda>digest.
     bind_result (validate_event_body P
       \<lparr> eb_run_id = run, eb_manifest_hash = mhash, eb_sequence = sequence, eb_previous_event_hash = prev,
         eb_kind = kind, eb_request_id = req, eb_producer_instance_id = producer, eb_observed_at = observed,
         eb_monotonic_ns = mono_ns, eb_payload_canonical_json = payload_json, eb_payload_sha256 = digest \<rparr>) (\<lambda>body.
     bind_result (domain_hash P ''EVENT-HASH'' (dump_event_body body)) (\<lambda>h.
       validate_event P \<lparr> ev_body = body, ev_hash = h \<rparr>))))"

definition follows :: "event \<Rightarrow> event \<Rightarrow> bool" where
  "follows e previous \<longleftrightarrow>
     eb_run_id (ev_body e) = eb_run_id (ev_body previous) \<and>
     eb_manifest_hash (ev_body e) = eb_manifest_hash (ev_body previous) \<and>
     eb_sequence (ev_body e) = eb_sequence (ev_body previous) + 1 \<and>
     eb_previous_event_hash (ev_body e) = ev_hash previous \<and>
     eb_monotonic_ns (ev_body e) \<ge> eb_monotonic_ns (ev_body previous)"

section \<open>Decisions\<close>

datatype verdict = ALLOW | DENY | KILL

definition verdict_name :: "verdict \<Rightarrow> pystr" where
  "verdict_name v = lit (case v of ALLOW \<Rightarrow> ''ALLOW'' | DENY \<Rightarrow> ''DENY'' | KILL \<Rightarrow> ''KILL'')"

text \<open>\<open>authorization_max_uses\<close> is \<open>Literal[1] | None\<close>: a boolean that says whether it is present.\<close>

record decision_body =
  db_run_id :: pystr
  db_manifest_hash :: pystr
  db_request_id :: pystr
  db_request_event_sequence :: int
  db_request_event_hash :: pystr
  db_action_sha256 :: pystr
  db_gateway_key_id :: pystr
  db_gateway_instance_id :: pystr
  db_decided_at :: pystr
  db_decision_monotonic_ns :: int
  db_kill_epoch :: int
  db_verdict :: verdict
  db_reason_code :: pystr
  db_matched_rule_id :: "pystr option"
  db_hard_violation :: bool
  db_authorization_id :: "pystr option"
  db_authorization_expires_monotonic_ns :: "int option"
  db_authorization_single_use :: bool

definition validate_decision_body :: "prims \<Rightarrow> decision_body \<Rightarrow> decision_body result" where
  "validate_decision_body P b =
     validated
       [(opaque_id (db_run_id b), ''run_id''),
        (sha256_hex_text (db_manifest_hash b), ''manifest_hash''),
        (opaque_id (db_request_id b), ''request_id''),
        (safe_nonneg (db_request_event_sequence b), ''request_event_sequence''),
        (sha256_hex_text (db_request_event_hash b), ''request_event_hash''),
        (sha256_hex_text (db_action_sha256 b), ''action_sha256''),
        (opaque_id (db_gateway_key_id b), ''gateway_key_id''),
        (opaque_id (db_gateway_instance_id b), ''gateway_instance_id''),
        (utc_timestamp P (db_decided_at b), ''decided_at''),
        (safe_nonneg (db_decision_monotonic_ns b), ''decision_monotonic_ns''),
        (safe_nonneg (db_kill_epoch b), ''kill_epoch''),
        (opaque_id (db_reason_code b), ''reason_code''),
        (opt_all opaque_id (db_matched_rule_id b), ''matched_rule_id''),
        (opt_all opaque_id (db_authorization_id b), ''authorization_id''),
        (opt_all safe_nonneg (db_authorization_expires_monotonic_ns b), ''authorization_expires_monotonic_ns''),
        (db_verdict b = ALLOW \<longrightarrow>
           db_authorization_id b \<noteq> None \<and> db_authorization_expires_monotonic_ns b \<noteq> None \<and> db_authorization_single_use b,
         ''ALLOW requires a complete single-use authorization''),
        (db_verdict b = ALLOW \<longrightarrow> db_matched_rule_id b \<noteq> None, ''ALLOW requires matched_rule_id''),
        (db_verdict b = ALLOW \<longrightarrow> \<not> db_hard_violation b, ''ALLOW cannot be a hard violation''),
        (db_verdict b = ALLOW \<longrightarrow>
           opt_all (\<lambda>x. x > db_decision_monotonic_ns b) (db_authorization_expires_monotonic_ns b),
         ''authorization must expire after the decision''),
        (db_verdict b \<noteq> ALLOW \<longrightarrow>
           db_authorization_id b = None \<and> db_authorization_expires_monotonic_ns b = None \<and> \<not> db_authorization_single_use b,
         ''DENY/KILL decisions cannot carry authorization''),
        (db_verdict b = KILL \<longrightarrow> db_hard_violation b, ''KILL must be marked as a hard violation'')] b"

definition dump_decision_body :: "decision_body \<Rightarrow> pyval" where
  "dump_decision_body b =
     obj [(''protocol'', PStr PROTOCOL), (''schema_version'', PStr SCHEMA_VERSION),
          (''run_id'', PStr (db_run_id b)), (''manifest_hash'', PStr (db_manifest_hash b)),
          (''request_id'', PStr (db_request_id b)),
          (''request_event_sequence'', PInt (db_request_event_sequence b)),
          (''request_event_hash'', PStr (db_request_event_hash b)), (''action_sha256'', PStr (db_action_sha256 b)),
          (''gateway_key_id'', PStr (db_gateway_key_id b)), (''gateway_instance_id'', PStr (db_gateway_instance_id b)),
          (''decided_at'', PStr (db_decided_at b)), (''decision_monotonic_ns'', PInt (db_decision_monotonic_ns b)),
          (''kill_epoch'', PInt (db_kill_epoch b)), (''verdict'', PStr (verdict_name (db_verdict b))),
          (''reason_code'', PStr (db_reason_code b)), (''matched_rule_id'', opt_str (db_matched_rule_id b)),
          (''hard_violation'', PBool (db_hard_violation b)), (''authorization_id'', opt_str (db_authorization_id b)),
          (''authorization_expires_monotonic_ns'', opt_int (db_authorization_expires_monotonic_ns b)),
          (''authorization_max_uses'', if db_authorization_single_use b then PInt 1 else PNone)]"

record decision =
  d_body :: decision_body
  d_hash :: pystr
  d_signature :: ed_signature

definition validate_decision :: "prims \<Rightarrow> decision \<Rightarrow> decision result" where
  "validate_decision P d =
     validated
       [(sha256_hex_text (d_hash d), ''decision_hash''),
        (domain_hash P ''DECISION-HASH'' (dump_decision_body (d_body d)) = Inr (d_hash d), ''decision_hash does not match decision body''),
        (sig_key_id (d_signature d) = db_gateway_key_id (d_body d), ''gateway signature key ID does not match decision'')] d"

definition dump_decision :: "decision \<Rightarrow> pyval" where
  "dump_decision d =
     obj [(''body'', dump_decision_body (d_body d)), (''decision_hash'', PStr (d_hash d)),
          (''gateway_signature'', dump_signature (d_signature d))]"

definition sign_decision :: "prims \<Rightarrow> decision_body \<Rightarrow> bytes \<Rightarrow> decision result" where
  "sign_decision P body private_key =
     bind_result (domain_hash P ''DECISION-HASH'' (dump_decision_body body)) (\<lambda>digest.
     bind_result (sign_digest P ''DECISION-SIGNATURE'' (db_gateway_key_id body) private_key digest) (\<lambda>s.
       validate_decision P \<lparr> d_body = body, d_hash = digest, d_signature = s \<rparr>))"

definition verify_decision :: "prims \<Rightarrow> ed_public_key \<Rightarrow> decision \<Rightarrow> unit result" where
  "verify_decision P gateway_key d =
     (if key_id gateway_key \<noteq> db_gateway_key_id (d_body d) then Inl (ValueError ''wrong gateway verification key'')
      else verify_digest P ''DECISION-SIGNATURE'' gateway_key (d_signature d) (d_hash d))"

section \<open>Kill acknowledgements\<close>

datatype termination_mode =
  SIMULATED | CGROUP_KILL | JOB_OBJECT_TERMINATE | MICROVM_DESTROY | PROCESS_NAMESPACE_KILL

definition termination_mode_name :: "termination_mode \<Rightarrow> pystr" where
  "termination_mode_name m = lit (case m of
     SIMULATED \<Rightarrow> ''SIMULATED'' | CGROUP_KILL \<Rightarrow> ''CGROUP_KILL'' | JOB_OBJECT_TERMINATE \<Rightarrow> ''JOB_OBJECT_TERMINATE''
   | MICROVM_DESTROY \<Rightarrow> ''MICROVM_DESTROY'' | PROCESS_NAMESPACE_KILL \<Rightarrow> ''PROCESS_NAMESPACE_KILL'')"

record kill_ack_body =
  ka_run_id :: pystr
  ka_manifest_hash :: pystr
  ka_supervisor_key_id :: pystr
  ka_supervisor_instance_id :: pystr
  ka_trigger_event_sequence :: int
  ka_trigger_event_hash :: pystr
  ka_trigger_monotonic_ns :: int
  ka_kill_requested_at :: pystr
  ka_kill_requested_monotonic_ns :: int
  ka_kill_acknowledged_at :: pystr
  ka_kill_acknowledged_monotonic_ns :: int
  ka_kill_latency_ns :: int
  ka_termination_mode :: termination_mode
  ka_terminated_workload_ids :: "pystr list"
  ka_inflight_at_trigger :: int
  ka_inflight_cancel_signalled :: int
  ka_inflight_cancelled :: int
  ka_network_isolation_confirmed :: bool
  ka_isolation_evidence_sha256 :: "pystr option"

definition validate_kill_ack_body :: "prims \<Rightarrow> kill_ack_body \<Rightarrow> kill_ack_body result" where
  "validate_kill_ack_body P b =
     validated
       [(opaque_id (ka_run_id b), ''run_id''),
        (sha256_hex_text (ka_manifest_hash b), ''manifest_hash''),
        (opaque_id (ka_supervisor_key_id b), ''supervisor_key_id''),
        (opaque_id (ka_supervisor_instance_id b), ''supervisor_instance_id''),
        (safe_nonneg (ka_trigger_event_sequence b), ''trigger_event_sequence''),
        (sha256_hex_text (ka_trigger_event_hash b), ''trigger_event_hash''),
        (safe_nonneg (ka_trigger_monotonic_ns b), ''trigger_monotonic_ns''),
        (utc_timestamp P (ka_kill_requested_at b), ''kill_requested_at''),
        (safe_nonneg (ka_kill_requested_monotonic_ns b), ''kill_requested_monotonic_ns''),
        (utc_timestamp P (ka_kill_acknowledged_at b), ''kill_acknowledged_at''),
        (safe_nonneg (ka_kill_acknowledged_monotonic_ns b), ''kill_acknowledged_monotonic_ns''),
        (safe_nonneg (ka_kill_latency_ns b), ''kill_latency_ns''),
        (list_all opaque_id (ka_terminated_workload_ids b), ''terminated_workload_ids''),
        (strictly_sorted (ka_terminated_workload_ids b), ''terminated workload IDs must be sorted and contain no duplicates''),
        (safe_nonneg (ka_inflight_at_trigger b), ''inflight_at_trigger''),
        (safe_nonneg (ka_inflight_cancel_signalled b), ''inflight_cancel_signalled''),
        (safe_nonneg (ka_inflight_cancelled b), ''inflight_cancelled''),
        (opt_all sha256_hex_text (ka_isolation_evidence_sha256 b), ''isolation_evidence_sha256''),
        (ka_kill_requested_monotonic_ns b \<ge> ka_trigger_monotonic_ns b, ''kill request precedes violation trigger''),
        (ka_kill_acknowledged_monotonic_ns b \<ge> ka_kill_requested_monotonic_ns b, ''kill acknowledgement precedes kill request''),
        (ka_kill_latency_ns b = ka_kill_acknowledged_monotonic_ns b - ka_trigger_monotonic_ns b,
         ''kill_latency_ns must span trigger to acknowledgement''),
        (ka_kill_acknowledged_at b \<ge> ka_kill_requested_at b, ''kill wall-clock acknowledgement precedes request''),
        (ka_inflight_cancelled b \<le> ka_inflight_at_trigger b, ''cancelled inflight count exceeds trigger count''),
        (ka_inflight_cancel_signalled b \<le> ka_inflight_at_trigger b, ''signalled inflight count exceeds trigger count''),
        (ka_inflight_cancelled b \<le> ka_inflight_cancel_signalled b, ''cancelled inflight exceeds cancellation signals''),
        (ka_termination_mode b = SIMULATED \<longrightarrow> ka_terminated_workload_ids b = [],
         ''simulated isolation cannot claim terminated workloads''),
        (ka_termination_mode b = SIMULATED \<longrightarrow> \<not> ka_network_isolation_confirmed b,
         ''simulated isolation cannot confirm network isolation''),
        (ka_termination_mode b = SIMULATED \<longrightarrow> ka_isolation_evidence_sha256 b = None,
         ''simulated isolation cannot carry production evidence''),
        (ka_termination_mode b \<noteq> SIMULATED \<longrightarrow> ka_terminated_workload_ids b \<noteq> [],
         ''production isolation requires terminated workloads''),
        (ka_termination_mode b \<noteq> SIMULATED \<longrightarrow>
           \<not> (ka_network_isolation_confirmed b \<and> ka_isolation_evidence_sha256 b = None),
         ''confirmed network isolation requires an evidence digest'')] b"

definition dump_kill_ack_body :: "kill_ack_body \<Rightarrow> pyval" where
  "dump_kill_ack_body b =
     obj [(''protocol'', PStr PROTOCOL), (''schema_version'', PStr SCHEMA_VERSION),
          (''run_id'', PStr (ka_run_id b)), (''manifest_hash'', PStr (ka_manifest_hash b)),
          (''supervisor_key_id'', PStr (ka_supervisor_key_id b)),
          (''supervisor_instance_id'', PStr (ka_supervisor_instance_id b)),
          (''trigger_event_sequence'', PInt (ka_trigger_event_sequence b)),
          (''trigger_event_hash'', PStr (ka_trigger_event_hash b)),
          (''trigger_monotonic_ns'', PInt (ka_trigger_monotonic_ns b)),
          (''kill_requested_at'', PStr (ka_kill_requested_at b)),
          (''kill_requested_monotonic_ns'', PInt (ka_kill_requested_monotonic_ns b)),
          (''kill_acknowledged_at'', PStr (ka_kill_acknowledged_at b)),
          (''kill_acknowledged_monotonic_ns'', PInt (ka_kill_acknowledged_monotonic_ns b)),
          (''kill_latency_ns'', PInt (ka_kill_latency_ns b)),
          (''termination_mode'', PStr (termination_mode_name (ka_termination_mode b))),
          (''terminated_workload_ids'', str_tuple (ka_terminated_workload_ids b)),
          (''inflight_at_trigger'', PInt (ka_inflight_at_trigger b)),
          (''inflight_cancel_signalled'', PInt (ka_inflight_cancel_signalled b)),
          (''inflight_cancelled'', PInt (ka_inflight_cancelled b)),
          (''network_isolation_confirmed'', PBool (ka_network_isolation_confirmed b)),
          (''isolation_evidence_sha256'', opt_str (ka_isolation_evidence_sha256 b))]"

record kill_ack =
  k_body :: kill_ack_body
  k_hash :: pystr
  k_signature :: ed_signature

definition validate_kill_ack :: "prims \<Rightarrow> kill_ack \<Rightarrow> kill_ack result" where
  "validate_kill_ack P k =
     validated
       [(sha256_hex_text (k_hash k), ''acknowledgement_hash''),
        (domain_hash P ''KILL-ACK-HASH'' (dump_kill_ack_body (k_body k)) = Inr (k_hash k), ''acknowledgement_hash does not match body''),
        (sig_key_id (k_signature k) = ka_supervisor_key_id (k_body k), ''supervisor signature key ID does not match body'')] k"

definition dump_kill_ack :: "kill_ack \<Rightarrow> pyval" where
  "dump_kill_ack k =
     obj [(''body'', dump_kill_ack_body (k_body k)), (''acknowledgement_hash'', PStr (k_hash k)),
          (''supervisor_signature'', dump_signature (k_signature k))]"

definition sign_kill_ack :: "prims \<Rightarrow> kill_ack_body \<Rightarrow> bytes \<Rightarrow> kill_ack result" where
  "sign_kill_ack P body private_key =
     bind_result (domain_hash P ''KILL-ACK-HASH'' (dump_kill_ack_body body)) (\<lambda>digest.
     bind_result (sign_digest P ''KILL-ACK-SIGNATURE'' (ka_supervisor_key_id body) private_key digest) (\<lambda>s.
       validate_kill_ack P \<lparr> k_body = body, k_hash = digest, k_signature = s \<rparr>))"

definition verify_kill_ack :: "prims \<Rightarrow> ed_public_key \<Rightarrow> kill_ack \<Rightarrow> unit result" where
  "verify_kill_ack P supervisor_key k =
     (if key_id supervisor_key \<noteq> ka_supervisor_key_id (k_body k) then Inl (ValueError ''wrong supervisor verification key'')
      else verify_digest P ''KILL-ACK-SIGNATURE'' supervisor_key (k_signature k) (k_hash k))"

section \<open>Witness checkpoints\<close>

record checkpoint_body =
  wc_run_id :: pystr
  wc_manifest_hash :: pystr
  wc_witness_key_id :: pystr
  wc_witnessed_at :: pystr
  wc_event_count :: int
  wc_final_event_hash :: "pystr option"
  wc_evidence_file_sha256 :: pystr

definition validate_checkpoint_body :: "prims \<Rightarrow> checkpoint_body \<Rightarrow> checkpoint_body result" where
  "validate_checkpoint_body P b =
     validated
       [(opaque_id (wc_run_id b), ''run_id''),
        (sha256_hex_text (wc_manifest_hash b), ''manifest_hash''),
        (opaque_id (wc_witness_key_id b), ''witness_key_id''),
        (utc_timestamp P (wc_witnessed_at b), ''witnessed_at''),
        (safe_nonneg (wc_event_count b), ''event_count''),
        (opt_all sha256_hex_text (wc_final_event_hash b), ''final_event_hash''),
        (sha256_hex_text (wc_evidence_file_sha256 b), ''evidence_file_sha256''),
        (\<not> (wc_event_count b = 0 \<and> wc_final_event_hash b \<noteq> None), ''empty evidence cannot have a final event hash''),
        (\<not> (wc_event_count b > 0 \<and> wc_final_event_hash b = None), ''non-empty evidence requires a final event hash'')] b"

definition dump_checkpoint_body :: "checkpoint_body \<Rightarrow> pyval" where
  "dump_checkpoint_body b =
     obj [(''protocol'', PStr PROTOCOL), (''schema_version'', PStr SCHEMA_VERSION),
          (''run_id'', PStr (wc_run_id b)), (''manifest_hash'', PStr (wc_manifest_hash b)),
          (''witness_key_id'', PStr (wc_witness_key_id b)), (''witnessed_at'', PStr (wc_witnessed_at b)),
          (''event_count'', PInt (wc_event_count b)), (''final_event_hash'', opt_str (wc_final_event_hash b)),
          (''evidence_file_sha256'', PStr (wc_evidence_file_sha256 b))]"

record checkpoint =
  c_body :: checkpoint_body
  c_hash :: pystr
  c_signature :: ed_signature

definition validate_checkpoint :: "prims \<Rightarrow> checkpoint \<Rightarrow> checkpoint result" where
  "validate_checkpoint P c =
     validated
       [(sha256_hex_text (c_hash c), ''checkpoint_hash''),
        (domain_hash P ''WITNESS-CHECKPOINT-HASH'' (dump_checkpoint_body (c_body c)) = Inr (c_hash c),
         ''checkpoint_hash does not match checkpoint body''),
        (sig_key_id (c_signature c) = wc_witness_key_id (c_body c), ''witness signature key ID does not match checkpoint'')] c"

definition dump_checkpoint :: "checkpoint \<Rightarrow> pyval" where
  "dump_checkpoint c =
     obj [(''body'', dump_checkpoint_body (c_body c)), (''checkpoint_hash'', PStr (c_hash c)),
          (''witness_signature'', dump_signature (c_signature c))]"

definition sign_checkpoint :: "prims \<Rightarrow> checkpoint_body \<Rightarrow> bytes \<Rightarrow> checkpoint result" where
  "sign_checkpoint P body private_key =
     bind_result (domain_hash P ''WITNESS-CHECKPOINT-HASH'' (dump_checkpoint_body body)) (\<lambda>digest.
     bind_result (sign_digest P ''WITNESS-CHECKPOINT-SIGNATURE'' (wc_witness_key_id body) private_key digest) (\<lambda>s.
       validate_checkpoint P \<lparr> c_body = body, c_hash = digest, c_signature = s \<rparr>))"

definition verify_checkpoint :: "prims \<Rightarrow> ed_public_key \<Rightarrow> checkpoint \<Rightarrow> unit result" where
  "verify_checkpoint P witness_key c =
     (if key_id witness_key \<noteq> wc_witness_key_id (c_body c) then Inl (ValueError ''wrong witness verification key'')
      else verify_digest P ''WITNESS-CHECKPOINT-SIGNATURE'' witness_key (c_signature c) (c_hash c))"

section \<open>Receipts\<close>

datatype run_status = COMPLETED | FAILED | KILLED | SUPERVISOR_FAILURE

definition run_status_name :: "run_status \<Rightarrow> pystr" where
  "run_status_name s = lit (case s of COMPLETED \<Rightarrow> ''COMPLETED'' | FAILED \<Rightarrow> ''FAILED'' | KILLED \<Rightarrow> ''KILLED''
     | SUPERVISOR_FAILURE \<Rightarrow> ''SUPERVISOR_FAILURE'')"

record receipt_body =
  rb_run_id :: pystr
  rb_manifest_hash :: pystr
  rb_supervisor_key_id :: pystr
  rb_supervisor_instance_id :: pystr
  rb_status :: run_status
  rb_started_at :: pystr
  rb_finished_at :: pystr
  rb_started_monotonic_ns :: int
  rb_finished_monotonic_ns :: int
  rb_event_count :: int
  rb_first_event_hash :: "pystr option"
  rb_final_event_hash :: "pystr option"
  rb_evidence_file_sha256 :: pystr
  rb_observed_request_count :: int
  rb_admitted_request_count :: int
  rb_allowed_request_count :: int
  rb_denied_request_count :: int
  rb_dispatched_request_count :: int
  rb_completed_request_count :: int
  rb_rejected_overload_count :: int
  rb_dropped_after_kill_count :: int
  rb_total_egress_bytes :: int
  rb_kill_acknowledgement :: "kill_ack option"
  rb_witness_checkpoint :: checkpoint

definition ack_coherent :: "receipt_body \<Rightarrow> kill_ack_body \<Rightarrow> bool" where
  "ack_coherent b ack \<longleftrightarrow>
     ka_run_id ack = rb_run_id b \<and> ka_manifest_hash ack = rb_manifest_hash b \<and>
     ka_supervisor_key_id ack = rb_supervisor_key_id b \<and>
     ka_kill_acknowledged_monotonic_ns ack \<le> rb_finished_monotonic_ns b"

definition validate_receipt_body :: "prims \<Rightarrow> receipt_body \<Rightarrow> receipt_body result" where
  "validate_receipt_body P b =
     validated
       [(opaque_id (rb_run_id b), ''run_id''),
        (sha256_hex_text (rb_manifest_hash b), ''manifest_hash''),
        (opaque_id (rb_supervisor_key_id b), ''supervisor_key_id''),
        (opaque_id (rb_supervisor_instance_id b), ''supervisor_instance_id''),
        (utc_timestamp P (rb_started_at b), ''started_at''),
        (utc_timestamp P (rb_finished_at b), ''finished_at''),
        (list_all safe_nonneg [rb_started_monotonic_ns b, rb_finished_monotonic_ns b, rb_event_count b], ''counter''),
        (opt_all sha256_hex_text (rb_first_event_hash b), ''first_event_hash''),
        (opt_all sha256_hex_text (rb_final_event_hash b), ''final_event_hash''),
        (sha256_hex_text (rb_evidence_file_sha256 b), ''evidence_file_sha256''),
        (list_all safe_nonneg
           [rb_observed_request_count b, rb_admitted_request_count b, rb_allowed_request_count b,
            rb_denied_request_count b, rb_dispatched_request_count b, rb_completed_request_count b,
            rb_rejected_overload_count b, rb_dropped_after_kill_count b, rb_total_egress_bytes b], ''counter''),
        (rb_finished_at b \<ge> rb_started_at b, ''receipt finish time precedes start time''),
        (rb_finished_monotonic_ns b \<ge> rb_started_monotonic_ns b, ''receipt monotonic finish precedes start''),
        (rb_event_count b = 0 \<longrightarrow> rb_first_event_hash b = None \<and> rb_final_event_hash b = None,
         ''empty evidence cannot have event hashes''),
        (rb_event_count b \<noteq> 0 \<longrightarrow> rb_first_event_hash b \<noteq> None \<and> rb_final_event_hash b \<noteq> None,
         ''non-empty evidence requires first and final hashes''),
        (rb_admitted_request_count b \<le> rb_observed_request_count b, ''admitted requests exceed observed requests''),
        (rb_allowed_request_count b + rb_denied_request_count b \<le> rb_admitted_request_count b, ''decisions exceed admitted requests''),
        (rb_dispatched_request_count b \<le> rb_allowed_request_count b, ''dispatches exceed allowed requests''),
        (rb_completed_request_count b \<le> rb_dispatched_request_count b, ''completed requests exceed dispatches''),
        (rb_rejected_overload_count b + rb_dropped_after_kill_count b \<le> rb_observed_request_count b,
         ''rejected/dropped counters exceed observed requests''),
        (rb_status b = KILLED \<longrightarrow> rb_kill_acknowledgement b \<noteq> None, ''KILLED receipt requires kill acknowledgement''),
        (rb_status b \<noteq> KILLED \<longrightarrow> rb_kill_acknowledgement b = None, ''only KILLED receipts may contain kill acknowledgement''),
        (opt_all (\<lambda>k. ack_coherent b (k_body k)) (rb_kill_acknowledgement b), ''kill acknowledgement does not match receipt''),
        (wc_run_id (c_body (rb_witness_checkpoint b)) = rb_run_id b \<and>
         wc_manifest_hash (c_body (rb_witness_checkpoint b)) = rb_manifest_hash b \<and>
         wc_event_count (c_body (rb_witness_checkpoint b)) = rb_event_count b \<and>
         wc_final_event_hash (c_body (rb_witness_checkpoint b)) = rb_final_event_hash b \<and>
         wc_evidence_file_sha256 (c_body (rb_witness_checkpoint b)) = rb_evidence_file_sha256 b,
         ''witness checkpoint does not match receipt evidence'')] b"

definition dump_receipt_body :: "receipt_body \<Rightarrow> pyval" where
  "dump_receipt_body b =
     obj [(''protocol'', PStr PROTOCOL), (''schema_version'', PStr SCHEMA_VERSION),
          (''run_id'', PStr (rb_run_id b)), (''manifest_hash'', PStr (rb_manifest_hash b)),
          (''supervisor_key_id'', PStr (rb_supervisor_key_id b)),
          (''supervisor_instance_id'', PStr (rb_supervisor_instance_id b)),
          (''status'', PStr (run_status_name (rb_status b))), (''started_at'', PStr (rb_started_at b)),
          (''finished_at'', PStr (rb_finished_at b)), (''started_monotonic_ns'', PInt (rb_started_monotonic_ns b)),
          (''finished_monotonic_ns'', PInt (rb_finished_monotonic_ns b)), (''event_count'', PInt (rb_event_count b)),
          (''first_event_hash'', opt_str (rb_first_event_hash b)), (''final_event_hash'', opt_str (rb_final_event_hash b)),
          (''evidence_format'', PStr (lit ''canonical-jsonl-v1'')),
          (''evidence_file_sha256'', PStr (rb_evidence_file_sha256 b)),
          (''observed_request_count'', PInt (rb_observed_request_count b)),
          (''admitted_request_count'', PInt (rb_admitted_request_count b)),
          (''allowed_request_count'', PInt (rb_allowed_request_count b)),
          (''denied_request_count'', PInt (rb_denied_request_count b)),
          (''dispatched_request_count'', PInt (rb_dispatched_request_count b)),
          (''completed_request_count'', PInt (rb_completed_request_count b)),
          (''rejected_overload_count'', PInt (rb_rejected_overload_count b)),
          (''dropped_after_kill_count'', PInt (rb_dropped_after_kill_count b)),
          (''total_egress_bytes'', PInt (rb_total_egress_bytes b)),
          (''kill_acknowledgement'', case rb_kill_acknowledgement b of None \<Rightarrow> PNone | Some k \<Rightarrow> dump_kill_ack k),
          (''witness_checkpoint'', dump_checkpoint (rb_witness_checkpoint b))]"

record receipt =
  r_body :: receipt_body
  r_hash :: pystr
  r_signature :: ed_signature

definition validate_receipt :: "prims \<Rightarrow> receipt \<Rightarrow> receipt result" where
  "validate_receipt P r =
     validated
       [(sha256_hex_text (r_hash r), ''receipt_hash''),
        (domain_hash P ''RECEIPT-HASH'' (dump_receipt_body (r_body r)) = Inr (r_hash r), ''receipt_hash does not match receipt body''),
        (sig_key_id (r_signature r) = rb_supervisor_key_id (r_body r), ''supervisor signature key ID does not match receipt'')] r"

definition sign_receipt :: "prims \<Rightarrow> receipt_body \<Rightarrow> bytes \<Rightarrow> receipt result" where
  "sign_receipt P body private_key =
     bind_result (domain_hash P ''RECEIPT-HASH'' (dump_receipt_body body)) (\<lambda>digest.
     bind_result (sign_digest P ''RECEIPT-SIGNATURE'' (rb_supervisor_key_id body) private_key digest) (\<lambda>s.
       validate_receipt P \<lparr> r_body = body, r_hash = digest, r_signature = s \<rparr>))"

definition verify_receipt :: "prims \<Rightarrow> ed_public_key \<Rightarrow> receipt \<Rightarrow> unit result" where
  "verify_receipt P supervisor_key r =
     (if key_id supervisor_key \<noteq> rb_supervisor_key_id (r_body r) then Inl (ValueError ''wrong supervisor verification key'')
      else verify_digest P ''RECEIPT-SIGNATURE'' supervisor_key (r_signature r) (r_hash r))"

section \<open>Verification of a receipt against its evidence\<close>

text \<open>
  The loop of \<open>verify_against\<close>: \<open>prev\<close>, \<open>cnt\<close> and \<open>trig\<close> are the loop variables, \<open>text\<close> the bytes
  fed to the running digest.
\<close>

fun verify_events ::
  "prims \<Rightarrow> receipt_body \<Rightarrow> event option \<Rightarrow> int \<Rightarrow> pystr option \<Rightarrow> bytes \<Rightarrow> event list \<Rightarrow>
     (event option \<times> int \<times> pystr option \<times> bytes) result" where
  "verify_events P b prev cnt trig text [] = Inr (prev, cnt, trig, text)"
| "verify_events P b prev cnt trig text (e # es) =
     (if cnt \<ge> rb_event_count b then Inl (ValueError ''evidence contains more events than receipt'')
      else if eb_run_id (ev_body e) \<noteq> rb_run_id b \<or> eb_manifest_hash (ev_body e) \<noteq> rb_manifest_hash b
      then Inl (ValueError ''event belongs to another run or manifest'')
      else if prev = None \<and> eb_sequence (ev_body e) \<noteq> 0 then Inl (ValueError ''evidence must start at sequence zero'')
      else if prev = None \<and> eb_previous_event_hash (ev_body e) \<noteq> GENESIS_HASH
      then Inl (ValueError ''first event does not reference genesis'')
      else if prev = None \<and> Some (ev_hash e) \<noteq> rb_first_event_hash b
      then Inl (ValueError ''first event hash does not match receipt'')
      else if \<not> opt_all (follows e) prev then Inl (ValueError ''broken event chain'')
      else bind_result (canonical_json_bytes P (dump_event e)) (\<lambda>line.
        verify_events P b (Some e) (cnt + 1)
          (case rb_kill_acknowledgement b of
             None \<Rightarrow> trig
           | Some k \<Rightarrow> if eb_sequence (ev_body e) = ka_trigger_event_sequence (k_body k) then Some (ev_hash e) else trig)
          (text @ line @ [10]) es))"

definition verify_ack_against :: "prims \<Rightarrow> manifest \<Rightarrow> kill_ack \<Rightarrow> pystr option \<Rightarrow> unit result" where
  "verify_ack_against P m k trig =
     bind_result (verify_kill_ack P (mb_supervisor_key (m_body m)) k) (\<lambda>_.
       if ka_kill_latency_ns (k_body k) > supervisor_kill_latency_sla_ms (mb_kill_criteria (m_body m)) * 1000000
       then Inl (ValueError ''supervisor kill latency exceeded manifest SLA'')
       else case trig of
              None \<Rightarrow> Inl (ValueError ''kill trigger event is absent from evidence'')
            | Some t \<Rightarrow>
                if t \<noteq> ka_trigger_event_hash (k_body k) then Inl (ValueError ''kill trigger hash does not match evidence'')
                else Inr ())"

text \<open>
  \<open>verify_against\<close> up to the end of its loop, and from there on. The events may come from a generator that raises
  when it is asked for the next one: \<open>outcome\<close> is how the generator ended after it yielded \<open>events\<close>.
\<close>

definition verify_prefix ::
  "prims \<Rightarrow> receipt \<Rightarrow> manifest \<Rightarrow> event list \<Rightarrow> (event option \<times> int \<times> pystr option \<times> bytes) result" where
  "verify_prefix P r m events =
     bind_result (verify_receipt P (mb_supervisor_key (m_body m)) r) (\<lambda>_.
       if rb_run_id (r_body r) \<noteq> mb_run_id (m_body m) then Inl (ValueError ''receipt run_id does not match manifest'')
       else if rb_manifest_hash (r_body r) \<noteq> m_hash m then Inl (ValueError ''receipt manifest_hash does not match manifest'')
       else if rb_supervisor_key_id (r_body r) \<noteq> key_id (mb_supervisor_key (m_body m))
       then Inl (ValueError ''receipt is not signed by the manifest supervisor'')
       else bind_result (verify_checkpoint P (mb_witness_key (m_body m)) (rb_witness_checkpoint (r_body r))) (\<lambda>_.
         verify_events P (r_body r) None 0 None [] events))"

definition verify_end ::
  "prims \<Rightarrow> receipt \<Rightarrow> manifest \<Rightarrow> event option \<times> int \<times> pystr option \<times> bytes \<Rightarrow> unit result" where
  "verify_end P r m = (\<lambda>(prev, cnt, trig, text).
     if cnt \<noteq> rb_event_count (r_body r) then Inl (ValueError ''event count does not match receipt'')
     else if \<not> opt_all (\<lambda>e. Some (ev_hash e) = rb_final_event_hash (r_body r)) prev
     then Inl (ValueError ''final event hash does not match receipt'')
     else if sha256_hex P text \<noteq> rb_evidence_file_sha256 (r_body r)
     then Inl (ValueError ''canonical evidence file digest does not match receipt'')
     else case rb_kill_acknowledgement (r_body r) of
            None \<Rightarrow> Inr ()
          | Some k \<Rightarrow> verify_ack_against P m k trig)"

definition verify_stream :: "prims \<Rightarrow> receipt \<Rightarrow> manifest \<Rightarrow> event list \<Rightarrow> 'a result \<Rightarrow> 'a result" where
  "verify_stream P r m events outcome =
     bind_result (verify_prefix P r m events) (\<lambda>loop.
     bind_result outcome (\<lambda>s.
     bind_result (verify_end P r m loop) (\<lambda>_. Inr s)))"

definition verify_against :: "prims \<Rightarrow> receipt \<Rightarrow> manifest \<Rightarrow> event list \<Rightarrow> unit result" where
  "verify_against P r m events = verify_stream P r m events (Inr ())"

end
