(* ===== verification/BCP_Evidence.thy ===== *)
theory BCP_Evidence
  imports BCP_Records
begin

text \<open>
  The evidence ledger of \<^verbatim>\<open>app/evidence.py\<close>. \<open>commit\<close> holds the ledger lock over the append
  and the observation, so any interleaving of commits by several threads is a sequence of commits.

  Clock readings are arguments; the outcome of the write-ahead file is an argument of type
  \<open>wal_outcome\<close>: written and synchronized, written only in part without an error (the file is opened
  without a buffer and the count that \<^verbatim>\<open>write\<close> returns is not looked at), or failed after some bytes reached
  the file. The observer is any
  operation on a second state \<open>'m\<close>; the interface it offers is the locale \<open>commit_observer\<close>.
\<close>

section \<open>The ledger\<close>

record ledger =
  ld_manifest :: manifest
  ld_producer_instance_id :: pystr
  ld_max_events :: int
  ld_max_pending_commits :: int
  ld_pending :: int
  ld_wal :: "bytes option"
  ld_events :: "event list"
  ld_sealed :: bool

datatype wal_outcome = WalOk | WalShort nat | WalFail nat

definition init_ledger :: "manifest \<Rightarrow> pystr \<Rightarrow> int \<Rightarrow> int option \<Rightarrow> bytes option \<Rightarrow> ledger result" where
  "init_ledger m producer max_ev max_pending wal =
     (if (case wal of None \<Rightarrow> False | Some content \<Rightarrow> content \<noteq> [])
      then Inl (ValueError ''WAL path must be new and empty'')
      else Inr \<lparr> ld_manifest = m, ld_producer_instance_id = producer, ld_max_events = max_ev,
                 ld_max_pending_commits = (case max_pending of None \<Rightarrow> max_ev | Some n \<Rightarrow> if n = 0 then max_ev else n),
                 ld_pending = 0, ld_wal = wal, ld_events = [], ld_sealed = False \<rparr>)"

definition ledger_ready :: "ledger \<Rightarrow> unit result" where
  "ledger_ready l =
     (if ld_sealed l then Inl (RuntimeError ''evidence ledger is sealed'')
      else if int (length (ld_events l)) \<ge> ld_max_events l
      then Inl (BufferError ''evidence ledger event budget exhausted'')
      else Inr ())"

definition previous_hash :: "event list \<Rightarrow> pystr" where
  "previous_hash es = (if es = [] then GENESIS_HASH else ev_hash (last es))"

definition next_event ::
  "prims \<Rightarrow> ledger \<Rightarrow> event_kind \<Rightarrow> pyval \<Rightarrow> pystr option \<Rightarrow> datetime \<Rightarrow> int \<Rightarrow> event result" where
  "next_event P l kind payload req observed mono_ns =
     bind_result (format_utc_timestamp observed) (\<lambda>observed_at.
       create_event P payload (mb_run_id (m_body (ld_manifest l))) (m_hash (ld_manifest l))
         (int (length (ld_events l))) (previous_hash (ld_events l)) kind (ld_producer_instance_id l) observed_at mono_ns req)"

definition encode_event :: "prims \<Rightarrow> event \<Rightarrow> bytes result" where
  "encode_event P e = bind_result (canonical_json_bytes P (dump_event e)) (\<lambda>b. Inr (b @ [10]))"

definition write_wal :: "wal_outcome \<Rightarrow> bytes \<Rightarrow> (ledger, unit) op" where
  "write_wal wo encoded l =
     (case ld_wal l of
        None \<Rightarrow> (Inr (), l)
      | Some content \<Rightarrow>
          (case wo of
             WalOk \<Rightarrow> (Inr (), l\<lparr> ld_wal := Some (content @ encoded) \<rparr>)
           | WalShort n \<Rightarrow> (Inr (), l\<lparr> ld_wal := Some (content @ take n encoded) \<rparr>)
           | WalFail n \<Rightarrow> (Inl (OSError ''WAL write failed''), l\<lparr> ld_wal := Some (content @ take n encoded) \<rparr>)))"

definition append_event ::
  "prims \<Rightarrow> event_kind \<Rightarrow> pyval \<Rightarrow> pystr option \<Rightarrow> datetime \<Rightarrow> int \<Rightarrow> wal_outcome \<Rightarrow> (ledger, event) op" where
  "append_event P kind payload req observed mono_ns wo =
     bind_op (get_op id) (\<lambda>l.
     bind_op (lift_result (ledger_ready l)) (\<lambda>_.
     bind_op (lift_result (next_event P l kind payload req observed mono_ns)) (\<lambda>e.
     bind_op (lift_result (encode_event P e)) (\<lambda>encoded.
     bind_op (write_wal wo encoded) (\<lambda>_.
     bind_op (modify_op (\<lambda>l. l\<lparr> ld_events := ld_events l @ [e] \<rparr>)) (\<lambda>_.
       ret_op e))))))"

text \<open>
  \<open>commit\<close> on the pair of ledger and observer state. The commit slot is taken without blocking and
  released in a \<open>finally\<close>.
\<close>

definition take_slot :: "(ledger, unit) op" where
  "take_slot l =
     (if ld_pending l \<ge> ld_max_pending_commits l then (Inl (BufferError ''evidence commit queue budget exhausted''), l)
      else (Inr (), l\<lparr> ld_pending := ld_pending l + 1 \<rparr>))"

definition on_ledger :: "(ledger, 'a) op \<Rightarrow> (ledger \<times> 'm, 'a) op" where
  "on_ledger = on_part fst (\<lambda>l (_, m). (l, m))"

definition on_observer :: "('m, 'a) op \<Rightarrow> (ledger \<times> 'm, 'a) op" where
  "on_observer = on_part snd (\<lambda>m (l, _). (l, m))"

definition commit_event ::
  "prims \<Rightarrow> (event \<Rightarrow> ('m, unit) op) \<Rightarrow> event_kind \<Rightarrow> pyval \<Rightarrow> pystr option \<Rightarrow> datetime \<Rightarrow> int \<Rightarrow> wal_outcome \<Rightarrow>
     (ledger \<times> 'm, event) op" where
  "commit_event P observer kind payload req observed mono_ns wo =
     bind_op (on_ledger take_slot) (\<lambda>_.
       finally_op
         (bind_op (on_ledger (append_event P kind payload req observed mono_ns wo)) (\<lambda>e.
          bind_op (on_observer (observer e)) (\<lambda>_. ret_op e)))
         (\<lambda>(l, m). (l\<lparr> ld_pending := ld_pending l - 1 \<rparr>, m)))"

definition seal :: "(ledger, unit) op" where
  "seal l = (Inr (), l\<lparr> ld_sealed := True \<rparr>)"

fun canonical_jsonl_bytes :: "prims \<Rightarrow> event list \<Rightarrow> bytes result" where
  "canonical_jsonl_bytes P [] = Inr []"
| "canonical_jsonl_bytes P (e # es) =
     bind_result (encode_event P e) (\<lambda>b. bind_result (canonical_jsonl_bytes P es) (\<lambda>r. Inr (b @ r)))"

definition evidence_digest :: "prims \<Rightarrow> ledger \<Rightarrow> pystr result" where
  "evidence_digest P l = bind_result (canonical_jsonl_bytes P (ld_events l)) (\<lambda>b. Inr (sha256_hex P b))"

definition first_hash :: "event list \<Rightarrow> pystr option" where
  "first_hash es = (if es = [] then None else Some (ev_hash (hd es)))"

definition final_hash :: "event list \<Rightarrow> pystr option" where
  "final_hash es = (if es = [] then None else Some (ev_hash (last es)))"

section \<open>The chain\<close>

definition links :: "prims \<Rightarrow> manifest \<Rightarrow> event list \<Rightarrow> event \<Rightarrow> bool" where
  "links P m es e \<longleftrightarrow>
     eb_run_id (ev_body e) = mb_run_id (m_body m) \<and> eb_manifest_hash (ev_body e) = m_hash m \<and>
     eb_sequence (ev_body e) = int (length es) \<and> eb_previous_event_hash (ev_body e) = previous_hash es \<and>
     validate_event_body P (ev_body e) = Inr (ev_body e) \<and> validate_event P e = Inr e"

inductive chain :: "prims \<Rightarrow> manifest \<Rightarrow> event list \<Rightarrow> bool" for P m where
  chain_Nil: "chain P m []"
| chain_snoc: "chain P m es \<Longrightarrow> links P m es e \<Longrightarrow> chain P m (es @ [e])"

inductive_cases chain_snocE: "chain P m (es @ [e])"

lemma validate_same:
  "validate_event_body P b = Inr b' \<Longrightarrow> b' = b"
  "validate_event P e = Inr e' \<Longrightarrow> e' = e"
  by (simp_all only: validate_event_body_def validate_event_def validated_Inr)

lemma create_event_Inr:
  assumes "create_event P payload run mh n prev kind producer observed mono_ns req = Inr e"
  shows "\<exists>text. canonical_json P payload = Inr text \<and> eb_payload_canonical_json (ev_body e) = text \<and>
    eb_run_id (ev_body e) = run \<and> eb_manifest_hash (ev_body e) = mh \<and> eb_sequence (ev_body e) = n \<and>
    eb_previous_event_hash (ev_body e) = prev \<and> eb_kind (ev_body e) = kind \<and> eb_request_id (ev_body e) = req \<and>
    eb_monotonic_ns (ev_body e) = mono_ns \<and> eb_observed_at (ev_body e) = observed \<and>
    validate_event_body P (ev_body e) = Inr (ev_body e) \<and> validate_event P e = Inr e"
proof -
  from assms obtain pt digest body h where
    t: "canonical_json P payload = Inr pt" "payload_sha256 P pt = Inr digest" and
    b: "validate_event_body P
       \<lparr> eb_run_id = run, eb_manifest_hash = mh, eb_sequence = n, eb_previous_event_hash = prev,
         eb_kind = kind, eb_request_id = req, eb_producer_instance_id = producer, eb_observed_at = observed,
         eb_monotonic_ns = mono_ns, eb_payload_canonical_json = pt, eb_payload_sha256 = digest \<rparr> = Inr body" and
    e: "validate_event P \<lparr> ev_body = body, ev_hash = h \<rparr> = Inr e"
    unfolding create_event_def bind_result_eq_Inr by blast
  note body = validate_same(1) [OF b] and ev = validate_same(2) [OF e]
  from b e have v: "validate_event_body P body = Inr body" "validate_event P e = Inr e"
    unfolding body [symmetric] ev [symmetric] by simp_all
  with t(1) body ev show ?thesis by simp
qed

lemma next_event_links:
  assumes "next_event P l kind payload req observed mono_ns = Inr e"
  shows "links P (ld_manifest l) (ld_events l) e \<and> eb_kind (ev_body e) = kind \<and> eb_monotonic_ns (ev_body e) = mono_ns \<and>
    eb_request_id (ev_body e) = req \<and> canonical_json P payload = Inr (eb_payload_canonical_json (ev_body e))"
proof -
  from assms obtain t where "create_event P payload (mb_run_id (m_body (ld_manifest l))) (m_hash (ld_manifest l))
    (int (length (ld_events l))) (previous_hash (ld_events l)) kind (ld_producer_instance_id l) t mono_ns req = Inr e"
    unfolding next_event_def bind_result_eq_Inr by blast
  from create_event_Inr [OF this] show ?thesis by (auto simp: links_def)
qed

section \<open>What an append does\<close>

text \<open>The bytes that reach the file.\<close>

fun written :: "wal_outcome \<Rightarrow> bytes \<Rightarrow> bytes" where
  "written WalOk encoded = encoded"
| "written (WalShort n) encoded = take n encoded"
| "written (WalFail n) encoded = take n encoded"

lemma append_event_cases:
  assumes "append_event P kind payload req observed mono_ns wo l = (r, l')"
  obtains (added) e encoded where "r = Inr e" "next_event P l kind payload req observed mono_ns = Inr e"
      "encode_event P e = Inr encoded" "ledger_ready l = Inr ()"
      "l' = l\<lparr> ld_wal := map_option (\<lambda>c. c @ written wo encoded) (ld_wal l), ld_events := ld_events l @ [e] \<rparr>"
      "ld_wal l = None \<or> (\<forall>n. wo \<noteq> WalFail n)"
    | (refused) x where "r = Inl x" "l' = l"
    | (wal_failed) x e encoded content n where "r = Inl x" "next_event P l kind payload req observed mono_ns = Inr e"
      "encode_event P e = Inr encoded" "ld_wal l = Some content" "wo = WalFail n"
      "l' = l\<lparr> ld_wal := Some (content @ take n encoded) \<rparr>"
proof -
  show ?thesis
  proof (cases "bind_result (ledger_ready l) (\<lambda>_. bind_result (next_event P l kind payload req observed mono_ns) (\<lambda>e.
      bind_result (encode_event P e) (\<lambda>encoded. Inr (e, encoded))))")
    case (Inl x)
    then show ?thesis using assms refused
      by (cases "ledger_ready l"; cases "next_event P l kind payload req observed mono_ns")
        (auto simp: append_event_def op_simps split: sum.splits)
  next
    case (Inr q)
    then obtain e encoded where q: "ledger_ready l = Inr ()" "next_event P l kind payload req observed mono_ns = Inr e"
      "encode_event P e = Inr encoded" by auto
    show ?thesis
    proof (cases "ld_wal l")
      case None
      with q assms have "r = Inr e" "l' = l\<lparr> ld_events := ld_events l @ [e] \<rparr>"
        by (auto simp: append_event_def op_simps write_wal_def)
      with q None show ?thesis using added [of e encoded] by simp
    next
      case (Some content)
      with q assms added [of e encoded] wal_failed [of _ e encoded content] show ?thesis
        by (cases wo) (auto simp: append_event_def op_simps write_wal_def)
    qed
  qed
qed

lemma append_event_chain:
  assumes "append_event P kind payload req observed mono_ns wo l = (r, l')" "chain P (ld_manifest l) (ld_events l)"
  shows "chain P (ld_manifest l') (ld_events l')"
  using assms(1)
proof (cases rule: append_event_cases)
  case (added e encoded)
  with next_event_links [OF added(2)] assms(2) show ?thesis by (simp add: chain_snoc)
qed (use assms(2) in simp_all)

section \<open>What a commit does\<close>

lemma commit_event_cases:
  assumes "commit_event P observer kind payload req observed mono_ns wo (l, m) = (r, (l', m'))"
  obtains (committed) e where "r = Inr e" "next_event P l kind payload req observed mono_ns = Inr e"
      "observer e m = (Inr (), m')" "ld_events l' = ld_events l @ [e]" "ld_manifest l' = ld_manifest l"
      "ld_max_events l' = ld_max_events l" "ld_sealed l' = ld_sealed l" "ledger_ready l = Inr ()"
    | (unobserved) e x where "r = Inl x" "next_event P l kind payload req observed mono_ns = Inr e"
      "observer e m = (Inl x, m')" "ld_events l' = ld_events l @ [e]" "ld_manifest l' = ld_manifest l"
      "ld_max_events l' = ld_max_events l" "ld_sealed l' = ld_sealed l" "ledger_ready l = Inr ()"
    | (refused) x where "r = Inl x" "m' = m" "ld_events l' = ld_events l" "ld_manifest l' = ld_manifest l"
      "ld_max_events l' = ld_max_events l" "ld_sealed l' = ld_sealed l"
proof (cases "ld_pending l \<ge> ld_max_pending_commits l")
  case True
  with assms refused show ?thesis
    by (auto simp: commit_event_def take_slot_def on_ledger_def op_simps)
next
  case False
  let ?l = "l\<lparr> ld_pending := ld_pending l + 1 \<rparr>"
  obtain q l1 where a: "append_event P kind payload req observed mono_ns wo ?l = (q, l1)" by fastforce
  have ne: "next_event P ?l kind payload req observed mono_ns = next_event P l kind payload req observed mono_ns"
    and rdy: "ledger_ready ?l = ledger_ready l"
    by (simp_all add: next_event_def ledger_ready_def)
  from a show ?thesis
  proof (cases rule: append_event_cases)
    case (added e encoded)
    obtain o1 m1 where o: "observer e m = (o1, m1)" by fastforce
    from assms False a added(1) o have "m' = m1" "l' = l1\<lparr> ld_pending := ld_pending l1 - 1 \<rparr>"
      "r = (case o1 of Inl x \<Rightarrow> Inl x | Inr _ \<Rightarrow> Inr e)"
      by (auto simp: commit_event_def take_slot_def on_ledger_def on_observer_def op_simps split: sum.splits)
    with added o ne rdy show ?thesis using committed [of e] unobserved [of _ e] by (cases o1) auto
  next
    case (refused x)
    with assms False a that(3) [of x] show ?thesis
      by (auto simp: commit_event_def take_slot_def on_ledger_def on_observer_def op_simps)
  next
    case (wal_failed x e encoded content n)
    with assms False a that(3) [of x] show ?thesis
      by (auto simp: commit_event_def take_slot_def on_ledger_def on_observer_def op_simps)
  qed
qed

section \<open>Observers\<close>

text \<open>
  The contract between the ledger and whoever observes its commits: \<open>seen s es\<close> says that the
  observer in state \<open>s\<close> has accepted exactly the events \<open>es\<close>. An accepted event extends them and
  carries the next sequence number; a rejected event leaves them as they were.
\<close>

locale commit_observer =
  fixes observe :: "event \<Rightarrow> ('m, unit) op"
    and seen :: "'m \<Rightarrow> event list \<Rightarrow> bool"
  assumes observe_accepts: "seen s es \<Longrightarrow> observe e s = (Inr u, s') \<Longrightarrow> seen s' (es @ [e])"
    and observe_rejects: "seen s es \<Longrightarrow> observe e s = (Inl x, s') \<Longrightarrow> seen s' es"
    and observe_sequence: "seen s es \<Longrightarrow> observe e s = (Inr u, s') \<Longrightarrow> eb_sequence (ev_body e) = int (length es)"
begin

text \<open>The observer has seen a prefix of the ledger, all of it while no observation failed.\<close>

definition tracks :: "prims \<Rightarrow> ledger \<times> 'm \<Rightarrow> nat \<Rightarrow> bool" where
  "tracks P lm k \<longleftrightarrow>
     chain P (ld_manifest (fst lm)) (ld_events (fst lm)) \<and> k \<le> length (ld_events (fst lm)) \<and>
     seen (snd lm) (take k (ld_events (fst lm)))"

lemma commit_in_step:
  assumes "tracks P (l, m) (length (ld_events l))"
    "commit_event P observe kind payload req observed mono_ns wo (l, m) = (Inr e, (l', m'))"
  shows "tracks P (l', m') (length (ld_events l')) \<and> ld_events l' = ld_events l @ [e]"
  using assms(2)
proof (cases rule: commit_event_cases)
  case (committed e')
  then have "chain P (ld_manifest l') (ld_events l')"
    using assms(1) next_event_links [OF committed(2)] by (simp add: tracks_def chain_snoc)
  with committed assms(1) observe_accepts [of m "ld_events l" e'] show ?thesis by (simp add: tracks_def)
qed simp_all

lemma commit_tracks:
  assumes "tracks P (l, m) k" "commit_event P observe kind payload req observed mono_ns wo (l, m) = (r, (l', m'))"
  shows "\<exists>k'. tracks P (l', m') k' \<and> k \<le> k'"
  using assms(2)
proof (cases rule: commit_event_cases)
  case (committed e)
  have c: "chain P (ld_manifest l') (ld_events l')"
    using assms(1) committed next_event_links [OF committed(2)] by (simp add: tracks_def chain_snoc)
  have s: "seen m (take k (ld_events l))" "k \<le> length (ld_events l)" using assms(1) by (simp_all add: tracks_def)
  have "eb_sequence (ev_body e) = int (length (ld_events l))"
    using next_event_links [OF committed(2)] by (simp add: links_def)
  then have "k = length (ld_events l)" using observe_sequence [OF s(1) committed(3)] s(2) by simp
  with committed c observe_accepts [OF s(1) committed(3)] show ?thesis
    by (intro exI [of _ "Suc k"]) (simp add: tracks_def)
next
  case (unobserved e x)
  have c: "chain P (ld_manifest l') (ld_events l')"
    using assms(1) unobserved next_event_links [OF unobserved(2)] by (simp add: tracks_def chain_snoc)
  have s: "seen m (take k (ld_events l))" "k \<le> length (ld_events l)" using assms(1) by (simp_all add: tracks_def)
  with unobserved c observe_rejects [OF s(1) unobserved(3)] show ?thesis
    by (intro exI [of _ k]) (simp add: tracks_def)
next
  case (refused x)
  with assms(1) show ?thesis by (intro exI [of _ k]) (simp add: tracks_def)
qed

text \<open>Once an event was recorded that the observer rejected, no later commit succeeds.\<close>

lemma commit_diverged:
  assumes "tracks P (l, m) k" "k < length (ld_events l)"
    "commit_event P observe kind payload req observed mono_ns wo (l, m) = (r, (l', m'))"
  shows "(\<exists>x. r = Inl x) \<and> tracks P (l', m') k \<and> k < length (ld_events l')"
  using assms(3)
proof (cases rule: commit_event_cases)
  case (committed e)
  have "seen m (take k (ld_events l))" using assms(1) by (simp add: tracks_def)
  from observe_sequence [OF this committed(3)] next_event_links [OF committed(2)] assms(2)
  have False by (simp add: links_def)
  then show ?thesis ..
next
  case (unobserved e x)
  have c: "chain P (ld_manifest l') (ld_events l')"
    using assms(1) unobserved next_event_links [OF unobserved(2)] by (simp add: tracks_def chain_snoc)
  have s: "seen m (take k (ld_events l))" using assms(1) by (simp_all add: tracks_def)
  with unobserved c observe_rejects [OF s unobserved(3)] assms(2) show ?thesis by (simp add: tracks_def)
next
  case (refused x)
  with assms(1,2) show ?thesis by (simp add: tracks_def)
qed

end

end
