(* ===== verification/BCP_Progress.thy ===== *)
theory BCP_Progress
  imports BCP_Json_Size BCP_Evidence
begin

text \<open>
  When building a signed record succeeds. A record whose fields are valid and whose free text is ASCII
  always serializes within the limits of the profile, so hashing and signing it cannot fail: the only
  sources of failure left are the clocks, the limits of the ledger and the write-ahead file.
\<close>

section \<open>Short ASCII fields\<close>

definition short_text :: "pystr \<Rightarrow> bool" where
  "short_text s \<longleftrightarrow> ascii s \<and> length s \<le> 128"

lemma short_opaque: "opaque_id s \<Longrightarrow> short_text s"
proof -
  have a: "lower_alnum c \<Longrightarrow> 0 \<le> c \<and> c < 128" for c by (auto simp: lower_alnum_def)
  assume "opaque_id s"
  then show ?thesis unfolding opaque_id_def
    by (cases s) (auto simp: short_text_def ascii_def list_all_iff dest!: a)
qed

lemma short_sha256: "sha256_hex_text s \<Longrightarrow> short_text s"
  by (auto simp: short_text_def ascii_def sha256_hex_text_def lower_hex_def list_all_iff)

lemma short_timestamp: "utc_timestamp P s \<Longrightarrow> short_text s"
proof -
  assume "utc_timestamp P s"
  then have "timestamp_shape s" by (auto simp: utc_timestamp_def is_ok_iff validate_timestamp_Inr)
  then show ?thesis using shape_ascii by (auto simp: timestamp_shape_def short_text_def ascii_def)
qed

lemma b64_ascii: "b64url_decode n s = Inr b \<Longrightarrow> ascii s"
proof -
  assume "b64url_decode n s = Inr b"
  then have "list_all (\<lambda>c. b64_value c \<noteq> None) s" by (auto simp: b64url_decode_def b64_text_def split: if_splits)
  moreover have "0 \<le> c \<and> c < 128" if "b64_value c \<noteq> None" for c
    using that by (auto simp: b64_value_def split: if_splits)
  ultimately show ?thesis by (auto simp: ascii_def list_all_iff)
qed

lemma b64_length: "length (b64url_encode b) \<le> 2 * length b"
  by (induction b rule: b64url_encode.induct) auto

lemma short_signature: "validate_signature s = Inr s \<Longrightarrow> short_text (sig_key_id s) \<and> short_text (sig_value s)"
proof -
  assume "validate_signature s = Inr s"
  then obtain b where b: "opaque_id (sig_key_id s)" "b64url_decode 64 (sig_value s) = Inr b"
    by (auto simp: validate_signature_def is_ok_iff)
  have "short_text (sig_value s)"
    using b64url_decode_Inr [OF b(2)] b64_length [of b] b64_ascii [OF b(2)] by (auto simp: short_text_def)
  with short_opaque [OF b(1)] show ?thesis by blast
qed

section \<open>Bounded values\<close>

text \<open>\<open>bounded_json P d n c v\<close>: at nesting depth \<open>d\<close>, \<open>v\<close> is valid, has at most \<open>n\<close> nodes and at most \<open>c\<close> bytes.\<close>

definition bounded_json :: "prims \<Rightarrow> int \<Rightarrow> int \<Rightarrow> int \<Rightarrow> pyval \<Rightarrow> bool" where
  "bounded_json P d n c v \<longleftrightarrow>
     py_of_json (json_of_py v) = v \<and> json_ok P (json_of_py v) \<and> json_fits d (json_of_py v) \<and>
     json_nodes (json_of_py v) \<le> n \<and> json_cost (json_of_py v) \<le> c \<and> json_ascii (json_of_py v)"

named_theorems bounded \<open>values with known bounds\<close>

lemma bounded_mono: "bounded_json P d n c v \<Longrightarrow> n \<le> n' \<Longrightarrow> c \<le> c' \<Longrightarrow> bounded_json P d n' c' v"
  by (auto simp: bounded_json_def)

lemma bounded_text:
  "d \<le> 64 \<Longrightarrow> nfc_fixes_ascii P \<Longrightarrow> ascii s \<Longrightarrow> bounded_json P d 1 (2 + 6 * int (length s)) (PStr s)"
  by (simp add: bounded_json_def ascii_str_ok MAX_JSON_DEPTH_def)

lemma bounded_short [bounded]: "d \<le> 64 \<Longrightarrow> nfc_fixes_ascii P \<Longrightarrow> short_text s \<Longrightarrow> bounded_json P d 1 770 (PStr s)"
  by (rule bounded_mono [OF bounded_text]) (auto simp: short_text_def)

lemma bounded_const [bounded]: "d \<le> 64 \<Longrightarrow> bounded_json P d 1 770 (PBool b)" "d \<le> 64 \<Longrightarrow> bounded_json P d 1 770 PNone"
  by (simp_all add: bounded_json_def MAX_JSON_DEPTH_def)

lemma bounded_opt_short [bounded]:
  "d \<le> 64 \<Longrightarrow> nfc_fixes_ascii P \<Longrightarrow> opt_all short_text s \<Longrightarrow> bounded_json P d 1 770 (opt_str s)"
  using bounded_const(2) [of d P] by (cases s) (auto simp: opt_str_def bounded_short)

lemma bounded_int [bounded]: "d \<le> 64 \<Longrightarrow> \<bar>i\<bar> \<le> MAX_SAFE_INTEGER \<Longrightarrow> bounded_json P d 1 770 (PInt i)"
  by (simp add: bounded_json_def MAX_JSON_DEPTH_def)

lemma bounded_list:
  assumes "d \<le> 63" "0 \<le> m" "0 \<le> b" "list_all (bounded_json P (d + 1) m b) vs"
  shows "bounded_json P d (1 + m * int (length vs)) (2 + (b + 1) * int (length vs)) (PSeq vs)"
  using assms(4)
proof (induction vs)
  case (Cons v vs)
  then have v: "bounded_json P (d + 1) m b v"
    "bounded_json P d (1 + m * int (length vs)) (2 + (b + 1) * int (length vs)) (PSeq vs)" by auto
  then show ?case by (auto simp: bounded_json_def comp_def algebra_simps)
qed (use assms(1) in \<open>simp add: bounded_json_def MAX_JSON_DEPTH_def\<close>)

lemma bounded_strs [bounded]:
  assumes "d \<le> 63" "nfc_fixes_ascii P" "list_all short_text ss"
  shows "bounded_json P d (1 + int (length ss)) (2 + 771 * int (length ss)) (str_tuple ss)"
  using bounded_list [of d 1 770 P "map PStr ss"] assms by (auto simp: str_tuple_def list_all_iff bounded_short)

text \<open>Members of an object with their bounds.\<close>

fun bounded_members :: "prims \<Rightarrow> int \<Rightarrow> int \<Rightarrow> int \<Rightarrow> (string \<times> pyval) list \<Rightarrow> bool" where
  "bounded_members P d n c [] \<longleftrightarrow> 0 \<le> n \<and> 0 \<le> c"
| "bounded_members P d n c ((k, v) # fs) \<longleftrightarrow>
     (\<exists>m b. bounded_json P d m b v \<and> short_text (lit k) \<and> bounded_members P d (n - m) (c - (772 + b)) fs)"

lemma bounded_obj:
  assumes "d \<le> 63" "nfc_fixes_ascii P" "distinct (map fst fs)" "bounded_members P (d + 1) n c fs"
  shows "bounded_json P d (1 + n) (2 + c) (obj fs)"
  using assms(3,4)
proof (induction fs arbitrary: n c)
  case (Cons f fs)
  obtain k v where f: "f = (k, v)" by fastforce
  obtain m b where m: "bounded_json P (d + 1) m b v" "short_text (lit k)"
    "bounded_members P (d + 1) (n - m) (c - (772 + b)) fs" using Cons.prems(2) f by auto
  have "str_ok P (lit k)" using m(2) assms(2) by (simp add: short_text_def ascii_str_ok)
  moreover have "lit k \<notin> fst ` (\<lambda>x. case case x of (k, v) \<Rightarrow> (KStr (lit k), v) of
      (k, v) \<Rightarrow> (case k of KStr s \<Rightarrow> s | KOther \<Rightarrow> [], json_of_py v)) ` set fs"
    using Cons.prems(1) f by (auto simp: image_iff)
  moreover have "(k, u) \<notin> set fs" for u using Cons.prems(1) f by (auto simp: image_iff)
  ultimately show ?case
    using Cons.IH [OF _ m(3)] Cons.prems(1) m(1,2) f assms(1)
    by (auto simp: bounded_json_def obj_def short_text_def comp_def split_def)
qed (use assms(1) in \<open>simp add: bounded_json_def obj_def MAX_JSON_DEPTH_def\<close>)

lemma bounded_total:
  assumes "bounded_json P 0 n c v" "n \<le> 100000" "c \<le> 4194304"
  shows "json_value P v"
  using assms by (auto simp: bounded_json_def json_value_def MAX_JSON_NODES_def MAX_CANONICAL_JSON_BYTES_def)

lemma bounded_domain_hash:
  assumes "bounded_json P 0 n c v" "n \<le> 100000" "c \<le> 4194304" "digest_ok P"
  shows "\<exists>h. domain_hash P d v = Inr h \<and> sha256_hex_text h"
  using canonical_json_total [OF bounded_total [OF assms(1-3)]] sha256_hex_ok [OF assms(4)]
  by (auto simp: domain_hash_def)


lemma bm_Cons:
  "bounded_json P d m b v \<Longrightarrow> short_text (lit k) \<Longrightarrow> bounded_members P d (n - m) (c - (772 + b)) fs \<Longrightarrow>
     bounded_members P d n c ((k, v) # fs)"
  by auto

lemma bm_Nil: "0 \<le> n \<Longrightarrow> 0 \<le> c \<Longrightarrow> bounded_members P d n c []"
  by simp

lemma short_lit: "list_all (\<lambda>c. \<not> digit7 c) s \<Longrightarrow> length s \<le> 128 \<Longrightarrow> short_text (lit s)"
proof -
  have "0 \<le> (of_char c :: int) \<and> (of_char c :: int) < 128" if "\<not> digit7 c" for c
    using that by (cases c) (auto simp: of_char_def)
  then show "list_all (\<lambda>c. \<not> digit7 c) s \<Longrightarrow> length s \<le> 128 \<Longrightarrow> short_text (lit s)"
    by (auto simp: short_text_def lit_def ascii_def list_all_iff)
qed

text \<open>Most members are short: one node and at most 770 bytes.\<close>

definition small_json :: "prims \<Rightarrow> pyval \<Rightarrow> bool" where
  "small_json P v \<longleftrightarrow> (\<forall>d\<le>64. bounded_json P d 1 770 v)"

lemma small_json_simps:
  "nfc_fixes_ascii P \<Longrightarrow> short_text s \<Longrightarrow> small_json P (PStr s)"
  "nfc_fixes_ascii P \<Longrightarrow> opt_all short_text t \<Longrightarrow> small_json P (opt_str t)"
  "safe_nonneg i \<Longrightarrow> small_json P (PInt i)" "opt_all safe_nonneg j \<Longrightarrow> small_json P (opt_int j)"
  "small_json P (PBool b)" "small_json P PNone"
  by (auto simp: small_json_def safe_nonneg_def intro!: bounded) (cases j; auto simp: opt_int_def safe_nonneg_def intro!: bounded)

lemma bm_small:
  "short_text (lit k) \<Longrightarrow> small_json P v \<Longrightarrow> d \<le> 64 \<Longrightarrow> bounded_members P d (n - 1) (c - 1542) fs \<Longrightarrow>
     bounded_members P d n c ((k, v) # fs)"
  using bm_Cons [of P d 1 770 v k n c fs] by (simp add: small_json_def)

lemmas short_rules = short_opaque short_sha256 short_timestamp short_lit

lemma opt_all_mono: "opt_all p v \<Longrightarrow> (\<And>x. p x \<Longrightarrow> q x) \<Longrightarrow> opt_all q v"
  by (cases v) auto

section \<open>Records\<close>

lemma bounded_signature:
  assumes "d \<le> 63" "nfc_fixes_ascii P" "validate_signature s = Inr s"
  shows "bounded_json P d 4 4628 (dump_signature s)"
proof -
  have "bounded_json P d (1 + 3) (2 + 4626) (dump_signature s)" unfolding dump_signature_def
    by (rule bounded_obj; (intro bm_small bm_Nil)?)
      (use assms short_signature [OF assms(3)] in \<open>simp_all add: short_lit small_json_simps\<close>)
  then show ?thesis by simp
qed

lemma short_protocol: "short_text PROTOCOL" "short_text SCHEMA_VERSION"
  by (simp_all add: PROTOCOL_def SCHEMA_VERSION_def short_lit)

lemma short_enums:
  "short_text (event_kind_name k)" "short_text (verdict_name v)"
  "short_text (termination_mode_name t)" "short_text (run_status_name r)"
proof -
  show "short_text (event_kind_name k)" by (cases k) (simp_all add: event_kind_name_def short_lit)
  show "short_text (verdict_name v)" by (cases v) (simp_all add: verdict_name_def short_lit)
  show "short_text (termination_mode_name t)" by (cases t) (simp_all add: termination_mode_name_def short_lit)
  show "short_text (run_status_name r)" by (cases r) (simp_all add: run_status_name_def short_lit)
qed

lemmas short_names = short_protocol short_enums

lemma bounded_event_body:
  assumes "d \<le> 63" "nfc_fixes_ascii P" "validate_event_body P b = Inr b" "ascii (eb_payload_canonical_json b)"
  shows "bounded_json P d 14 (20050 + 6 * int (length (eb_payload_canonical_json b))) (dump_event_body b)"
proof -
  let ?L = "6 * int (length (eb_payload_canonical_json b))"
  note payload = bm_Cons [OF bounded_text [of "d + 1" P "eb_payload_canonical_json b"]]
  from assms(3) have f: "short_text (eb_run_id b)" "short_text (eb_manifest_hash b)" "safe_nonneg (eb_sequence b)"
    "short_text (eb_previous_event_hash b)" "opt_all short_text (eb_request_id b)" "short_text (eb_producer_instance_id b)"
    "short_text (eb_observed_at b)" "safe_nonneg (eb_monotonic_ns b)" "short_text (eb_payload_sha256 b)"
    by (auto simp: validate_event_body_def intro: short_rules opt_all_mono)
  have "bounded_json P d (1 + 13) (2 + (20048 + ?L)) (dump_event_body b)" unfolding dump_event_body_def
    by (rule bounded_obj; (intro payload bm_small bm_Nil)?)
      (use assms f in \<open>simp_all add: short_lit small_json_simps short_names\<close>)
  then show ?thesis by simp
qed

lemma bounded_event:
  assumes "d \<le> 62" "nfc_fixes_ascii P" "validate_event_body P (ev_body e) = Inr (ev_body e)" "validate_event P e = Inr e"
    "ascii (eb_payload_canonical_json (ev_body e))"
  shows "bounded_json P d 16 (24000 + 6 * int (length (eb_payload_canonical_json (ev_body e)))) (dump_event e)"
proof -
  let ?L = "6 * int (length (eb_payload_canonical_json (ev_body e)))"
  note body = bm_Cons [OF bounded_event_body [of "d + 1" P "ev_body e"]]
  have f: "short_text (ev_hash e)" using assms(4) by (auto simp: validate_event_def intro: short_rules)
  have "bounded_json P d (1 + 15) (2 + (23998 + ?L)) (dump_event e)" unfolding dump_event_def
    by (rule bounded_obj; (intro body bm_small bm_Nil)?)
      (use assms f in \<open>simp_all add: short_lit small_json_simps\<close>)
  then show ?thesis by simp
qed


lemma bounded_decision_body:
  assumes "d \<le> 63" "nfc_fixes_ascii P" "validate_decision_body P b = Inr b"
  shows "bounded_json P d 21 30842 (dump_decision_body b)"
proof -
  from assms(3) have f: "short_text (db_run_id b)" "short_text (db_manifest_hash b)" "short_text (db_request_id b)"
    "safe_nonneg (db_request_event_sequence b)" "short_text (db_request_event_hash b)" "short_text (db_action_sha256 b)"
    "short_text (db_gateway_key_id b)" "short_text (db_gateway_instance_id b)" "short_text (db_decided_at b)"
    "safe_nonneg (db_decision_monotonic_ns b)" "safe_nonneg (db_kill_epoch b)" "short_text (db_reason_code b)"
    "opt_all short_text (db_matched_rule_id b)" "opt_all short_text (db_authorization_id b)"
    "opt_all safe_nonneg (db_authorization_expires_monotonic_ns b)"
    by (auto simp: validate_decision_body_def intro: short_rules opt_all_mono)
  have one: "small_json P (if db_authorization_single_use b then PInt 1 else PNone)"
    by (simp add: small_json_simps safe_nonneg_def MAX_SAFE_INTEGER_def)
  have "bounded_json P d (1 + 20) (2 + 30840) (dump_decision_body b)" unfolding dump_decision_body_def
    by (rule bounded_obj; (intro bm_small bm_Nil)?)
      (use assms f one in \<open>simp_all add: short_lit small_json_simps short_names\<close>)
  then show ?thesis by simp
qed

lemma bounded_kill_ack_body:
  assumes "d \<le> 62" "nfc_fixes_ascii P" "validate_kill_ack_body P b = Inr b"
  shows "bounded_json P d (22 + int (length (ka_terminated_workload_ids b)))
    (33000 + 771 * int (length (ka_terminated_workload_ids b))) (dump_kill_ack_body b)"
proof -
  let ?n = "int (length (ka_terminated_workload_ids b))"
  from assms(3) have f: "short_text (ka_run_id b)" "short_text (ka_manifest_hash b)" "short_text (ka_supervisor_key_id b)"
    "short_text (ka_supervisor_instance_id b)" "safe_nonneg (ka_trigger_event_sequence b)" "short_text (ka_trigger_event_hash b)"
    "safe_nonneg (ka_trigger_monotonic_ns b)" "short_text (ka_kill_requested_at b)" "safe_nonneg (ka_kill_requested_monotonic_ns b)"
    "short_text (ka_kill_acknowledged_at b)" "safe_nonneg (ka_kill_acknowledged_monotonic_ns b)" "safe_nonneg (ka_kill_latency_ns b)"
    "safe_nonneg (ka_inflight_at_trigger b)" "safe_nonneg (ka_inflight_cancel_signalled b)" "safe_nonneg (ka_inflight_cancelled b)"
    "opt_all short_text (ka_isolation_evidence_sha256 b)"
    by (auto simp: validate_kill_ack_body_def intro: short_rules opt_all_mono)
  have ids: "list_all short_text (ka_terminated_workload_ids b)"
    using assms(3) by (auto simp: validate_kill_ack_body_def list_all_iff intro: short_opaque)
  note workloads = bm_Cons [OF bounded_strs [of "d + 1" P "ka_terminated_workload_ids b"]]
  have "bounded_json P d (1 + (21 + ?n)) (2 + (32998 + 771 * ?n)) (dump_kill_ack_body b)" unfolding dump_kill_ack_body_def
    by (rule bounded_obj; (intro workloads bm_small bm_Nil)?)
      (use assms f ids in \<open>simp_all add: short_lit small_json_simps short_names\<close>)
  then show ?thesis by simp
qed

lemma bounded_checkpoint_body:
  assumes "d \<le> 63" "nfc_fixes_ascii P" "validate_checkpoint_body P b = Inr b"
  shows "bounded_json P d 10 13880 (dump_checkpoint_body b)"
proof -
  from assms(3) have f: "short_text (wc_run_id b)" "short_text (wc_manifest_hash b)" "short_text (wc_witness_key_id b)"
    "short_text (wc_witnessed_at b)" "safe_nonneg (wc_event_count b)" "opt_all short_text (wc_final_event_hash b)"
    "short_text (wc_evidence_file_sha256 b)"
    by (auto simp: validate_checkpoint_body_def intro: short_rules opt_all_mono)
  have "bounded_json P d (1 + 9) (2 + 13878) (dump_checkpoint_body b)" unfolding dump_checkpoint_body_def
    by (rule bounded_obj; (intro bm_small bm_Nil)?)
      (use assms f in \<open>simp_all add: short_lit small_json_simps short_names\<close>)
  then show ?thesis by simp
qed

section \<open>Signing succeeds and verifies\<close>

text \<open>What a signer needs: the primitives behave, the private key is 32 bytes, the public key belongs to it.\<close>

definition signer :: "prims \<Rightarrow> bytes \<Rightarrow> ed_public_key \<Rightarrow> bool" where
  "signer P sk k \<longleftrightarrow>
     digest_ok P \<and> signature_ok P \<and> nfc_fixes_ascii P \<and> length sk = 32 \<and> list_all is_byte sk \<and>
     opaque_id (key_id k) \<and> key_value k = b64url_encode (p_public P sk)"

lemma sign_digest_total:
  assumes "signer P sk k" "bounded_json P 0 n c v" "n \<le> 100000" "c \<le> 4194304"
  shows "\<exists>h s. domain_hash P hdom v = Inr h \<and> sha256_hex_text h \<and> sign_digest P sdom (key_id k) sk h = Inr s \<and>
    sig_key_id s = key_id k \<and> validate_signature s = Inr s \<and> verify_digest P sdom k s h = Inr ()"
proof -
  from assms(1) have p: "digest_ok P" "signature_ok P" "length sk = 32" "list_all is_byte sk" "opaque_id (key_id k)"
    "key_value k = b64url_encode (p_public P sk)" by (simp_all add: signer_def)
  obtain h where h: "domain_hash P hdom v = Inr h" "sha256_hex_text h"
    using bounded_domain_hash [OF assms(2-4) p(1)] by blast
  obtain s where s: "sign_digest P sdom (key_id k) sk h = Inr s" "sig_key_id s = key_id k" "verify_digest P sdom k s h = Inr ()"
    using verify_sign_digest [OF p(2-5) h(2) p(6)] by blast
  moreover have "validate_signature s = Inr s"
  proof -
    from s(1) obtain q where "validate_signature q = Inr s"
      by (auto simp: sign_digest_def signature_from_bytes_def simp del: validated_Inr split: if_splits)
    then show ?thesis by (simp add: validate_signature_def)
  qed
  ultimately show ?thesis using h by blast
qed

text \<open>
  The contract of a signed envelope: a body, the domain-separated hash of its dump and a signature of
  that hash by the key the body names.
\<close>

locale envelope =
  fixes hash_domain sig_domain :: string
    and dump :: "'b \<Rightarrow> pyval"
    and signer_id :: "'b \<Rightarrow> pystr"
    and wrap :: "'b \<Rightarrow> pystr \<Rightarrow> ed_signature \<Rightarrow> 'r"
    and validate :: "prims \<Rightarrow> 'r \<Rightarrow> 'r result"
    and sign :: "prims \<Rightarrow> 'b \<Rightarrow> bytes \<Rightarrow> 'r result"
    and verify :: "prims \<Rightarrow> ed_public_key \<Rightarrow> 'r \<Rightarrow> unit result"
  assumes sign_eq: "sign P b sk =
      bind_result (domain_hash P hash_domain (dump b)) (\<lambda>h.
      bind_result (sign_digest P sig_domain (signer_id b) sk h) (\<lambda>s. validate P (wrap b h s)))"
    and validate_eq: "validate P (wrap b h s) = Inr r \<longleftrightarrow>
      r = wrap b h s \<and> sha256_hex_text h \<and> domain_hash P hash_domain (dump b) = Inr h \<and> sig_key_id s = signer_id b"
    and verify_eq: "verify P k (wrap b h s) = Inr u \<longleftrightarrow>
      key_id k = signer_id b \<and> verify_digest P sig_domain k s h = Inr u"
begin

lemma sign_total:
  assumes "signer P sk k" "bounded_json P 0 n c (dump b)" "n \<le> 100000" "c \<le> 4194304" "signer_id b = key_id k"
  shows "\<exists>h s. sign P b sk = Inr (wrap b h s) \<and> validate P (wrap b h s) = Inr (wrap b h s) \<and>
    validate_signature s = Inr s \<and> verify P k (wrap b h s) = Inr ()"
proof -
  obtain h s where h: "domain_hash P hash_domain (dump b) = Inr h" "sha256_hex_text h"
    "sign_digest P sig_domain (key_id k) sk h = Inr s" "sig_key_id s = key_id k"
    "validate_signature s = Inr s" "verify_digest P sig_domain k s h = Inr ()"
    using sign_digest_total [OF assms(1-4)] by blast
  then have "validate P (wrap b h s) = Inr (wrap b h s)" using assms(5) by (simp add: validate_eq)
  with h assms(5) show ?thesis by (auto simp: sign_eq verify_eq)
qed

lemma sign_shape:
  assumes "sign P b sk = Inr r"
  shows "\<exists>h s. r = wrap b h s \<and> validate P r = Inr r \<and> domain_hash P hash_domain (dump b) = Inr h \<and>
    sha256_hex_text h \<and> sig_key_id s = signer_id b"
proof -
  from assms obtain h s where "validate P (wrap b h s) = Inr r" by (auto simp: sign_eq)
  then show ?thesis by (auto simp: validate_eq)
qed

text \<open>Two valid envelopes with the same hash have the same serialized body, or are a hash collision.\<close>

lemma hash_binds:
  assumes "validate P (wrap b h s) = Inr r" "validate P (wrap b' h s') = Inr r'"
  shows "canonical_json_bytes P (dump b) = canonical_json_bytes P (dump b') \<or>
    (\<exists>x y. x \<noteq> y \<and> sha256_hex P x = sha256_hex P y)"
proof -
  from assms obtain x y where x: "canonical_json_bytes P (dump b) = Inr x" "canonical_json_bytes P (dump b') = Inr y"
    "sha256_hex P (PROTOCOL @ [0] @ lit hash_domain @ [0] @ x) = sha256_hex P (PROTOCOL @ [0] @ lit hash_domain @ [0] @ y)"
    by (auto simp: validate_eq domain_hash_def)
  show ?thesis
  proof (cases "x = y")
    case False
    then have "PROTOCOL @ [0] @ lit hash_domain @ [0] @ x \<noteq> PROTOCOL @ [0] @ lit hash_domain @ [0] @ y" by simp
    from conjI [OF this x(3)] show ?thesis by (intro disjI2 exI)
  qed (use x in simp)
qed

end

interpretation decision_env: envelope "''DECISION-HASH''" "''DECISION-SIGNATURE''" dump_decision_body db_gateway_key_id
  "\<lambda>b h s. \<lparr> d_body = b, d_hash = h, d_signature = s \<rparr>" validate_decision sign_decision verify_decision
  by unfold_locales (auto simp: sign_decision_def validate_decision_def verify_decision_def)

interpretation ack_env: envelope "''KILL-ACK-HASH''" "''KILL-ACK-SIGNATURE''" dump_kill_ack_body ka_supervisor_key_id
  "\<lambda>b h s. \<lparr> k_body = b, k_hash = h, k_signature = s \<rparr>" validate_kill_ack sign_kill_ack verify_kill_ack
  by unfold_locales (auto simp: sign_kill_ack_def validate_kill_ack_def verify_kill_ack_def)

interpretation checkpoint_env: envelope "''WITNESS-CHECKPOINT-HASH''" "''WITNESS-CHECKPOINT-SIGNATURE''"
  dump_checkpoint_body wc_witness_key_id
  "\<lambda>b h s. \<lparr> c_body = b, c_hash = h, c_signature = s \<rparr>" validate_checkpoint sign_checkpoint verify_checkpoint
  by unfold_locales (auto simp: sign_checkpoint_def validate_checkpoint_def verify_checkpoint_def)

interpretation receipt_env: envelope "''RECEIPT-HASH''" "''RECEIPT-SIGNATURE''" dump_receipt_body rb_supervisor_key_id
  "\<lambda>b h s. \<lparr> r_body = b, r_hash = h, r_signature = s \<rparr>" validate_receipt sign_receipt verify_receipt
  by unfold_locales (auto simp: sign_receipt_def validate_receipt_def verify_receipt_def)


section \<open>Events\<close>

definition good_time :: "datetime \<Rightarrow> bool" where
  "good_time d \<longleftrightarrow> real_time d \<and> 1000 \<le> dt_year d \<and> dt_aware d"

lemma format_good_time:
  assumes "good_time d" "nfc_fixes_ascii P"
  shows "\<exists>s. format_utc_timestamp d = Inr s \<and> utc_timestamp P s"
proof -
  have d: "real_time d" "1000 \<le> dt_year d" "dt_aware d" using assms(1) by (simp_all add: good_time_def)
  note sh = strftime_shape(1) [OF d(1,2)] strftime_shape(2) [OF d]
  have "ascii (strftime_utc d)" using shape_ascii sh(1) unfolding timestamp_shape_def ascii_def by blast
  with assms(2) sh d(1) have "validate_timestamp P (strftime_utc d) = Inr (strftime_utc d)"
    by (auto simp: validate_timestamp_Inr nfc_fixes_ascii_def intro: ascii_scalar)
  with d(3) show ?thesis by (simp add: format_utc_timestamp_def utc_timestamp_def)
qed

text \<open>Sound parameters of a ledger, and the two facts about the head that a successor needs.\<close>

definition ledger_sound :: "ledger \<Rightarrow> bool" where
  "ledger_sound l \<longleftrightarrow>
     opaque_id (mb_run_id (m_body (ld_manifest l))) \<and> sha256_hex_text (m_hash (ld_manifest l)) \<and>
     opaque_id (ld_producer_instance_id l) \<and> ld_max_events l \<le> MAX_SAFE_INTEGER \<and>
     (ld_events l \<noteq> [] \<longrightarrow> sha256_hex_text (ev_hash (last (ld_events l))) \<and> ev_hash (last (ld_events l)) \<noteq> GENESIS_HASH)"

lemma genesis_hex: "sha256_hex_text GENESIS_HASH"
  by (simp add: sha256_hex_text_def GENESIS_HASH_def lower_hex_def list_all_iff)

lemma ascii_payload_sha256: "ascii t \<Longrightarrow> digest_ok P \<Longrightarrow> \<exists>h. payload_sha256 P t = Inr h \<and> sha256_hex_text h"
  by (auto simp: payload_sha256_def utf8_encode_def intro: ascii_scalar sha256_hex_ok)

lemma next_event_total:
  assumes "nfc_fixes_ascii P" "digest_ok P" "ledger_sound l" "ledger_ready l = Inr ()" "good_time observed"
    "bounded_json P 0 n c payload" "n \<le> 100000" "c \<le> 500000" "opt_all opaque_id req" "safe_nonneg mono_ns"
  shows "\<exists>e line. next_event P l kind payload req observed mono_ns = Inr e \<and> encode_event P e = Inr line"
proof -
  obtain at where at: "format_utc_timestamp observed = Inr at" "utc_timestamp P at"
    using format_good_time [OF assms(5,1)] by blast
  have jv: "json_value P payload" using bounded_total [OF assms(6,7)] assms(8) by simp
  obtain t where t: "canonical_json P payload = Inr t" "utf8_len t \<le> json_cost (json_of_py payload)"
    using canonical_json_total [OF jv] by blast
  have a: "ascii t" using canonical_json_ascii [OF t(1)] assms(6) by (simp add: bounded_json_def)
  have len: "int (length t) \<le> 500000"
    using t(2) assms(6,8) ascii_utf8_len [OF a] by (simp add: bounded_json_def)
  obtain digest where dg: "payload_sha256 P t = Inr digest" "sha256_hex_text digest"
    using ascii_payload_sha256 [OF a assms(2)] by blast
  let ?prev = "previous_hash (ld_events l)" and ?n = "int (length (ld_events l))"
  have prev: "sha256_hex_text ?prev" "ld_events l = [] \<longrightarrow> ?prev = GENESIS_HASH"
    "ld_events l = [] \<or> ?prev \<noteq> GENESIS_HASH"
    using assms(3) genesis_hex by (auto simp: previous_hash_def ledger_sound_def)
  have n: "safe_nonneg ?n"
    using assms(3,4) by (auto simp: ledger_sound_def ledger_ready_def safe_nonneg_def split: if_splits)
  let ?b = "\<lparr> eb_run_id = mb_run_id (m_body (ld_manifest l)), eb_manifest_hash = m_hash (ld_manifest l), eb_sequence = ?n,
    eb_previous_event_hash = ?prev, eb_kind = kind, eb_request_id = req,
    eb_producer_instance_id = ld_producer_instance_id l, eb_observed_at = at, eb_monotonic_ns = mono_ns,
    eb_payload_canonical_json = t, eb_payload_sha256 = digest \<rparr>"
  have "canonicalize_json_text P t = Inr t"
    using canonicalize_canonical [OF t(1)] assms(1) a by (simp add: nfc_fixes_ascii_def)
  then have b: "validate_event_body P ?b = Inr ?b"
    using assms(3,9,10) at(2) dg prev n len ascii_utf8_len [OF a]
    by (simp add: validate_event_body_def ledger_sound_def utf8_size_def utf8_len_def MAX_EVENT_PAYLOAD_BYTES_def)
  obtain h where h: "domain_hash P ''EVENT-HASH'' (dump_event_body ?b) = Inr h" "sha256_hex_text h"
    using bounded_domain_hash [OF bounded_event_body [OF _ assms(1) b, of 0] _ _ assms(2)] a len by auto
  let ?e = "\<lparr> ev_body = ?b, ev_hash = h \<rparr>"
  have e: "validate_event P ?e = Inr ?e" using h by (simp add: validate_event_def)
  have ev: "json_value P (dump_event ?e)"
    by (rule bounded_total [OF bounded_event [OF _ assms(1)]]) (use b e a len in simp_all)
  obtain line where "encode_event P ?e = Inr line"
    using canonical_json_total [OF ev] by (auto simp: encode_event_def)
  moreover have "next_event P l kind payload req observed mono_ns = Inr ?e"
    using at(1) t(1) dg(1) b h(1) e by (simp add: next_event_def create_event_def)
  ultimately show ?thesis by blast
qed


section \<open>The concrete primitives\<close>

lemma checksum_range: "0 \<le> a \<Longrightarrow> a < 65536 \<Longrightarrow> 0 \<le> checksum a b \<and> checksum a b < 65536"
proof (induction b arbitrary: a)
  case (Cons x xs)
  have "0 \<le> (a * 257 + x + 1) mod 65521" "(a * 257 + x + 1) mod 65521 < 65536"
    using pos_mod_bound [of 65521 "a * 257 + x + 1"] by auto
  then show ?case using Cons.IH by simp
qed simp

lemma sample_digest: "length (sample_sha256 b) = 32 \<and> list_all is_byte (sample_sha256 b)"
proof -
  have "0 \<le> checksum 1 b" "checksum 1 b < 65536" using checksum_range [of 1 b] by auto
  then have "is_byte (checksum 1 b div 256)" "is_byte (checksum 1 b mod 256)" by (auto simp: is_byte_def)
  then show ?thesis by (auto simp: sample_sha256_def Let_def list_all_iff length_concat sum_list_replicate is_byte_def)
qed

lemma sample_prims_ok: "digest_ok sample_prims" "signature_ok sample_prims" "nfc_fixes_ascii sample_prims"
  using sample_digest by (auto simp: digest_ok_def signature_ok_def nfc_fixes_ascii_def sample_prims_def)

lemma sample_signer: "opaque_id (lit kid) \<Longrightarrow> is_byte b \<Longrightarrow>
    signer sample_prims (replicate 32 b) \<lparr> key_id = lit kid, key_value = b64url_encode (replicate 32 b) \<rparr>"
  using sample_prims_ok by (simp add: signer_def list_all_iff sample_prims_def)


lemma sample_hash_nonzero: "domain_hash sample_prims d v = Inr h \<Longrightarrow> h \<noteq> GENESIS_HASH"
proof -
  have "hd (sha256_hex sample_prims x) = 49" for x
    by (simp add: sha256_hex_def sample_prims_def sample_sha256_def hexdigest_def hex_byte_def hex_digit_def Let_def)
  moreover have "hd GENESIS_HASH = 48" by (simp add: GENESIS_HASH_def)
  ultimately have "sha256_hex sample_prims x \<noteq> GENESIS_HASH" for x
    by (intro notI) (drule arg_cong [where f = hd], simp)
  then show "domain_hash sample_prims d v = Inr h \<Longrightarrow> h \<noteq> GENESIS_HASH" by (auto simp: domain_hash_def)
qed

end
