(* ===== verification/BCP_Action.thy ===== *)
theory BCP_Action
  imports BCP_Records
begin

text \<open>
  Reading models from parsed JSON (\<open>model_validate\<close> on the value of \<open>parse_canonical_json\<close>: closed
  objects, no coercion between JSON types, defaults for absent fields), and the action of
  \<^verbatim>\<open>app/action.py\<close>.
\<close>

section \<open>Reading fields\<close>

definition req_field :: "(pystr \<times> json) list \<Rightarrow> string \<Rightarrow> (json \<Rightarrow> 'a option) \<Rightarrow> 'a option" where
  "req_field kvs name rd = (case map_of kvs (lit name) of None \<Rightarrow> None | Some j \<Rightarrow> rd j)"

definition def_field :: "(pystr \<times> json) list \<Rightarrow> string \<Rightarrow> (json \<Rightarrow> 'a option) \<Rightarrow> 'a \<Rightarrow> 'a option" where
  "def_field kvs name rd d = (case map_of kvs (lit name) of None \<Rightarrow> Some d | Some j \<Rightarrow> rd j)"

definition closed_object :: "(pystr \<times> json) list \<Rightarrow> string list \<Rightarrow> bool" where
  "closed_object kvs names \<longleftrightarrow> list_all (\<lambda>(k, v). k \<in> set (map lit names)) kvs"

fun read_str :: "json \<Rightarrow> pystr option" where
  "read_str (JStr s) = Some s"
| "read_str _ = None"

fun read_int :: "json \<Rightarrow> int option" where
  "read_int (JInt i) = Some i"
| "read_int _ = None"

fun read_bool :: "json \<Rightarrow> bool option" where
  "read_bool (JBool b) = Some b"
| "read_bool _ = None"

definition read_optional :: "(json \<Rightarrow> 'a option) \<Rightarrow> json \<Rightarrow> 'a option option" where
  "read_optional rd j = (if j = JNull then Some None else map_option Some (rd j))"

definition read_literal :: "json \<Rightarrow> json \<Rightarrow> unit option" where
  "read_literal c j = (if j = c then Some () else None)"

definition read_enum :: "(pystr \<times> 'a) list \<Rightarrow> json \<Rightarrow> 'a option" where
  "read_enum table j = (case read_str j of None \<Rightarrow> None | Some s \<Rightarrow> map_of table s)"

definition http_methods :: "(pystr \<times> http_method) list" where
  "http_methods = map (\<lambda>m. (method_name m, m)) [DELETE, GET, HEAD, PATCH, POST, PUT]"

definition bad_shape :: "'a result" where
  "bad_shape = Inl (ValidationError ''input does not have the shape of the model'')"

section \<open>Actions\<close>

record action =
  a_request_id :: pystr
  a_method :: http_method
  a_host :: pystr
  a_port :: int
  a_path :: pystr
  a_resolved_ip :: pystr
  a_tls_spki_sha256 :: pystr
  a_body_canonical_json :: pystr
  a_body_sha256 :: pystr
  a_body_bytes :: int
  a_credential_id :: "pystr option"

text \<open>\<open>_HOST_RE\<close> and the checks around it.\<close>

definition host_is_exact :: "prims \<Rightarrow> pystr \<Rightarrow> bool" where
  "host_is_exact P v \<longleftrightarrow>
     v = p_lower P v \<and> \<not> (v \<noteq> [] \<and> last v = 46) \<and> 42 \<notin> set v \<and>
     1 \<le> length v \<and> length v \<le> 253 \<and> lower_alnum (hd v) \<and> lower_alnum (last v) \<and>
     list_all (\<lambda>c. lower_alnum c \<or> c = 46 \<or> c = 45) v"

definition path_is_unambiguous :: "pystr \<Rightarrow> bool" where
  "path_is_unambiguous v \<longleftrightarrow>
     str_startswith v [47] \<and> \<not> (92 \<in> set v \<or> 37 \<in> set v \<or> 63 \<in> set v \<or> 35 \<in> set v) \<and>
     \<not> contains [47, 47] v \<and> \<not> list_ex dot_segment (split_on 47 v) \<and>
     (v = [47] \<or> posix_path_str v = rstrip 47 v)"

definition ip_is_canonical :: "pystr \<Rightarrow> bool" where
  "ip_is_canonical v \<longleftrightarrow> (case ip_address v of None \<Rightarrow> False | Some a \<Rightarrow> ip_compressed a = v)"

text \<open>
  43 characters of the base64url alphabet; \<open>urlsafe_b64decode\<close> ignores the two excess bits of the
  last one, and 43 sextets always give 32 bytes.
\<close>

definition spki_is_sha256 :: "pystr \<Rightarrow> bool" where
  "spki_is_sha256 v \<longleftrightarrow>
     length v = 43 \<and> list_all (\<lambda>c. b64_value c \<noteq> None) v \<and>
     (case b64_sextets (map (\<lambda>c. the (b64_value c)) v) of None \<Rightarrow> False | Some b \<Rightarrow> length b = 32)"

definition body_is_canonical :: "prims \<Rightarrow> pystr \<Rightarrow> bool" where
  "body_is_canonical P v \<longleftrightarrow>
     (case parse_canonical_json P (InStr v) of Inl _ \<Rightarrow> False | Inr j \<Rightarrow> canonical_json P (py_of_json j) = Inr v)"

definition validate_action :: "prims \<Rightarrow> action \<Rightarrow> action result" where
  "validate_action P a =
     validated
       [(opaque_id (a_request_id a), ''request_id''),
        (a_host a \<noteq> [] \<and> host_is_exact P (a_host a), ''host must be an exact lowercase ASCII DNS name''),
        (port_number (a_port a), ''port''),
        (path_is_unambiguous (a_path a), ''path is ambiguous or not normalized''),
        (ip_is_canonical (a_resolved_ip a), ''resolved_ip must use canonical form''),
        (spki_is_sha256 (a_tls_spki_sha256 a), ''TLS SPKI pin must be unpadded base64url SHA-256''),
        (body_is_canonical P (a_body_canonical_json a), ''body_canonical_json is not canonical''),
        (sha256_hex_text (a_body_sha256 a), ''body_sha256''),
        (safe_nonneg (a_body_bytes a), ''body_bytes''),
        (opt_all opaque_id (a_credential_id a), ''credential_id''),
        (utf8_size (a_body_canonical_json a) = a_body_bytes a, ''body_bytes does not match canonical body''),
        (payload_sha256 P (a_body_canonical_json a) = Inr (a_body_sha256 a), ''body_sha256 does not match canonical body'')] a"

definition dump_action :: "action \<Rightarrow> pyval" where
  "dump_action a =
     obj [(''request_id'', PStr (a_request_id a)), (''method'', PStr (method_name (a_method a))),
          (''scheme'', PStr (lit ''https'')), (''host'', PStr (a_host a)), (''port'', PInt (a_port a)),
          (''path'', PStr (a_path a)), (''resolved_ip'', PStr (a_resolved_ip a)),
          (''tls_spki_sha256'', PStr (a_tls_spki_sha256 a)),
          (''body_canonical_json'', PStr (a_body_canonical_json a)), (''body_sha256'', PStr (a_body_sha256 a)),
          (''body_bytes'', PInt (a_body_bytes a)), (''credential_id'', opt_str (a_credential_id a)),
          (''redirects'', PBool False)]"

definition action_fields :: "string list" where
  "action_fields =
     [''request_id'', ''method'', ''scheme'', ''host'', ''port'', ''path'', ''resolved_ip'', ''tls_spki_sha256'',
      ''body_canonical_json'', ''body_sha256'', ''body_bytes'', ''credential_id'', ''redirects'']"

definition read_action :: "(pystr \<times> json) list \<Rightarrow> action option" where
  "read_action kvs =
     (case (req_field kvs ''request_id'' read_str, req_field kvs ''method'' (read_enum http_methods),
            def_field kvs ''scheme'' (read_literal (JStr (lit ''https''))) (),
            req_field kvs ''host'' read_str, req_field kvs ''port'' read_int, req_field kvs ''path'' read_str) of
        (Some r, Some m, Some _, Some h, Some p, Some pa) \<Rightarrow>
          (case (req_field kvs ''resolved_ip'' read_str, req_field kvs ''tls_spki_sha256'' read_str,
                 req_field kvs ''body_canonical_json'' read_str, req_field kvs ''body_sha256'' read_str,
                 req_field kvs ''body_bytes'' read_int,
                 def_field kvs ''credential_id'' (read_optional read_str) None,
                 def_field kvs ''redirects'' (read_literal (JBool False)) ()) of
             (Some ip, Some tls, Some bj, Some bs, Some bb, Some cred, Some _) \<Rightarrow>
               Some \<lparr> a_request_id = r, a_method = m, a_host = h, a_port = p, a_path = pa, a_resolved_ip = ip,
                      a_tls_spki_sha256 = tls, a_body_canonical_json = bj, a_body_sha256 = bs, a_body_bytes = bb,
                      a_credential_id = cred \<rparr>
           | _ \<Rightarrow> None)
      | _ \<Rightarrow> None)"

definition action_of_json :: "prims \<Rightarrow> json \<Rightarrow> action result" where
  "action_of_json P j =
     (case j of
        JObj kvs \<Rightarrow>
          if \<not> closed_object kvs action_fields then bad_shape
          else (case read_action kvs of None \<Rightarrow> bad_shape | Some a \<Rightarrow> validate_action P a)
      | _ \<Rightarrow> bad_shape)"

definition from_wire :: "prims \<Rightarrow> json_input \<Rightarrow> action result" where
  "from_wire P raw = bind_result (parse_canonical_json P raw) (action_of_json P)"

definition build_action ::
  "prims \<Rightarrow> pystr \<Rightarrow> http_method \<Rightarrow> pystr \<Rightarrow> int \<Rightarrow> pystr \<Rightarrow> pystr \<Rightarrow> pystr \<Rightarrow> pyval \<Rightarrow> pystr option \<Rightarrow> action result" where
  "build_action P req meth host port path ip spki body cred =
     bind_result (canonical_json P body) (\<lambda>body_json.
     bind_result (payload_sha256 P body_json) (\<lambda>digest.
       validate_action P
         \<lparr> a_request_id = req, a_method = meth, a_host = host, a_port = port, a_path = path, a_resolved_ip = ip,
           a_tls_spki_sha256 = spki, a_body_canonical_json = body_json, a_body_sha256 = digest,
           a_body_bytes = utf8_size body_json, a_credential_id = cred \<rparr>))"

definition action_digest :: "prims \<Rightarrow> action \<Rightarrow> pystr result" where
  "action_digest P a = domain_hash P ''ACTION-HASH'' (dump_action a)"

end
