(* ===== verification/BCP_Policy.thy ===== *)
theory BCP_Policy
  imports BCP_Action
begin

text \<open>
  The closed-world policy of \<^verbatim>\<open>app/policy.py\<close>. The engine keeps the manifest and two use
  counters; \<open>authorize\<close> either returns \<open>ALLOW\<close> and counts the use, or returns \<open>KILL\<close> and changes
  nothing. \<open>permitted\<close> is the declarative policy it implements.
\<close>

section \<open>The engine\<close>

record policy_result =
  pr_verdict :: verdict
  pr_reason_code :: pystr
  pr_matched_rule_id :: "pystr option"
  pr_hard_violation :: bool

record policy_engine =
  pe_manifest :: manifest
  pe_rule_uses :: "pystr \<rightharpoonup> int"
  pe_credential_uses :: "pystr \<rightharpoonup> int"

definition init_policy :: "manifest \<Rightarrow> policy_engine" where
  "init_policy m = \<lparr> pe_manifest = m, pe_rule_uses = (\<lambda>_. None), pe_credential_uses = (\<lambda>_. None) \<rparr>"

definition uses :: "(pystr \<rightharpoonup> int) \<Rightarrow> pystr \<Rightarrow> int" where
  "uses m k = (case m k of None \<Rightarrow> 0 | Some n \<Rightarrow> n)"

definition path_matches :: "pystr \<Rightarrow> pystr \<Rightarrow> bool" where
  "path_matches path prefix \<longleftrightarrow>
     prefix = [47] \<or>
     (let normalized = rstrip 47 prefix in path = normalized \<or> str_startswith path (normalized @ [47]))"

text \<open>\<open>ip_address\<close> and \<open>ip_network\<close> raise on malformed text; \<open>any\<close> stops at the first match.\<close>

fun in_some_network :: "ip_addr \<Rightarrow> pystr list \<Rightarrow> bool result" where
  "in_some_network a [] = Inr False"
| "in_some_network a (c # cs) =
     (case ip_network c of
        None \<Rightarrow> Inl (ValueError ''does not appear to be an IPv4 or IPv6 network'')
      | Some n \<Rightarrow> if net_contains n a then Inr True else in_some_network a cs)"

definition ip_matches :: "pystr \<Rightarrow> pystr list \<Rightarrow> bool result" where
  "ip_matches ip cidrs =
     (case ip_address ip of
        None \<Rightarrow> Inl (ValueError ''does not appear to be an IPv4 or IPv6 address'')
      | Some a \<Rightarrow> in_some_network a cidrs)"

definition rule_matches :: "egress_rule \<Rightarrow> action \<Rightarrow> bool result" where
  "rule_matches rule a =
     (if a_method a \<notin> set (rule_methods rule) then Inr False
      else if \<not> list_ex (path_matches (a_path a)) (path_prefixes rule) then Inr False
      else bind_result (ip_matches (a_resolved_ip a) (resolved_ip_cidrs rule)) (\<lambda>ok.
        Inr (ok \<and> a_tls_spki_sha256 a \<in> set (rule_tls_spki_sha256 rule) \<and> a_body_bytes a \<le> max_request_bytes rule)))"

fun first_matching :: "egress_rule list \<Rightarrow> action \<Rightarrow> egress_rule option result" where
  "first_matching [] a = Inr None"
| "first_matching (r # rs) a =
     bind_result (rule_matches r a) (\<lambda>ok. if ok then Inr (Some r) else first_matching rs a)"

definition kill_result :: "string \<Rightarrow> policy_result" where
  "kill_result reason =
     \<lparr> pr_verdict = KILL, pr_reason_code = lit reason, pr_matched_rule_id = None, pr_hard_violation = True \<rparr>"

definition origin_rules :: "manifest_body \<Rightarrow> action \<Rightarrow> egress_rule list" where
  "origin_rules body a = filter (\<lambda>r. rule_host r = a_host a \<and> rule_port r = a_port a) (mb_allowed_egress body)"

definition find_grant :: "manifest_body \<Rightarrow> pystr \<Rightarrow> credential_grant option" where
  "find_grant body cid = find (\<lambda>g. credential_id g = cid) (mb_credentials body)"

text \<open>The credential checks: the grant to count, or the reason to kill.\<close>

definition check_credential :: "manifest_body \<Rightarrow> action \<Rightarrow> egress_rule \<Rightarrow> pystr \<Rightarrow> string + credential_grant option" where
  "check_credential body a rule now =
     (case a_credential_id a of
        None \<Rightarrow> Inr None
      | Some cid \<Rightarrow>
          (case find_grant body cid of
             None \<Rightarrow> Inl ''credential.unknown''
           | Some g \<Rightarrow>
               if is_canary g then Inl ''credential.canary_used''
               else if audience g \<noteq> a_host a \<or> rule_id rule \<notin> set (allowed_rule_ids g) \<or> grant_expires_at g < now
               then Inl ''credential.scope_violation''
               else Inr (Some g)))"

text \<open>The locked section: both budgets are checked before either counter is written.\<close>

definition consume_budgets :: "egress_rule \<Rightarrow> credential_grant option \<Rightarrow> policy_engine \<Rightarrow> policy_result \<times> policy_engine" where
  "consume_budgets rule grant e =
     (let rule_uses = uses (pe_rule_uses e) (rule_id rule)
      in if rule_uses \<ge> max_requests rule then (kill_result ''egress.rule_budget_exhausted'', e)
         else
           (case grant of
              None \<Rightarrow>
                (\<lparr> pr_verdict = ALLOW, pr_reason_code = lit ''policy.allowed'', pr_matched_rule_id = Some (rule_id rule),
                   pr_hard_violation = False \<rparr>,
                 e\<lparr> pe_rule_uses := (pe_rule_uses e)(rule_id rule \<mapsto> rule_uses + 1) \<rparr>)
            | Some g \<Rightarrow>
                (let grant_uses = uses (pe_credential_uses e) (credential_id g)
                 in if grant_uses \<ge> max_uses g then (kill_result ''credential.use_budget_exhausted'', e)
                    else
                      (\<lparr> pr_verdict = ALLOW, pr_reason_code = lit ''policy.allowed'',
                         pr_matched_rule_id = Some (rule_id rule), pr_hard_violation = False \<rparr>,
                       e\<lparr> pe_credential_uses := (pe_credential_uses e)(credential_id g \<mapsto> grant_uses + 1),
                          pe_rule_uses := (pe_rule_uses e)(rule_id rule \<mapsto> rule_uses + 1) \<rparr>))))"

definition authorize :: "action \<Rightarrow> pystr \<Rightarrow> (policy_engine, policy_result) op" where
  "authorize a now e =
     (let body = m_body (pe_manifest e)
      in if \<not> (mb_not_before body \<le> now \<and> now \<le> mb_expires_at body) then (Inr (kill_result ''manifest.inactive''), e)
         else if origin_rules body a = [] then (Inr (kill_result ''egress.origin_not_allowed''), e)
         else
           (case first_matching (origin_rules body a) a of
              Inl x \<Rightarrow> (Inl x, e)
            | Inr None \<Rightarrow> (Inr (kill_result ''egress.constraint_mismatch''), e)
            | Inr (Some rule) \<Rightarrow>
                (case check_credential body a rule now of
                   Inl reason \<Rightarrow> (Inr (kill_result reason), e)
                 | Inr grant \<Rightarrow> (case consume_budgets rule grant e of (r, e') \<Rightarrow> (Inr r, e')))))"

section \<open>Path prefixes are matched by whole segments\<close>

lemma split_on_append:
  "split_on sep (a @ sep # b) = split_on sep a @ split_on sep b"
proof (induction a)
  case (Cons c cs)
  obtain p ps where "split_on sep cs = p # ps" using split_on_nonempty [of sep cs] by (cases "split_on sep cs") auto
  with Cons show ?case by simp
qed simp

lemma join_with_append:
  "xs \<noteq> [] \<Longrightarrow> ys \<noteq> [] \<Longrightarrow> join_with sep (xs @ ys) = join_with sep xs @ sep # join_with sep ys"
proof (induction xs)
  case (Cons x xs)
  then show ?case by (cases xs; cases ys) auto
qed simp

lemma segment_prefix:
  "(path = n \<or> str_startswith path (n @ [sep])) \<longleftrightarrow>
     take (length (split_on sep n)) (split_on sep path) = split_on sep n"
proof
  assume "path = n \<or> str_startswith path (n @ [sep])"
  then show "take (length (split_on sep n)) (split_on sep path) = split_on sep n"
  proof
    assume "str_startswith path (n @ [sep])"
    then obtain rest where "path = (n @ [sep]) @ rest"
      unfolding str_startswith_def by (metis append_take_drop_id)
    then show ?thesis by (simp add: split_on_append)
  qed simp
next
  assume t: "take (length (split_on sep n)) (split_on sep path) = split_on sep n"
  define rest where "rest = drop (length (split_on sep n)) (split_on sep path)"
  have s: "split_on sep path = split_on sep n @ rest"
    unfolding rest_def using t by (metis append_take_drop_id)
  show "path = n \<or> str_startswith path (n @ [sep])"
  proof (cases "rest = []")
    case True with s have "split_on sep path = split_on sep n" by simp
    then show ?thesis by (metis join_split)
  next
    case False
    with s have "path = n @ sep # join_with sep rest"
      by (metis join_split join_with_append split_on_nonempty)
    then show ?thesis by (simp add: str_startswith_def)
  qed
qed

lemma path_matches_segments:
  assumes "str_startswith path [47]"
  shows "path_matches path prefix \<longleftrightarrow>
    take (length (split_on 47 (rstrip 47 prefix))) (split_on 47 path) = split_on 47 (rstrip 47 prefix)"
proof (cases "prefix = [47]")
  case True
  from assms have "path = [47] @ drop 1 path" unfolding str_startswith_def
    by (metis append_take_drop_id length_Cons list.size(3) One_nat_def)
  then obtain rest where "path = 47 # rest" by auto
  with True show ?thesis by (simp add: path_matches_def rstrip_def)
next
  case False then show ?thesis by (simp add: path_matches_def Let_def segment_prefix)
qed

section \<open>Network membership is an interval\<close>

lemma div_interval:
  fixes s :: int
  assumes "0 < s"
  shows "i div s = q \<longleftrightarrow> q * s \<le> i \<and> i < q * s + s"
proof
  assume "i div s = q"
  then have "i = q * s + i mod s" by (metis div_mult_mod_eq)
  moreover have "0 \<le> i mod s" "i mod s < s" using assms by simp_all
  ultimately show "q * s \<le> i \<and> i < q * s + s" by linarith
next
  assume "q * s \<le> i \<and> i < q * s + s"
  then show "i div s = q" using assms by (intro int_div_pos_eq [of i s q "i - q * s"]) (auto simp: mult.commute)
qed

lemma mask_ip_iff:
  assumes "mask_ip v p n = n"
  shows "mask_ip v p i = n \<longleftrightarrow> n \<le> i \<and> i < n + host_span v p"
proof -
  have s: "0 < host_span v p" by (simp add: host_span_def)
  from assms obtain q where q: "n = q * host_span v p" by (metis mask_ip_def)
  have "i div host_span v p = q \<longleftrightarrow> q * host_span v p \<le> i \<and> i < q * host_span v p + host_span v p"
    using s by (rule div_interval)
  with q s show ?thesis by (auto simp: mask_ip_def)
qed

lemma ip_network_masked:
  assumes "ip_network c = Some n"
  shows "mask_ip (ip_version (net_address n)) (net_prefixlen n) (ip_int (net_address n)) = ip_int (net_address n)"
proof -
  have v4: "ip_version a = V4" if "ipv4_address s = Some a" for s a
    using that by (auto simp: ipv4_address_def split: if_splits)
  have v6: "ip_version a = V6" if "ipv6_address s = Some a" for s a
    using that by (auto simp: ipv6_address_def split: if_splits option.splits)
  have mk: "mask_ip (ip_version (net_address n)) (net_prefixlen n) (ip_int (net_address n)) = ip_int (net_address n)"
    if "make_network v x y = Net n" "\<And>a. x = Some a \<Longrightarrow> ip_version a = v" for v x y n
    using that by (auto simp: make_network_def split: option.splits if_splits)
  from assms show ?thesis
    by (auto simp: ip_network_def Let_def split: list.splits if_splits net_result.splits option.splits dest!: mk intro: v4 v6)
qed

section \<open>The declarative policy\<close>

definition in_network :: "pystr \<Rightarrow> pystr \<Rightarrow> bool" where
  "in_network ip cidr \<longleftrightarrow>
     (\<exists>a n. ip_address ip = Some a \<and> ip_network cidr = Some n \<and> ip_version a = ip_version (net_address n) \<and>
        ip_int (net_address n) \<le> ip_int a \<and> ip_int a < ip_int (net_address n) + host_span (ip_version a) (net_prefixlen n))"

definition under_prefix :: "pystr \<Rightarrow> pystr \<Rightarrow> bool" where
  "under_prefix path prefix \<longleftrightarrow>
     take (length (split_on 47 (rstrip 47 prefix))) (split_on 47 path) = split_on 47 (rstrip 47 prefix)"

definition covers :: "action \<Rightarrow> egress_rule \<Rightarrow> bool" where
  "covers a r \<longleftrightarrow>
     rule_host r = a_host a \<and> rule_port r = a_port a \<and> a_method a \<in> set (rule_methods r) \<and>
     (\<exists>p\<in>set (path_prefixes r). under_prefix (a_path a) p) \<and>
     (\<exists>c\<in>set (resolved_ip_cidrs r). in_network (a_resolved_ip a) c) \<and>
     a_tls_spki_sha256 a \<in> set (rule_tls_spki_sha256 r) \<and> a_body_bytes a \<le> max_request_bytes r"

definition credential_permits :: "policy_engine \<Rightarrow> action \<Rightarrow> egress_rule \<Rightarrow> pystr \<Rightarrow> bool" where
  "credential_permits e a r now \<longleftrightarrow>
     (\<forall>cid. a_credential_id a = Some cid \<longrightarrow>
        (\<exists>g\<in>set (mb_credentials (m_body (pe_manifest e))).
           credential_id g = cid \<and> \<not> is_canary g \<and> audience g = a_host a \<and> rule_id r \<in> set (allowed_rule_ids g) \<and>
           now \<le> grant_expires_at g \<and> uses (pe_credential_uses e) cid < max_uses g))"

text \<open>The rule that decides is the first one, in manifest order, that covers the action.\<close>

definition permitted :: "policy_engine \<Rightarrow> action \<Rightarrow> pystr \<Rightarrow> egress_rule \<Rightarrow> bool" where
  "permitted e a now r \<longleftrightarrow>
     find (covers a) (mb_allowed_egress (m_body (pe_manifest e))) = Some r \<and>
     mb_not_before (m_body (pe_manifest e)) \<le> now \<and> now \<le> mb_expires_at (m_body (pe_manifest e)) \<and>
     uses (pe_rule_uses e) (rule_id r) < max_requests r \<and> credential_permits e a r now"

definition allow_result :: "egress_rule \<Rightarrow> policy_result" where
  "allow_result r =
     \<lparr> pr_verdict = ALLOW, pr_reason_code = lit ''policy.allowed'', pr_matched_rule_id = Some (rule_id r),
       pr_hard_violation = False \<rparr>"

definition bump :: "pystr \<Rightarrow> (pystr \<rightharpoonup> int) \<Rightarrow> (pystr \<rightharpoonup> int)" where
  "bump k m = m(k \<mapsto> uses m k + 1)"

definition count_use :: "action \<Rightarrow> egress_rule \<Rightarrow> policy_engine \<Rightarrow> policy_engine" where
  "count_use a r e =
     e\<lparr> pe_credential_uses :=
          (case a_credential_id a of None \<Rightarrow> pe_credential_uses e | Some cid \<Rightarrow> bump cid (pe_credential_uses e)),
        pe_rule_uses := bump (rule_id r) (pe_rule_uses e) \<rparr>"

text \<open>What the engine relies on: validated rules, an action that passed validation, unique credentials.\<close>

definition policy_wf :: "prims \<Rightarrow> policy_engine \<Rightarrow> bool" where
  "policy_wf P e \<longleftrightarrow>
     (\<forall>r\<in>set (mb_allowed_egress (m_body (pe_manifest e))). validate_egress_rule P r = Inr r) \<and>
     (\<forall>g\<in>set (mb_credentials (m_body (pe_manifest e))). validate_credential_grant P g = Inr g) \<and>
     validate_manifest_body P (m_body (pe_manifest e)) = Inr (m_body (pe_manifest e))"

section \<open>The engine implements it\<close>

lemma uses_bump [simp]: "uses (bump k m) j = (if j = k then uses m k + 1 else uses m j)"
  by (simp add: uses_def bump_def)

lemma net_contains_iff:
  "ip_network c = Some n \<Longrightarrow> net_contains n a \<longleftrightarrow>
     ip_version a = ip_version (net_address n) \<and> ip_int (net_address n) \<le> ip_int a \<and>
     ip_int a < ip_int (net_address n) + host_span (ip_version a) (net_prefixlen n)"
  using mask_ip_iff [OF ip_network_masked, of c n "ip_int a"] by (auto simp: net_contains_def)

lemma in_some_network_Inr:
  "\<forall>c\<in>set cs. ip_network c \<noteq> None \<Longrightarrow>
     in_some_network a cs = Inr (\<exists>c\<in>set cs. \<exists>n. ip_network c = Some n \<and> net_contains n a)"
  by (induction cs) (auto split: option.splits)

lemma ip_matches_Inr:
  assumes "\<forall>c\<in>set cs. ip_network c \<noteq> None" "ip_address ip \<noteq> None"
  shows "ip_matches ip cs = Inr (\<exists>c\<in>set cs. in_network ip c)"
proof -
  from assms(2) obtain a where a: "ip_address ip = Some a" by blast
  have "in_network ip c \<longleftrightarrow> (\<exists>n. ip_network c = Some n \<and> net_contains n a)" for c
    using a by (auto simp: in_network_def net_contains_iff)
  then show ?thesis using in_some_network_Inr [OF assms(1), of a] a by (simp add: ip_matches_def)
qed

lemma valid_rule_networks:
  "validate_egress_rule P r = Inr r \<Longrightarrow> \<forall>c\<in>set (resolved_ip_cidrs r). ip_network c \<noteq> None"
  by (auto simp: validate_egress_rule_def canonical_cidr_def list_all_iff is_ok_iff split: option.splits)

lemma valid_action_parts:
  assumes "validate_action P a = Inr a"
  shows "ip_address (a_resolved_ip a) \<noteq> None" "str_startswith (a_path a) [47]"
  using assms by (auto simp: validate_action_def ip_is_canonical_def path_is_unambiguous_def split: option.splits)

lemma rule_matches_Inr:
  assumes "validate_egress_rule P r = Inr r" "validate_action P a = Inr a" "rule_host r = a_host a" "rule_port r = a_port a"
  shows "rule_matches r a = Inr (covers a r)"
proof -
  have p: "path_matches (a_path a) p = under_prefix (a_path a) p" for p
    using path_matches_segments [OF valid_action_parts(2) [OF assms(2)]] by (simp add: under_prefix_def)
  show ?thesis
    using assms ip_matches_Inr [OF valid_rule_networks [OF assms(1)] valid_action_parts(1) [OF assms(2)]]
    by (auto simp: rule_matches_def covers_def list_ex_iff p)
qed

lemma first_matching_Inr:
  assumes "\<forall>r\<in>set rs. validate_egress_rule P r = Inr r" "validate_action P a = Inr a"
  shows "first_matching (filter (\<lambda>r. rule_host r = a_host a \<and> rule_port r = a_port a) rs) a = Inr (find (covers a) rs)"
  using assms(1)
proof (induction rs)
  case (Cons r rs)
  then show ?case using rule_matches_Inr [OF _ assms(2), of r] by (auto simp: covers_def)
qed simp

lemma find_grant_iff:
  assumes "strictly_sorted (map credential_id (mb_credentials body))"
  shows "find_grant body cid = Some g \<longleftrightarrow> g \<in> set (mb_credentials body) \<and> credential_id g = cid"
    "find_grant body cid = None \<longleftrightarrow> (\<forall>g\<in>set (mb_credentials body). credential_id g \<noteq> cid)"
proof -
  have d: "distinct (map credential_id (mb_credentials body))" using assms by (simp add: strictly_sorted_iff)
  show n: "find_grant body cid = None \<longleftrightarrow> (\<forall>g\<in>set (mb_credentials body). credential_id g \<noteq> cid)"
    by (auto simp: find_grant_def find_None_iff)
  show "find_grant body cid = Some g \<longleftrightarrow> g \<in> set (mb_credentials body) \<and> credential_id g = cid"
  proof
    assume "find_grant body cid = Some g"
    then show "g \<in> set (mb_credentials body) \<and> credential_id g = cid"
      unfolding find_grant_def find_Some_iff by (metis nth_mem)
  next
    assume g: "g \<in> set (mb_credentials body) \<and> credential_id g = cid"
    with n obtain h where h: "find_grant body cid = Some h" by fastforce
    then have "h \<in> set (mb_credentials body) \<and> credential_id h = cid"
      unfolding find_grant_def find_Some_iff by (metis nth_mem)
    with g d have "h = g" by (metis distinct_map inj_onD)
    with h show "find_grant body cid = Some g" by simp
  qed
qed

lemma find_origin: "find (covers a) rs = Some r \<Longrightarrow> filter (\<lambda>r. rule_host r = a_host a \<and> rule_port r = a_port a) rs \<noteq> []"
  by (induction rs) (auto simp: covers_def split: if_splits)

definition settle :: "action \<Rightarrow> egress_rule \<Rightarrow> pystr \<Rightarrow> policy_engine \<Rightarrow> policy_result \<times> policy_engine" where
  "settle a r now e =
     (case check_credential (m_body (pe_manifest e)) a r now of
        Inl reason \<Rightarrow> (kill_result reason, e)
      | Inr grant \<Rightarrow> consume_budgets r grant e)"

lemma settle_no_credential:
  assumes "a_credential_id a = None"
  shows "settle a r now e =
    (if uses (pe_rule_uses e) (rule_id r) < max_requests r then (allow_result r, count_use a r e)
     else (kill_result ''egress.rule_budget_exhausted'', e))"
  using assms
  by (simp add: settle_def check_credential_def consume_budgets_def Let_def allow_result_def count_use_def bump_def)

lemma settle_credential:
  assumes "a_credential_id a = Some cid" "find_grant (m_body (pe_manifest e)) cid = Some g" "credential_id g = cid"
  shows "settle a r now e =
    (if is_canary g then (kill_result ''credential.canary_used'', e)
     else if audience g \<noteq> a_host a \<or> rule_id r \<notin> set (allowed_rule_ids g) \<or> grant_expires_at g < now
     then (kill_result ''credential.scope_violation'', e)
     else if uses (pe_rule_uses e) (rule_id r) \<ge> max_requests r then (kill_result ''egress.rule_budget_exhausted'', e)
     else if uses (pe_credential_uses e) cid \<ge> max_uses g then (kill_result ''credential.use_budget_exhausted'', e)
     else (allow_result r, count_use a r e))"
  using assms
  by (simp add: settle_def check_credential_def consume_budgets_def Let_def allow_result_def count_use_def bump_def)

lemma credential_permits_grant:
  assumes "strictly_sorted (map credential_id (mb_credentials (m_body (pe_manifest e))))"
    "a_credential_id a = Some cid" "find_grant (m_body (pe_manifest e)) cid = Some g"
  shows "credential_permits e a r now \<longleftrightarrow>
      \<not> is_canary g \<and> audience g = a_host a \<and> rule_id r \<in> set (allowed_rule_ids g) \<and> now \<le> grant_expires_at g \<and>
      uses (pe_credential_uses e) cid < max_uses g"
proof -
  have "h \<in> set (mb_credentials (m_body (pe_manifest e))) \<and> credential_id h = cid \<longleftrightarrow> h = g" for h
    using assms(3) find_grant_iff(1) [OF assms(1), of cid h] by auto
  note only = this
  have "credential_permits e a r now \<longleftrightarrow>
      (\<exists>h. (h \<in> set (mb_credentials (m_body (pe_manifest e))) \<and> credential_id h = cid) \<and>
        \<not> is_canary h \<and> audience h = a_host a \<and> rule_id r \<in> set (allowed_rule_ids h) \<and> now \<le> grant_expires_at h \<and>
        uses (pe_credential_uses e) cid < max_uses h)"
    unfolding credential_permits_def assms(2) option.inject by blast
  then show ?thesis unfolding only by simp
qed

lemma settle_spec:
  assumes "strictly_sorted (map credential_id (mb_credentials (m_body (pe_manifest e))))"
  shows "if uses (pe_rule_uses e) (rule_id r) < max_requests r \<and> credential_permits e a r now
    then settle a r now e = (allow_result r, count_use a r e)
    else \<exists>reason. settle a r now e = (kill_result reason, e)"
proof (cases "a_credential_id a")
  case None
  then show ?thesis using settle_no_credential [OF None, of r now e] by (auto simp: credential_permits_def)
next
  case (Some cid)
  show ?thesis
  proof (cases "find_grant (m_body (pe_manifest e)) cid")
    case None
    then have "\<not> credential_permits e a r now"
      using Some find_grant_iff(2) [OF assms, of cid] by (auto simp: credential_permits_def)
    with None Some show ?thesis by (auto simp: settle_def check_credential_def)
  next
    case g: (Some g)
    then have "credential_id g = cid" using find_grant_iff(1) [OF assms] by blast
    note settle_credential [OF Some g this, of r now]
    moreover note credential_permits_grant [OF assms Some g, of r now]
    ultimately show ?thesis by (auto simp: not_less)
  qed
qed

lemma authorize_spec:
  assumes wf: "policy_wf P e" and a: "validate_action P a = Inr a"
  shows "(\<exists>r. permitted e a now r \<and> authorize a now e = (Inr (allow_result r), count_use a r e)) \<or>
    ((\<nexists>r. permitted e a now r) \<and> (\<exists>reason. authorize a now e = (Inr (kill_result reason), e)))"
proof (cases "mb_not_before (m_body (pe_manifest e)) \<le> now \<and> now \<le> mb_expires_at (m_body (pe_manifest e))")
  case False
  then show ?thesis by (auto simp: authorize_def permitted_def Let_def)
next
  case True
  let ?rs = "mb_allowed_egress (m_body (pe_manifest e))"
  have fm: "first_matching (origin_rules (m_body (pe_manifest e)) a) a = Inr (find (covers a) ?rs)"
    using wf a unfolding origin_rules_def by (intro first_matching_Inr [of _ P]) (auto simp: policy_wf_def)
  have ss: "strictly_sorted (map credential_id (mb_credentials (m_body (pe_manifest e))))"
    using wf by (simp add: policy_wf_def validate_manifest_body_def)
  show ?thesis
  proof (cases "find (covers a) ?rs")
    case None
    with fm True show ?thesis by (auto simp: authorize_def permitted_def Let_def)
  next
    case (Some r)
    then have "origin_rules (m_body (pe_manifest e)) a \<noteq> []" using find_origin by (auto simp: origin_rules_def)
    with fm Some True have "authorize a now e = (Inr (fst (settle a r now e)), snd (settle a r now e))"
      by (auto simp: authorize_def settle_def Let_def split: sum.splits prod.splits)
    with settle_spec [OF ss, of r a now] Some True show ?thesis
      by (auto simp: permitted_def split: if_splits)
  qed
qed

section \<open>Sequences of requests\<close>

fun authorize_all :: "(action \<times> pystr) list \<Rightarrow> policy_engine \<Rightarrow> (action \<times> policy_result result) list \<times> policy_engine" where
  "authorize_all [] e = ([], e)"
| "authorize_all ((a, now) # reqs) e =
     (case authorize a now e of (r, e1) \<Rightarrow> case authorize_all reqs e1 of (rs, e2) \<Rightarrow> ((a, r) # rs, e2))"

definition allowed_by_rule :: "pystr \<Rightarrow> (action \<times> policy_result result) list \<Rightarrow> (action \<times> policy_result result) list" where
  "allowed_by_rule i rs =
     filter (\<lambda>(a, r). case r of Inl _ \<Rightarrow> False | Inr p \<Rightarrow> pr_verdict p = ALLOW \<and> pr_matched_rule_id p = Some i) rs"

definition allowed_with_credential :: "pystr \<Rightarrow> (action \<times> policy_result result) list \<Rightarrow> (action \<times> policy_result result) list" where
  "allowed_with_credential c rs =
     filter (\<lambda>(a, r). case r of Inl _ \<Rightarrow> False | Inr p \<Rightarrow> pr_verdict p = ALLOW \<and> a_credential_id a = Some c) rs"

definition within_budget :: "policy_engine \<Rightarrow> bool" where
  "within_budget e \<longleftrightarrow>
     (\<forall>r\<in>set (mb_allowed_egress (m_body (pe_manifest e))). uses (pe_rule_uses e) (rule_id r) \<le> max_requests r) \<and>
     (\<forall>g\<in>set (mb_credentials (m_body (pe_manifest e))). uses (pe_credential_uses e) (credential_id g) \<le> max_uses g)"

lemma permitted_rule: "permitted e a now r \<Longrightarrow> r \<in> set (mb_allowed_egress (m_body (pe_manifest e))) \<and> covers a r"
  unfolding permitted_def find_Some_iff by (metis nth_mem)

lemma count_use_fields [simp]:
  "pe_manifest (count_use a r e) = pe_manifest e"
  "uses (pe_rule_uses (count_use a r e)) i = (if i = rule_id r then uses (pe_rule_uses e) i + 1 else uses (pe_rule_uses e) i)"
  "uses (pe_credential_uses (count_use a r e)) c =
     (if a_credential_id a = Some c then uses (pe_credential_uses e) c + 1 else uses (pe_credential_uses e) c)"
  by (auto simp: count_use_def split: option.splits)

lemma strictly_sorted_unique:
  assumes "strictly_sorted (map f xs)" "x \<in> set xs" "y \<in> set xs" "f x = f y"
  shows "x = y"
  using assms by (metis distinct_map inj_onD strictly_sorted_iff)

lemma within_budget_count:
  assumes "policy_wf P e" "within_budget e" "permitted e a now r"
  shows "within_budget (count_use a r e)"
  unfolding within_budget_def count_use_fields
proof (intro conjI ballI)
  have ss: "strictly_sorted (map rule_id (mb_allowed_egress (m_body (pe_manifest e))))"
    "strictly_sorted (map credential_id (mb_credentials (m_body (pe_manifest e))))"
    using assms(1) by (simp_all add: policy_wf_def validate_manifest_body_def)
  fix q assume q: "q \<in> set (mb_allowed_egress (m_body (pe_manifest e)))"
  have "rule_id q = rule_id r \<Longrightarrow> q = r"
    using strictly_sorted_unique [OF ss(1) q] permitted_rule [OF assms(3)] by blast
  with assms(2,3) q
  show "(if rule_id q = rule_id r then uses (pe_rule_uses e) (rule_id q) + 1 else uses (pe_rule_uses e) (rule_id q)) \<le> max_requests q"
    by (auto simp: within_budget_def permitted_def)
next
  have ss: "strictly_sorted (map credential_id (mb_credentials (m_body (pe_manifest e))))"
    using assms(1) by (simp add: policy_wf_def validate_manifest_body_def)
  fix g assume g: "g \<in> set (mb_credentials (m_body (pe_manifest e)))"
  have "uses (pe_credential_uses e) (credential_id g) < max_uses g" if c: "a_credential_id a = Some (credential_id g)"
  proof -
    from assms(3) c obtain h where h: "h \<in> set (mb_credentials (m_body (pe_manifest e)))" "credential_id h = credential_id g"
      "uses (pe_credential_uses e) (credential_id g) < max_uses h"
      by (auto simp: permitted_def credential_permits_def)
    with strictly_sorted_unique [OF ss h(1) g] show ?thesis by blast
  qed
  with assms(2) g show "(if a_credential_id a = Some (credential_id g) then uses (pe_credential_uses e) (credential_id g) + 1
      else uses (pe_credential_uses e) (credential_id g)) \<le> max_uses g"
    by (auto simp: within_budget_def)
qed

lemma allow_result_fields [simp]:
  "pr_verdict (allow_result r) = ALLOW" "pr_matched_rule_id (allow_result r) = Some (rule_id r)"
  "pr_verdict (kill_result reason) = KILL"
  by (simp_all add: allow_result_def kill_result_def)

lemma allowed_Cons:
  "allowed_by_rule i ((a, Inr (allow_result r)) # rs) = (if rule_id r = i then [(a, Inr (allow_result r))] else []) @ allowed_by_rule i rs"
  "allowed_by_rule i ((a, Inr (kill_result reason)) # rs) = allowed_by_rule i rs"
  "allowed_with_credential c ((a, Inr (allow_result r)) # rs) =
     (if a_credential_id a = Some c then [(a, Inr (allow_result r))] else []) @ allowed_with_credential c rs"
  "allowed_with_credential c ((a, Inr (kill_result reason)) # rs) = allowed_with_credential c rs"
  by (simp_all add: allowed_by_rule_def allowed_with_credential_def)

lemma authorize_all_counts:
  assumes "policy_wf P e" "within_budget e" "\<forall>(a, now)\<in>set reqs. validate_action P a = Inr a"
    "authorize_all reqs e = (rs, e')"
  shows "pe_manifest e' = pe_manifest e \<and> within_budget e' \<and>
    uses (pe_rule_uses e') i = uses (pe_rule_uses e) i + int (length (allowed_by_rule i rs)) \<and>
    uses (pe_credential_uses e') c = uses (pe_credential_uses e) c + int (length (allowed_with_credential c rs))"
  using assms
proof (induction reqs e arbitrary: rs e' rule: authorize_all.induct)
  case (1 e)
  then show ?case by (simp add: allowed_by_rule_def allowed_with_credential_def)
next
  case (2 a now reqs e)
  obtain q e1 where q: "authorize a now e = (q, e1)" by fastforce
  obtain qs where qs: "authorize_all reqs e1 = (qs, e')" "rs = (a, q) # qs"
    using 2(5) q by (auto split: prod.splits)
  have valid: "\<forall>(a, now)\<in>set reqs. validate_action P a = Inr a" using 2(4) by simp
  from authorize_spec [OF 2(2), of a now] 2(4) q
  consider (allow) r where "permitted e a now r" "q = Inr (allow_result r)" "e1 = count_use a r e"
    | (kill) reason where "q = Inr (kill_result reason)" "e1 = e" by auto
  then show ?case
  proof cases
    case allow
    then have "policy_wf P e1" using 2(2) by (simp add: policy_wf_def)
    from 2(1) [OF q [symmetric] this _ valid qs(1)] within_budget_count [OF 2(2,3) allow(1)] allow qs(2)
    show ?thesis by (auto simp: allowed_Cons)
  next
    case kill
    with 2(1) [OF q [symmetric] _ _ valid qs(1)] 2(2,3) qs(2) show ?thesis by (simp add: allowed_Cons)
  qed
qed

lemma authorize_all_canary:
  assumes "policy_wf P e" "\<forall>(a, now)\<in>set reqs. validate_action P a = Inr a" "authorize_all reqs e = (rs, e')"
    "g \<in> set (mb_credentials (m_body (pe_manifest e)))" "is_canary g"
  shows "allowed_with_credential (credential_id g) rs = []"
  using assms
proof (induction reqs e arbitrary: rs e' rule: authorize_all.induct)
  case (1 e)
  then show ?case by (simp add: allowed_with_credential_def)
next
  case (2 a now reqs e)
  obtain q e1 where q: "authorize a now e = (q, e1)" by fastforce
  obtain qs where qs: "authorize_all reqs e1 = (qs, e')" "rs = (a, q) # qs"
    using 2(4) q by (auto split: prod.splits)
  have ss: "strictly_sorted (map credential_id (mb_credentials (m_body (pe_manifest e))))"
    using 2(2) by (simp add: policy_wf_def validate_manifest_body_def)
  have valid: "\<forall>(a, now)\<in>set reqs. validate_action P a = Inr a" using 2(3) by simp
  from authorize_spec [OF 2(2), of a now] 2(3) q
  consider (allow) r where "permitted e a now r" "q = Inr (allow_result r)" "e1 = count_use a r e"
    | (kill) reason where "q = Inr (kill_result reason)" "e1 = e" by auto
  then show ?case
  proof cases
    case allow
    have "a_credential_id a \<noteq> Some (credential_id g)"
    proof
      assume "a_credential_id a = Some (credential_id g)"
      with allow(1) obtain h where "h \<in> set (mb_credentials (m_body (pe_manifest e)))" "credential_id h = credential_id g"
        "\<not> is_canary h" by (auto simp: permitted_def credential_permits_def)
      with strictly_sorted_unique [OF ss _ 2(5)] 2(6) show False by blast
    qed
    moreover have "policy_wf P e1" "g \<in> set (mb_credentials (m_body (pe_manifest e1)))" using allow(3) 2(2,5) by (simp_all add: policy_wf_def)
    ultimately show ?thesis using 2(1) [OF q [symmetric] _ valid qs(1) _ 2(6)] allow(2) qs(2) by (simp add: allowed_Cons)
  next
    case kill
    with 2(1) [OF q [symmetric] _ valid qs(1) _ 2(6)] 2(2,5) qs(2) show ?thesis by (simp add: allowed_Cons)
  qed
qed

section \<open>A concrete manifest\<close>

definition sample_rule :: egress_rule where
  "sample_rule =
     \<lparr> rule_id = lit ''rule-1'', rule_host = lit ''api.example'', rule_port = 443, rule_methods = [GET, POST],
       path_prefixes = [lit ''/v1''], resolved_ip_cidrs = [lit ''192.0.2.0/24''],
       rule_tls_spki_sha256 = [b64url_encode (replicate 32 7)], max_requests = 1, max_request_bytes = 100,
       max_response_bytes = 200 \<rparr>"

definition sample_grant :: credential_grant where
  "sample_grant =
     \<lparr> credential_id = lit ''cred-1'', broker_ref = lit ''broker-1'', audience = lit ''api.example'',
       allowed_rule_ids = [lit ''rule-1''], scopes = [], grant_expires_at = strftime_utc (sample_time 900000),
       max_uses = 5, is_canary = False \<rparr>"

definition sample_key :: "string \<Rightarrow> int \<Rightarrow> ed_public_key" where
  "sample_key kid b = \<lparr> key_id = lit kid, key_value = b64url_encode (replicate 32 b) \<rparr>"

definition sample_manifest_body :: manifest_body where
  "sample_manifest_body =
     \<lparr> mb_manifest_id = lit ''manifest-1'', mb_run_id = lit ''run-1'',
       mb_issued_at = strftime_utc (sample_time 0), mb_not_before = strftime_utc (sample_time 0),
       mb_expires_at = strftime_utc (sample_time 900000), mb_operator_key_id = lit ''operator'',
       mb_gateway_key = sample_key ''gateway'' 1, mb_supervisor_key = sample_key ''supervisor'' 2,
       mb_witness_key = sample_key ''witness'' 3, mb_allowed_egress = [sample_rule], mb_credentials = [sample_grant],
       mb_second_hops = [], mb_kill_criteria = sample_criteria \<rparr>"

text \<open>The operator's signature, with the sample primitives and the private key \<open>replicate 32 4\<close>.\<close>

definition sample_signature :: ed_signature where
  "sample_signature =
     \<lparr> sig_key_id = lit ''operator'',
       sig_value = lit ''BAQEBAQEBAQEBAQEBAQEBAQEBAQEBAQEBAQEBAQEBAQRIhroGuga6BroGuga6BroGuga6BroGuga6BroGuga6A'' \<rparr>"

definition sample_manifest :: manifest where
  "sample_manifest = \<lparr> m_body = sample_manifest_body, m_hash = replicate 64 49, m_signature = sample_signature \<rparr>"

definition sample_action :: "string \<Rightarrow> action" where
  "sample_action path =
     \<lparr> a_request_id = lit ''req-1'', a_method = POST, a_host = lit ''api.example'', a_port = 443, a_path = lit path,
       a_resolved_ip = lit ''192.0.2.7'', a_tls_spki_sha256 = b64url_encode (replicate 32 7),
       a_body_canonical_json = lit ''{}'', a_body_sha256 = sha256_hex sample_prims (lit ''{}''), a_body_bytes = 2,
       a_credential_id = Some (lit ''cred-1'') \<rparr>"

lemma sample_policy_wf: "policy_wf sample_prims (init_policy sample_manifest)"
proof -
  have "validate_egress_rule sample_prims sample_rule = Inr sample_rule" by code_simp
  moreover have "validate_credential_grant sample_prims sample_grant = Inr sample_grant" by code_simp
  moreover have "validate_manifest_body sample_prims sample_manifest_body = Inr sample_manifest_body" by code_simp
  moreover have "mb_allowed_egress sample_manifest_body = [sample_rule]" "mb_credentials sample_manifest_body = [sample_grant]"
    by (simp_all add: sample_manifest_body_def)
  ultimately show ?thesis by (simp add: policy_wf_def init_policy_def sample_manifest_def)
qed

lemma sample_action_valid: "validate_action sample_prims (sample_action ''/v1/x'') = Inr (sample_action ''/v1/x'')"
  by code_simp

section \<open>Properties\<close>

text \<open>
  C9. \<open>authorize\<close> implements the declarative policy, on every branch: it never raises on validated
  input; it answers \<open>ALLOW\<close> exactly when the first rule covering the action (origin, method, path
  prefix by whole segments, address within a permitted network interval, pinned key, body size) still
  has budget, the manifest is active and the credential, if any, is known, not a canary, in scope,
  unexpired and has uses left, and then counts one use of both; otherwise it answers \<open>KILL\<close> and changes
  nothing.
\<close>

theorem policy_refines_specification:
  assumes "policy_wf P e" "validate_action P a = Inr a"
  shows "(\<exists>r. permitted e a now r \<and> authorize a now e = (Inr (allow_result r), count_use a r e)) \<or>
    ((\<nexists>r. permitted e a now r) \<and> (\<exists>reason. authorize a now e = (Inr (kill_result reason), e)))"
  using authorize_spec [OF assms] .

theorem policy_refines_specification_witness:
  "policy_wf sample_prims (init_policy sample_manifest) \<and>
   (\<exists>r. permitted (init_policy sample_manifest) (sample_action ''/v1/x'') (strftime_utc (sample_time 5)) r \<and>
      authorize (sample_action ''/v1/x'') (strftime_utc (sample_time 5)) (init_policy sample_manifest) =
        (Inr (allow_result r), count_use (sample_action ''/v1/x'') r (init_policy sample_manifest)))"
proof -
  have "map_sum id pr_verdict (fst (authorize (sample_action ''/v1/x'') (strftime_utc (sample_time 5)) (init_policy sample_manifest))) = Inr ALLOW"
    by code_simp
  with policy_refines_specification [OF sample_policy_wf sample_action_valid, of "strftime_utc (sample_time 5)"]
    sample_policy_wf show ?thesis by auto
qed

text \<open>
  C27. Budgets hold over whole runs. For any sequence of requests against a fresh engine, a rule is
  allowed at most \<open>max_requests\<close> times, a credential is used in at most \<open>max_uses\<close> allowed requests, and
  a canary credential in none.
\<close>

theorem policy_budgets_hold:
  assumes "policy_wf P (init_policy m)"
    "\<forall>(a, now)\<in>set reqs. validate_action P a = Inr a"
    "authorize_all reqs (init_policy m) = (rs, e)"
  shows "(\<forall>r\<in>set (mb_allowed_egress (m_body m)). int (length (allowed_by_rule (rule_id r) rs)) \<le> max_requests r) \<and>
    (\<forall>g\<in>set (mb_credentials (m_body m)). int (length (allowed_with_credential (credential_id g) rs)) \<le> max_uses g) \<and>
    (\<forall>g\<in>set (mb_credentials (m_body m)). is_canary g \<longrightarrow> allowed_with_credential (credential_id g) rs = [])"
proof -
  have fresh: "uses (pe_rule_uses (init_policy m)) i = 0" "uses (pe_credential_uses (init_policy m)) i = 0" for i
    by (simp_all add: init_policy_def uses_def)
  have w: "within_budget (init_policy m)" using assms(1) fresh
    by (auto simp: within_budget_def policy_wf_def init_policy_def validate_egress_rule_def validate_credential_grant_def safe_pos_def)
  note c = authorize_all_counts [OF assms(1) w assms(2,3)]
  have m: "pe_manifest (init_policy m) = m" by (simp add: init_policy_def)
  have canary: "allowed_with_credential (credential_id g) rs = []"
    if "g \<in> set (mb_credentials (m_body m))" "is_canary g" for g
    using authorize_all_canary [OF assms(1-3)] that m by simp
  have u: "uses (pe_rule_uses e) i = int (length (allowed_by_rule i rs))"
    "uses (pe_credential_uses e) i = int (length (allowed_with_credential i rs))" for i
    using c [of i i] fresh by auto
  have "within_budget e" "pe_manifest e = m" using c m by auto
  with u canary show ?thesis by (simp add: within_budget_def)
qed

theorem policy_budgets_hold_witness:
  "policy_wf sample_prims (init_policy sample_manifest) \<and>
   length (allowed_by_rule (lit ''rule-1'') (fst (authorize_all
     [(sample_action ''/v1/x'', strftime_utc (sample_time 5)), (sample_action ''/v1/x'', strftime_utc (sample_time 6))]
     (init_policy sample_manifest)))) = 1 \<and>
   int (length (allowed_by_rule (rule_id sample_rule) (fst (authorize_all
     [(sample_action ''/v1/x'', strftime_utc (sample_time 5)), (sample_action ''/v1/x'', strftime_utc (sample_time 6))]
     (init_policy sample_manifest))))) \<le> max_requests sample_rule"
proof -
  let ?q = "[(sample_action ''/v1/x'', strftime_utc (sample_time 5)), (sample_action ''/v1/x'', strftime_utc (sample_time 6))]"
  have n: "length (allowed_by_rule (lit ''rule-1'') (fst (authorize_all ?q (init_policy sample_manifest)))) = 1" by code_simp
  have v: "\<forall>(a, now)\<in>set ?q. validate_action sample_prims a = Inr a" using sample_action_valid by simp
  have "authorize_all ?q (init_policy sample_manifest) =
    (fst (authorize_all ?q (init_policy sample_manifest)), snd (authorize_all ?q (init_policy sample_manifest)))" by simp
  note b = policy_budgets_hold [OF sample_policy_wf v this]
  have "sample_rule \<in> set (mb_allowed_egress (m_body sample_manifest))"
    by (simp add: sample_manifest_def sample_manifest_body_def)
  with b n sample_policy_wf show ?thesis by blast
qed

text \<open>
  Path prefixes are matched by whole segments: for an absolute path, \<open>_path_matches\<close> holds
  exactly when the segments of the prefix are the first segments of the path, so a prefix
  \<^verbatim>\<open>/v1\<close> does not admit \<^verbatim>\<open>/v10\<close>.
\<close>

theorem path_matches_whole_segments:
  assumes "path_is_unambiguous path"
  shows "path_matches path prefix \<longleftrightarrow> under_prefix path prefix"
  using assms path_matches_segments by (simp add: under_prefix_def path_is_unambiguous_def)

theorem path_matches_whole_segments_witness:
  "path_is_unambiguous (lit ''/v10'') \<and> \<not> path_matches (lit ''/v10'') (lit ''/v1'') \<and>
   (path_matches (lit ''/v10'') (lit ''/v1'') \<longleftrightarrow> under_prefix (lit ''/v10'') (lit ''/v1''))"
proof -
  have "path_is_unambiguous (lit ''/v10'')" "\<not> path_matches (lit ''/v10'') (lit ''/v1'')" by code_simp+
  with path_matches_whole_segments [OF this(1), of "lit ''/v1''"] show ?thesis by blast
qed

end
