(* ===== verification/BCP_Mirror.thy ===== *)
theory BCP_Mirror
  imports BCP_Progress BCP_Policy
begin

text \<open>
  The two independent observers of \<^verbatim>\<open>app/supervisor.py\<close>: \<open>EvidenceMirror\<close>, which sees every
  committed event, and \<open>TransparencyWitness\<close>, the registry of signed evidence roots.

  The running \<open>hashlib\<close> object of the mirror is the text fed to it so far.
\<close>

section \<open>The mirror\<close>

record mirror =
  mi_manifest :: manifest
  mi_text :: bytes
  mi_count :: int
  mi_first_hash :: "pystr option"
  mi_final_hash :: "pystr option"
  mi_last_sequence :: "int option"
  mi_last_monotonic_ns :: "int option"

definition init_mirror :: "manifest \<Rightarrow> mirror" where
  "init_mirror m =
     \<lparr> mi_manifest = m, mi_text = [], mi_count = 0, mi_first_hash = None, mi_final_hash = None,
       mi_last_sequence = None, mi_last_monotonic_ns = None \<rparr>"

definition mirror_check :: "mirror \<Rightarrow> event \<Rightarrow> unit result" where
  "mirror_check s e =
     (let b = ev_body e
      in if eb_run_id b \<noteq> mb_run_id (m_body (mi_manifest s)) \<or> eb_manifest_hash b \<noteq> m_hash (mi_manifest s)
         then Inl (ValueError ''mirrored event belongs to another run'')
         else if mi_count s = 0 then
           (if eb_sequence b \<noteq> 0 then Inl (ValueError ''mirror must begin at sequence zero'') else Inr ())
         else
           (case (mi_last_sequence s, mi_last_monotonic_ns s) of
              (Some ls, Some lm) \<Rightarrow>
                if eb_sequence b \<noteq> ls + 1 then Inl (ValueError ''mirror observed a sequence gap'')
                else if Some (eb_previous_event_hash b) \<noteq> mi_final_hash s
                then Inl (ValueError ''mirror observed a chain fork'')
                else if eb_monotonic_ns b < lm then Inl (ValueError ''mirror observed monotonic time reversal'')
                else Inr ()
            | _ \<Rightarrow> Inl AssertionError))"

definition observe :: "prims \<Rightarrow> event \<Rightarrow> (mirror, unit) op" where
  "observe P e s =
     (case mirror_check s e of
        Inl x \<Rightarrow> (Inl x, s)
      | Inr _ \<Rightarrow>
          (let s1 = (if mi_count s = 0 then s\<lparr> mi_first_hash := Some (ev_hash e) \<rparr> else s)
           in case encode_event P e of
                Inl x \<Rightarrow> (Inl x, s1)
              | Inr line \<Rightarrow>
                  (Inr (), s1\<lparr> mi_text := mi_text s1 @ line, mi_count := mi_count s1 + 1,
                               mi_last_sequence := Some (eb_sequence (ev_body e)),
                               mi_last_monotonic_ns := Some (eb_monotonic_ns (ev_body e)),
                               mi_final_hash := Some (ev_hash e) \<rparr>)))"

definition mirror_snapshot :: "prims \<Rightarrow> mirror \<Rightarrow> int \<times> pystr option \<times> pystr option \<times> pystr" where
  "mirror_snapshot P s = (mi_count s, mi_first_hash s, mi_final_hash s, sha256_hex P (mi_text s))"

section \<open>The mirror refines the event list\<close>

text \<open>The evidence a mirror stands for: the event list it has accepted.\<close>

definition mirror_of :: "prims \<Rightarrow> manifest \<Rightarrow> mirror \<Rightarrow> event list \<Rightarrow> bool" where
  "mirror_of P m s es \<longleftrightarrow>
     mi_manifest s = m \<and> canonical_jsonl_bytes P es = Inr (mi_text s) \<and> mi_count s = int (length es) \<and>
     mi_final_hash s = final_hash es \<and>
     (es \<noteq> [] \<longrightarrow>
        mi_first_hash s = first_hash es \<and> mi_last_sequence s = Some (int (length es) - 1) \<and>
        mi_last_monotonic_ns s = Some (eb_monotonic_ns (ev_body (last es)))) \<and>
     sorted (map (\<lambda>e. eb_monotonic_ns (ev_body e)) es)"

lemma canonical_jsonl_snoc:
  "canonical_jsonl_bytes P es = Inr t \<Longrightarrow> encode_event P e = Inr line \<Longrightarrow>
     canonical_jsonl_bytes P (es @ [e]) = Inr (t @ line)"
  by (induction es arbitrary: t) auto

lemma mirror_check_Inr:
  assumes "mirror_of P m s es" "mirror_check s e = Inr u"
  shows "eb_sequence (ev_body e) = int (length es)"
    "es \<noteq> [] \<Longrightarrow> eb_previous_event_hash (ev_body e) = ev_hash (last es)"
    "es \<noteq> [] \<Longrightarrow> eb_monotonic_ns (ev_body (last es)) \<le> eb_monotonic_ns (ev_body e)"
    "eb_run_id (ev_body e) = mb_run_id (m_body m)" "eb_manifest_hash (ev_body e) = m_hash m"
  using assms by (auto simp: mirror_of_def mirror_check_def Let_def final_hash_def split: if_splits)

lemma mirror_of_init: "mirror_of P m (init_mirror m) []"
  by (simp add: mirror_of_def init_mirror_def final_hash_def)

lemma observe_cases:
  assumes "observe P e s = (r, s')"
  obtains (accepted) line where "r = Inr ()" "mirror_check s e = Inr ()" "encode_event P e = Inr line"
      "s' = s\<lparr> mi_first_hash := (if mi_count s = 0 then Some (ev_hash e) else mi_first_hash s),
               mi_text := mi_text s @ line, mi_count := mi_count s + 1,
               mi_last_sequence := Some (eb_sequence (ev_body e)),
               mi_last_monotonic_ns := Some (eb_monotonic_ns (ev_body e)), mi_final_hash := Some (ev_hash e) \<rparr>"
    | (rejected) x where "r = Inl x" "s' = s \<or> (mi_count s = 0 \<and> s' = s\<lparr> mi_first_hash := Some (ev_hash e) \<rparr>)"
proof (cases "mirror_check s e")
  case (Inl x)
  with assms have "r = Inl x" "s' = s" by (simp_all add: observe_def)
  then show ?thesis using rejected by blast
next
  case c: (Inr u)
  show ?thesis
  proof (cases "encode_event P e")
    case (Inl x)
    with assms c rejected [of x] show ?thesis by (auto simp: observe_def Let_def split: if_splits)
  next
    case (Inr line)
    with assms c accepted [of line] show ?thesis by (auto simp: observe_def Let_def split: if_splits)
  qed
qed

lemma mirror_accepts:
  assumes "mirror_of P m s es" "observe P e s = (Inr u, s')"
  shows "mirror_of P m s' (es @ [e]) \<and> eb_sequence (ev_body e) = int (length es)"
  using assms(2)
proof (cases rule: observe_cases)
  case (accepted line)
  note c = mirror_check_Inr [OF assms(1) accepted(2)]
  have "sorted (map (\<lambda>e. eb_monotonic_ns (ev_body e)) (es @ [e]))"
  proof (cases "es = []")
    case False
    then have "x \<le> eb_monotonic_ns (ev_body (last es))" if "x \<in> set (map (\<lambda>e. eb_monotonic_ns (ev_body e)) es)" for x
      using sorted_le_last [OF _ that] assms(1) by (simp add: mirror_of_def last_map)
    with c(3) False assms(1) show ?thesis by (fastforce simp: sorted_append mirror_of_def)
  qed simp
  with accepted c(1) assms(1) canonical_jsonl_snoc [of P es "mi_text s" e line] show ?thesis
    by (auto simp: mirror_of_def first_hash_def final_hash_def)
qed simp

lemma mirror_rejects:
  assumes "mirror_of P m s es" "observe P e s = (Inl x, s')"
  shows "mirror_of P m s' es"
  using assms(2)
proof (cases rule: observe_cases)
  case (rejected x)
  with assms(1) show ?thesis by (auto simp: mirror_of_def)
qed simp

interpretation mirror: commit_observer "observe P" "mirror_of P m"
  by unfold_locales (auto dest: mirror_accepts mirror_rejects)

section \<open>Commits that succeed\<close>

lemma observe_total:
  assumes "mirror_of P m s es" "links P m es e" "encode_event P e = Inr line"
    "es = [] \<or> eb_monotonic_ns (ev_body (last es)) \<le> eb_monotonic_ns (ev_body e)"
  shows "\<exists>s'. observe P e s = (Inr (), s')"
proof -
  have "mirror_check s e = Inr ()"
    using assms(1,2,4)
    by (auto simp: mirror_of_def mirror_check_def links_def Let_def previous_hash_def final_hash_def)
  with assms(3) show ?thesis by (simp add: observe_def Let_def)
qed

lemma commit_total:
  assumes "nfc_fixes_ascii P" "digest_ok P" "ledger_sound l" "ledger_ready l = Inr ()"
    "ld_pending l < ld_max_pending_commits l" "ld_wal l = None \<or> wo = WalOk" "good_time observed"
    "bounded_json P 0 n c payload" "n \<le> 100000" "c \<le> 500000" "opt_all opaque_id req" "safe_nonneg mono_ns"
    "mirror_of P (ld_manifest l) mi (ld_events l)"
    "ld_events l = [] \<or> eb_monotonic_ns (ev_body (last (ld_events l))) \<le> mono_ns"
  shows "\<exists>e l' mi'. commit_event P (observe P) kind payload req observed mono_ns wo (l, mi) = (Inr e, (l', mi'))"
proof -
  obtain e line where e: "next_event P l kind payload req observed mono_ns = Inr e" "encode_event P e = Inr line"
    using next_event_total [OF assms(1-4,7-12)] by blast
  note lk = next_event_links [OF e(1)]
  obtain mi' where o: "observe P e mi = (Inr (), mi')"
    using observe_total [OF assms(13) conjunct1 [OF lk] e(2)] lk assms(14) by auto
  let ?l = "l\<lparr> ld_pending := ld_pending l + 1 \<rparr>"
  have "next_event P ?l kind payload req observed mono_ns = Inr e" "ledger_ready ?l = Inr ()"
    using e(1) assms(4) by (simp_all add: next_event_def ledger_ready_def del: bind_result_eq_Inr split: if_splits)
  with e(2) assms(5,6) o show ?thesis
    by (cases "ld_wal l")
      (auto simp: commit_event_def take_slot_def on_ledger_def on_observer_def append_event_def write_wal_def op_simps)
qed

section \<open>The witness\<close>

record witness =
  wt_key :: bytes
  wt_key_id :: pystr
  wt_roots :: "pystr \<times> pystr \<rightharpoonup> checkpoint"

record checkpoint_call =
  cc_manifest :: manifest
  cc_event_count :: int
  cc_final_event_hash :: "pystr option"
  cc_evidence_file_sha256 :: pystr
  cc_wall :: datetime

definition checkpoint_key :: "checkpoint_call \<Rightarrow> pystr \<times> pystr" where
  "checkpoint_key c = (mb_run_id (m_body (cc_manifest c)), m_hash (cc_manifest c))"

definition same_root :: "checkpoint_body \<Rightarrow> checkpoint_body \<Rightarrow> bool" where
  "same_root a b \<longleftrightarrow>
     wc_event_count a = wc_event_count b \<and> wc_final_event_hash a = wc_final_event_hash b \<and>
     wc_evidence_file_sha256 a = wc_evidence_file_sha256 b"

definition make_checkpoint :: "prims \<Rightarrow> witness \<Rightarrow> checkpoint_call \<Rightarrow> checkpoint result" where
  "make_checkpoint P w c =
     bind_result (format_utc_timestamp (cc_wall c)) (\<lambda>at.
     bind_result (validate_checkpoint_body P
       \<lparr> wc_run_id = mb_run_id (m_body (cc_manifest c)), wc_manifest_hash = m_hash (cc_manifest c),
         wc_witness_key_id = wt_key_id w, wc_witnessed_at = at, wc_event_count = cc_event_count c,
         wc_final_event_hash = cc_final_event_hash c, wc_evidence_file_sha256 = cc_evidence_file_sha256 c \<rparr>) (\<lambda>body.
       sign_checkpoint P body (wt_key w)))"

definition register_root :: "pystr \<times> pystr \<Rightarrow> checkpoint \<Rightarrow> (witness, checkpoint) op" where
  "register_root k c w =
     (case wt_roots w k of
        Some existing \<Rightarrow>
          if \<not> same_root (c_body existing) (c_body c)
          then (Inl (ValueError ''witness refuses an equivocal root for this run''), w)
          else (Inr existing, w)
      | None \<Rightarrow> (Inr c, w\<lparr> wt_roots := (wt_roots w)(k \<mapsto> c) \<rparr>))"

definition witness_checkpoint :: "prims \<Rightarrow> checkpoint_call \<Rightarrow> (witness, checkpoint) op" where
  "witness_checkpoint P c w =
     (case make_checkpoint P w c of Inl x \<Rightarrow> (Inl x, w) | Inr cp \<Rightarrow> register_root (checkpoint_key c) cp w)"

lemma make_checkpoint_root:
  assumes "make_checkpoint P w c = Inr cp"
  shows "wc_event_count (c_body cp) = cc_event_count c \<and> wc_final_event_hash (c_body cp) = cc_final_event_hash c \<and>
    wc_evidence_file_sha256 (c_body cp) = cc_evidence_file_sha256 c"
proof -
  have same: "validate_checkpoint_body P b = Inr b' \<Longrightarrow> b' = b" "validate_checkpoint P k = Inr k' \<Longrightarrow> k' = k" for b b' k k'
    by (simp_all only: validate_checkpoint_body_def validate_checkpoint_def validated_Inr)
  from assms obtain at body digest s where
    b: "validate_checkpoint_body P
       \<lparr> wc_run_id = mb_run_id (m_body (cc_manifest c)), wc_manifest_hash = m_hash (cc_manifest c),
         wc_witness_key_id = wt_key_id w, wc_witnessed_at = at, wc_event_count = cc_event_count c,
         wc_final_event_hash = cc_final_event_hash c, wc_evidence_file_sha256 = cc_evidence_file_sha256 c \<rparr> = Inr body" and
    k: "validate_checkpoint P \<lparr> c_body = body, c_hash = digest, c_signature = s \<rparr> = Inr cp"
    unfolding make_checkpoint_def sign_checkpoint_def bind_result_eq_Inr by blast
  from same(1) [OF b] same(2) [OF k] show ?thesis by simp
qed

lemma witness_checkpoint_returns:
  "witness_checkpoint P c w = (Inr cp, w') \<Longrightarrow> wt_roots w' (checkpoint_key c) = Some cp"
  by (auto simp: witness_checkpoint_def register_root_def split: sum.splits option.splits if_splits)

lemma witness_checkpoint_keeps:
  "witness_checkpoint P c w = (r, w') \<Longrightarrow> wt_roots w k = Some cp \<Longrightarrow> wt_roots w' k = Some cp"
  by (auto simp: witness_checkpoint_def register_root_def split: sum.splits option.splits if_splits)

interpretation registry: write_once wt_roots checkpoint_key "witness_checkpoint P"
  by unfold_locales (auto dest: witness_checkpoint_returns witness_checkpoint_keeps)

lemma witness_checkpoint_root:
  assumes "witness_checkpoint P c w = (Inr cp, w')"
  shows "wc_event_count (c_body cp) = cc_event_count c \<and> wc_final_event_hash (c_body cp) = cc_final_event_hash c \<and>
    wc_evidence_file_sha256 (c_body cp) = cc_evidence_file_sha256 c"
  using assms make_checkpoint_root [of P w c]
  by (auto simp: witness_checkpoint_def register_root_def same_root_def split: sum.splits option.splits if_splits)

lemma run_ops_call: "run_ops f as s = (rs, s') \<Longrightarrow> (a, r) \<in> set rs \<Longrightarrow> \<exists>t t'. f a t = (r, t')"
proof (induction as arbitrary: s rs)
  case (Cons c as)
  obtain q t where c: "f c s = (q, t)" by fastforce
  obtain qs where "run_ops f as t = (qs, s')" "rs = (c, q) # qs"
    using Cons.prems(1) c by (auto split: prod.splits)
  then show ?case using Cons.IH Cons.prems(2) c by auto
qed simp

section \<open>Evidence runs\<close>

text \<open>
  Any sequence of commits and seals, by any threads, on one ledger and its mirror. Threads that wait for
  the ledger lock hold commit slots meanwhile, so the number of slots in use may change at any time.
\<close>

inductive evidence_run :: "prims \<Rightarrow> ledger \<times> mirror \<Rightarrow> ledger \<times> mirror \<Rightarrow> bool" for P where
  ev_start: "evidence_run P s s"
| ev_commit: "evidence_run P s t \<Longrightarrow>
    commit_event P (observe P) kind payload req observed mono_ns wo t = (r, u) \<Longrightarrow> evidence_run P s u"
| ev_seal: "evidence_run P s (l, m) \<Longrightarrow> seal l = (r, l') \<Longrightarrow> evidence_run P s (l', m)"
| ev_slots: "evidence_run P s (l, m) \<Longrightarrow> evidence_run P s (l\<lparr> ld_pending := n \<rparr>, m)"

definition ledger_extends :: "ledger \<Rightarrow> ledger \<Rightarrow> bool" where
  "ledger_extends l l' \<longleftrightarrow>
     ld_manifest l' = ld_manifest l \<and> ld_max_events l' = ld_max_events l \<and>
     (\<exists>new. ld_events l' = ld_events l @ new) \<and>
     (ld_sealed l \<longrightarrow> ld_sealed l' \<and> ld_events l' = ld_events l) \<and>
     (int (length (ld_events l)) \<le> ld_max_events l \<longrightarrow> int (length (ld_events l')) \<le> ld_max_events l')"

lemma ledger_extends_refl: "ledger_extends l l"
  by (simp add: ledger_extends_def)

lemma ledger_extends_trans: "ledger_extends l l' \<Longrightarrow> ledger_extends l' l'' \<Longrightarrow> ledger_extends l l''"
  by (auto simp: ledger_extends_def)

lemma commit_extends:
  assumes "commit_event P obs kind payload req observed mono_ns wo (l, m) = (r, (l', m'))"
  shows "ledger_extends l l'"
  using assms
  by (cases rule: commit_event_cases) (auto simp: ledger_extends_def ledger_ready_def split: if_splits)

lemma evidence_run_extends: "evidence_run P s t \<Longrightarrow> ledger_extends (fst s) (fst t)"
proof (induction rule: evidence_run.induct)
  case (ev_commit s t kind payload req observed mono_ns wo r u)
  obtain l m l' m' where t: "t = (l, m)" "u = (l', m')" by fastforce
  from ev_commit(2) commit_extends [of P "observe P" kind payload req observed mono_ns wo l m r l' m'] ev_commit(3) t
  show ?case by (auto intro: ledger_extends_trans)
next
  case (ev_seal s l m r l')
  then have "ledger_extends l l'" by (auto simp: seal_def ledger_extends_def)
  with ev_seal.IH show ?case by (auto intro: ledger_extends_trans)
next
  case (ev_slots s l m n)
  have "ledger_extends l (l\<lparr> ld_pending := n \<rparr>)" by (simp add: ledger_extends_def)
  with ev_slots.IH show ?case by (auto intro: ledger_extends_trans)
qed (simp add: ledger_extends_refl)

lemma evidence_run_tracks:
  "evidence_run P s t \<Longrightarrow> mirror.tracks P m P s k \<Longrightarrow> \<exists>k'. mirror.tracks P m P t k' \<and> k \<le> k'"
proof (induction rule: evidence_run.induct)
  case (ev_commit s t kind payload req observed mono_ns wo r u)
  obtain l mi l' mi' where t: "t = (l, mi)" "u = (l', mi')" by fastforce
  from ev_commit.IH [OF ev_commit.prems] obtain k' where k: "mirror.tracks P m P (l, mi) k'" "k \<le> k'"
    unfolding t(1) by blast
  from mirror.commit_tracks [OF k(1) ev_commit.hyps(2) [unfolded t]] k(2) show ?case
    unfolding t(2) using order_trans by blast
next
  case (ev_seal s l mi r l')
  then show ?case by (auto simp: mirror.tracks_def seal_def)
next
  case (ev_slots s l mi n)
  then show ?case by (auto simp: mirror.tracks_def)
qed blast


lemma evidence_run_trans: "evidence_run P t u \<Longrightarrow> evidence_run P s t \<Longrightarrow> evidence_run P s u"
  by (induction rule: evidence_run.induct) (auto intro: evidence_run.intros)

lemma evidence_run_sealed:
  "evidence_run P s t \<Longrightarrow> ld_sealed (fst s) \<Longrightarrow> ld_sealed (fst t) \<and> ld_events (fst t) = ld_events (fst s) \<and> snd t = snd s"
proof (induction rule: evidence_run.induct)
  case (ev_commit s t kind payload req observed mono_ns wo r u)
  obtain l mi l' mi' where t: "t = (l, mi)" "u = (l', mi')" by fastforce
  have sealed: "ld_sealed l" using ev_commit t by simp
  from ev_commit(2) [unfolded t] show ?case
  proof (cases rule: commit_event_cases)
    case (refused x)
    with ev_commit t sealed show ?thesis by simp
  qed (use sealed in \<open>simp_all add: ledger_ready_def\<close>)
qed (auto simp: seal_def)

lemma chain_links: "chain P m es \<Longrightarrow> i < length es \<Longrightarrow> links P m (take i es) (es ! i)"
  by (induction rule: chain.induct) (auto simp: nth_append less_Suc_eq)

lemma fresh_tracks:
  assumes "init_ledger m producer max_ev pend wal = Inr l"
  shows "mirror.tracks P m P (l, init_mirror m) 0 \<and> ld_events l = [] \<and> ld_manifest l = m \<and> ld_max_events l = max_ev \<and> \<not> ld_sealed l"
  using assms by (auto simp: init_ledger_def mirror.tracks_def mirror_of_init chain_Nil split: if_splits)

text \<open>A list of commits, executed one after the other.\<close>

record commit_call =
  cm_kind :: event_kind
  cm_payload :: pyval
  cm_request_id :: "pystr option"
  cm_wall :: datetime
  cm_monotonic_ns :: int
  cm_wal :: wal_outcome

definition do_commit :: "prims \<Rightarrow> commit_call \<Rightarrow> (ledger \<times> mirror, event) op" where
  "do_commit P c =
     commit_event P (observe P) (cm_kind c) (cm_payload c) (cm_request_id c) (cm_wall c) (cm_monotonic_ns c) (cm_wal c)"

lemma commits_run: "evidence_run P s (snd (run_ops (do_commit P) cs s))"
proof (induction cs arbitrary: s)
  case (Cons c cs)
  obtain r t where c: "do_commit P c s = (r, t)" by (cases "do_commit P c s")
  then have "evidence_run P s t" unfolding do_commit_def by (rule ev_commit [OF ev_start])
  with Cons.IH [of t] c show ?case by (auto simp: split_def intro: evidence_run_trans)
qed (simp add: ev_start)

section \<open>The write-ahead file\<close>

text \<open>
  The file and the canonical lines of the ledger from a point on at which they held \<open>u\<close> and \<open>v\<close>: complete writes add the
  same bytes to both.
\<close>

definition wal_since :: "prims \<Rightarrow> bytes \<Rightarrow> bytes \<Rightarrow> ledger \<Rightarrow> bool" where
  "wal_since P u v l \<longleftrightarrow>
     (\<exists>rest. ld_wal l = Some (u @ rest) \<and> canonical_jsonl_bytes P (ld_events l) = Inr (v @ rest))"

lemma append_wal:
  assumes "append_event P kind payload req observed mono_ns WalOk l = (r, l')" "wal_since P u v l"
  shows "wal_since P u v l'"
  using assms(1)
proof (cases rule: append_event_cases)
  case (added e encoded)
  obtain rest where rest: "ld_wal l = Some (u @ rest)" "canonical_jsonl_bytes P (ld_events l) = Inr (v @ rest)"
    using assms(2) by (auto simp: wal_since_def)
  from canonical_jsonl_snoc [OF rest(2) added(3)] rest(1) added show ?thesis by (auto simp: wal_since_def)
qed (use assms in auto)

lemma commit_appends:
  assumes "commit_event P obs kind payload req observed mono_ns wo (l, m) = (r, (l', m'))" "\<not> ld_pending l \<ge> ld_max_pending_commits l"
    "append_event P kind payload req observed mono_ns wo (l\<lparr> ld_pending := ld_pending l + 1 \<rparr>) = (q, l1)"
  shows "l' = l1\<lparr> ld_pending := ld_pending l1 - 1 \<rparr>"
  using assms by (auto simp: commit_event_def take_slot_def on_ledger_def on_observer_def op_simps split: sum.splits prod.splits)

lemma commit_wal:
  assumes "commit_event P obs kind payload req observed mono_ns WalOk (l, m) = (r, (l', m'))" "wal_since P u v l"
  shows "wal_since P u v l'"
proof (cases "ld_pending l \<ge> ld_max_pending_commits l")
  case True
  with assms show ?thesis by (auto simp: commit_event_def take_slot_def on_ledger_def op_simps)
next
  case False
  let ?l = "l\<lparr> ld_pending := ld_pending l + 1 \<rparr>"
  obtain q l1 where a: "append_event P kind payload req observed mono_ns WalOk ?l = (q, l1)" by fastforce
  from commit_appends [OF assms(1) False a] append_wal [OF a, of u v] assms(2) show ?thesis by (simp add: wal_since_def)
qed

lemma commits_wal:
  assumes "list_all (\<lambda>c. cm_wal c = WalOk) cs" "run_ops (do_commit P) cs (l, m) = (rs, (l', m'))" "wal_since P u v l"
  shows "wal_since P u v l'"
  using assms
proof (induction cs arbitrary: l m rs)
  case (Cons c cs)
  obtain r l1 m1 where c: "do_commit P c (l, m) = (r, (l1, m1))" by (metis surj_pair)
  obtain rs' where rest: "run_ops (do_commit P) cs (l1, m1) = (rs', (l', m'))"
    using Cons.prems(2) c by (auto split: prod.splits)
  from c Cons.prems(1) have "commit_event P (observe P) (cm_kind c) (cm_payload c) (cm_request_id c) (cm_wall c)
      (cm_monotonic_ns c) WalOk (l, m) = (r, (l1, m1))" by (simp add: do_commit_def)
  from commit_wal [OF this Cons.prems(3)] Cons.IH [OF _ rest] Cons.prems(1) show ?case by auto
qed auto

text \<open>A short write does everything else that a complete write does.\<close>

lemma short_commit:
  assumes "commit_event P obs kind payload req observed mono_ns WalOk (l, m) = (Inr e, (l0, m0))" "encode_event P e = Inr line"
    "ld_wal l = Some content"
  shows "commit_event P obs kind payload req observed mono_ns (WalShort n) (l, m) =
      (Inr e, (l0\<lparr> ld_wal := Some (content @ take n line) \<rparr>, m0)) \<and> ld_wal l0 = Some (content @ line) \<and> ld_events l0 = ld_events l @ [e]"
  using assms
  by (auto simp: commit_event_def take_slot_def on_ledger_def on_observer_def append_event_def write_wal_def op_simps
      split: if_splits sum.splits prod.splits)

section \<open>Properties\<close>

definition sample_call :: "int \<Rightarrow> commit_call" where
  "sample_call t =
     \<lparr> cm_kind = VIOLATION, cm_payload = obj [(''reason_code'', PStr (lit ''runtime.budget_exhausted''))],
       cm_request_id = None, cm_wall = sample_time t, cm_monotonic_ns = t, cm_wal = WalOk \<rparr>"

definition sample_ledger :: ledger where
  "sample_ledger =
     \<lparr> ld_manifest = sample_manifest, ld_producer_instance_id = lit ''ledger-1'', ld_max_events = 20,
       ld_max_pending_commits = 5, ld_pending = 0, ld_wal = Some [], ld_events = [], ld_sealed = False \<rparr>"

definition sample_evidence :: "ledger \<times> mirror" where
  "sample_evidence =
     snd (run_ops (do_commit sample_prims) [sample_call 7, sample_call 9] (sample_ledger, init_mirror sample_manifest))"

lemma sample_ledger_init: "init_ledger sample_manifest (lit ''ledger-1'') 20 (Some 5) (Some []) = Inr sample_ledger"
  by (simp add: init_ledger_def sample_ledger_def)

lemma sample_evidence_run:
  "evidence_run sample_prims (sample_ledger, init_mirror sample_manifest) (fst sample_evidence, snd sample_evidence)"
  unfolding sample_evidence_def prod.collapse by (rule commits_run)

text \<open>
  C13. The ledger is a hash chain that is only appended to. Whatever commits and seals happened, by
  whatever threads and with whatever clock readings and file errors: every recorded event is valid,
  belongs to the run, has its position as sequence number and the hash of its predecessor; the event
  budget is respected; later events only extend the list; and a sealed ledger never changes again.
\<close>

theorem evidence_append_only:
  assumes "init_ledger m producer max_ev pend wal = Inr l0" "0 \<le> max_ev"
    "evidence_run P (l0, init_mirror m) (l, mi)" "evidence_run P (l, mi) (l', mi')"
  shows "(\<forall>i<length (ld_events l). links P m (take i (ld_events l)) (ld_events l ! i)) \<and>
    int (length (ld_events l)) \<le> max_ev \<and> take (length (ld_events l)) (ld_events l') = ld_events l \<and>
    (ld_sealed l \<longrightarrow> ld_sealed l' \<and> ld_events l' = ld_events l)"
proof -
  note f = fresh_tracks [OF assms(1), of P]
  obtain k where "mirror.tracks P m P (l, mi) k" using evidence_run_tracks [OF assms(3)] f by blast
  then have c: "chain P m (ld_events l)"
    using evidence_run_extends [OF assms(3)] f by (simp add: mirror.tracks_def ledger_extends_def)
  from evidence_run_extends [OF assms(3)] f assms(2) have "int (length (ld_events l)) \<le> max_ev"
    by (simp add: ledger_extends_def)
  with chain_links [OF c] evidence_run_extends [OF assms(4)] show ?thesis
    by (auto simp: ledger_extends_def)
qed

theorem evidence_append_only_witness:
  "evidence_run sample_prims (sample_ledger, init_mirror sample_manifest) (fst sample_evidence, snd sample_evidence) \<and>
   int (length (ld_events (fst sample_evidence))) \<le> 20 \<and>
   take (length (ld_events (fst sample_evidence))) (ld_events (fst (snd (do_commit sample_prims (sample_call 11) sample_evidence)))) =
     ld_events (fst sample_evidence)"
proof -
  have "evidence_run sample_prims (fst sample_evidence, snd sample_evidence)
    (fst (snd (do_commit sample_prims (sample_call 11) sample_evidence)),
     snd (snd (do_commit sample_prims (sample_call 11) sample_evidence)))"
    using commits_run [of sample_prims sample_evidence "[sample_call 11]"] by (simp add: split_def)
  from evidence_append_only [OF sample_ledger_init _ sample_evidence_run this] sample_evidence_run show ?thesis by simp
qed

text \<open>
  C14. The mirror refines the ledger. After any run the mirror, which keeps no events, stands for a
  prefix of the recorded events: its counter, hashes and running digest are those of that prefix. While
  no observation failed the prefix is the whole list and the mirror's snapshot is the ledger's own
  count, first hash, final hash and evidence digest. Once an event was recorded that the mirror
  rejected, every later commit raises.
\<close>

theorem mirror_refines_ledger:
  assumes "init_ledger m producer max_ev pend wal = Inr l0" "evidence_run P (l0, init_mirror m) (l, mi)"
  shows "\<exists>k\<le>length (ld_events l). mirror_of P m mi (take k (ld_events l)) \<and>
    (k = length (ld_events l) \<and> ld_events l \<noteq> [] \<longrightarrow>
       (\<exists>digest. evidence_digest P l = Inr digest \<and>
          mirror_snapshot P mi = (int k, first_hash (ld_events l), final_hash (ld_events l), digest))) \<and>
    (k < length (ld_events l) \<longrightarrow>
       (\<forall>kind payload req observed mono_ns wo. \<exists>x.
          fst (commit_event P (observe P) kind payload req observed mono_ns wo (l, mi)) = Inl x))"
proof -
  obtain k where k: "mirror.tracks P m P (l, mi) k"
    using evidence_run_tracks [OF assms(2)] fresh_tracks [OF assms(1)] by blast
  then have s: "mirror_of P m mi (take k (ld_events l))" "k \<le> length (ld_events l)"
    by (simp_all add: mirror.tracks_def)
  have "\<exists>x. fst (commit_event P (observe P) kind payload req observed mono_ns wo (l, mi)) = Inl x"
    if "k < length (ld_events l)" for kind payload req observed mono_ns wo
  proof -
    obtain r l' mi' where "commit_event P (observe P) kind payload req observed mono_ns wo (l, mi) = (r, (l', mi'))"
      by (metis surj_pair)
    with mirror.commit_diverged [OF k that this] show ?thesis by auto
  qed
  with s show ?thesis
    by (intro exI [of _ k]) (auto simp: mirror_of_def evidence_digest_def mirror_snapshot_def)
qed

theorem mirror_refines_ledger_witness:
  "evidence_run sample_prims (sample_ledger, init_mirror sample_manifest) (fst sample_evidence, snd sample_evidence) \<and>
   (\<exists>k\<le>length (ld_events (fst sample_evidence)).
      mirror_of sample_prims sample_manifest (snd sample_evidence) (take k (ld_events (fst sample_evidence))))"
  using mirror_refines_ledger [OF sample_ledger_init sample_evidence_run] sample_evidence_run by blast

text \<open>
  C20. The witness never equivocates. In any sequence of \<open>checkpoint\<close> calls, by any clients, two calls
  for the same run and manifest that both return a checkpoint return the same one, and they named the
  same event count, final hash and evidence digest.
\<close>

theorem witness_never_equivocates:
  assumes "run_ops (witness_checkpoint P) calls w = (rs, w')" "(a, Inr c) \<in> set rs" "(b, Inr d) \<in> set rs"
    "checkpoint_key a = checkpoint_key b"
  shows "c = d \<and> cc_event_count a = cc_event_count b \<and> cc_final_event_hash a = cc_final_event_hash b \<and>
    cc_evidence_file_sha256 a = cc_evidence_file_sha256 b"
proof -
  have "c = d" by (rule registry.run_agrees [OF assms])
  moreover obtain t t' u u' where "witness_checkpoint P a t = (Inr c, t')" "witness_checkpoint P b u = (Inr d, u')"
    using run_ops_call [OF assms(1)] assms(2,3) by metis
  ultimately show ?thesis using witness_checkpoint_root by metis
qed

definition sample_witness :: witness where
  "sample_witness = \<lparr> wt_key = replicate 32 3, wt_key_id = lit ''witness'', wt_roots = (\<lambda>_. None) \<rparr>"

definition sample_root :: "int \<Rightarrow> checkpoint_call" where
  "sample_root t =
     \<lparr> cc_manifest = sample_manifest, cc_event_count = 0, cc_final_event_hash = None,
       cc_evidence_file_sha256 = replicate 64 50, cc_wall = sample_time t \<rparr>"

lemma sample_checkpoint: "\<exists>cp. make_checkpoint sample_prims sample_witness (sample_root t) = Inr cp" if "t \<in> {5, 8}"
proof -
  let ?k = "\<lparr> key_id = lit ''witness'', key_value = b64url_encode (replicate 32 3) \<rparr>"
  have k: "signer sample_prims (replicate 32 3) ?k" by (rule sample_signer; code_simp)
  have g: "good_time (sample_time t)" using that by (auto simp: good_time_def sample_time_def real_time_def days_in_month_def)
  obtain at where at: "format_utc_timestamp (sample_time t) = Inr at" "utc_timestamp sample_prims at"
    using format_good_time [OF g sample_prims_ok(3)] by blast
  let ?b = "\<lparr> wc_run_id = lit ''run-1'', wc_manifest_hash = replicate 64 49, wc_witness_key_id = lit ''witness'',
    wc_witnessed_at = at, wc_event_count = 0, wc_final_event_hash = None, wc_evidence_file_sha256 = replicate 64 50 \<rparr>"
  have ids: "opaque_id (lit ''run-1'')" "opaque_id (lit ''witness'')" "sha256_hex_text (replicate 64 49)"
    "sha256_hex_text (replicate 64 50)" by code_simp+
  then have b: "validate_checkpoint_body sample_prims ?b = Inr ?b"
    using at(2) by (simp add: validate_checkpoint_body_def safe_nonneg_def MAX_SAFE_INTEGER_def)
  obtain h s where "sign_checkpoint sample_prims ?b (replicate 32 3) = Inr \<lparr> c_body = ?b, c_hash = h, c_signature = s \<rparr>"
    using checkpoint_env.sign_total [OF k bounded_checkpoint_body [OF _ sample_prims_ok(3) b, of 0]] by auto
  with at(1) b show ?thesis
    by (simp add: make_checkpoint_def sample_root_def sample_witness_def sample_manifest_def sample_manifest_body_def)
qed

theorem witness_never_equivocates_witness:
  "\<exists>c d w'. run_ops (witness_checkpoint sample_prims) [sample_root 5, sample_root 8] sample_witness =
     ([(sample_root 5, Inr c), (sample_root 8, Inr d)], w') \<and> c = d"
proof -
  obtain cp cq where cp: "make_checkpoint sample_prims sample_witness (sample_root 5) = Inr cp"
    "make_checkpoint sample_prims sample_witness (sample_root 8) = Inr cq" using sample_checkpoint by blast
  let ?w = "sample_witness\<lparr> wt_roots := (wt_roots sample_witness)(checkpoint_key (sample_root 5) \<mapsto> cp) \<rparr>"
  have "make_checkpoint sample_prims ?w (sample_root 8) = Inr cq"
    using cp(2) by (simp add: make_checkpoint_def)
  moreover have "same_root (c_body cp) (c_body cq)"
    using make_checkpoint_root [OF cp(1)] make_checkpoint_root [OF cp(2)] by (simp add: same_root_def sample_root_def)
  moreover have key: "checkpoint_key (sample_root 8) = checkpoint_key (sample_root 5)"
    by (simp add: checkpoint_key_def sample_root_def)
  ultimately have run: "run_ops (witness_checkpoint sample_prims) [sample_root 5, sample_root 8] sample_witness =
     ([(sample_root 5, Inr cp), (sample_root 8, Inr cp)], ?w)"
    using cp(1) by (simp add: witness_checkpoint_def register_root_def sample_witness_def)
  have "cp = cp" using witness_never_equivocates [OF run, of "sample_root 5" cp "sample_root 8" cp] key by simp
  with run show ?thesis by blast
qed

text \<open>
  The write-ahead file. While no write to it fails, the file is exactly the canonical JSON lines of
  the events in the ledger, after any sequence of commits, those that raise included.
\<close>

theorem wal_equals_ledger:
  assumes "init_ledger m producer max_ev pend (Some []) = Inr l0" "list_all (\<lambda>c. cm_wal c = WalOk) cs"
    "run_ops (do_commit P) cs (l0, mi) = (rs, (l, mi'))"
  shows "\<exists>content. ld_wal l = Some content \<and> canonical_jsonl_bytes P (ld_events l) = Inr content"
proof -
  have "wal_since P [] [] l0" using assms(1) by (auto simp: init_ledger_def wal_since_def)
  from commits_wal [OF assms(2,3) this] show ?thesis by (simp add: wal_since_def)
qed

theorem wal_equals_ledger_witness:
  "\<exists>content. ld_wal (fst sample_evidence) = Some content \<and>
     canonical_jsonl_bytes sample_prims (ld_events (fst sample_evidence)) = Inr content"
proof -
  have "run_ops (do_commit sample_prims) [sample_call 7, sample_call 9] (sample_ledger, init_mirror sample_manifest) =
    (fst (run_ops (do_commit sample_prims) [sample_call 7, sample_call 9] (sample_ledger, init_mirror sample_manifest)),
     (fst sample_evidence, snd sample_evidence))" by (simp add: sample_evidence_def)
  from wal_equals_ledger [OF sample_ledger_init _ this] show ?thesis by (simp add: sample_call_def)
qed


text \<open>
  A commit succeeds whenever nothing outside fails: on an open ledger with room and a free slot, a
  readable clock that does not run backwards, an ASCII payload of moderate size and a mirror in step,
  \<open>commit\<close> returns the event. Validation, hashing and serialization of the event cannot be what fails.
\<close>

theorem commit_succeeds:
  assumes "nfc_fixes_ascii P" "digest_ok P" "ledger_sound l" "ledger_ready l = Inr ()"
    "ld_pending l < ld_max_pending_commits l" "ld_wal l = None \<or> wo = WalOk" "good_time observed"
    "bounded_json P 0 n c payload" "n \<le> 100000" "c \<le> 500000" "opt_all opaque_id req" "safe_nonneg mono_ns"
    "mirror_of P (ld_manifest l) mi (ld_events l)"
    "ld_events l = [] \<or> eb_monotonic_ns (ev_body (last (ld_events l))) \<le> mono_ns"
  shows "\<exists>e l' mi'. commit_event P (observe P) kind payload req observed mono_ns wo (l, mi) = (Inr e, (l', mi')) \<and>
    ld_events l' = ld_events l @ [e] \<and> mirror_of P (ld_manifest l') mi' (ld_events l') \<and> eb_kind (ev_body e) = kind"
proof -
  obtain e l' mi' where c: "commit_event P (observe P) kind payload req observed mono_ns wo (l, mi) = (Inr e, (l', mi'))"
    using commit_total [OF assms] by blast
  then show ?thesis
  proof (cases rule: commit_event_cases)
    case (committed e')
    with next_event_links [OF committed(2)] mirror_accepts [OF assms(13) committed(3)] c show ?thesis by auto
  qed simp_all
qed

lemma committed_line:
  assumes "commit_event P obs kind payload req observed mono_ns wo (l, m) = (Inr e, s)"
  shows "\<exists>line. encode_event P e = Inr line"
proof -
  obtain q l1 where a: "append_event P kind payload req observed mono_ns wo (l\<lparr> ld_pending := ld_pending l + 1 \<rparr>) = (q, l1)" by fastforce
  with assms have "q = Inr e"
    by (auto simp: commit_event_def take_slot_def on_ledger_def on_observer_def op_simps split: if_splits sum.splits prod.splits)
  with a show ?thesis by (cases rule: append_event_cases) auto
qed

lemma sample_payload_bounded: "bounded_json sample_prims 0 2 1544 (cm_payload (sample_call t))"
proof -
  have "bounded_json sample_prims 0 (1 + 1) (2 + 1542) (cm_payload (sample_call t))" unfolding sample_call_def commit_call.simps
    by (rule bounded_obj; (intro bm_small bm_Nil)?) (simp_all add: short_lit small_json_simps sample_prims_ok)
  then show ?thesis by simp
qed

lemma sample_ledger_sound: "ledger_sound sample_ledger"
proof -
  have "opaque_id (lit ''run-1'')" "sha256_hex_text (replicate 64 49)" "opaque_id (lit ''ledger-1'')" by code_simp+
  then show ?thesis
    by (simp add: ledger_sound_def sample_ledger_def sample_manifest_def sample_manifest_body_def MAX_SAFE_INTEGER_def)
qed

lemma sample_committed:
  "\<exists>e l' mi'. do_commit sample_prims (sample_call 7) (sample_ledger, init_mirror sample_manifest) = (Inr e, (l', mi')) \<and>
    ld_events l' = [e]"
proof -
  have g: "good_time (cm_wall (sample_call 7))"
    by (simp add: sample_call_def good_time_def sample_time_def real_time_def days_in_month_def)
  have "mirror_of sample_prims (ld_manifest sample_ledger) (init_mirror sample_manifest) (ld_events sample_ledger)"
    using mirror_of_init by (simp add: sample_ledger_def)
  from commit_succeeds [OF sample_prims_ok(3,1) sample_ledger_sound _ _ _ g sample_payload_bounded [of 7] _ _ _ _ this,
      of WalOk None 7 VIOLATION]
  obtain e l' mi' where "commit_event sample_prims (observe sample_prims) VIOLATION (cm_payload (sample_call 7)) None
      (cm_wall (sample_call 7)) 7 WalOk (sample_ledger, init_mirror sample_manifest) = (Inr e, (l', mi'))"
      "ld_events l' = [e]"
    by (auto simp: sample_ledger_def ledger_ready_def safe_nonneg_def MAX_SAFE_INTEGER_def)
  then show ?thesis unfolding do_commit_def by (simp add: sample_call_def)
qed


text \<open>
  C40. A failed write forks the file from the ledger. When writing an event's line fails after some of
  its bytes reached the file, the event is not in the ledger but those bytes stay, and the next event
  that is appended takes the same sequence number and follows them in the file.
\<close>

theorem wal_forks_after_failure:
  assumes "ld_wal l = Some content" "next_event P l kind payload req observed mono_ns = Inr e"
    "encode_event P e = Inr line" "ledger_ready l = Inr ()"
    "append_event P kind payload req observed mono_ns (WalFail n) l = (r, l1)"
    "append_event P kind' payload' req' observed' mono_ns' WalOk l1 = (Inr e', l2)"
  shows "(\<exists>x. r = Inl x) \<and> ld_events l1 = ld_events l \<and> eb_sequence (ev_body e') = eb_sequence (ev_body e) \<and>
    (\<exists>line'. encode_event P e' = Inr line' \<and> ld_wal l2 = Some (content @ take n line @ line'))"
proof -
  from assms(1-5) have f: "r = Inl (OSError ''WAL write failed'')" "l1 = l\<lparr> ld_wal := Some (content @ take n line) \<rparr>"
    by (auto simp: append_event_def op_simps write_wal_def)
  have s: "eb_sequence (ev_body e) = int (length (ld_events l))"
    using next_event_links [OF assms(2)] by (simp add: links_def)
  from assms(6) show ?thesis
  proof (cases rule: append_event_cases)
    case (added e'' encoded)
    with next_event_links [OF added(2)] f s show ?thesis by (simp add: links_def)
  qed simp_all
qed

theorem wal_forks_after_failure_witness:
  "\<exists>e line l1 l2. encode_event sample_prims e = Inr line \<and>
     append_event sample_prims VIOLATION (cm_payload (sample_call 7)) None (sample_time 7) 7 (WalFail 3) sample_ledger =
       (Inl (OSError ''WAL write failed''), l1) \<and>
     append_event sample_prims VIOLATION (cm_payload (sample_call 7)) None (sample_time 7) 7 WalOk l1 = (Inr e, l2) \<and>
     ld_events l1 = [] \<and> ld_wal l2 = Some (take 3 line @ line)"
proof -
  have g: "good_time (sample_time 7)" by (simp add: good_time_def sample_time_def real_time_def days_in_month_def)
  have r: "ledger_ready sample_ledger = Inr ()" by (simp add: ledger_ready_def sample_ledger_def)
  obtain e line where e: "next_event sample_prims sample_ledger VIOLATION (cm_payload (sample_call 7)) None (sample_time 7) 7 = Inr e"
    "encode_event sample_prims e = Inr line"
    using next_event_total [OF sample_prims_ok(3,1) sample_ledger_sound r g sample_payload_bounded [of 7],
      where req = None and mono_ns = 7 and kind = VIOLATION] by (auto simp: safe_nonneg_def MAX_SAFE_INTEGER_def)
  let ?l1 = "sample_ledger\<lparr> ld_wal := Some ([] @ take 3 line) \<rparr>"
  let ?l2 = "?l1\<lparr> ld_wal := Some (take 3 line @ line), ld_events := [e] \<rparr>"
  have w: "ld_wal sample_ledger = Some []" "ld_events sample_ledger = []" by (simp_all add: sample_ledger_def)
  have a: "append_event sample_prims VIOLATION (cm_payload (sample_call 7)) None (sample_time 7) 7 (WalFail 3) sample_ledger =
      (Inl (OSError ''WAL write failed''), ?l1)"
    using e r w by (simp add: append_event_def op_simps write_wal_def)
  have same: "next_event sample_prims ?l1 = next_event sample_prims sample_ledger" "ledger_ready ?l1 = Inr ()"
    using r by (simp_all add: next_event_def ledger_ready_def fun_eq_iff split: if_splits)
  have b: "append_event sample_prims VIOLATION (cm_payload (sample_call 7)) None (sample_time 7) 7 WalOk ?l1 = (Inr e, ?l2)"
    using e same w by (simp add: append_event_def op_simps write_wal_def)
  from wal_forks_after_failure [OF w(1) e r a b] a b e(2) w show ?thesis by auto
qed

text \<open>
  C34. A short write goes unnoticed and is never made good. When the file takes only a part of an event's line without an
  error, \<open>commit\<close> returns the same event as after a complete write, and the ledger's events and the mirror are the same
  too; but the file stays behind the canonical lines of the ledger after any further commits, all with complete writes.
\<close>

theorem wal_short_write_unnoticed:
  assumes "ld_wal l = Some content" "canonical_jsonl_bytes P (ld_events l) = Inr content"
    "commit_event P (observe P) kind payload req observed mono_ns WalOk (l, m) = (Inr e, (l0, m0))"
    "encode_event P e = Inr line" "n < length line"
    "commit_event P (observe P) kind payload req observed mono_ns (WalShort n) (l, m) = (r, (l1, m1))"
    "list_all (\<lambda>c. cm_wal c = WalOk) cs" "run_ops (do_commit P) cs (l1, m1) = (rs, (l2, m2))"
  shows "r = Inr e \<and> ld_events l1 = ld_events l0 \<and> m1 = m0 \<and>
    (\<exists>file evidence. ld_wal l2 = Some file \<and> canonical_jsonl_bytes P (ld_events l2) = Inr evidence \<and> length file < length evidence)"
proof -
  note s = short_commit [OF assms(3,4,1), of n]
  from s assms(6) have r: "r = Inr e" "l1 = l0\<lparr> ld_wal := Some (content @ take n line) \<rparr>" "m1 = m0" by auto
  have "wal_since P (content @ take n line) (content @ line) l1"
    using canonical_jsonl_snoc [OF assms(2,4)] r(2) s by (auto simp: wal_since_def)
  from commits_wal [OF assms(7,8) this] assms(5) r show ?thesis by (auto simp: wal_since_def)
qed

theorem wal_short_write_unnoticed_witness:
  "\<exists>e line l1 m1 rs l2 m2 file evidence. encode_event sample_prims e = Inr line \<and>
     do_commit sample_prims ((sample_call 7)\<lparr> cm_wal := WalShort (length line - 1) \<rparr>) (sample_ledger, init_mirror sample_manifest) =
       (Inr e, (l1, m1)) \<and> ld_events l1 = [e] \<and>
     do_commit sample_prims (sample_call 9) (l1, m1) = (rs, (l2, m2)) \<and>
     ld_wal l2 = Some file \<and> canonical_jsonl_bytes sample_prims (ld_events l2) = Inr evidence \<and> length file < length evidence"
proof -
  obtain e l0 m0 where c: "do_commit sample_prims (sample_call 7) (sample_ledger, init_mirror sample_manifest) = (Inr e, (l0, m0))"
    "ld_events l0 = [e]" using sample_committed by blast
  then have d: "commit_event sample_prims (observe sample_prims) (cm_kind (sample_call 7)) (cm_payload (sample_call 7)) None
      (cm_wall (sample_call 7)) 7 WalOk (sample_ledger, init_mirror sample_manifest) = (Inr e, (l0, m0))"
    by (simp add: do_commit_def sample_call_def)
  have w: "ld_wal sample_ledger = Some []" "canonical_jsonl_bytes sample_prims (ld_events sample_ledger) = Inr []"
    by (simp_all add: sample_ledger_def)
  obtain line where line: "encode_event sample_prims e = Inr line" "line \<noteq> []"
    using committed_line [OF d] by (auto simp: encode_event_def)
  then have n: "length line - 1 < length line" by (cases line) auto
  obtain r l1 m1 where s: "commit_event sample_prims (observe sample_prims) (cm_kind (sample_call 7)) (cm_payload (sample_call 7)) None
      (cm_wall (sample_call 7)) 7 (WalShort (length line - 1)) (sample_ledger, init_mirror sample_manifest) = (r, (l1, m1))"
    by (metis surj_pair)
  obtain rs l2 m2 where t: "do_commit sample_prims (sample_call 9) (l1, m1) = (rs, (l2, m2))" by (metis surj_pair)
  then have "run_ops (do_commit sample_prims) [sample_call 9] (l1, m1) = ([(sample_call 9, rs)], (l2, m2))" by simp
  from wal_short_write_unnoticed [OF w d line(1) n s _ this] have r: "r = Inr e" "ld_events l1 = ld_events l0"
    and "\<exists>file evidence. ld_wal l2 = Some file \<and> canonical_jsonl_bytes sample_prims (ld_events l2) = Inr evidence \<and> length file < length evidence"
    by (simp_all add: sample_call_def)
  then obtain wal evidence where f: "ld_wal l2 = Some wal" "canonical_jsonl_bytes sample_prims (ld_events l2) = Inr evidence"
    "length wal < length evidence" by blast
  have "do_commit sample_prims ((sample_call 7)\<lparr> cm_wal := WalShort (length line - 1) \<rparr>) (sample_ledger, init_mirror sample_manifest) =
      (Inr e, (l1, m1))" using s r(1) by (simp add: do_commit_def sample_call_def)
  with line(1) r(2) c(2) t f show ?thesis by metis
qed

end
