(* ===== verification/BCP_State.thy ===== *)
theory BCP_State
  imports BCP_Records
begin

text \<open>
  The run state of \<^verbatim>\<open>app/state.py\<close>, shared by gateway, supervisor and executor. Every
  method runs under one lock, so a run of the program is a sequence of whole method calls in some
  order; \<open>rs_step\<close> is one such call by any thread and \<open>rs_reachable\<close> every interleaving.

  \<open>begin_authorized\<close> and \<open>finish_authorized\<close> call back into the evidence ledger while the lock is
  held. They are operations on a state \<open>'w\<close> that has the run state as a part (read by \<open>get\<close>, replaced
  by \<open>put\<close>), so that the callback may change everything, including the run state through the
  re-entrant lock.
\<close>

section \<open>State\<close>

datatype run_phase = PhRunning | PhKilling | PhKilled | PhCompleted

datatype admission = ADMITTED | FIRST_OVERLOAD | DROPPED_AFTER_KILL

record run_state =
  rs_criteria :: kill_criteria
  rs_phase :: run_phase
  rs_kill_epoch :: int
  rs_consumed :: "pystr set"
  rs_window_started_ns :: "int option"
  rs_window_count :: int
  rs_observed :: int
  rs_admitted :: int
  rs_allowed :: int
  rs_denied :: int
  rs_dispatched :: int
  rs_completed :: int
  rs_rejected_overload :: int
  rs_dropped_after_kill :: int
  rs_egress_bytes :: int
  rs_reserved_egress_bytes :: int
  rs_inflight :: int
  rs_active :: "pystr \<rightharpoonup> int"

record counter_snapshot =
  cs_observed :: int
  cs_admitted :: int
  cs_allowed :: int
  cs_denied :: int
  cs_dispatched :: int
  cs_completed :: int
  cs_rejected_overload :: int
  cs_dropped_after_kill :: int
  cs_total_egress_bytes :: int
  cs_inflight :: int
  cs_kill_epoch :: int
  cs_phase :: run_phase

record dispatch_lease =
  lease_authorization_id :: pystr
  lease_reserved_egress_bytes :: int

definition init_state :: "kill_criteria \<Rightarrow> run_state" where
  "init_state criteria =
     \<lparr> rs_criteria = criteria, rs_phase = PhRunning, rs_kill_epoch = 0, rs_consumed = {},
       rs_window_started_ns = None, rs_window_count = 0, rs_observed = 0, rs_admitted = 0, rs_allowed = 0,
       rs_denied = 0, rs_dispatched = 0, rs_completed = 0, rs_rejected_overload = 0, rs_dropped_after_kill = 0,
       rs_egress_bytes = 0, rs_reserved_egress_bytes = 0, rs_inflight = 0, rs_active = (\<lambda>_. None) \<rparr>"

section \<open>Operations\<close>

definition latch_kill_locked :: "run_state \<Rightarrow> run_state" where
  "latch_kill_locked s =
     (if rs_phase s = PhRunning then s\<lparr> rs_phase := PhKilling, rs_kill_epoch := rs_kill_epoch s + 1 \<rparr> else s)"

definition roll_window :: "int \<Rightarrow> run_state \<Rightarrow> run_state" where
  "roll_window now_ns s =
     (if (case rs_window_started_ns s of
            None \<Rightarrow> True
          | Some started \<Rightarrow> now_ns - started \<ge> rate_window_ms (rs_criteria s) * 1000000)
      then s\<lparr> rs_window_started_ns := Some now_ns, rs_window_count := 0 \<rparr> else s)"

definition would_overload :: "int \<Rightarrow> run_state \<Rightarrow> bool" where
  "would_overload raw_bytes s \<longleftrightarrow>
     raw_bytes > max_event_payload_bytes (rs_criteria s) \<or>
     rs_admitted s \<ge> max_admitted_requests (rs_criteria s) \<or>
     rs_window_count s \<ge> max_requests_per_window (rs_criteria s) \<or>
     rs_inflight s \<ge> max_inflight_requests (rs_criteria s)"

definition admit :: "int \<Rightarrow> int \<Rightarrow> (run_state, admission) op" where
  "admit raw_bytes now_ns s0 =
     (let s = s0\<lparr> rs_observed := rs_observed s0 + 1 \<rparr>
      in if rs_phase s \<noteq> PhRunning
         then (Inr DROPPED_AFTER_KILL, s\<lparr> rs_dropped_after_kill := rs_dropped_after_kill s + 1 \<rparr>)
         else let w = roll_window now_ns s
              in if would_overload raw_bytes w
                 then (Inr FIRST_OVERLOAD,
                       latch_kill_locked (w\<lparr> rs_rejected_overload := rs_rejected_overload w + 1 \<rparr>))
                 else (Inr ADMITTED,
                       w\<lparr> rs_window_count := rs_window_count w + 1, rs_admitted := rs_admitted w + 1 \<rparr>))"

definition latch_kill :: "(run_state, bool \<times> int \<times> int) op" where
  "latch_kill s =
     (let first = (rs_phase s = PhRunning); s' = (if first then latch_kill_locked s else s)
      in (Inr (first, rs_kill_epoch s', rs_inflight s'), s'))"

definition current_epoch :: "(run_state, int) op" where
  "current_epoch s = (Inr (rs_kill_epoch s), s)"

definition record_decision :: "verdict \<Rightarrow> (run_state, unit) op" where
  "record_decision v s =
     (Inr (), if v = ALLOW then s\<lparr> rs_allowed := rs_allowed s + 1 \<rparr> else s\<lparr> rs_denied := rs_denied s + 1 \<rparr>)"

text \<open>
  The guards of \<open>begin_authorized\<close> in source order. The budget guard is separate: it latches the
  kill before it raises.
\<close>

definition begin_guard :: "decision_body \<Rightarrow> int \<Rightarrow> run_state \<Rightarrow> pystr result" where
  "begin_guard body now_ns s =
     (if rs_phase s \<noteq> PhRunning then Inl (PermissionError ''run is not dispatchable'')
      else if db_verdict body \<noteq> ALLOW then Inl (PermissionError ''decision is not an ALLOW capability'')
      else if db_kill_epoch body \<noteq> rs_kill_epoch s then Inl (PermissionError ''authorization kill epoch is stale'')
      else if (case db_authorization_expires_monotonic_ns body of None \<Rightarrow> True | Some x \<Rightarrow> now_ns > x)
      then Inl (PermissionError ''authorization expired'')
      else case db_authorization_id body of
             None \<Rightarrow> Inl (PermissionError ''authorization ID is absent'')
           | Some aid \<Rightarrow>
               if aid \<in> rs_consumed s then Inl (PermissionError ''authorization was already consumed'')
               else Inr aid)"

definition budget_blocked :: "int \<Rightarrow> run_state \<Rightarrow> bool" where
  "budget_blocked reserve s \<longleftrightarrow>
     reserve \<le> 0 \<or>
     rs_egress_bytes s + rs_reserved_egress_bytes s + reserve > max_total_egress_bytes (rs_criteria s)"

definition reserve_dispatch :: "pystr \<Rightarrow> int \<Rightarrow> run_state \<Rightarrow> run_state" where
  "reserve_dispatch aid reserve s =
     s\<lparr> rs_consumed := insert aid (rs_consumed s), rs_dispatched := rs_dispatched s + 1,
        rs_inflight := rs_inflight s + 1, rs_reserved_egress_bytes := rs_reserved_egress_bytes s + reserve,
        rs_active := (rs_active s)(aid \<mapsto> reserve) \<rparr>"

definition rollback_dispatch :: "pystr \<Rightarrow> int \<Rightarrow> run_state \<Rightarrow> run_state" where
  "rollback_dispatch aid reserve s =
     latch_kill_locked
       (s\<lparr> rs_active := (rs_active s)(aid := None), rs_reserved_egress_bytes := rs_reserved_egress_bytes s - reserve,
           rs_inflight := rs_inflight s - 1 \<rparr>)"

definition begin_authorized ::
  "('w \<Rightarrow> run_state) \<Rightarrow> (run_state \<Rightarrow> 'w \<Rightarrow> 'w) \<Rightarrow> decision_body \<Rightarrow> int \<Rightarrow> int \<Rightarrow> ('w, unit) op \<Rightarrow> ('w, dispatch_lease) op" where
  "begin_authorized get put body now_ns reserve commit_dispatch w =
     (case begin_guard body now_ns (get w) of
        Inl e \<Rightarrow> (Inl e, w)
      | Inr aid \<Rightarrow>
          if budget_blocked reserve (get w)
          then (Inl (PermissionError ''egress budget cannot be reserved''), put (latch_kill_locked (get w)) w)
          else case commit_dispatch (put (reserve_dispatch aid reserve (get w)) w) of
                 (Inl e, w') \<Rightarrow> (Inl e, put (rollback_dispatch aid reserve (get w')) w')
               | (Inr _, w') \<Rightarrow>
                   (Inr \<lparr> lease_authorization_id = aid, lease_reserved_egress_bytes = reserve \<rparr>, w'))"

definition complete_dispatch :: "pystr \<Rightarrow> int \<Rightarrow> int \<Rightarrow> run_state \<Rightarrow> run_state" where
  "complete_dispatch aid reserved egress s =
     s\<lparr> rs_active := (rs_active s)(aid := None), rs_reserved_egress_bytes := rs_reserved_egress_bytes s - reserved,
        rs_inflight := rs_inflight s - 1, rs_completed := rs_completed s + 1,
        rs_egress_bytes := rs_egress_bytes s + egress \<rparr>"

text \<open>The final \<open>pop\<close> raises \<open>KeyError\<close> when the callback removed the lease (\<open>abort_authorized\<close>).\<close>

definition finish_authorized ::
  "('w \<Rightarrow> run_state) \<Rightarrow> (run_state \<Rightarrow> 'w \<Rightarrow> 'w) \<Rightarrow> dispatch_lease \<Rightarrow> int \<Rightarrow> ('w, unit) op \<Rightarrow> ('w, unit) op" where
  "finish_authorized get put lease egress_bytes commit_result w =
     (case rs_active (get w) (lease_authorization_id lease) of
        None \<Rightarrow> (Inl (RuntimeError ''dispatch lease is not active''), w)
      | Some reserved \<Rightarrow>
          if egress_bytes < 0 \<or> egress_bytes > reserved
          then (Inl (RuntimeError ''transport exceeded reserved egress bytes''), put (latch_kill_locked (get w)) w)
          else case commit_result w of
                 (Inl e, w') \<Rightarrow> (Inl e, put (latch_kill_locked (get w')) w')
               | (Inr _, w') \<Rightarrow>
                   if rs_active (get w') (lease_authorization_id lease) = None
                   then (Inl KeyError, w')
                   else (Inr (), put (complete_dispatch (lease_authorization_id lease) reserved egress_bytes (get w')) w'))"

definition abort_authorized :: "dispatch_lease \<Rightarrow> (run_state, unit) op" where
  "abort_authorized lease s =
     (case rs_active s (lease_authorization_id lease) of
        None \<Rightarrow> (Inr (), s)
      | Some reserved \<Rightarrow>
          (Inr (), s\<lparr> rs_active := (rs_active s)(lease_authorization_id lease := None),
                      rs_reserved_egress_bytes := rs_reserved_egress_bytes s - reserved,
                      rs_inflight := rs_inflight s - 1 \<rparr>))"

definition mark_killed :: "(run_state, unit) op" where
  "mark_killed s =
     (if rs_phase s \<noteq> PhKilling \<and> rs_phase s \<noteq> PhKilled
      then (Inl (RuntimeError ''cannot acknowledge kill before kill latch''), s)
      else (Inr (), s\<lparr> rs_phase := PhKilled, rs_inflight := 0, rs_active := (\<lambda>_. None), rs_reserved_egress_bytes := 0 \<rparr>))"

definition mark_completed :: "(run_state, unit) op" where
  "mark_completed s =
     (if rs_phase s \<noteq> PhRunning then (Inl (RuntimeError ''only a running run can complete''), s)
      else (Inr (), s\<lparr> rs_phase := PhCompleted \<rparr>))"

definition snapshot :: "run_state \<Rightarrow> counter_snapshot" where
  "snapshot s =
     \<lparr> cs_observed = rs_observed s, cs_admitted = rs_admitted s, cs_allowed = rs_allowed s, cs_denied = rs_denied s,
       cs_dispatched = rs_dispatched s, cs_completed = rs_completed s,
       cs_rejected_overload = rs_rejected_overload s, cs_dropped_after_kill = rs_dropped_after_kill s,
       cs_total_egress_bytes = rs_egress_bytes s, cs_inflight = rs_inflight s, cs_kill_epoch = rs_kill_epoch s,
       cs_phase = rs_phase s \<rparr>"

section \<open>Calls and interleavings\<close>

text \<open>
  One method call. The callbacks of \<open>begin_authorized\<close> and \<open>finish_authorized\<close> write evidence and
  leave the run state alone; what matters of them here is whether they raise.
\<close>

datatype rs_call =
    CallAdmit int int
  | CallLatch
  | CallRecord verdict
  | CallBegin decision_body int int "unit result"
  | CallFinish dispatch_lease int "unit result"
  | CallAbort dispatch_lease
  | CallMarkKilled
  | CallMarkCompleted

datatype rs_return = RetUnit | RetAdmission admission | RetLatch bool int int | RetLease dispatch_lease

definition own_state :: "run_state \<Rightarrow> run_state \<Rightarrow> run_state" where
  "own_state s w = s"

fun rs_exec :: "rs_call \<Rightarrow> (run_state, rs_return) op" where
  "rs_exec (CallAdmit raw now) = bind_op (admit raw now) (\<lambda>a. ret_op (RetAdmission a))"
| "rs_exec CallLatch = bind_op latch_kill (\<lambda>(f, e, i). ret_op (RetLatch f e i))"
| "rs_exec (CallRecord v) = bind_op (record_decision v) (\<lambda>_. ret_op RetUnit)"
| "rs_exec (CallBegin body now reserve r) =
     bind_op (begin_authorized id own_state body now reserve (lift_result r)) (\<lambda>l. ret_op (RetLease l))"
| "rs_exec (CallFinish lease egress r) =
     bind_op (finish_authorized id own_state lease egress (lift_result r)) (\<lambda>_. ret_op RetUnit)"
| "rs_exec (CallAbort lease) = bind_op (abort_authorized lease) (\<lambda>_. ret_op RetUnit)"
| "rs_exec CallMarkKilled = bind_op mark_killed (\<lambda>_. ret_op RetUnit)"
| "rs_exec CallMarkCompleted = bind_op mark_completed (\<lambda>_. ret_op RetUnit)"

inductive rs_step :: "run_state \<Rightarrow> rs_call \<Rightarrow> rs_return result \<Rightarrow> run_state \<Rightarrow> bool" where
  rs_stepI: "rs_exec c s = (r, s') \<Longrightarrow> rs_step s c r s'"

inductive_cases rs_stepE: "rs_step s c r s'"

text \<open>A run: the calls that were made and what they returned, in the order of the lock.\<close>

inductive rs_run :: "run_state \<Rightarrow> (rs_call \<times> rs_return result) list \<Rightarrow> run_state \<Rightarrow> bool" where
  rs_run_Nil: "rs_run s [] s"
| rs_run_snoc: "rs_run s tr t \<Longrightarrow> rs_step t c r u \<Longrightarrow> rs_run s (tr @ [(c, r)]) u"

definition rs_reachable :: "kill_criteria \<Rightarrow> run_state \<Rightarrow> bool" where
  "rs_reachable k s \<longleftrightarrow> (\<exists>tr. rs_run (init_state k) tr s)"

lemmas rs_op_defs =
  admit_def latch_kill_def record_decision_def begin_authorized_def finish_authorized_def abort_authorized_def
  mark_killed_def mark_completed_def own_state_def

section \<open>The run state as part of a larger state\<close>

text \<open>
  A surrounding state that hosts a run state. When a callback leaves the run state alone, what
  \<open>begin_authorized\<close> and \<open>finish_authorized\<close> do to it only depends on whether the callback raises.
\<close>

locale state_host =
  fixes get :: "'w \<Rightarrow> run_state" and put :: "run_state \<Rightarrow> 'w \<Rightarrow> 'w"
  assumes get_put: "get (put s w) = s"
begin

lemma begin_hosted:
  assumes "\<And>w. get (snd (callback w)) = get w"
  shows "\<exists>r. get (snd (begin_authorized get put body now reserve callback w)) =
    snd (begin_authorized id own_state body now reserve (lift_result r) (get w))"
proof (cases "begin_guard body now (get w)")
  case (Inr aid)
  let ?w = "put (reserve_dispatch aid reserve (get w)) w"
  obtain r w' where c: "callback ?w = (r, w')" by fastforce
  have "get w' = reserve_dispatch aid reserve (get w)" using assms [of ?w] c get_put by simp
  with Inr c get_put show ?thesis
    by (intro exI [of _ r]) (cases r, auto simp: begin_authorized_def lift_result_def own_state_def)
qed (simp add: begin_authorized_def)

lemma finish_hosted:
  assumes "\<And>w. get (snd (callback w)) = get w"
  shows "\<exists>r. get (snd (finish_authorized get put lease egress callback w)) =
    snd (finish_authorized id own_state lease egress (lift_result r) (get w))"
proof -
  obtain r w' where c: "callback w = (r, w')" by fastforce
  have "get w' = get w" using assms [of w] c by simp
  with c get_put show ?thesis
    by (intro exI [of _ r]) (cases r, auto simp: finish_authorized_def lift_result_def own_state_def split: option.splits)
qed

end

lemma rs_run_trans: "rs_run t tr' u \<Longrightarrow> rs_run s tr t \<Longrightarrow> rs_run s (tr @ tr') u"
proof (induction rule: rs_run.induct)
  case (rs_run_snoc t tr' v c r u)
  from rs_run.rs_run_snoc [OF rs_run_snoc.IH [OF rs_run_snoc.prems] rs_run_snoc.hyps(2)] show ?case by simp
qed simp

lemma rs_run_one: "rs_exec c s = (r, s') \<Longrightarrow> rs_run s [(c, r)] s'"
  using rs_run_snoc [OF rs_run_Nil rs_stepI] by fastforce

text \<open>Each method is a run of length one.\<close>

lemma rs_methods_run:
  "\<exists>tr. rs_run s tr (snd (admit raw now s))" "\<exists>tr. rs_run s tr (snd (latch_kill s))"
  "\<exists>tr. rs_run s tr (snd (current_epoch s))" "\<exists>tr. rs_run s tr (snd (record_decision v s))"
  "\<exists>tr. rs_run s tr (snd (abort_authorized lease s))" "\<exists>tr. rs_run s tr (snd (mark_killed s))"
  "\<exists>tr. rs_run s tr (snd (mark_completed s))"
  "\<exists>tr. rs_run s tr (snd (begin_authorized id own_state body now reserve (lift_result q) s))"
  "\<exists>tr. rs_run s tr (snd (finish_authorized id own_state lease egress (lift_result q) s))"
proof -
  have one: "\<exists>tr. rs_run s tr (snd (rs_exec c s))" for c using rs_run_one [of c s] by (metis prod.collapse)
  have same: "snd (bind_op m (\<lambda>x. ret_op (f x)) s) = snd (m s)" for m :: "(run_state, 'a) op" and f
    by (auto simp: bind_op_def ret_op_def split: prod.splits sum.splits)
  show "\<exists>tr. rs_run s tr (snd (admit raw now s))" using one [of "CallAdmit raw now"] by (simp add: same)
  show "\<exists>tr. rs_run s tr (snd (latch_kill s))" using one [of CallLatch] by (simp add: bind_op_def ret_op_def latch_kill_def Let_def)
  show "\<exists>tr. rs_run s tr (snd (current_epoch s))" using rs_run_Nil by (auto simp: current_epoch_def)
  show "\<exists>tr. rs_run s tr (snd (record_decision v s))" using one [of "CallRecord v"] by (simp add: same)
  show "\<exists>tr. rs_run s tr (snd (abort_authorized lease s))" using one [of "CallAbort lease"] by (simp add: same)
  show "\<exists>tr. rs_run s tr (snd (mark_killed s))" using one [of CallMarkKilled] by (simp add: same)
  show "\<exists>tr. rs_run s tr (snd (mark_completed s))" using one [of CallMarkCompleted] by (simp add: same)
  show "\<exists>tr. rs_run s tr (snd (begin_authorized id own_state body now reserve (lift_result q) s))"
    using one [of "CallBegin body now reserve q"] by (simp add: same)
  show "\<exists>tr. rs_run s tr (snd (finish_authorized id own_state lease egress (lift_result q) s))"
    using one [of "CallFinish lease egress q"] by (simp add: same)
qed

section \<open>Effect of a call\<close>

text \<open>Every call changes the run state in one of these ways.\<close>

inductive rs_effect :: "run_state \<Rightarrow> run_state \<Rightarrow> bool" where
  eff_same: "rs_effect s s"
| eff_latch: "rs_effect s (latch_kill_locked s)"
| eff_drop: "rs_phase s \<noteq> PhRunning \<Longrightarrow>
    rs_effect s (s\<lparr> rs_observed := rs_observed s + 1, rs_dropped_after_kill := rs_dropped_after_kill s + 1 \<rparr>)"
| eff_overload: "rs_phase s = PhRunning \<Longrightarrow> w = roll_window now (s\<lparr> rs_observed := rs_observed s + 1 \<rparr>) \<Longrightarrow>
    rs_effect s (latch_kill_locked (w\<lparr> rs_rejected_overload := rs_rejected_overload w + 1 \<rparr>))"
| eff_admit: "rs_phase s = PhRunning \<Longrightarrow> w = roll_window now (s\<lparr> rs_observed := rs_observed s + 1 \<rparr>) \<Longrightarrow>
    \<not> would_overload raw w \<Longrightarrow>
    rs_effect s (w\<lparr> rs_window_count := rs_window_count w + 1, rs_admitted := rs_admitted w + 1 \<rparr>)"
| eff_allow: "rs_effect s (s\<lparr> rs_allowed := rs_allowed s + 1 \<rparr>)"
| eff_deny: "rs_effect s (s\<lparr> rs_denied := rs_denied s + 1 \<rparr>)"
| eff_begin: "rs_phase s = PhRunning \<Longrightarrow> aid \<notin> rs_consumed s \<Longrightarrow> \<not> budget_blocked reserve s \<Longrightarrow>
    rs_effect s (reserve_dispatch aid reserve s)"
| eff_begin_failed: "rs_phase s = PhRunning \<Longrightarrow> aid \<notin> rs_consumed s \<Longrightarrow> \<not> budget_blocked reserve s \<Longrightarrow>
    rs_effect s (rollback_dispatch aid reserve (reserve_dispatch aid reserve s))"
| eff_finish: "rs_active s aid = Some reserved \<Longrightarrow> 0 \<le> egress \<Longrightarrow> egress \<le> reserved \<Longrightarrow>
    rs_effect s (complete_dispatch aid reserved egress s)"
| eff_abort: "rs_active s aid = Some reserved \<Longrightarrow>
    rs_effect s (s\<lparr> rs_active := (rs_active s)(aid := None),
      rs_reserved_egress_bytes := rs_reserved_egress_bytes s - reserved, rs_inflight := rs_inflight s - 1 \<rparr>)"
| eff_killed: "rs_phase s = PhKilling \<or> rs_phase s = PhKilled \<Longrightarrow>
    rs_effect s (s\<lparr> rs_phase := PhKilled, rs_inflight := 0, rs_active := (\<lambda>_. None), rs_reserved_egress_bytes := 0 \<rparr>)"
| eff_completed: "rs_phase s = PhRunning \<Longrightarrow> rs_effect s (s\<lparr> rs_phase := PhCompleted \<rparr>)"

lemma begin_guard_Inr:
  "begin_guard body now s = Inr aid \<longleftrightarrow>
     rs_phase s = PhRunning \<and> db_verdict body = ALLOW \<and> db_kill_epoch body = rs_kill_epoch s \<and>
     (\<exists>x. db_authorization_expires_monotonic_ns body = Some x \<and> now \<le> x) \<and>
     db_authorization_id body = Some aid \<and> aid \<notin> rs_consumed s"
  by (auto simp: begin_guard_def split: option.splits if_splits)

lemma admit_effect: "rs_effect s (snd (admit raw now s))"
proof (cases "rs_phase s = PhRunning")
  case True
  let ?w = "roll_window now (s\<lparr> rs_observed := rs_observed s + 1 \<rparr>)"
  show ?thesis
    using eff_overload [OF True, of ?w now] eff_admit [OF True, of ?w now raw] True
    by (auto simp: admit_def Let_def)
next
  case False then show ?thesis using eff_drop [OF False] by (simp add: admit_def Let_def)
qed

lemma begin_effect: "rs_effect s (snd (begin_authorized id own_state body now reserve (lift_result r) s))"
proof (cases "begin_guard body now s")
  case (Inr aid)
  then have g: "rs_phase s = PhRunning" "aid \<notin> rs_consumed s" by (auto simp: begin_guard_Inr)
  show ?thesis
    using Inr eff_begin [OF g, of reserve] eff_begin_failed [OF g, of reserve] eff_latch [of s]
    by (cases r) (auto simp: begin_authorized_def lift_result_def own_state_def)
qed (auto simp: begin_authorized_def intro: eff_same)

lemma finish_effect: "rs_effect s (snd (finish_authorized id own_state lease egress (lift_result r) s))"
  using eff_finish [of s "lease_authorization_id lease" _ egress] eff_latch [of s]
  by (cases r) (auto simp: finish_authorized_def lift_result_def own_state_def split: option.splits intro: eff_same)

lemma rs_exec_effect: "rs_effect s (snd (rs_exec c s))"
proof (cases c)
  case (CallAdmit raw now)
  with admit_effect [of s raw now] show ?thesis by (auto simp: op_simps split: prod.splits sum.splits)
next
  case CallLatch
  then show ?thesis using eff_latch [of s] by (auto simp: op_simps latch_kill_def Let_def intro: eff_same)
next
  case (CallRecord v)
  then show ?thesis by (auto simp: op_simps record_decision_def intro: eff_allow eff_deny)
next
  case (CallBegin body now reserve r)
  with begin_effect [of s body now reserve r] show ?thesis by (auto simp: bind_op_def ret_op_def split: prod.splits sum.splits)
next
  case (CallFinish lease egress r)
  with finish_effect [of s lease egress r] show ?thesis by (auto simp: bind_op_def ret_op_def split: prod.splits sum.splits)
next
  case (CallAbort lease)
  then show ?thesis by (auto simp: op_simps abort_authorized_def intro: eff_same eff_abort split: option.splits)
next
  case CallMarkKilled
  then show ?thesis by (auto simp: op_simps mark_killed_def intro: eff_same eff_killed)
next
  case CallMarkCompleted
  then show ?thesis by (auto simp: op_simps mark_completed_def intro: eff_same eff_completed)
qed

lemma rs_step_effect: "rs_step s c r s' \<Longrightarrow> rs_effect s s'"
  using rs_exec_effect [of s c] by (auto elim!: rs_stepE)

section \<open>Invariant\<close>

definition rs_active_ok :: "run_state \<Rightarrow> bool" where
  "rs_active_ok s \<longleftrightarrow>
     finite (rs_consumed s) \<and> dom (rs_active s) \<subseteq> rs_consumed s \<and>
     (\<forall>a v. rs_active s a = Some v \<longrightarrow> 0 < v) \<and>
     rs_reserved_egress_bytes s = map_total (rs_active s) \<and>
     rs_inflight s = int (card (dom (rs_active s)))"

definition rs_budget_ok :: "run_state \<Rightarrow> bool" where
  "rs_budget_ok s \<longleftrightarrow>
     0 \<le> rs_egress_bytes s \<and>
     rs_egress_bytes s + rs_reserved_egress_bytes s \<le> max_total_egress_bytes (rs_criteria s)"

definition rs_counters_ok :: "run_state \<Rightarrow> bool" where
  "rs_counters_ok s \<longleftrightarrow>
     rs_dispatched s = int (card (rs_consumed s)) \<and>
     0 \<le> rs_completed s \<and> rs_completed s + rs_inflight s \<le> rs_dispatched s \<and>
     rs_observed s = rs_admitted s + rs_rejected_overload s + rs_dropped_after_kill s \<and>
     0 \<le> rs_admitted s \<and> rs_admitted s \<le> max_admitted_requests (rs_criteria s) \<and>
     0 \<le> rs_window_count s \<and> rs_window_count s \<le> max_requests_per_window (rs_criteria s) \<and>
     0 \<le> rs_dropped_after_kill s \<and> 0 \<le> rs_allowed s \<and> 0 \<le> rs_denied s"

definition rs_phase_ok :: "run_state \<Rightarrow> bool" where
  "rs_phase_ok s \<longleftrightarrow>
     rs_kill_epoch s = (if rs_phase s = PhKilling \<or> rs_phase s = PhKilled then 1 else 0) \<and>
     (rs_phase s = PhKilled \<longrightarrow> rs_active s = (\<lambda>_. None)) \<and>
     (rs_phase s = PhRunning \<longrightarrow> rs_dropped_after_kill s = 0) \<and>
     0 \<le> rs_rejected_overload s \<and> rs_rejected_overload s \<le> rs_kill_epoch s"

definition rs_inv :: "run_state \<Rightarrow> bool" where
  "rs_inv s \<longleftrightarrow> rs_active_ok s \<and> rs_budget_ok s \<and> rs_counters_ok s \<and> rs_phase_ok s"

lemmas rs_inv_defs = rs_inv_def rs_active_ok_def rs_budget_ok_def rs_counters_ok_def rs_phase_ok_def

lemma rs_active_finite: "rs_active_ok s \<Longrightarrow> finite (dom (rs_active s))"
  by (auto simp: rs_active_ok_def intro: finite_subset)

lemma latch_fields [simp]:
  "rs_active (latch_kill_locked s) = rs_active s" "rs_consumed (latch_kill_locked s) = rs_consumed s"
  "rs_criteria (latch_kill_locked s) = rs_criteria s" "rs_egress_bytes (latch_kill_locked s) = rs_egress_bytes s"
  "rs_reserved_egress_bytes (latch_kill_locked s) = rs_reserved_egress_bytes s"
  "rs_inflight (latch_kill_locked s) = rs_inflight s" "rs_dispatched (latch_kill_locked s) = rs_dispatched s"
  "rs_completed (latch_kill_locked s) = rs_completed s" "rs_observed (latch_kill_locked s) = rs_observed s"
  "rs_admitted (latch_kill_locked s) = rs_admitted s" "rs_window_count (latch_kill_locked s) = rs_window_count s"
  "rs_rejected_overload (latch_kill_locked s) = rs_rejected_overload s"
  "rs_dropped_after_kill (latch_kill_locked s) = rs_dropped_after_kill s"
  "rs_allowed (latch_kill_locked s) = rs_allowed s" "rs_denied (latch_kill_locked s) = rs_denied s"
  "rs_phase (latch_kill_locked s) = (if rs_phase s = PhRunning then PhKilling else rs_phase s)"
  "rs_kill_epoch (latch_kill_locked s) = (if rs_phase s = PhRunning then rs_kill_epoch s + 1 else rs_kill_epoch s)"
  by (simp_all add: latch_kill_locked_def)

lemma roll_fields [simp]:
  "rs_active (roll_window n s) = rs_active s" "rs_consumed (roll_window n s) = rs_consumed s"
  "rs_criteria (roll_window n s) = rs_criteria s" "rs_egress_bytes (roll_window n s) = rs_egress_bytes s"
  "rs_reserved_egress_bytes (roll_window n s) = rs_reserved_egress_bytes s"
  "rs_inflight (roll_window n s) = rs_inflight s" "rs_dispatched (roll_window n s) = rs_dispatched s"
  "rs_completed (roll_window n s) = rs_completed s" "rs_observed (roll_window n s) = rs_observed s"
  "rs_admitted (roll_window n s) = rs_admitted s"
  "rs_rejected_overload (roll_window n s) = rs_rejected_overload s"
  "rs_dropped_after_kill (roll_window n s) = rs_dropped_after_kill s"
  "rs_allowed (roll_window n s) = rs_allowed s" "rs_denied (roll_window n s) = rs_denied s"
  "rs_phase (roll_window n s) = rs_phase s" "rs_kill_epoch (roll_window n s) = rs_kill_epoch s"
  by (simp_all add: roll_window_def)

lemma roll_window_count:
  "0 \<le> rs_window_count s \<Longrightarrow> rs_window_count s \<le> m \<Longrightarrow>
     0 \<le> rs_window_count (roll_window n s) \<and> rs_window_count (roll_window n s) \<le> m"
  by (simp add: roll_window_def)

lemma active_remove:
  assumes "rs_active_ok s" "rs_active s aid = Some v"
  shows "map_total ((rs_active s)(aid := None)) = rs_reserved_egress_bytes s - v"
    "int (card (dom ((rs_active s)(aid := None)))) = rs_inflight s - 1"
  using assms rs_active_finite [OF assms(1)] map_total_delete [of "rs_active s" aid v]
    card_dom_delete [of "rs_active s" aid v]
  by (auto simp: rs_active_ok_def)

lemma active_insert:
  assumes "rs_active_ok s" "aid \<notin> rs_consumed s"
  shows "map_total ((rs_active s)(aid \<mapsto> v)) = rs_reserved_egress_bytes s + v"
    "int (card (dom ((rs_active s)(aid \<mapsto> v)))) = rs_inflight s + 1"
    "rs_active s aid = None"
proof -
  show n: "rs_active s aid = None" using assms by (auto simp: rs_active_ok_def)
  show "map_total ((rs_active s)(aid \<mapsto> v)) = rs_reserved_egress_bytes s + v"
    using map_total_insert [OF rs_active_finite [OF assms(1)] n] assms(1) by (simp add: rs_active_ok_def)
  show "int (card (dom ((rs_active s)(aid \<mapsto> v)))) = rs_inflight s + 1"
    using card_dom_insert [OF rs_active_finite [OF assms(1)] n, of v] assms(1)
    by (simp del: dom_fun_upd add: rs_active_ok_def)
qed


lemma rs_inv_init:
  "0 \<le> max_total_egress_bytes k \<Longrightarrow> 0 \<le> max_admitted_requests k \<Longrightarrow> 0 \<le> max_requests_per_window k \<Longrightarrow>
     rs_inv (init_state k)"
  by (simp add: rs_inv_defs init_state_def)

lemma rs_inv_latch: "rs_inv s \<Longrightarrow> rs_inv (latch_kill_locked s)"
  by (auto simp: rs_inv_defs)

lemma rs_inv_admit:
  assumes "rs_inv s" "rs_phase s = PhRunning" "w = roll_window now (s\<lparr> rs_observed := rs_observed s + 1 \<rparr>)"
  shows "rs_inv (latch_kill_locked (w\<lparr> rs_rejected_overload := rs_rejected_overload w + 1 \<rparr>))"
    "\<not> would_overload raw w \<Longrightarrow>
       rs_inv (w\<lparr> rs_window_count := rs_window_count w + 1, rs_admitted := rs_admitted w + 1 \<rparr>)"
proof -
  have "0 \<le> rs_window_count w" "rs_window_count w \<le> max_requests_per_window (rs_criteria s)"
    using assms roll_window_count [of "s\<lparr> rs_observed := rs_observed s + 1 \<rparr>"] by (auto simp: rs_inv_defs)
  with assms show "rs_inv (latch_kill_locked (w\<lparr> rs_rejected_overload := rs_rejected_overload w + 1 \<rparr>))"
    "\<not> would_overload raw w \<Longrightarrow>
       rs_inv (w\<lparr> rs_window_count := rs_window_count w + 1, rs_admitted := rs_admitted w + 1 \<rparr>)"
    by (auto simp: rs_inv_defs would_overload_def)
qed

lemma rs_inv_reserve:
  assumes "rs_inv s" "rs_phase s = PhRunning" "aid \<notin> rs_consumed s" "\<not> budget_blocked reserve s"
  shows "rs_inv (reserve_dispatch aid reserve s)"
    "rs_inv (rollback_dispatch aid reserve (reserve_dispatch aid reserve s))"
proof -
  have ok: "rs_active_ok s" using assms(1) by (simp add: rs_inv_def)
  note ins = active_insert [OF ok assms(3)]
  have dom: "dom ((rs_active s)(aid \<mapsto> reserve)) \<subseteq> insert aid (rs_consumed s)"
    using ok by (auto simp: rs_active_ok_def split: if_splits)
  have card: "int (card (insert aid (rs_consumed s))) = int (card (rs_consumed s)) + 1"
    using ok assms(3) by (simp add: rs_active_ok_def)
  show "rs_inv (reserve_dispatch aid reserve s)"
    using assms ins(1,2) [of reserve] dom card unfolding rs_inv_defs reserve_dispatch_def budget_blocked_def
    by (auto simp del: dom_fun_upd)
  have undo: "(rs_active s)(aid := None) = rs_active s" using ins(3) by auto
  show "rs_inv (rollback_dispatch aid reserve (reserve_dispatch aid reserve s))"
    unfolding rollback_dispatch_def
    by (rule rs_inv_latch) (use assms card undo in \<open>auto simp: rs_inv_defs reserve_dispatch_def\<close>)
qed

lemma rs_inv_release:
  assumes "rs_inv s" "rs_active s aid = Some reserved"
  shows "0 \<le> egress \<Longrightarrow> egress \<le> reserved \<Longrightarrow> rs_inv (complete_dispatch aid reserved egress s)"
    "rs_inv (s\<lparr> rs_active := (rs_active s)(aid := None),
      rs_reserved_egress_bytes := rs_reserved_egress_bytes s - reserved, rs_inflight := rs_inflight s - 1 \<rparr>)"
proof -
  have ok: "rs_active_ok s" using assms(1) by (simp add: rs_inv_def)
  note rem = active_remove [OF ok assms(2)]
  have v: "0 < reserved" using ok assms(2) by (auto simp: rs_active_ok_def)
  have dom: "dom ((rs_active s)(aid := None)) \<subseteq> rs_consumed s" "rs_phase s = PhKilled \<longrightarrow> rs_active s = (\<lambda>_. None)"
    using assms by (auto simp: rs_inv_defs)
  have b: "rs_egress_bytes s + (rs_reserved_egress_bytes s - reserved) \<le> max_total_egress_bytes (rs_criteria s)"
    using rs_inv_def [of s] assms(1) v by (simp add: rs_budget_ok_def)
  show "rs_inv (s\<lparr> rs_active := (rs_active s)(aid := None),
      rs_reserved_egress_bytes := rs_reserved_egress_bytes s - reserved, rs_inflight := rs_inflight s - 1 \<rparr>)"
    using assms rem dom b unfolding rs_inv_defs by (auto simp del: dom_fun_upd)
  show "0 \<le> egress \<Longrightarrow> egress \<le> reserved \<Longrightarrow> rs_inv (complete_dispatch aid reserved egress s)"
    using assms rem dom v unfolding rs_inv_defs complete_dispatch_def by (auto simp del: dom_fun_upd)
qed

lemma rs_inv_killed:
  assumes "rs_inv s" "rs_phase s = PhKilling \<or> rs_phase s = PhKilled"
  shows "rs_inv (s\<lparr> rs_phase := PhKilled, rs_inflight := 0, rs_active := (\<lambda>_. None), rs_reserved_egress_bytes := 0 \<rparr>)"
proof -
  have "0 \<le> map_total (rs_active s)"
    using assms(1) by (intro map_total_nonneg) (auto simp: rs_inv_defs less_imp_le)
  with assms show ?thesis unfolding rs_inv_defs by auto
qed

lemma rs_inv_effect: "rs_effect s s' \<Longrightarrow> rs_inv s \<Longrightarrow> rs_inv s'"
proof (induction rule: rs_effect.induct)
  case (eff_overload s w now) then show ?case by (intro rs_inv_admit(1))
next
  case (eff_admit s w now raw) then show ?case by (intro rs_inv_admit(2))
next
  case (eff_begin s aid reserve) then show ?case by (intro rs_inv_reserve(1))
next
  case (eff_begin_failed s aid reserve) then show ?case by (intro rs_inv_reserve(2))
next
  case (eff_finish s aid reserved egress) then show ?case by (intro rs_inv_release(1))
next
  case (eff_abort s aid reserved) then show ?case by (intro rs_inv_release(2))
next
  case (eff_killed s) then show ?case by (intro rs_inv_killed)
qed (auto simp: rs_inv_defs)

lemma rs_inv_run: "rs_run s tr t \<Longrightarrow> rs_inv s \<Longrightarrow> rs_inv t"
  by (induction rule: rs_run.induct) (auto dest: rs_step_effect intro: rs_inv_effect)

section \<open>Traces\<close>

definition lease_ids :: "(rs_call \<times> rs_return result) list \<Rightarrow> pystr list" where
  "lease_ids tr = concat (map (\<lambda>(c, r). case r of Inr (RetLease l) \<Rightarrow> [lease_authorization_id l] | _ \<Rightarrow> []) tr)"

definition finished_egress :: "(rs_call \<times> rs_return result) list \<Rightarrow> int" where
  "finished_egress tr = sum_list (map (\<lambda>(c, r). case (c, r) of (CallFinish l n _, Inr _) \<Rightarrow> n | _ \<Rightarrow> 0) tr)"

definition admissions :: "(rs_call \<times> rs_return result) list \<Rightarrow> admission list" where
  "admissions tr = concat (map (\<lambda>(c, r). case r of Inr (RetAdmission a) \<Rightarrow> [a] | _ \<Rightarrow> []) tr)"

lemma trace_snoc [simp]:
  "lease_ids (tr @ [(c, r)]) = lease_ids tr @ (case r of Inr (RetLease l) \<Rightarrow> [lease_authorization_id l] | _ \<Rightarrow> [])"
  "admissions (tr @ [(c, r)]) = admissions tr @ (case r of Inr (RetAdmission a) \<Rightarrow> [a] | _ \<Rightarrow> [])"
  "finished_egress (tr @ [(c, r)]) = finished_egress tr + (case (c, r) of (CallFinish l n _, Inr _) \<Rightarrow> n | _ \<Rightarrow> 0)"
  by (simp_all add: lease_ids_def admissions_def finished_egress_def)

lemma trace_Nil [simp]: "lease_ids [] = []" "admissions [] = []" "finished_egress [] = 0"
  by (simp_all add: lease_ids_def admissions_def finished_egress_def)

lemma effect_consumed: "rs_effect s s' \<Longrightarrow> rs_consumed s \<subseteq> rs_consumed s'"
  by (induction rule: rs_effect.induct)
    (auto simp: reserve_dispatch_def rollback_dispatch_def complete_dispatch_def)

lemma effect_stopped:
  "rs_effect s s' \<Longrightarrow> rs_phase s \<noteq> PhRunning \<Longrightarrow>
     rs_phase s' \<noteq> PhRunning \<and> rs_consumed s' = rs_consumed s \<and> rs_dispatched s' = rs_dispatched s \<and>
     rs_admitted s' = rs_admitted s \<and> rs_kill_epoch s' = rs_kill_epoch s"
  by (induction rule: rs_effect.induct) (auto simp: complete_dispatch_def)

lemma begin_returns_lease:
  assumes "begin_authorized id own_state body now reserve (lift_result r) s = (Inr l, s')"
  shows "begin_guard body now s = Inr (lease_authorization_id l)" "\<not> budget_blocked reserve s"
    "s' = reserve_dispatch (lease_authorization_id l) reserve s"
  using assms by (auto simp: begin_authorized_def lift_result_def own_state_def split: sum.splits if_splits)

lemma step_lease:
  assumes "rs_step s c (Inr (RetLease l)) s'"
  shows "rs_phase s = PhRunning" "lease_authorization_id l \<notin> rs_consumed s" "lease_authorization_id l \<in> rs_consumed s'"
proof -
  from assms obtain body now reserve r where
    "begin_authorized id own_state body now reserve (lift_result r) s = (Inr l, s')"
    by (cases c) (auto elim!: rs_stepE simp: bind_op_Inr ret_op_def)
  note b = begin_returns_lease [OF this]
  from b(1,3) show "rs_phase s = PhRunning" "lease_authorization_id l \<notin> rs_consumed s" "lease_authorization_id l \<in> rs_consumed s'"
    by (auto simp: begin_guard_Inr reserve_dispatch_def)
qed

lemma step_admission:
  "rs_step s c (Inr (RetAdmission a)) s' \<Longrightarrow> rs_phase s \<noteq> PhRunning \<Longrightarrow> a = DROPPED_AFTER_KILL"
  by (cases c) (auto elim!: rs_stepE simp: bind_op_Inr ret_op_def admit_def Let_def)

lemma begin_keeps_egress:
  "rs_egress_bytes (snd (begin_authorized id own_state body now reserve (lift_result r) s)) = rs_egress_bytes s"
  by (cases r) (auto simp: begin_authorized_def lift_result_def own_state_def reserve_dispatch_def
    rollback_dispatch_def split: sum.splits)

lemma finish_egress:
  assumes "finish_authorized id own_state lease egress (lift_result r) s = (q, s')"
  shows "rs_egress_bytes s' = rs_egress_bytes s + (case q of Inl _ \<Rightarrow> 0 | Inr _ \<Rightarrow> egress)"
  using assms by (cases r) (auto simp: finish_authorized_def lift_result_def own_state_def complete_dispatch_def
    split: option.splits if_splits)

lemma step_egress:
  assumes "rs_step s c r s'"
  shows "rs_egress_bytes s' = rs_egress_bytes s + (case (c, r) of (CallFinish l n _, Inr _) \<Rightarrow> n | _ \<Rightarrow> 0)"
proof (cases c)
  case (CallBegin body now reserve q)
  with assms begin_keeps_egress [of body now reserve q s] show ?thesis
    by (auto elim!: rs_stepE simp: bind_op_def ret_op_def split: prod.splits sum.splits)
next
  case (CallFinish l n q)
  with assms finish_egress [of l n q s] show ?thesis
    by (auto elim!: rs_stepE simp: bind_op_def ret_op_def split: prod.splits sum.splits)
next
  case (CallAdmit raw now)
  have "rs_egress_bytes (snd (admit raw now s)) = rs_egress_bytes s" by (simp add: admit_def Let_def)
  with assms CallAdmit show ?thesis
    by (auto elim!: rs_stepE simp: bind_op_def ret_op_def split: prod.splits sum.splits)
qed (use assms in \<open>auto elim!: rs_stepE simp: bind_op_def ret_op_def latch_kill_def record_decision_def abort_authorized_def
  mark_killed_def mark_completed_def Let_def split: option.splits if_splits\<close>)

lemma run_leases:
  "rs_run s tr t \<Longrightarrow>
     distinct (lease_ids tr) \<and> set (lease_ids tr) \<inter> rs_consumed s = {} \<and> set (lease_ids tr) \<union> rs_consumed s \<subseteq> rs_consumed t"
proof (induction rule: rs_run.induct)
  case (rs_run_snoc s tr t c r u)
  have mono: "rs_consumed t \<subseteq> rs_consumed u" using rs_run_snoc(2) by (intro effect_consumed rs_step_effect)
  show ?case
  proof (cases "\<exists>l. r = Inr (RetLease l)")
    case True
    then obtain l where "r = Inr (RetLease l)" ..
    with step_lease [of t c l u] rs_run_snoc mono show ?thesis by auto
  next
    case False
    then have "lease_ids (tr @ [(c, r)]) = lease_ids tr" by (auto split: sum.splits rs_return.splits)
    with rs_run_snoc.IH mono show ?thesis by auto
  qed
qed simp

lemma step_grant:
  assumes "rs_step s (CallBegin body now reserve r) (Inr (RetLease l)) s'" "rs_inv s"
  shows "db_verdict body = ALLOW \<and> db_authorization_id body = Some (lease_authorization_id l) \<and>
    db_kill_epoch body = 0 \<and> r = Inr () \<and>
    (\<exists>x. db_authorization_expires_monotonic_ns body = Some x \<and> now \<le> x)"
proof -
  from assms(1) have b: "begin_authorized id own_state body now reserve (lift_result r) s = (Inr l, s')"
    by (auto elim!: rs_stepE simp: bind_op_Inr ret_op_def)
  then have "r = Inr ()"
    by (cases r) (auto simp: begin_authorized_def lift_result_def split: sum.splits if_splits)
  with begin_returns_lease(1) [OF b] assms(2) show ?thesis by (auto simp: begin_guard_Inr rs_inv_defs)
qed

lemma run_grants:
  "rs_run s tr t \<Longrightarrow> rs_inv s \<Longrightarrow> (CallBegin body now reserve r, Inr (RetLease l)) \<in> set tr \<Longrightarrow>
     db_verdict body = ALLOW \<and> db_authorization_id body = Some (lease_authorization_id l) \<and>
     db_kill_epoch body = 0 \<and> r = Inr () \<and>
     (\<exists>x. db_authorization_expires_monotonic_ns body = Some x \<and> now \<le> x)"
proof (induction rule: rs_run.induct)
  case (rs_run_snoc s tr t c q u)
  have "rs_inv t" using rs_inv_run rs_run_snoc by blast
  with rs_run_snoc step_grant [of t body now reserve r l u] show ?case by auto
qed simp

lemma run_stopped:
  "rs_run s tr t \<Longrightarrow> rs_phase s \<noteq> PhRunning \<Longrightarrow>
     rs_phase t \<noteq> PhRunning \<and> rs_consumed t = rs_consumed s \<and> rs_dispatched t = rs_dispatched s \<and>
     rs_admitted t = rs_admitted s \<and> rs_kill_epoch t = rs_kill_epoch s \<and>
     lease_ids tr = [] \<and> set (admissions tr) \<subseteq> {DROPPED_AFTER_KILL}"
proof (induction rule: rs_run.induct)
  case (rs_run_snoc s tr t c r u)
  then have t: "rs_phase t \<noteq> PhRunning" by simp
  have "\<nexists>l. r = Inr (RetLease l)" using rs_run_snoc(2) t step_lease(1) by blast
  moreover have "\<forall>a. r = Inr (RetAdmission a) \<longrightarrow> a = DROPPED_AFTER_KILL"
    using rs_run_snoc(2) t step_admission by blast
  ultimately show ?case
    using rs_run_snoc effect_stopped [OF rs_step_effect [OF rs_run_snoc(2)] t]
    by (auto split: sum.splits rs_return.splits)
qed simp

lemma run_egress: "rs_run s tr t \<Longrightarrow> rs_egress_bytes t = rs_egress_bytes s + finished_egress tr"
  by (induction rule: rs_run.induct) (auto dest: step_egress)

lemma run_criteria: "rs_run s tr t \<Longrightarrow> rs_criteria t = rs_criteria s"
proof (induction rule: rs_run.induct)
  case (rs_run_snoc s tr t c r u)
  have "rs_criteria u = rs_criteria t"
    using rs_step_effect [OF rs_run_snoc(2)]
    by (induction rule: rs_effect.induct) (auto simp: reserve_dispatch_def rollback_dispatch_def complete_dispatch_def)
  with rs_run_snoc show ?case by simp
qed simp

lemma criteria_nonneg:
  "validate_kill_criteria k = Inr k \<Longrightarrow>
     0 \<le> max_total_egress_bytes k \<and> 0 \<le> max_admitted_requests k \<and> 0 \<le> max_requests_per_window k"
  by (simp add: validate_kill_criteria_def safe_pos_def)

lemma run_phase_stable:
  "rs_run s tr t \<Longrightarrow> (rs_phase s = PhKilled \<longrightarrow> rs_phase t = PhKilled) \<and> (rs_phase s = PhCompleted \<longrightarrow> rs_phase t = PhCompleted)"
proof (induction rule: rs_run.induct)
  case (rs_run_snoc s tr t c r u)
  have "(rs_phase t = PhKilled \<longrightarrow> rs_phase u = PhKilled) \<and> (rs_phase t = PhCompleted \<longrightarrow> rs_phase u = PhCompleted)"
    using rs_step_effect [OF rs_run_snoc(2)]
    by (induction rule: rs_effect.induct) (auto simp: reserve_dispatch_def rollback_dispatch_def complete_dispatch_def)
  with rs_run_snoc show ?case by blast
qed simp

text \<open>Execution of a given sequence of calls.\<close>

fun rs_trace :: "run_state \<Rightarrow> rs_call list \<Rightarrow> (rs_call \<times> rs_return result) list \<times> run_state" where
  "rs_trace s [] = ([], s)"
| "rs_trace s (c # cs) =
     (case rs_exec c s of (r, s') \<Rightarrow> case rs_trace s' cs of (tr, t) \<Rightarrow> ((c, r) # tr, t))"

lemma rs_run_Cons: "rs_run s' tr t \<Longrightarrow> rs_step s c r s' \<Longrightarrow> rs_run s ((c, r) # tr) t"
proof (induction rule: rs_run.induct)
  case (rs_run_Nil s')
  from rs_run_snoc [OF rs_run.rs_run_Nil rs_run_Nil] show ?case by simp
next
  case (rs_run_snoc s' tr t c' r' u)
  from rs_run.rs_run_snoc [OF rs_run_snoc.IH [OF rs_run_snoc.prems] rs_run_snoc.hyps(2)] show ?case by simp
qed

lemma rs_trace_run: "rs_run s (fst (rs_trace s cs)) (snd (rs_trace s cs))"
proof (induction cs arbitrary: s)
  case (Cons c cs)
  obtain r s' where e: "rs_exec c s = (r, s')" by fastforce
  from rs_run_Cons [OF Cons.IH [of s'] rs_stepI [OF e]] e show ?case by (simp add: split_def)
qed (simp add: rs_run_Nil)

section \<open>Properties\<close>

text \<open>
  C10. Run-state invariant. After any interleaving of calls: the leases are exactly accounted for
  (their number is \<open>inflight\<close>, their bytes are the reservation, each belongs to a consumed
  authorization), egress and reservations stay within the budget, every observed request is
  admitted, rejected or dropped, admissions and the rate window stay within their limits, at most one
  request is rejected for overload, the kill epoch is 1 exactly after a kill was latched, and no lease
  survives the acknowledgement of the kill.
\<close>

theorem run_state_invariant:
  assumes "validate_kill_criteria k = Inr k" "rs_run (init_state k) tr s"
  shows "rs_inv s \<and> rs_criteria s = k"
  using assms criteria_nonneg [OF assms(1)] rs_inv_run [OF assms(2)] rs_inv_init [of k] run_criteria [OF assms(2)]
  by (simp add: init_state_def)

definition sample_grant_decision :: "pystr \<Rightarrow> decision_body" where
  "sample_grant_decision aid =
     \<lparr> db_run_id = lit ''run-1'', db_manifest_hash = GENESIS_HASH, db_request_id = lit ''req-1'',
       db_request_event_sequence = 0, db_request_event_hash = GENESIS_HASH, db_action_sha256 = GENESIS_HASH,
       db_gateway_key_id = lit ''gateway'', db_gateway_instance_id = lit ''gw-1'',
       db_decided_at = strftime_utc (sample_time 0), db_decision_monotonic_ns = 10, db_kill_epoch = 0,
       db_verdict = ALLOW, db_reason_code = lit ''policy.allowed'', db_matched_rule_id = Some (lit ''rule-1''),
       db_hard_violation = False, db_authorization_id = Some aid,
       db_authorization_expires_monotonic_ns = Some 1000, db_authorization_single_use = True \<rparr>"

definition sample_lease :: "pystr \<Rightarrow> dispatch_lease" where
  "sample_lease aid = \<lparr> lease_authorization_id = aid, lease_reserved_egress_bytes = 200 \<rparr>"

definition sample_calls :: "rs_call list" where
  "sample_calls =
     [CallAdmit 100 5, CallRecord ALLOW, CallBegin (sample_grant_decision (lit ''a1'')) 20 200 (Inr ()),
      CallBegin (sample_grant_decision (lit ''a1'')) 21 200 (Inr ()),
      CallFinish (sample_lease (lit ''a1'')) 150 (Inr ()), CallAdmit 9000 30, CallAdmit 100 31,
      CallBegin (sample_grant_decision (lit ''a2'')) 32 200 (Inr ())]"

lemma sample_criteria_valid: "validate_kill_criteria sample_criteria = Inr sample_criteria"
  by code_simp

theorem run_state_invariant_witness:
  "validate_kill_criteria sample_criteria = Inr sample_criteria \<and>
   rs_run (init_state sample_criteria) (fst (rs_trace (init_state sample_criteria) sample_calls))
     (snd (rs_trace (init_state sample_criteria) sample_calls)) \<and>
   rs_inv (snd (rs_trace (init_state sample_criteria) sample_calls))"
  using run_state_invariant [OF sample_criteria_valid rs_trace_run] sample_criteria_valid rs_trace_run by blast

text \<open>
  C4. A stopped run dispatches nothing. From a state that is not running (killing, killed or
  completed), whatever calls follow in whatever order: no lease is ever granted, no authorization is
  consumed, no request is admitted, every admission attempt is answered \<open>DROPPED_AFTER_KILL\<close>, and the
  run never runs again.
\<close>

theorem stopped_run_never_dispatches:
  assumes "rs_run s tr t" "rs_phase s \<noteq> PhRunning"
  shows "rs_phase t \<noteq> PhRunning \<and> lease_ids tr = [] \<and> rs_consumed t = rs_consumed s \<and>
    rs_dispatched t = rs_dispatched s \<and> rs_admitted t = rs_admitted s \<and>
    set (admissions tr) \<subseteq> {DROPPED_AFTER_KILL}"
  using run_stopped [OF assms] by blast

theorem stopped_run_never_dispatches_witness:
  "rs_phase (snd (latch_kill (init_state sample_criteria))) \<noteq> PhRunning \<and>
   lease_ids (fst (rs_trace (snd (latch_kill (init_state sample_criteria))) sample_calls)) = [] \<and>
   set (admissions (fst (rs_trace (snd (latch_kill (init_state sample_criteria))) sample_calls))) \<subseteq> {DROPPED_AFTER_KILL}"
proof -
  have p: "rs_phase (snd (latch_kill (init_state sample_criteria))) \<noteq> PhRunning" by code_simp
  with stopped_run_never_dispatches [OF rs_trace_run p] show ?thesis by blast
qed

text \<open>
  C11. Authorizations are single-use capabilities. In any run, the leases granted have pairwise
  different authorization identifiers, and each was granted for an \<open>ALLOW\<close> decision that carries this
  identifier, has not expired, was made in the epoch before any kill, and whose DISPATCH evidence was
  committed.
\<close>

theorem authorization_single_use:
  assumes "validate_kill_criteria k = Inr k" "rs_run (init_state k) tr t"
  shows "distinct (lease_ids tr) \<and>
    (\<forall>body now reserve r l. (CallBegin body now reserve r, Inr (RetLease l)) \<in> set tr \<longrightarrow>
       db_verdict body = ALLOW \<and> db_authorization_id body = Some (lease_authorization_id l) \<and>
       db_kill_epoch body = 0 \<and> r = Inr () \<and>
       (\<exists>x. db_authorization_expires_monotonic_ns body = Some x \<and> now \<le> x))"
proof -
  have "rs_inv (init_state k)" using criteria_nonneg [OF assms(1)] by (simp add: rs_inv_init)
  with assms(2) show ?thesis using run_leases [OF assms(2)] run_grants by blast
qed

theorem authorization_single_use_witness:
  "validate_kill_criteria sample_criteria = Inr sample_criteria \<and>
   lease_ids (fst (rs_trace (init_state sample_criteria) sample_calls)) = [lit ''a1''] \<and>
   distinct (lease_ids (fst (rs_trace (init_state sample_criteria) sample_calls)))"
proof -
  have "lease_ids (fst (rs_trace (init_state sample_criteria) sample_calls)) = [lit ''a1'']" by code_simp
  with authorization_single_use [OF sample_criteria_valid rs_trace_run] sample_criteria_valid show ?thesis by blast
qed

text \<open>
  C12. Egress budget. In any run, the response bytes of all completed dispatches together stay within
  \<open>max_total_egress_bytes\<close>, and so do they together with what is reserved for dispatches in flight.
\<close>

theorem egress_within_budget:
  assumes "validate_kill_criteria k = Inr k" "rs_run (init_state k) tr t"
  shows "0 \<le> rs_reserved_egress_bytes t \<and>
    finished_egress tr + rs_reserved_egress_bytes t \<le> max_total_egress_bytes k"
proof -
  have "rs_inv t" using rs_inv_run [OF assms(2)] rs_inv_init [of k] criteria_nonneg [OF assms(1)] by simp
  moreover from this have "0 \<le> map_total (rs_active t)"
    by (intro map_total_nonneg) (auto simp: rs_inv_defs less_imp_le)
  ultimately show ?thesis
    using run_egress [OF assms(2)] run_criteria [OF assms(2)] by (simp add: rs_inv_defs init_state_def)
qed

theorem egress_within_budget_witness:
  "validate_kill_criteria sample_criteria = Inr sample_criteria \<and>
   finished_egress (fst (rs_trace (init_state sample_criteria) sample_calls)) = 150 \<and>
   finished_egress (fst (rs_trace (init_state sample_criteria) sample_calls)) +
     rs_reserved_egress_bytes (snd (rs_trace (init_state sample_criteria) sample_calls)) \<le> max_total_egress_bytes sample_criteria"
proof -
  have "finished_egress (fst (rs_trace (init_state sample_criteria) sample_calls)) = 150" by code_simp
  with egress_within_budget [OF sample_criteria_valid rs_trace_run] sample_criteria_valid show ?thesis by blast
qed

section \<open>The in-flight limit\<close>







end
