(* ===== verification/BCP_World.thy ===== *)
theory BCP_World
  imports BCP_Mirror BCP_State
begin

text \<open>
  The runtime as one state. \<open>world\<close> holds the mutable parts the components share, \<open>config\<close> what is
  fixed when the runtime is built, and \<open>env\<close> what comes from outside: clock readings, random tokens,
  the outcomes of the write-ahead file, of the isolation backend and of the transport. The n-th use of
  the environment, of whatever kind, gets its n-th value.

  Threads. Every call on a shared object runs under that object's lock. A handler is the sequence of
  its calls; before each of them, \<open>switch\<close> lets other threads run: \<open>others n\<close> is an arbitrary function on
  the world, and \<open>fair_env\<close> says that it only does what handlers of the same runtime do (it moves the
  world along \<open>evolves\<close>). With \<open>others\<close> the identity a handler runs alone.

  \<open>evolves\<close> is the guarantee of every handler: the run state moves by calls of its methods, ledger and
  mirror by commits and seals, the witness keeps its roots, and what was fixed once (receipt, isolation,
  log of transport calls) stays. It is interpreted as a \<open>run_order\<close>, which gives the rules for
  sequencing, exception handlers and branches.
\<close>

section \<open>State, configuration, environment\<close>

record isolation_result =
  iso_termination_mode :: termination_mode
  iso_terminated_workload_ids :: "pystr list"
  iso_inflight_cancelled :: int
  iso_network_isolation_confirmed :: bool
  iso_isolation_evidence_sha256 :: "pystr option"

record transport_result =
  tr_status_code :: int
  tr_response_bytes :: int
  tr_response_sha256 :: pystr

text \<open>
  The registry maps authorization identifiers to cancellation events in insertion order. An event is a
  handle; \<open>rg_set\<close> holds the handles that were set.
\<close>

record inflight_registry =
  rg_events :: "(pystr \<times> nat) list"
  rg_set :: "nat list"
  rg_next :: nat

record supervisor =
  sv_started_at :: datetime
  sv_started_monotonic_ns :: int
  sv_kill_acknowledgement :: "kill_ack option"
  sv_emergency_failure :: bool
  sv_isolation_done :: bool
  sv_isolation_result :: "isolation_result option"
  sv_receipt :: "receipt option"

record config =
  cf_manifest :: manifest
  cf_supervisor_private_key :: bytes
  cf_supervisor_instance_id :: pystr
  cf_gateway_private_key :: bytes
  cf_gateway_instance_id :: pystr
  cf_authorization_ttl_ns :: int
  cf_secrets :: "pystr \<rightharpoonup> bytes"

text \<open>\<open>w_sent\<close> logs the calls of the transport and \<open>w_isolations\<close> counts those of the isolation backend.\<close>

record world =
  w_state :: run_state
  w_ledger :: ledger
  w_mirror :: mirror
  w_witness :: witness
  w_policy :: policy_engine
  w_registry :: inflight_registry
  w_supervisor :: supervisor
  w_overload_event :: "event option"
  w_sent :: "(action \<times> bytes option \<times> int) list"
  w_isolations :: nat
  w_ticks :: nat

record env =
  e_wall :: "nat \<Rightarrow> datetime"
  e_mono :: "nat \<Rightarrow> int"
  e_token :: "nat \<Rightarrow> pystr"
  e_wal :: "nat \<Rightarrow> wal_outcome"
  e_isolate :: "nat \<Rightarrow> isolation_result result"
  e_transport :: "nat \<Rightarrow> transport_result result"
  e_others :: "nat \<Rightarrow> world \<Rightarrow> world"

section \<open>Uses of the environment\<close>

definition use_env :: "(nat \<Rightarrow> 'a) \<Rightarrow> (world, 'a) op" where
  "use_env f w = (Inr (f (w_ticks w)), w\<lparr> w_ticks := w_ticks w + 1 \<rparr>)"

definition switch :: "env \<Rightarrow> (world, unit) op" where
  "switch E w = (Inr (), e_others E (w_ticks w) (w\<lparr> w_ticks := w_ticks w + 1 \<rparr>))"

text \<open>Access to a shared part: other threads may run before.\<close>

definition on_state :: "env \<Rightarrow> (run_state, 'a) op \<Rightarrow> (world, 'a) op" where
  "on_state E m = bind_op (switch E) (\<lambda>_. on_part w_state (\<lambda>s w. w\<lparr> w_state := s \<rparr>) m)"

definition on_witness :: "env \<Rightarrow> (witness, 'a) op \<Rightarrow> (world, 'a) op" where
  "on_witness E m = bind_op (switch E) (\<lambda>_. on_part w_witness (\<lambda>s w. w\<lparr> w_witness := s \<rparr>) m)"

definition on_policy :: "env \<Rightarrow> (policy_engine, 'a) op \<Rightarrow> (world, 'a) op" where
  "on_policy E m = bind_op (switch E) (\<lambda>_. on_part w_policy (\<lambda>s w. w\<lparr> w_policy := s \<rparr>) m)"

definition on_registry :: "env \<Rightarrow> (inflight_registry, 'a) op \<Rightarrow> (world, 'a) op" where
  "on_registry E m = bind_op (switch E) (\<lambda>_. on_part w_registry (\<lambda>s w. w\<lparr> w_registry := s \<rparr>) m)"

definition on_supervisor :: "(supervisor, 'a) op \<Rightarrow> (world, 'a) op" where
  "on_supervisor = on_part w_supervisor (\<lambda>s w. w\<lparr> w_supervisor := s \<rparr>)"

definition evidence_part :: "world \<Rightarrow> ledger \<times> mirror" where
  "evidence_part w = (w_ledger w, w_mirror w)"

definition put_evidence :: "ledger \<times> mirror \<Rightarrow> world \<Rightarrow> world" where
  "put_evidence lm w = w\<lparr> w_ledger := fst lm, w_mirror := snd lm \<rparr>"

text \<open>
  \<open>ledger.commit(supervisor.commit_observation, ...)\<close> without a switch, as it runs inside the callbacks
  of the run state, and as a call of its own.
\<close>

definition commit_now ::
  "prims \<Rightarrow> env \<Rightarrow> event_kind \<Rightarrow> pyval \<Rightarrow> pystr option \<Rightarrow> int option \<Rightarrow> (world, event) op" where
  "commit_now P E kind payload req at =
     bind_op (use_env (e_wall E)) (\<lambda>observed.
     bind_op (case at of Some t \<Rightarrow> ret_op t | None \<Rightarrow> use_env (e_mono E)) (\<lambda>t.
     bind_op (use_env (e_wal E)) (\<lambda>wo.
       on_part evidence_part put_evidence (commit_event P (observe P) kind payload req observed t wo))))"

definition commit ::
  "prims \<Rightarrow> env \<Rightarrow> event_kind \<Rightarrow> pyval \<Rightarrow> pystr option \<Rightarrow> int option \<Rightarrow> (world, event) op" where
  "commit P E kind payload req at = bind_op (switch E) (\<lambda>_. commit_now P E kind payload req at)"

definition on_ledger_part :: "env \<Rightarrow> (ledger, 'a) op \<Rightarrow> (world, 'a) op" where
  "on_ledger_part E m = bind_op (switch E) (\<lambda>_. on_part w_ledger (\<lambda>s w. w\<lparr> w_ledger := s \<rparr>) m)"

text \<open>
  A thread that holds the contain lock of the supervisor, or its receipt lock, keeps the others from the
  fields that lock protects; everything else may change.
\<close>

definition holding_contain :: "env \<Rightarrow> env" where
  "holding_contain E =
     E\<lparr> e_others := \<lambda>n w. (e_others E n w)\<lparr> w_supervisor := (w_supervisor (e_others E n w))
          \<lparr> sv_kill_acknowledgement := sv_kill_acknowledgement (w_supervisor w),
            sv_emergency_failure := sv_emergency_failure (w_supervisor w),
            sv_isolation_done := sv_isolation_done (w_supervisor w),
            sv_isolation_result := sv_isolation_result (w_supervisor w) \<rparr> \<rparr> \<rparr>"

definition holding_receipt :: "env \<Rightarrow> env" where
  "holding_receipt E =
     E\<lparr> e_others := \<lambda>n w. (e_others E n w)\<lparr> w_supervisor := (w_supervisor (e_others E n w))
          \<lparr> sv_receipt := sv_receipt (w_supervisor w) \<rparr> \<rparr> \<rparr>"

section \<open>The in-flight registry\<close>

definition init_registry :: inflight_registry where
  "init_registry = \<lparr> rg_events = [], rg_set = [], rg_next = 0 \<rparr>"

definition register :: "pystr \<Rightarrow> (inflight_registry, nat) op" where
  "register aid g =
     (if map_of (rg_events g) aid \<noteq> None then (Inl (RuntimeError ''inflight authorization is already registered''), g)
      else (Inr (rg_next g), g\<lparr> rg_events := rg_events g @ [(aid, rg_next g)], rg_next := rg_next g + 1 \<rparr>))"

definition unregister :: "pystr \<Rightarrow> inflight_registry \<Rightarrow> inflight_registry" where
  "unregister aid g = g\<lparr> rg_events := filter (\<lambda>(a, h). a \<noteq> aid) (rg_events g) \<rparr>"

definition signal_all :: "(inflight_registry, int) op" where
  "signal_all g = (Inr (int (length (rg_events g))), g\<lparr> rg_set := map snd (rg_events g) @ rg_set g \<rparr>)"

definition is_set :: "nat \<Rightarrow> inflight_registry \<Rightarrow> bool" where
  "is_set h g \<longleftrightarrow> h \<in> set (rg_set g)"

section \<open>What every handler guarantees\<close>

definition keeps_some :: "'a option \<Rightarrow> 'a option \<Rightarrow> bool" where
  "keeps_some a b \<longleftrightarrow> (a \<noteq> None \<longrightarrow> b = a)"

definition supervisor_evolves :: "supervisor \<Rightarrow> supervisor \<Rightarrow> bool" where
  "supervisor_evolves s t \<longleftrightarrow>
     sv_started_at t = sv_started_at s \<and> sv_started_monotonic_ns t = sv_started_monotonic_ns s \<and>
     (sv_emergency_failure s \<longrightarrow> sv_emergency_failure t) \<and>
     (sv_isolation_done s \<longrightarrow> sv_isolation_done t \<and> sv_isolation_result t = sv_isolation_result s) \<and>
     keeps_some (sv_receipt s) (sv_receipt t)"

text \<open>
  How the parts of a world fit: cancellation is signalled only after the run stopped, every transport call is
  justified, an acknowledgement exists only after the kill was marked, isolation only
  after the run stopped, and a receipt only in a terminal phase over a sealed ledger, whose mirror it
  still describes.
\<close>

definition receipt_describes :: "prims \<Rightarrow> receipt \<Rightarrow> mirror \<Rightarrow> bool" where
  "receipt_describes P r m \<longleftrightarrow>
     mirror_snapshot P m =
       (rb_event_count (r_body r), rb_first_event_hash (r_body r), rb_final_event_hash (r_body r), rb_evidence_file_sha256 (r_body r))"

definition status_fits :: "run_status \<Rightarrow> run_phase \<Rightarrow> bool" where
  "status_fits st ph \<longleftrightarrow>
     (case st of COMPLETED \<Rightarrow> ph = PhCompleted | KILLED \<Rightarrow> ph = PhKilled
      | SUPERVISOR_FAILURE \<Rightarrow> ph = PhKilled \<or> ph = PhCompleted | FAILED \<Rightarrow> False)"

text \<open>
  A justified call of the transport: the decision behind it verifies under the manifest's gateway key, is an
  ALLOW for exactly this action and run, names a rule of the manifest whose response bound is the one given to
  the transport, the credential may be released, and the DISPATCH event is in the ledger.
\<close>

definition dispatch_payload :: "pystr \<Rightarrow> decision \<Rightarrow> pyval" where
  "dispatch_payload digest d =
     obj [(''action_sha256'', PStr digest), (''authorization_id'', opt_str (db_authorization_id (d_body d))),
          (''decision_hash'', PStr (d_hash d)), (''kill_epoch'', PInt (db_kill_epoch (d_body d)))]"

definition recorded_in :: "prims \<Rightarrow> ledger \<Rightarrow> event_kind \<Rightarrow> pyval \<Rightarrow> pystr option \<Rightarrow> event \<Rightarrow> bool" where
  "recorded_in P l kind payload req e \<longleftrightarrow>
     e \<in> set (ld_events l) \<and> eb_kind (ev_body e) = kind \<and> eb_request_id (ev_body e) = req \<and>
     canonical_json P payload = Inr (eb_payload_canonical_json (ev_body e))"

definition decision_bound :: "prims \<Rightarrow> manifest \<Rightarrow> action \<Rightarrow> decision \<Rightarrow> bool" where
  "decision_bound P m a d \<longleftrightarrow>
     verify_decision P (mb_gateway_key (m_body m)) d = Inr () \<and> db_run_id (d_body d) = mb_run_id (m_body m) \<and>
     db_manifest_hash (d_body d) = m_hash m \<and> db_request_id (d_body d) = a_request_id a \<and>
     action_digest P a = Inr (db_action_sha256 (d_body d))"

definition releasable :: "manifest \<Rightarrow> action \<Rightarrow> bool" where
  "releasable m a \<longleftrightarrow>
     opt_all (\<lambda>cid. \<exists>g\<in>set (mb_credentials (m_body m)). credential_id g = cid \<and> \<not> is_canary g \<and> audience g = a_host a)
       (a_credential_id a)"

definition sent_justified :: "prims \<Rightarrow> ledger \<Rightarrow> action \<times> bytes option \<times> int \<Rightarrow> bool" where
  "sent_justified P l = (\<lambda>(a, secret, bound).
     releasable (ld_manifest l) a \<and> (a_credential_id a = None \<longrightarrow> secret = None) \<and>
     (\<exists>d rule e. decision_bound P (ld_manifest l) a d \<and> db_verdict (d_body d) = ALLOW \<and>
        rule \<in> set (mb_allowed_egress (m_body (ld_manifest l))) \<and> db_matched_rule_id (d_body d) = Some (rule_id rule) \<and>
        bound = max_response_bytes rule \<and>
        recorded_in P l DISPATCH (dispatch_payload (db_action_sha256 (d_body d)) d) (Some (a_request_id a)) e))"

definition receipt_ok :: "prims \<Rightarrow> receipt \<Rightarrow> bool" where
  "receipt_ok P r \<longleftrightarrow> validate_receipt P r = Inr r \<and> validate_receipt_body P (r_body r) = Inr (r_body r)"

definition world_ok :: "prims \<Rightarrow> world \<Rightarrow> bool" where
  "world_ok P w \<longleftrightarrow>
     (rg_set (w_registry w) \<noteq> [] \<longrightarrow> rs_phase (w_state w) \<noteq> PhRunning) \<and>
     (\<forall>x\<in>set (w_sent w). sent_justified P (w_ledger w) x) \<and>
     (sv_kill_acknowledgement (w_supervisor w) \<noteq> None \<longrightarrow> rs_phase (w_state w) = PhKilled) \<and>
     (sv_isolation_done (w_supervisor w) \<longrightarrow>
        rs_phase (w_state w) \<noteq> PhRunning \<and> sv_isolation_result (w_supervisor w) \<noteq> None) \<and>
     (\<forall>r. sv_receipt (w_supervisor w) = Some r \<longrightarrow>
        ld_sealed (w_ledger w) \<and> status_fits (rb_status (r_body r)) (rs_phase (w_state w)) \<and>
        receipt_describes P r (w_mirror w) \<and> receipt_ok P r)"

definition evolves :: "prims \<Rightarrow> world \<Rightarrow> world \<Rightarrow> bool" where
  "evolves P w w' \<longleftrightarrow>
     (\<exists>tr. rs_run (w_state w) tr (w_state w')) \<and>
     evidence_run P (evidence_part w) (evidence_part w') \<and>
     (\<forall>k c. wt_roots (w_witness w) k = Some c \<longrightarrow> wt_roots (w_witness w') k = Some c) \<and>
     wt_key (w_witness w') = wt_key (w_witness w) \<and> wt_key_id (w_witness w') = wt_key_id (w_witness w) \<and>
     pe_manifest (w_policy w') = pe_manifest (w_policy w) \<and>
     supervisor_evolves (w_supervisor w) (w_supervisor w') \<and>
     (\<exists>new. w_sent w' = w_sent w @ new) \<and> w_isolations w \<le> w_isolations w' \<and>
     (sv_isolation_done (w_supervisor w) \<longrightarrow> w_isolations w' = w_isolations w) \<and>
     (world_ok P w \<longrightarrow> world_ok P w')"

definition fair_env :: "prims \<Rightarrow> env \<Rightarrow> bool" where
  "fair_env P E \<longleftrightarrow> (\<forall>n w. evolves P w (e_others E n w))"


lemma evolves_refl: "evolves P w w"
  using rs_run_Nil [of "w_state w"] ev_start [of P "evidence_part w"]
  by (auto simp: evolves_def supervisor_evolves_def keeps_some_def)

lemma evolves_trans: "evolves P u v \<Longrightarrow> evolves P v w \<Longrightarrow> evolves P u w"
  unfolding evolves_def supervisor_evolves_def keeps_some_def
  by (intro conjI; (elim conjE)?) (blast intro: rs_run_trans evidence_run_trans | force)+

interpretation evo: run_order "evolves P"
  by unfold_locales (fact evolves_refl, fact evolves_trans)

interpretation host: state_host w_state "\<lambda>s w. w\<lparr> w_state := s \<rparr>"
  by unfold_locales simp

text \<open>Changes the guarantee does not speak about.\<close>

lemma world_ok_free [simp]:
  "world_ok P (w\<lparr> w_ticks := n \<rparr>) = world_ok P w"
  "world_ok P (w\<lparr> w_overload_event := q \<rparr>) = world_ok P w" "world_ok P (w\<lparr> w_policy := e \<rparr>) = world_ok P w"
  "world_ok P (w\<lparr> w_witness := t \<rparr>) = world_ok P w"
  "world_ok P (w\<lparr> w_isolations := k \<rparr>) = world_ok P w"
  by (simp_all add: world_ok_def)

lemma evolves_free [simp]:
  "evolves P w (w\<lparr> w_ticks := n \<rparr>)" "evolves P w (w\<lparr> w_overload_event := q \<rparr>)"
  using evolves_refl [of P w] by (simp_all add: evolves_def evidence_part_def)

lemma evolves_registry:
  "rg_set g = rg_set (w_registry w) \<or> rs_phase (w_state w) \<noteq> PhRunning \<Longrightarrow> evolves P w (w\<lparr> w_registry := g \<rparr>)"
  using evolves_refl [of P w] by (auto simp: evolves_def evidence_part_def world_ok_def)

lemma evolves_sent: "sent_justified P (w_ledger w) x \<Longrightarrow> evolves P w (w\<lparr> w_sent := w_sent w @ [x] \<rparr>)"
  using evolves_refl [of P w] by (auto simp: evolves_def evidence_part_def world_ok_def)

lemma evolves_isolations: "\<not> sv_isolation_done (w_supervisor w) \<Longrightarrow> evolves P w (w\<lparr> w_isolations := Suc (w_isolations w) \<rparr>)"
  using evolves_refl [of P w] by (simp add: evolves_def evidence_part_def)

lemma status_fits_run: "rs_run s tr t \<Longrightarrow> status_fits st (rs_phase s) \<Longrightarrow> status_fits st (rs_phase t)"
  using run_phase_stable by (fastforce simp: status_fits_def split: run_status.splits)

lemma evolves_state: "rs_run (w_state w) tr s \<Longrightarrow> evolves P w (w\<lparr> w_state := s \<rparr>)"
proof -
  assume run: "rs_run (w_state w) tr s"
  have "world_ok P w \<longrightarrow> world_ok P (w\<lparr> w_state := s \<rparr>)"
    using run_phase_stable [OF run] run_stopped [OF run] status_fits_run [OF run] by (auto simp: world_ok_def)
  with run show ?thesis using evolves_refl [of P w] by (auto simp: evolves_def evidence_part_def)
qed

lemma sent_grows: "ledger_extends l l' \<Longrightarrow> sent_justified P l x \<Longrightarrow> sent_justified P l' x"
proof -
  assume ext: "ledger_extends l l'"
  then have m: "ld_manifest l' = ld_manifest l" by (simp add: ledger_extends_def)
  have rec: "recorded_in P l k p q e \<Longrightarrow> recorded_in P l' k p q e" for k p q e
    using ext by (auto simp: ledger_extends_def recorded_in_def)
  show "sent_justified P l x \<Longrightarrow> sent_justified P l' x"
    unfolding sent_justified_def m by (cases x) (use rec in blast)
qed

lemma evolves_evidence: "evidence_run P (evidence_part w) lm \<Longrightarrow> evolves P w (put_evidence lm w)"
proof -
  assume run: "evidence_run P (evidence_part w) lm"
  have "world_ok P w \<longrightarrow> world_ok P (put_evidence lm w)"
    using evidence_run_sealed [OF run] evidence_run_extends [OF run] sent_grows
    by (fastforce simp: world_ok_def put_evidence_def evidence_part_def)
  with run show ?thesis using evolves_refl [of P w] by (auto simp: evolves_def evidence_part_def put_evidence_def)
qed

lemma evolves_supervisor:
  "supervisor_evolves (w_supervisor w) s \<Longrightarrow> (world_ok P w \<Longrightarrow> world_ok P (w\<lparr> w_supervisor := s \<rparr>)) \<Longrightarrow>
     evolves P w (w\<lparr> w_supervisor := s \<rparr>)"
  using evolves_refl [of P w] by (auto simp: evolves_def evidence_part_def)

text \<open>Stable assertions.\<close>

named_theorems stability \<open>assertions other threads keep\<close>

lemma stable_conj [stability]: "stable R A \<Longrightarrow> stable R B \<Longrightarrow> stable R (\<lambda>w. A w \<and> B w)"
  by (auto simp: stable_def)

lemma stable_const [stability]: "stable R (\<lambda>w. b)"
  by (simp add: stable_def)

lemma stable_ok [stability]: "stable (evolves P) (world_ok P)"
  by (simp add: stable_def evolves_def)

lemma stable_stopped [stability]: "stable (evolves P) (\<lambda>w. rs_phase (w_state w) \<noteq> PhRunning)"
  by (auto simp: stable_def evolves_def dest: run_stopped)

lemma stable_killed [stability]: "stable (evolves P) (\<lambda>w. rs_phase (w_state w) = PhKilled)"
  by (auto simp: stable_def evolves_def dest: run_phase_stable)

lemma stable_terminal [stability]:
  "stable (evolves P) (\<lambda>w. rs_phase (w_state w) = PhKilled \<or> rs_phase (w_state w) = PhCompleted)"
  by (auto simp: stable_def evolves_def dest: run_phase_stable)

lemma stable_sealed [stability]: "stable (evolves P) (\<lambda>w. ld_sealed (w_ledger w))"
  by (auto simp: stable_def evolves_def evidence_part_def dest: evidence_run_sealed)

lemma stable_recorded [stability]: "stable (evolves P) (\<lambda>w. e \<in> set (ld_events (w_ledger w)))"
  by (auto simp: stable_def evolves_def evidence_part_def ledger_extends_def dest!: evidence_run_extends)

lemma stable_emergency [stability]: "stable (evolves P) (\<lambda>w. sv_emergency_failure (w_supervisor w))"
  by (auto simp: stable_def evolves_def supervisor_evolves_def)

section \<open>Guarantees of the primitive steps\<close>

named_theorems g_step \<open>guarantees of single steps\<close>

lemma g_use_env [g_step]: "guarantees (evolves P) (use_env f)"
  by (simp add: guarantees_def use_env_def)

lemma g_switch [g_step]: "fair_env P E \<Longrightarrow> guarantees (evolves P) (switch E)"
proof (rule guaranteesI)
  fix w assume "fair_env P E"
  then have "evolves P (w\<lparr> w_ticks := w_ticks w + 1 \<rparr>) (e_others E (w_ticks w) (w\<lparr> w_ticks := w_ticks w + 1 \<rparr>))"
    by (simp add: fair_env_def)
  from evolves_trans [OF evolves_free(1) this] show "evolves P w (snd (switch E w))" by (simp add: switch_def)
qed

lemma g_part:
  "(\<And>w. evolves P w (put (snd (m (get w))) w)) \<Longrightarrow> guarantees (evolves P) (on_part get put m)"
  by (simp add: guarantees_def on_part_def split_def)

lemma g_on_state [g_step]:
  "fair_env P E \<Longrightarrow> (\<And>s. \<exists>tr. rs_run s tr (snd (m s))) \<Longrightarrow> guarantees (evolves P) (on_state E m)"
  unfolding on_state_def by (intro evo.g_bind g_switch g_part) (use evolves_state in blast)+

lemma g_on_registry [g_step]:
  "fair_env P E \<Longrightarrow> (\<And>g. rg_set (snd (m g)) = rg_set g) \<Longrightarrow> guarantees (evolves P) (on_registry E m)"
  unfolding on_registry_def by (intro evo.g_bind g_switch g_part evolves_registry) simp_all

lemma g_commit_now [g_step]: "guarantees (evolves P) (commit_now P E kind payload req at)"
proof -
  have step: "evidence_run P s (snd (commit_event P (observe P) kind payload req observed t wo s))" for s observed t wo
    by (rule ev_commit [OF ev_start prod.collapse [symmetric]])
  show ?thesis unfolding commit_now_def
    by (intro evo.g_bind evo.g_option g_use_env evo.g_ret g_part) (use step evolves_evidence in blast)
qed

lemma g_commit [g_step]: "fair_env P E \<Longrightarrow> guarantees (evolves P) (commit P E kind payload req at)"
  unfolding commit_def by (intro evo.g_bind g_switch g_commit_now)

lemma g_seal [g_step]: "fair_env P E \<Longrightarrow> guarantees (evolves P) (on_ledger_part E seal)"
proof -
  have "evolves P w (w\<lparr> w_ledger := snd (seal (w_ledger w)) \<rparr>)" for w
  proof -
    have "evidence_run P (evidence_part w) (snd (seal (w_ledger w)), w_mirror w)"
      unfolding evidence_part_def by (rule ev_seal [OF ev_start prod.collapse [symmetric]])
    from evolves_evidence [OF this] show ?thesis by (simp add: put_evidence_def)
  qed
  then show "fair_env P E \<Longrightarrow> ?thesis" unfolding on_ledger_part_def by (intro evo.g_bind g_switch g_part) simp_all
qed

lemma g_witness [g_step]: "fair_env P E \<Longrightarrow> guarantees (evolves P) (on_witness E (witness_checkpoint Q c))"
proof -
  have k: "wt_key (snd (witness_checkpoint Q c s)) = wt_key s \<and> wt_key_id (snd (witness_checkpoint Q c s)) = wt_key_id s" for s
    by (auto simp: witness_checkpoint_def register_root_def split: sum.splits option.splits)
  have "evolves P w (w\<lparr> w_witness := snd (witness_checkpoint Q c (w_witness w)) \<rparr>)" for w
    using evolves_refl [of P w] k [of "w_witness w"] witness_checkpoint_keeps [OF prod.collapse [symmetric]]
    by (simp add: evolves_def evidence_part_def)
  then show "fair_env P E \<Longrightarrow> ?thesis" unfolding on_witness_def by (intro evo.g_bind g_switch g_part) simp_all
qed

lemma authorize_manifest: "pe_manifest (snd (authorize a now e)) = pe_manifest e"
  by (auto simp: authorize_def consume_budgets_def Let_def split: sum.splits option.splits prod.splits)

lemma g_policy [g_step]: "fair_env P E \<Longrightarrow> guarantees (evolves P) (on_policy E (authorize a now))"
proof -
  have "evolves P w (w\<lparr> w_policy := snd (authorize a now (w_policy w)) \<rparr>)" for w
    using evolves_refl [of P w] authorize_manifest by (auto simp: evolves_def evidence_part_def)
  then show "fair_env P E \<Longrightarrow> ?thesis" unfolding on_policy_def by (intro evo.g_bind g_switch g_part) simp_all
qed

lemma commit_now_state: "w_state (snd (commit_now P E kind payload req at w)) = w_state w"
  by (cases at) (auto simp: commit_now_def bind_op_def use_env_def ret_op_def on_part_def put_evidence_def split: prod.splits sum.splits)

lemma guarantees_state_run: "guarantees (evolves P) m \<Longrightarrow> \<exists>tr. rs_run (w_state w) tr (w_state (snd (m w)))"
  by (auto simp: guarantees_def evolves_def)


section \<open>Held locks\<close>

lemma fair_holding:
  assumes f: "fair_env P E"
  shows "fair_env P (holding_contain E)" "fair_env P (holding_receipt E)"
proof -
  show "fair_env P (holding_contain E)" unfolding fair_env_def
  proof (intro allI)
    fix n w
    let ?v = "e_others E n w"
    have ev: "evolves P w ?v" using f by (simp add: fair_env_def)
    then obtain tr where run: "rs_run (w_state w) tr (w_state ?v)" by (auto simp: evolves_def)
    have "world_ok P (e_others (holding_contain E) n w)" if "world_ok P w"
    proof -
      have "world_ok P ?v" using ev that by (simp add: evolves_def)
      with that run_phase_stable [OF run] run_stopped [OF run] show ?thesis
        by (simp add: world_ok_def holding_contain_def)
    qed
    with ev show "evolves P w (e_others (holding_contain E) n w)"
      by (simp add: evolves_def holding_contain_def evidence_part_def supervisor_evolves_def)
  qed
  show "fair_env P (holding_receipt E)" unfolding fair_env_def
  proof (intro allI)
    fix n w
    let ?v = "e_others E n w"
    have ev: "evolves P w ?v" using f by (simp add: fair_env_def)
    have "sv_receipt (w_supervisor w) = None \<or> sv_receipt (w_supervisor ?v) = sv_receipt (w_supervisor w)"
      using ev by (auto simp: evolves_def supervisor_evolves_def keeps_some_def)
    then have "world_ok P ?v \<Longrightarrow> world_ok P (e_others (holding_receipt E) n w)"
      by (auto simp: world_ok_def holding_receipt_def)
    with ev show "evolves P w (e_others (holding_receipt E) n w)"
      by (simp add: evolves_def holding_receipt_def evidence_part_def supervisor_evolves_def keeps_some_def)
  qed
qed

text \<open>What a step keeps of the supervisor, when the other threads keep it.\<close>

definition sup_quiet :: "(supervisor \<Rightarrow> 'a) \<Rightarrow> env \<Rightarrow> bool" where
  "sup_quiet g E \<longleftrightarrow> (\<forall>n w. g (w_supervisor (e_others E n w)) = g (w_supervisor w))"

abbreviation sup_keep :: "(supervisor \<Rightarrow> 'a) \<Rightarrow> world \<Rightarrow> world \<Rightarrow> bool" where
  "sup_keep g w w' \<equiv> g (w_supervisor w') = g (w_supervisor w)"

interpretation supk: run_order "sup_keep g"
  by unfold_locales auto

named_theorems k_step \<open>steps that keep parts of the supervisor\<close>

lemma k_use_env [k_step]: "guarantees (sup_keep g) (use_env f)"
  by (simp add: guarantees_def use_env_def)

lemma k_switch [k_step]: "sup_quiet g E \<Longrightarrow> guarantees (sup_keep g) (switch E)"
  by (simp add: guarantees_def switch_def sup_quiet_def)

lemma k_part: "(\<And>s w. w_supervisor (put s w) = w_supervisor w) \<Longrightarrow> guarantees (sup_keep g) (on_part get put m)"
  by (simp add: guarantees_def on_part_def split_def)

lemma k_parts [k_step]:
  assumes "sup_quiet g E"
  shows "guarantees (sup_keep g) (on_state E m1)" "guarantees (sup_keep g) (on_registry E m2)"
    "guarantees (sup_keep g) (on_witness E m3)" "guarantees (sup_keep g) (on_ledger_part E m4)"
    "guarantees (sup_keep g) (on_policy E m5)"
  unfolding on_state_def on_registry_def on_witness_def on_ledger_part_def on_policy_def
  by (intro supk.g_bind k_switch assms k_part; simp)+

lemma k_commit_now [k_step]: "guarantees (sup_keep g) (commit_now P E kind payload req at)"
  unfolding commit_now_def by (intro supk.g_bind supk.g_option k_use_env supk.g_ret k_part) (simp add: put_evidence_def)

lemma k_commit [k_step]: "sup_quiet g E \<Longrightarrow> guarantees (sup_keep g) (commit P E kind payload req at)"
  unfolding commit_def by (intro supk.g_bind k_switch k_commit_now)

definition contain_fields :: "supervisor \<Rightarrow> kill_ack option \<times> bool \<times> bool \<times> isolation_result option" where
  "contain_fields s =
     (sv_kill_acknowledgement s, sv_emergency_failure s, sv_isolation_done s, sv_isolation_result s)"

lemma quiet_contain: "sup_quiet contain_fields (holding_contain E)"
  by (simp add: sup_quiet_def holding_contain_def contain_fields_def)

lemma quiet_receipt: "sup_quiet sv_receipt (holding_receipt E)"
  by (simp add: sup_quiet_def holding_receipt_def)

lemma keep_imp_sup: "guarantees (sup_keep g) m \<Longrightarrow> guarantees (\<lambda>w w'. Q (g (w_supervisor w)) \<longrightarrow> Q (g (w_supervisor w'))) m"
  by (simp add: guarantees_def)


section \<open>Specifications of the primitive steps\<close>

lemma s_switch: "fair_env P E \<Longrightarrow> stable (evolves P) A \<Longrightarrow> spec (evolves P) A (switch E) (\<lambda>_. A) X"
  using g_switch [of P E] unfolding spec_def guarantees_def stable_def by (auto simp: switch_def)

lemma s_use_env: "stable (evolves P) A \<Longrightarrow> spec (evolves P) A (use_env f) (\<lambda>_. A) X"
  using g_use_env [of P f] unfolding spec_def guarantees_def stable_def by (auto simp: use_env_def)

lemma latch_post: "latch_kill s = (r, t) \<Longrightarrow> rs_phase t \<noteq> PhRunning \<and> (\<exists>x. r = Inr x)"
  by (auto simp: latch_kill_def Let_def split: if_splits)

lemma mark_killed_post: "mark_killed s = (Inr u, t) \<Longrightarrow> rs_phase t = PhKilled"
  by (auto simp: mark_killed_def split: if_splits)

lemma s_on_state:
  assumes "fair_env P E" "stable (evolves P) A" "\<And>s. \<exists>tr. rs_run s tr (snd (m s))"
  shows "spec (evolves P) A (on_state E m) (\<lambda>x w. A w \<and> (\<exists>s. m s = (Inr x, w_state w)))
    (\<lambda>e w. A w \<and> (\<exists>s. m s = (Inl e, w_state w)))"
  unfolding on_state_def
proof (rule evo.s_bind [OF s_switch [OF assms(1,2)]])
  let ?m = "on_part w_state (\<lambda>s w. w\<lparr> w_state := s \<rparr>) m"
  have g: "guarantees (evolves P) ?m" by (rule g_part) (use assms(3) evolves_state in blast)
  show "spec (evolves P) A ?m (\<lambda>x w. A w \<and> (\<exists>s. m s = (Inr x, w_state w))) (\<lambda>e w. A w \<and> (\<exists>s. m s = (Inl e, w_state w)))"
    unfolding spec_def
  proof (intro allI impI)
    fix w assume A: "A w"
    obtain r s where m: "m (w_state w) = (r, s)" by fastforce
    have "evolves P w (snd (?m w))" using g by (simp add: guarantees_def)
    moreover from this have "A (snd (?m w))" using assms(2) A by (auto simp: stable_def)
    ultimately show "evolves P w (snd (?m w)) \<and> (case fst (?m w) of
        Inl e \<Rightarrow> A (snd (?m w)) \<and> (\<exists>s. m s = (Inl e, w_state (snd (?m w))))
      | Inr x \<Rightarrow> A (snd (?m w)) \<and> (\<exists>s. m s = (Inr x, w_state (snd (?m w)))))"
      using m by (cases r) (auto simp: on_part_def)
  qed
qed

lemma s_latch:
  assumes "fair_env P E" "stable (evolves P) A"
  shows "spec (evolves P) A (on_state E latch_kill) (\<lambda>_ w. A w \<and> rs_phase (w_state w) \<noteq> PhRunning) X"
  by (rule s_conseq [OF s_on_state [OF assms rs_methods_run(2)]]) (auto dest: latch_post)

lemma s_mark_killed:
  assumes "fair_env P E" "stable (evolves P) A" "\<And>e w. A w \<Longrightarrow> X e w"
  shows "spec (evolves P) A (on_state E mark_killed) (\<lambda>_ w. A w \<and> rs_phase (w_state w) = PhKilled) X"
  by (rule s_conseq [OF s_on_state [OF assms(1,2) rs_methods_run(6)]]) (use assms(3) in \<open>auto dest: mark_killed_post\<close>)

lemma stable_fits [stability]: "stable (evolves P) (\<lambda>w. status_fits st (rs_phase (w_state w)))"
  by (auto simp: stable_def evolves_def dest: status_fits_run)

lemma stable_snapshot [stability]:
  "stable (evolves P) (\<lambda>w. ld_sealed (w_ledger w) \<and> mirror_snapshot P (w_mirror w) = x)"
  by (auto simp: stable_def evolves_def evidence_part_def dest: evidence_run_sealed)

text \<open>A committed event, and the events the mirror has observed.\<close>

definition committed_as ::
  "prims \<Rightarrow> world \<Rightarrow> event_kind \<Rightarrow> pyval \<Rightarrow> pystr option \<Rightarrow> int option \<Rightarrow> event \<Rightarrow> bool" where
  "committed_as P w kind payload req at e \<longleftrightarrow>
     e \<in> set (ld_events (w_ledger w)) \<and> eb_kind (ev_body e) = kind \<and> eb_request_id (ev_body e) = req \<and>
     canonical_json P payload = Inr (eb_payload_canonical_json (ev_body e)) \<and>
     (at \<noteq> None \<longrightarrow> at = Some (eb_monotonic_ns (ev_body e)))"

lemma stable_committed [stability]: "stable (evolves P) (\<lambda>w. committed_as Q w kind payload req at e)"
  using stable_recorded [of P e] by (auto simp: stable_def committed_as_def)

lemma s_commit_now:
  assumes "stable (evolves P) A"
  shows "spec (evolves P) A (commit_now P E kind payload req at)
    (\<lambda>e w. A w \<and> committed_as P w kind payload req at e) (\<lambda>e w. A w)"
  unfolding spec_def
proof (intro allI impI)
  fix w assume A: "A w"
  obtain r w' where c: "commit_now P E kind payload req at w = (r, w')" by fastforce
  have ev: "evolves P w w'" by (rule guarantees_run [OF g_commit_now c])
  then have A': "A w'" using assms A by (auto simp: stable_def)
  have "committed_as P w' kind payload req at e" if r: "r = Inr e" for e
  proof -
    from c obtain w1 t observed wo lm where
      "commit_event P (observe P) kind payload req observed t wo (evidence_part w1) = (r, lm)" "w' = put_evidence lm w1"
      "at = None \<or> at = Some t"
      by (cases at) (auto simp: commit_now_def bind_op_def use_env_def ret_op_def on_part_def split: prod.splits)
    then obtain l' m' where ce: "commit_event P (observe P) kind payload req observed t wo (w_ledger w1, w_mirror w1) = (Inr e, (l', m'))"
      "w_ledger w' = l'" "at = None \<or> at = Some t"
      using r by (cases lm) (auto simp: evidence_part_def put_evidence_def)
    from ce(1) show ?thesis
    proof (cases rule: commit_event_cases)
      case (committed e')
      with ce(2,3) next_event_links [OF committed(2)] show ?thesis by (auto simp: committed_as_def)
    qed simp_all
  qed
  with c ev A' show "evolves P w (snd (commit_now P E kind payload req at w)) \<and>
      (case fst (commit_now P E kind payload req at w) of
         Inl e \<Rightarrow> A (snd (commit_now P E kind payload req at w))
       | Inr e \<Rightarrow> A (snd (commit_now P E kind payload req at w)) \<and>
           committed_as P (snd (commit_now P E kind payload req at w)) kind payload req at e)"
    by (cases r) auto
qed

lemma s_commit:
  assumes "fair_env P E" "stable (evolves P) A" "\<And>e w. A w \<Longrightarrow> X e w"
  shows "spec (evolves P) A (commit P E kind payload req at) (\<lambda>e w. A w \<and> committed_as P w kind payload req at e) X"
  unfolding commit_def
  by (rule evo.s_bind [OF s_switch [OF assms(1,2)]]) (auto intro: s_conseq [OF s_commit_now [OF assms(2)]] assms(3))

lemma s_set_supervisor:
  assumes "\<And>w. A w \<Longrightarrow> supervisor_evolves (w_supervisor w) (f (w_supervisor w))"
    "\<And>w. A w \<Longrightarrow> world_ok P w \<Longrightarrow> world_ok P (w\<lparr> w_supervisor := f (w_supervisor w) \<rparr>)"
    "\<And>w. A w \<Longrightarrow> B (w\<lparr> w_supervisor := f (w_supervisor w) \<rparr>)"
  shows "spec (evolves P) A (on_supervisor (modify_op f)) (\<lambda>_. B) X"
  using assms evolves_supervisor
  by (simp add: spec_def on_supervisor_def on_part_def modify_op_def)


lemma s_seal:
  assumes "fair_env P E" "stable (evolves P) A"
  shows "spec (evolves P) A (on_ledger_part E seal) (\<lambda>_ w. A w \<and> ld_sealed (w_ledger w)) X"
proof -
  let ?m = "on_part w_ledger (\<lambda>s w. w\<lparr> w_ledger := s \<rparr>) seal"
  have ev: "evolves P w (w\<lparr> w_ledger := (w_ledger w)\<lparr> ld_sealed := True \<rparr> \<rparr>)" for w
  proof -
    have "evidence_run P (evidence_part w) ((w_ledger w)\<lparr> ld_sealed := True \<rparr>, w_mirror w)"
      unfolding evidence_part_def by (rule ev_seal [OF ev_start]) (simp add: seal_def)
    from evolves_evidence [OF this] show ?thesis by (simp add: put_evidence_def)
  qed
  have "spec (evolves P) A ?m (\<lambda>_ w. A w \<and> ld_sealed (w_ledger w)) X"
    using ev assms(2) by (auto simp: spec_def on_part_def seal_def stable_def)
  then show ?thesis unfolding on_ledger_part_def by (rule evo.s_bind [OF s_switch [OF assms]])
qed


section \<open>A concrete runtime\<close>

definition init_supervisor :: "datetime \<Rightarrow> int \<Rightarrow> supervisor" where
  "init_supervisor started_at started_ns =
     \<lparr> sv_started_at = started_at, sv_started_monotonic_ns = started_ns, sv_kill_acknowledgement = None,
       sv_emergency_failure = False, sv_isolation_done = False, sv_isolation_result = None, sv_receipt = None \<rparr>"

definition sample_config :: config where
  "sample_config =
     \<lparr> cf_manifest = sample_manifest, cf_supervisor_private_key = replicate 32 2,
       cf_supervisor_instance_id = lit ''supervisor-1'', cf_gateway_private_key = replicate 32 1,
       cf_gateway_instance_id = lit ''gateway-1'', cf_authorization_ttl_ns = 1000000000,
       cf_secrets = [lit ''broker-1'' \<mapsto> [115, 51]] \<rparr>"

text \<open>Clocks that advance with every use, and no other threads.\<close>

definition sample_env :: env where
  "sample_env =
     \<lparr> e_wall = (\<lambda>n. sample_time (int n)), e_mono = (\<lambda>n. 1000 * int n), e_token = (\<lambda>n. replicate 32 97),
       e_wal = (\<lambda>n. WalOk),
       e_isolate = (\<lambda>n. Inr \<lparr> iso_termination_mode = SIMULATED, iso_terminated_workload_ids = [], iso_inflight_cancelled = 0,
         iso_network_isolation_confirmed = False, iso_isolation_evidence_sha256 = None \<rparr>),
       e_transport = (\<lambda>n. Inr \<lparr> tr_status_code = 200, tr_response_bytes = 11, tr_response_sha256 = replicate 64 51 \<rparr>),
       e_others = (\<lambda>n w. w) \<rparr>"

definition sample_world :: world where
  "sample_world =
     \<lparr> w_state = init_state sample_criteria, w_ledger = sample_ledger, w_mirror = init_mirror sample_manifest,
       w_witness = sample_witness, w_policy = init_policy sample_manifest, w_registry = init_registry,
       w_supervisor = init_supervisor (sample_time 0) 0, w_overload_event = None, w_sent = [], w_isolations = 0,
       w_ticks = 0 \<rparr>"

lemma sample_fair: "fair_env P sample_env"
  by (simp add: fair_env_def sample_env_def evolves_refl)

lemma sample_world_ok: "world_ok P sample_world"
  by (simp add: world_ok_def sample_world_def init_supervisor_def init_registry_def)

end
