(* ===== verification/BCP_Supervisor.thy ===== *)
theory BCP_Supervisor
  imports BCP_World
begin

text \<open>
  The supervisor of \<^verbatim>\<open>app/supervisor.py\<close>: containment, emergency isolation, completion, the
  runtime watchdog and the receipt, as operations on the world. \<open>cancel_inflight\<close> is the registry's
  \<open>signal_all\<close>, as the factory wires it.
\<close>

section \<open>Containment\<close>

text \<open>\<open>self.isolate()\<close>: a call of the backend, which may raise and during which other threads run.\<close>

definition call_isolate :: "env \<Rightarrow> (world, isolation_result) op" where
  "call_isolate E =
     bind_op (modify_op (\<lambda>w. w\<lparr> w_isolations := w_isolations w + 1 \<rparr>)) (\<lambda>_.
     bind_op (switch E) (\<lambda>_.
     bind_op (use_env (e_isolate E)) lift_result))"

definition isolate_once :: "env \<Rightarrow> (world, unit) op" where
  "isolate_once E =
     bind_op (get_op (\<lambda>w. sv_isolation_done (w_supervisor w))) (\<lambda>finished.
       if finished then ret_op ()
       else bind_op (call_isolate E) (\<lambda>r.
         on_supervisor (modify_op (\<lambda>s. s\<lparr> sv_isolation_result := Some r, sv_isolation_done := True \<rparr>))))"

definition sorted_set :: "pystr list \<Rightarrow> pystr list" where
  "sorted_set ids = sort (remdups ids)"

definition make_kill_ack ::
  "prims \<Rightarrow> config \<Rightarrow> event \<Rightarrow> int \<Rightarrow> datetime \<Rightarrow> int \<Rightarrow> datetime \<Rightarrow> int \<Rightarrow> isolation_result \<Rightarrow> int \<Rightarrow> int \<Rightarrow> kill_ack result" where
  "make_kill_ack P C trigger trigger_ns requested_at requested_ns acknowledged_at acknowledged_ns isolation inflight signals =
     bind_result (format_utc_timestamp requested_at) (\<lambda>req_at.
     bind_result (format_utc_timestamp acknowledged_at) (\<lambda>ack_at.
     bind_result (validate_kill_ack_body P
       \<lparr> ka_run_id = mb_run_id (m_body (cf_manifest C)), ka_manifest_hash = m_hash (cf_manifest C),
         ka_supervisor_key_id = key_id (mb_supervisor_key (m_body (cf_manifest C))),
         ka_supervisor_instance_id = cf_supervisor_instance_id C,
         ka_trigger_event_sequence = eb_sequence (ev_body trigger), ka_trigger_event_hash = ev_hash trigger,
         ka_trigger_monotonic_ns = trigger_ns, ka_kill_requested_at = req_at,
         ka_kill_requested_monotonic_ns = requested_ns, ka_kill_acknowledged_at = ack_at,
         ka_kill_acknowledged_monotonic_ns = acknowledged_ns, ka_kill_latency_ns = acknowledged_ns - trigger_ns,
         ka_termination_mode = iso_termination_mode isolation,
         ka_terminated_workload_ids = sorted_set (iso_terminated_workload_ids isolation),
         ka_inflight_at_trigger = inflight, ka_inflight_cancel_signalled = min signals inflight,
         ka_inflight_cancelled = iso_inflight_cancelled isolation,
         ka_network_isolation_confirmed = iso_network_isolation_confirmed isolation,
         ka_isolation_evidence_sha256 = iso_isolation_evidence_sha256 isolation \<rparr>) (\<lambda>body.
       sign_kill_ack P body (cf_supervisor_private_key C))))"

text \<open>The acknowledgement is stored, committed as evidence, and taken back when the commit raises.\<close>

definition record_ack :: "prims \<Rightarrow> env \<Rightarrow> kill_ack \<Rightarrow> int \<Rightarrow> (world, kill_ack) op" where
  "record_ack P E ack acknowledged_ns =
     bind_op (on_supervisor (modify_op (\<lambda>s. s\<lparr> sv_kill_acknowledgement := Some ack \<rparr>))) (\<lambda>_.
     bind_op
       (try_op (bind_op (commit P E KILL_ACKNOWLEDGED (dump_kill_ack ack) None (Some acknowledged_ns)) (\<lambda>_. ret_op ()))
         (\<lambda>x. bind_op (on_supervisor (modify_op (\<lambda>s. s\<lparr> sv_emergency_failure := True, sv_kill_acknowledgement := None \<rparr>)))
           (\<lambda>_. raise_op x)))
       (\<lambda>_. ret_op ack))"

definition run_containment :: "prims \<Rightarrow> config \<Rightarrow> env \<Rightarrow> event \<Rightarrow> int \<Rightarrow> (world, kill_ack) op" where
  "run_containment P C E trigger trigger_ns =
     bind_op (on_state E latch_kill) (\<lambda>(_, _, inflight).
     bind_op (on_registry E signal_all) (\<lambda>signals.
     bind_op (use_env (e_wall E)) (\<lambda>requested_at.
     bind_op (use_env (e_mono E)) (\<lambda>requested_ns.
     bind_op (isolate_once E) (\<lambda>_.
     bind_op (get_op (\<lambda>w. sv_isolation_result (w_supervisor w))) (\<lambda>result. case result of
       None \<Rightarrow> raise_op AssertionError
     | Some isolation \<Rightarrow>
         bind_op (use_env (e_mono E)) (\<lambda>acknowledged_ns.
         bind_op (use_env (e_wall E)) (\<lambda>acknowledged_at.
         bind_op (on_state E mark_killed) (\<lambda>_.
         bind_op (lift_result (make_kill_ack P C trigger trigger_ns requested_at requested_ns acknowledged_at
           acknowledged_ns isolation inflight signals)) (\<lambda>ack.
           record_ack P E ack acknowledged_ns))))))))))"

definition contain_locked :: "prims \<Rightarrow> config \<Rightarrow> env \<Rightarrow> event \<Rightarrow> int \<Rightarrow> (world, kill_ack) op" where
  "contain_locked P C E trigger trigger_ns =
     bind_op (get_op (\<lambda>w. sv_kill_acknowledgement (w_supervisor w))) (\<lambda>known. case known of
       Some ack \<Rightarrow> ret_op ack
     | None \<Rightarrow> run_containment P C E trigger trigger_ns)"

definition contain :: "prims \<Rightarrow> config \<Rightarrow> env \<Rightarrow> event \<Rightarrow> int \<Rightarrow> (world, kill_ack) op" where
  "contain P C E trigger trigger_ns =
     bind_op (switch E) (\<lambda>_. contain_locked P C (holding_contain E) trigger trigger_ns)"

definition emergency_isolate :: "env \<Rightarrow> (world, unit) op" where
  "emergency_isolate E =
     bind_op (switch E) (\<lambda>_.
     bind_op (on_supervisor (modify_op (\<lambda>s. s\<lparr> sv_emergency_failure := True \<rparr>))) (\<lambda>_.
     bind_op (on_state (holding_contain E) latch_kill) (\<lambda>_.
     bind_op (isolate_once (holding_contain E)) (\<lambda>_.
       on_state (holding_contain E) mark_killed))))"

section \<open>Receipts\<close>

definition derive_status :: "run_phase \<Rightarrow> bool \<Rightarrow> run_status result" where
  "derive_status phase emergency =
     (if phase = PhRunning \<or> phase = PhKilling then Inl (RuntimeError ''receipt requires a terminal run state'')
      else if emergency then Inr SUPERVISOR_FAILURE
      else if phase = PhKilled then Inr KILLED
      else Inr COMPLETED)"

definition make_receipt ::
  "prims \<Rightarrow> config \<Rightarrow> run_status \<Rightarrow> counter_snapshot \<Rightarrow> supervisor \<Rightarrow> datetime \<Rightarrow> int \<Rightarrow>
     int \<times> pystr option \<times> pystr option \<times> pystr \<Rightarrow> checkpoint \<Rightarrow> receipt result" where
  "make_receipt P C status snap sv finished_at finished_ns mirror_snap cp =
     (case mirror_snap of (event_count, first, final, digest) \<Rightarrow>
       bind_result (format_utc_timestamp (sv_started_at sv)) (\<lambda>start_at.
       bind_result (format_utc_timestamp finished_at) (\<lambda>finish_at.
       bind_result (validate_receipt_body P
         \<lparr> rb_run_id = mb_run_id (m_body (cf_manifest C)), rb_manifest_hash = m_hash (cf_manifest C),
           rb_supervisor_key_id = key_id (mb_supervisor_key (m_body (cf_manifest C))),
           rb_supervisor_instance_id = cf_supervisor_instance_id C, rb_status = status,
           rb_started_at = start_at, rb_finished_at = finish_at,
           rb_started_monotonic_ns = sv_started_monotonic_ns sv, rb_finished_monotonic_ns = finished_ns,
           rb_event_count = event_count, rb_first_event_hash = first, rb_final_event_hash = final,
           rb_evidence_file_sha256 = digest, rb_observed_request_count = cs_observed snap,
           rb_admitted_request_count = cs_admitted snap, rb_allowed_request_count = cs_allowed snap,
           rb_denied_request_count = cs_denied snap, rb_dispatched_request_count = cs_dispatched snap,
           rb_completed_request_count = cs_completed snap, rb_rejected_overload_count = cs_rejected_overload snap,
           rb_dropped_after_kill_count = cs_dropped_after_kill snap, rb_total_egress_bytes = cs_total_egress_bytes snap,
           rb_kill_acknowledgement = sv_kill_acknowledgement sv, rb_witness_checkpoint = cp \<rparr>) (\<lambda>body.
         sign_receipt P body (cf_supervisor_private_key C)))))"

text \<open>Sealing, witnessing and signing, once the status is known.\<close>

definition issue_receipt :: "prims \<Rightarrow> config \<Rightarrow> env \<Rightarrow> run_status \<Rightarrow> counter_snapshot \<Rightarrow> (world, receipt) op" where
  "issue_receipt P C E status snap =
     bind_op (on_ledger_part E seal) (\<lambda>_.
     bind_op (use_env (e_wall E)) (\<lambda>finished_at.
     bind_op (use_env (e_mono E)) (\<lambda>finished_ns.
     bind_op (switch E) (\<lambda>_.
     bind_op (get_op (\<lambda>w. mirror_snapshot P (w_mirror w))) (\<lambda>mirror_snap.
     bind_op (use_env (e_wall E)) (\<lambda>witness_wall.
     bind_op (on_witness E (witness_checkpoint P
       (case mirror_snap of (event_count, _, final, digest) \<Rightarrow>
         \<lparr> cc_manifest = cf_manifest C, cc_event_count = event_count, cc_final_event_hash = final,
           cc_evidence_file_sha256 = digest, cc_wall = witness_wall \<rparr>))) (\<lambda>cp.
     bind_op (get_op w_supervisor) (\<lambda>sv.
     bind_op (lift_result (make_receipt P C status snap sv finished_at finished_ns mirror_snap cp)) (\<lambda>r.
     bind_op (on_supervisor (modify_op (\<lambda>s. s\<lparr> sv_receipt := Some r \<rparr>))) (\<lambda>_.
       ret_op r))))))))))"

definition receipt_locked :: "prims \<Rightarrow> config \<Rightarrow> env \<Rightarrow> run_status option \<Rightarrow> (world, receipt) op" where
  "receipt_locked P C E requested =
     bind_op (get_op (\<lambda>w. sv_receipt (w_supervisor w))) (\<lambda>frozen. case frozen of
       Some r \<Rightarrow>
         if requested \<noteq> None \<and> requested \<noteq> Some (rb_status (r_body r))
         then raise_op (ValueError ''receipt status conflicts with frozen receipt'')
         else ret_op r
     | None \<Rightarrow>
         bind_op (on_state E (get_op snapshot)) (\<lambda>snap.
         bind_op (get_op (\<lambda>w. sv_emergency_failure (w_supervisor w))) (\<lambda>emergency.
         bind_op (lift_result (derive_status (cs_phase snap) emergency)) (\<lambda>status.
           if requested \<noteq> None \<and> requested \<noteq> Some status
           then raise_op (ValueError ''requested receipt status conflicts with run state'')
           else issue_receipt P C E status snap))))"

definition receipt :: "prims \<Rightarrow> config \<Rightarrow> env \<Rightarrow> run_status option \<Rightarrow> (world, receipt) op" where
  "receipt P C E requested = bind_op (switch E) (\<lambda>_. receipt_locked P C (holding_receipt E) requested)"

definition complete :: "prims \<Rightarrow> config \<Rightarrow> env \<Rightarrow> (world, receipt) op" where
  "complete P C E = bind_op (on_state E mark_completed) (\<lambda>_. receipt P C E None)"

section \<open>The watchdog\<close>

definition runtime_exhausted_payload :: pyval where
  "runtime_exhausted_payload = obj [(''reason_code'', PStr (lit ''runtime.budget_exhausted''))]"

definition enforce_runtime_deadline :: "prims \<Rightarrow> config \<Rightarrow> env \<Rightarrow> int option \<Rightarrow> (world, bool) op" where
  "enforce_runtime_deadline P C E given =
     bind_op (case given of Some t \<Rightarrow> ret_op t | None \<Rightarrow> use_env (e_mono E)) (\<lambda>now_ns.
     bind_op (get_op (\<lambda>w. sv_started_monotonic_ns (w_supervisor w) +
       max_runtime_ms (mb_kill_criteria (m_body (cf_manifest C))) * 1000000)) (\<lambda>deadline_ns.
     bind_op (on_state E (get_op snapshot)) (\<lambda>snap.
       if cs_phase snap \<noteq> PhRunning \<or> now_ns \<le> deadline_ns then ret_op False
       else
         bind_op (on_state E latch_kill) (\<lambda>_.
         bind_op (commit P E VIOLATION runtime_exhausted_payload None (Some now_ns)) (\<lambda>trigger.
         bind_op (contain P C E trigger now_ns) (\<lambda>_.
           ret_op True))))))"


section \<open>Isolation\<close>

abbreviation stopped :: "world \<Rightarrow> bool" where
  "stopped w \<equiv> rs_phase (w_state w) \<noteq> PhRunning"

lemma k_call_isolate: "sup_quiet g E \<Longrightarrow> guarantees (sup_keep g) (call_isolate E)"
  unfolding call_isolate_def by (intro supk.g_bind supk.g_modify k_switch k_use_env supk.g_lift) simp_all

lemma s_keep: "guarantees (sup_keep g) m \<Longrightarrow> spec R A m B X \<Longrightarrow>
    spec R (\<lambda>w. A w \<and> q (g (w_supervisor w))) m (\<lambda>x w. B x w \<and> q (g (w_supervisor w))) (\<lambda>e w. X e w \<and> q (g (w_supervisor w)))"
  unfolding spec_def guarantees_def by (auto split: sum.splits)

lemma s_call_isolate:
  assumes "fair_env P E" "stable (evolves P) A"
  shows "spec (evolves P) (\<lambda>w. A w \<and> \<not> sv_isolation_done (w_supervisor w)) (call_isolate (holding_contain E))
    (\<lambda>_ w. A w \<and> \<not> sv_isolation_done (w_supervisor w)) (\<lambda>_. A)"
proof -
  let ?E = "holding_contain E" and ?A = "\<lambda>w. A w \<and> \<not> sv_isolation_done (w_supervisor w)"
  have st: "A (w\<lparr> w_isolations := Suc (w_isolations w) \<rparr>)" if "?A w" for w
    using that evolves_isolations [of w P] assms(2) by (auto simp: stable_def)
  have "spec (evolves P) ?A (call_isolate ?E) (\<lambda>_. A) (\<lambda>_. A)"
    unfolding call_isolate_def
    by (rule evo.s_bind [OF evo.s_modify [where B = "\<lambda>_. A"]], use evolves_isolations st in force, use st in force)
      (rule evo.s_bind [OF s_switch [OF fair_holding(1) [OF assms(1)] assms(2)]],
       rule evo.s_bind [OF s_use_env [OF assms(2)]], rule evo.s_lift, simp_all)
  from s_keep [OF k_call_isolate [OF quiet_contain] this, where q = "\<lambda>(_, _, d, _). \<not> d"]
  show ?thesis by (rule s_conseq) (auto simp: contain_fields_def)
qed

lemma s_isolate_once:
  assumes "fair_env P E" "stable (evolves P) A" "\<And>w. A w \<Longrightarrow> world_ok P w \<and> stopped w"
  shows "spec (evolves P) A (isolate_once (holding_contain E))
    (\<lambda>_ w. A w \<and> sv_isolation_done (w_supervisor w) \<and> sv_isolation_result (w_supervisor w) \<noteq> None) (\<lambda>_. A)"
  unfolding isolate_once_def
proof (rule evo.s_bind [OF evo.s_get [where B = "\<lambda>d w. A w \<and> d = sv_isolation_done (w_supervisor w)"]])
  fix d
  let ?B = "\<lambda>_ w. A w \<and> sv_isolation_done (w_supervisor w) \<and> sv_isolation_result (w_supervisor w) \<noteq> None"
  let ?f = "\<lambda>r s. s\<lparr> sv_isolation_result := Some r, sv_isolation_done := True \<rparr>"
  have ev: "evolves P w (w\<lparr> w_supervisor := ?f r (w_supervisor w) \<rparr>)"
    if "A w \<and> \<not> sv_isolation_done (w_supervisor w)" for w r
    using assms(3) [of w] that
    by (intro evolves_supervisor) (auto simp: supervisor_evolves_def keeps_some_def world_ok_def)
  have "spec (evolves P) (\<lambda>w. A w \<and> \<not> sv_isolation_done (w_supervisor w)) (on_supervisor (modify_op (?f r))) ?B (\<lambda>_. A)" for r
    using ev assms(2) by (auto simp: spec_def on_supervisor_def on_part_def modify_op_def stable_def)
  note store = this
  show "spec (evolves P) (\<lambda>w. A w \<and> d = sv_isolation_done (w_supervisor w))
     (if d then ret_op () else bind_op (call_isolate (holding_contain E)) (\<lambda>r. on_supervisor (modify_op (?f r)))) ?B (\<lambda>_. A)"
  proof (rule s_if)
    assume "d"
    then show "spec (evolves P) (\<lambda>w. A w \<and> d = sv_isolation_done (w_supervisor w)) (ret_op ()) ?B (\<lambda>_. A)"
      using assms(3) by (intro evo.s_ret) (auto simp: world_ok_def)
  next
    assume "\<not> d"
    then show "spec (evolves P) (\<lambda>w. A w \<and> d = sv_isolation_done (w_supervisor w))
       (bind_op (call_isolate (holding_contain E)) (\<lambda>r. on_supervisor (modify_op (?f r)))) ?B (\<lambda>_. A)"
      by (intro s_pre [OF evo.s_bind [OF s_call_isolate [OF assms(1,2)] store]]) auto
  qed
qed simp


section \<open>Containment\<close>

definition ack_for :: "prims \<Rightarrow> config \<Rightarrow> event \<Rightarrow> int \<Rightarrow> kill_ack \<Rightarrow> bool" where
  "ack_for P C trigger trigger_ns k \<longleftrightarrow>
     validate_kill_ack P k = Inr k \<and> validate_kill_ack_body P (k_body k) = Inr (k_body k) \<and>
     ka_run_id (k_body k) = mb_run_id (m_body (cf_manifest C)) \<and> ka_manifest_hash (k_body k) = m_hash (cf_manifest C) \<and>
     ka_trigger_event_sequence (k_body k) = eb_sequence (ev_body trigger) \<and>
     ka_trigger_event_hash (k_body k) = ev_hash trigger \<and> ka_trigger_monotonic_ns (k_body k) = trigger_ns"

lemma make_kill_ack_for:
  assumes "make_kill_ack P C trigger trigger_ns requested_at requested_ns acknowledged_at acknowledged_ns isolation inflight signals = Inr k"
  shows "ack_for P C trigger trigger_ns k \<and> ka_kill_acknowledged_monotonic_ns (k_body k) = acknowledged_ns"
proof -
  from assms obtain req_at ack_at body where b: "validate_kill_ack_body P
     \<lparr> ka_run_id = mb_run_id (m_body (cf_manifest C)), ka_manifest_hash = m_hash (cf_manifest C),
       ka_supervisor_key_id = key_id (mb_supervisor_key (m_body (cf_manifest C))),
       ka_supervisor_instance_id = cf_supervisor_instance_id C,
       ka_trigger_event_sequence = eb_sequence (ev_body trigger), ka_trigger_event_hash = ev_hash trigger,
       ka_trigger_monotonic_ns = trigger_ns, ka_kill_requested_at = req_at,
       ka_kill_requested_monotonic_ns = requested_ns, ka_kill_acknowledged_at = ack_at,
       ka_kill_acknowledged_monotonic_ns = acknowledged_ns, ka_kill_latency_ns = acknowledged_ns - trigger_ns,
       ka_termination_mode = iso_termination_mode isolation,
       ka_terminated_workload_ids = sorted_set (iso_terminated_workload_ids isolation),
       ka_inflight_at_trigger = inflight, ka_inflight_cancel_signalled = min signals inflight,
       ka_inflight_cancelled = iso_inflight_cancelled isolation,
       ka_network_isolation_confirmed = iso_network_isolation_confirmed isolation,
       ka_isolation_evidence_sha256 = iso_isolation_evidence_sha256 isolation \<rparr> = Inr body"
    and k: "sign_kill_ack P body (cf_supervisor_private_key C) = Inr k"
    unfolding make_kill_ack_def bind_result_eq_Inr by blast
  have same: "validate_kill_ack_body P x = Inr y \<Longrightarrow> y = x" for x y
    by (simp only: validate_kill_ack_body_def validated_Inr)
  note body = same [OF b]
  have v: "validate_kill_ack_body P body = Inr body" using b unfolding body [symmetric] .
  from ack_env.sign_shape [OF k] v body show ?thesis by (auto simp: ack_for_def)
qed

definition ack_recorded :: "prims \<Rightarrow> world \<Rightarrow> kill_ack \<Rightarrow> bool" where
  "ack_recorded P w k \<longleftrightarrow>
     (\<exists>e. committed_as P w KILL_ACKNOWLEDGED (dump_kill_ack k) None (Some (ka_kill_acknowledged_monotonic_ns (k_body k))) e)"

lemma s_record_ack:
  assumes "fair_env P E" "stable (evolves P) A" "\<And>w. A w \<Longrightarrow> rs_phase (w_state w) = PhKilled"
    "ka_kill_acknowledged_monotonic_ns (k_body ack) = t"
  shows "spec (evolves P) A (record_ack P (holding_contain E) ack t)
    (\<lambda>k w. A w \<and> k = ack \<and> sv_kill_acknowledgement (w_supervisor w) = Some ack \<and> ack_recorded P w ack) (\<lambda>_. A)"
proof -
  let ?E = "holding_contain E"
  let ?C = "\<lambda>_ w. A w \<and> sv_kill_acknowledgement (w_supervisor w) = Some ack \<and> ack_recorded P w ack"
  have keepA: "A (w\<lparr> w_supervisor := f (w_supervisor w) \<rparr>)"
    if "A w" "supervisor_evolves (w_supervisor w) (f (w_supervisor w))"
      "world_ok P w \<Longrightarrow> world_ok P (w\<lparr> w_supervisor := f (w_supervisor w) \<rparr>)" for w f
    using that evolves_supervisor [of w "f (w_supervisor w)" P] assms(2) by (auto simp: stable_def)
  have set_ack: "spec (evolves P) A (on_supervisor (modify_op (\<lambda>s. s\<lparr> sv_kill_acknowledgement := Some ack \<rparr>)))
      (\<lambda>_ w. A w \<and> sv_kill_acknowledgement (w_supervisor w) = Some ack) (\<lambda>_. A)"
    using assms(3)
    by (intro s_set_supervisor) (auto simp: supervisor_evolves_def keeps_some_def world_ok_def intro!: keepA)
  have undo: "spec (evolves P) A (on_supervisor (modify_op (\<lambda>s. s\<lparr> sv_emergency_failure := True, sv_kill_acknowledgement := None \<rparr>)))
      (\<lambda>_. A) (\<lambda>_. A)"
    by (intro s_set_supervisor) (auto simp: supervisor_evolves_def keeps_some_def world_ok_def intro!: keepA)
  have "spec (evolves P) (\<lambda>w. A w \<and> sv_kill_acknowledgement (w_supervisor w) = Some ack)
      (commit P ?E KILL_ACKNOWLEDGED (dump_kill_ack ack) None (Some t))
      (\<lambda>e w. A w \<and> committed_as P w KILL_ACKNOWLEDGED (dump_kill_ack ack) None (Some t) e \<and>
        sv_kill_acknowledgement (w_supervisor w) = Some ack) (\<lambda>_. A)"
    by (rule s_conseq [OF s_keep [OF k_commit [OF quiet_contain]
          s_commit [OF fair_holding(1) [OF assms(1)] assms(2), of "\<lambda>_. A"], where q = "\<lambda>(k, _). k = Some ack"]])
      (auto simp: contain_fields_def)
  then have com: "spec (evolves P) (\<lambda>w. A w \<and> sv_kill_acknowledgement (w_supervisor w) = Some ack)
      (bind_op (commit P ?E KILL_ACKNOWLEDGED (dump_kill_ack ack) None (Some t)) (\<lambda>_. ret_op ())) ?C (\<lambda>_. A)"
    by (rule evo.s_bind) (rule evo.s_ret, auto simp: ack_recorded_def assms(4))
  show ?thesis unfolding record_ack_def
    by (rule evo.s_bind [OF set_ack evo.s_bind [OF evo.s_try [OF com evo.s_bind [OF undo evo.s_raise]] evo.s_ret]]) auto
qed


lemma s_signal_all:
  assumes "fair_env P E" "stable (evolves P) A" "\<And>w. A w \<Longrightarrow> stopped w"
  shows "spec (evolves P) A (on_registry E signal_all) (\<lambda>_. A) X"
proof -
  have "evolves P w (w\<lparr> w_registry := snd (signal_all (w_registry w)) \<rparr>)" if "A w" for w
    using assms(3) [OF that] by (intro evolves_registry) simp
  then have "spec (evolves P) A (on_part w_registry (\<lambda>s w. w\<lparr> w_registry := s \<rparr>) signal_all) (\<lambda>_. A) X"
    using assms(2) by (auto simp: spec_def on_part_def signal_all_def stable_def)
  then show ?thesis unfolding on_registry_def by (rule evo.s_bind [OF s_switch [OF assms(1,2)]])
qed

lemma s_run_containment:
  assumes "fair_env P E" "stable (evolves P) A" "\<And>w. A w \<Longrightarrow> world_ok P w"
  shows "spec (evolves P) A (run_containment P C (holding_contain E) trigger t)
    (\<lambda>k w. A w \<and> rs_phase (w_state w) = PhKilled \<and> sv_kill_acknowledgement (w_supervisor w) = Some k \<and>
      ack_recorded P w k \<and> ack_for P C trigger t k)
    (\<lambda>_ w. A w \<and> stopped w)"
proof -
  let ?E = "holding_contain E" and ?S = "\<lambda>w. A w \<and> stopped w" and ?K = "\<lambda>w. A w \<and> rs_phase (w_state w) = PhKilled"
  note f = fair_holding(1) [OF assms(1)]
  have st: "stable (evolves P) ?S" "stable (evolves P) ?K" by (intro stability assms(2))+
  have latch: "spec (evolves P) A (on_state ?E latch_kill) (\<lambda>_. ?S) (\<lambda>_. ?S)" by (rule s_latch [OF f assms(2)])
  have killed: "spec (evolves P) ?S (on_state ?E mark_killed) (\<lambda>_. ?K) (\<lambda>_. ?S)"
    by (rule s_conseq [OF s_mark_killed [OF f st(1), of "\<lambda>_. ?S"]]) auto
  have iso: "spec (evolves P) ?S (isolate_once ?E) (\<lambda>_. ?S) (\<lambda>_. ?S)"
    by (rule s_conseq [OF s_isolate_once [OF assms(1) st(1)]]) (use assms(3) in auto)
  have rec: "spec (evolves P) (\<lambda>w. ?K w \<and> make_kill_ack P C trigger t ra rn aa an i n g = Inr k) (record_ack P ?E k an)
     (\<lambda>x w. A w \<and> rs_phase (w_state w) = PhKilled \<and> sv_kill_acknowledgement (w_supervisor w) = Some x \<and>
      ack_recorded P w x \<and> ack_for P C trigger t x) (\<lambda>_. ?S)" for ra rn aa an i n g k
    by (rule s_assume [where q = "make_kill_ack P C trigger t ra rn aa an i n g = Inr k"], simp)
      (rule s_conseq [OF s_record_ack [OF assms(1) st(2), of k an]], auto dest: make_kill_ack_for)
  show ?thesis unfolding run_containment_def split_def
    by (rule evo.s_bind [OF latch evo.s_bind [OF s_signal_all [OF f st(1)] evo.s_bind [OF s_use_env [OF st(1)]
          evo.s_bind [OF s_use_env [OF st(1)] evo.s_bind [OF iso evo.s_bind [OF evo.s_get [where B = "\<lambda>_. ?S"] s_option
          [OF evo.s_raise evo.s_bind [OF s_use_env [OF st(1)] evo.s_bind [OF s_use_env [OF st(1)]
          evo.s_bind [OF killed evo.s_bind [OF evo.s_lift rec]]]]]]]]]]]) auto
qed

lemma s_contain:
  assumes "fair_env P E" "stable (evolves P) A" "\<And>w. A w \<Longrightarrow> world_ok P w"
  shows "spec (evolves P) A (contain P C E trigger t)
    (\<lambda>k w. A w \<and> rs_phase (w_state w) = PhKilled \<and> sv_kill_acknowledgement (w_supervisor w) = Some k) (\<lambda>_ w. A w \<and> stopped w)"
proof -
  have known: "spec (evolves P) (\<lambda>w. A w \<and> sv_kill_acknowledgement (w_supervisor w) = v)
     (case v of None \<Rightarrow> run_containment P C (holding_contain E) trigger t | Some k \<Rightarrow> ret_op k)
     (\<lambda>k w. A w \<and> rs_phase (w_state w) = PhKilled \<and> sv_kill_acknowledgement (w_supervisor w) = Some k) (\<lambda>_ w. A w \<and> stopped w)" for v
  proof (rule s_option)
    show "spec (evolves P) (\<lambda>w. A w \<and> sv_kill_acknowledgement (w_supervisor w) = v) (run_containment P C (holding_contain E) trigger t)
     (\<lambda>k w. A w \<and> rs_phase (w_state w) = PhKilled \<and> sv_kill_acknowledgement (w_supervisor w) = Some k) (\<lambda>_ w. A w \<and> stopped w)"
      by (rule s_conseq [OF s_run_containment [OF assms]]) auto
  next
    fix k assume "v = Some k"
    then show "spec (evolves P) (\<lambda>w. A w \<and> sv_kill_acknowledgement (w_supervisor w) = v) (ret_op k)
     (\<lambda>k w. A w \<and> rs_phase (w_state w) = PhKilled \<and> sv_kill_acknowledgement (w_supervisor w) = Some k) (\<lambda>_ w. A w \<and> stopped w)"
      using assms(3) by (intro evo.s_ret) (fastforce simp: world_ok_def)
  qed
  show ?thesis unfolding contain_def contain_locked_def
    by (rule evo.s_bind [OF s_switch [OF assms(1,2)] evo.s_bind [OF evo.s_get known]]) auto
qed

lemma s_emergency_isolate:
  assumes "fair_env P E" "stable (evolves P) A" "\<And>w. A w \<Longrightarrow> world_ok P w"
  shows "spec (evolves P) A (emergency_isolate E)
    (\<lambda>_ w. A w \<and> rs_phase (w_state w) = PhKilled \<and> sv_emergency_failure (w_supervisor w))
    (\<lambda>_ w. A w \<and> stopped w \<and> sv_emergency_failure (w_supervisor w))"
proof -
  let ?F = "\<lambda>w. A w \<and> sv_emergency_failure (w_supervisor w)" and ?S = "\<lambda>w. (A w \<and> sv_emergency_failure (w_supervisor w)) \<and> stopped w"
  note f = fair_holding(1) [OF assms(1)]
  have st: "stable (evolves P) ?F" "stable (evolves P) ?S" by (intro stability assms(2))+
  have upd: "evolves P w (w\<lparr> w_supervisor := (w_supervisor w)\<lparr> sv_emergency_failure := True \<rparr> \<rparr>)" for w
    by (rule evolves_supervisor) (auto simp: supervisor_evolves_def keeps_some_def world_ok_def)
  have flag: "spec (evolves P) A (on_supervisor (modify_op (\<lambda>s. s\<lparr> sv_emergency_failure := True \<rparr>))) (\<lambda>_. ?F) X" for X
    using upd assms(2) by (auto simp: spec_def on_supervisor_def on_part_def modify_op_def stable_def)
  have iso: "spec (evolves P) ?S (isolate_once (holding_contain E)) (\<lambda>_. ?S) (\<lambda>_. ?S)"
    by (rule s_conseq [OF s_isolate_once [OF assms(1) st(2)]]) (use assms(3) in auto)
  show ?thesis unfolding emergency_isolate_def
    by (rule s_conseq [OF evo.s_bind [OF s_switch [OF assms(1,2)] evo.s_bind [OF flag evo.s_bind [OF s_latch [OF f st(1)]
          evo.s_bind [OF iso s_mark_killed [OF f st(2), of "\<lambda>_. ?S"]]]]]]) auto
qed

lemma s_enforce_runtime_deadline:
  assumes "fair_env P E" "stable (evolves P) A" "\<And>w. A w \<Longrightarrow> world_ok P w"
  shows "spec (evolves P) A (enforce_runtime_deadline P C E given) (\<lambda>b w. A w \<and> (b \<longrightarrow> rs_phase (w_state w) = PhKilled)) (\<lambda>_ w. A w \<and> stopped w)"
proof -
  let ?S = "\<lambda>w. A w \<and> stopped w"
  have st: "stable (evolves P) ?S" by (intro stability assms(2))
  have time: "spec (evolves P) A (case given of None \<Rightarrow> use_env (e_mono E) | Some t \<Rightarrow> ret_op t) (\<lambda>_. A) (\<lambda>_. ?S)"
    by (rule s_option) (intro s_use_env assms(2) evo.s_ret; simp)+
  have snap: "spec (evolves P) A (on_state E (get_op snapshot)) (\<lambda>_. A) (\<lambda>_. ?S)"
    by (rule s_conseq [OF s_on_state [OF assms(1,2)]]) (use rs_run_Nil in \<open>auto simp: get_op_def\<close>)
  have con: "spec (evolves P) ?S (contain P C E e t) (\<lambda>_ w. A w \<and> rs_phase (w_state w) = PhKilled) (\<lambda>_. ?S)" for e t
    by (rule s_conseq [OF s_contain [OF assms(1) st]]) (use assms(3) in auto)
  have com: "spec (evolves P) ?S (commit P E k p r t) (\<lambda>_. ?S) (\<lambda>_. ?S)" for k p r t
    by (rule s_conseq [OF s_commit [OF assms(1) st, of "\<lambda>_. ?S"]]) auto
  show ?thesis unfolding enforce_runtime_deadline_def
    by (rule evo.s_bind [OF time evo.s_bind [OF evo.s_get [where B = "\<lambda>_. A"] evo.s_bind [OF snap s_if [OF evo.s_ret
          evo.s_bind [OF s_latch [OF assms(1,2)] evo.s_bind [OF com evo.s_bind [OF con evo.s_ret]]]]]]]) auto
qed


section \<open>Receipts\<close>

lemma derive_status_Inr:
  "derive_status ph em = Inr st \<longleftrightarrow> (ph = PhKilled \<or> ph = PhCompleted) \<and>
     st = (if em then SUPERVISOR_FAILURE else if ph = PhKilled then KILLED else COMPLETED)"
  by (cases ph) (auto simp: derive_status_def)

lemma make_receipt_Inr:
  assumes "make_receipt P C st snap sv finished_at finished_ns ms cp = Inr r"
  shows "receipt_ok P r \<and> rb_status (r_body r) = st \<and>
    ms = (rb_event_count (r_body r), rb_first_event_hash (r_body r), rb_final_event_hash (r_body r), rb_evidence_file_sha256 (r_body r)) \<and>
    rb_kill_acknowledgement (r_body r) = sv_kill_acknowledgement sv \<and> rb_witness_checkpoint (r_body r) = cp"
proof -
  obtain n fh lh dg where ms: "ms = (n, fh, lh, dg)" by (cases ms) auto
  from assms obtain b body where b: "validate_receipt_body P b = Inr body" "rb_status b = st" "rb_event_count b = n"
      "rb_first_event_hash b = fh" "rb_final_event_hash b = lh" "rb_evidence_file_sha256 b = dg"
      "rb_kill_acknowledgement b = sv_kill_acknowledgement sv" "rb_witness_checkpoint b = cp"
    and r: "sign_receipt P body (cf_supervisor_private_key C) = Inr r"
    unfolding make_receipt_def ms split_conv bind_result_eq_Inr by (elim exE conjE) fastforce
  have same: "validate_receipt_body P x = Inr y \<Longrightarrow> y = x" for x y
    by (simp only: validate_receipt_body_def validated_Inr)
  note body = same [OF b(1)]
  have v: "validate_receipt_body P body = Inr body" using b(1) unfolding body .
  from receipt_env.sign_shape [OF r] v b(2-) body ms show ?thesis by (auto simp: receipt_ok_def)
qed


abbreviation unissued :: "world \<Rightarrow> bool" where
  "unissued w \<equiv> sv_receipt (w_supervisor w) = None"

text \<open>A step under the receipt lock, before the receipt is stored.\<close>

lemma s_unissued:
  assumes "guarantees (sup_keep sv_receipt) m" "spec R A m B X"
  shows "spec R (\<lambda>w. A w \<and> unissued w) m (\<lambda>x w. B x w \<and> unissued w) X"
  by (rule s_conseq [OF s_keep [OF assms, where q = "\<lambda>r. r = None"]]) auto

lemma s_store_receipt:
  assumes "stable (evolves P) A" "\<And>w. A w \<Longrightarrow> world_ok P w"
    "\<And>w. A w \<Longrightarrow> ld_sealed (w_ledger w) \<and> status_fits (rb_status (r_body r)) (rs_phase (w_state w)) \<and>
       receipt_describes P r (w_mirror w)" "receipt_ok P r"
  shows "spec (evolves P) (\<lambda>w. A w \<and> unissued w) (on_supervisor (modify_op (\<lambda>s. s\<lparr> sv_receipt := Some r \<rparr>)))
    (\<lambda>_ w. A w \<and> sv_receipt (w_supervisor w) = Some r) X"
proof -
  have "evolves P w (w\<lparr> w_supervisor := (w_supervisor w)\<lparr> sv_receipt := Some r \<rparr> \<rparr>)" if "A w \<and> unissued w" for w
    using assms(3) [of w] assms(4) that
    by (intro evolves_supervisor) (auto simp: supervisor_evolves_def keeps_some_def world_ok_def)
  with assms(1) show ?thesis by (auto simp: spec_def on_supervisor_def on_part_def modify_op_def stable_def)
qed

lemma s_issue_receipt:
  assumes "fair_env P E" "stable (evolves P) A" "\<And>w. A w \<Longrightarrow> world_ok P w"
  shows "spec (evolves P) (\<lambda>w. (A w \<and> status_fits st (rs_phase (w_state w))) \<and> unissued w)
    (issue_receipt P C (holding_receipt E) st snap)
    (\<lambda>r w. A w \<and> sv_receipt (w_supervisor w) = Some r \<and> rb_status (r_body r) = st) (\<lambda>_. A)"
proof -
  let ?E = "holding_receipt E"
  let ?T = "\<lambda>w. A w \<and> status_fits st (rs_phase (w_state w))"
  let ?S = "\<lambda>w. ?T w \<and> ld_sealed (w_ledger w)"
  let ?M = "\<lambda>ms w. ?T w \<and> (ld_sealed (w_ledger w) \<and> mirror_snapshot P (w_mirror w) = ms)"
  note f = fair_holding(2) [OF assms(1)] and q = quiet_receipt [of E]
  have sb: "stable (evolves P) ?T" "stable (evolves P) ?S" "stable (evolves P) (?M y)" for y
    by (intro stability assms(2))+
  have sl: "spec (evolves P) (\<lambda>w. ?T w \<and> unissued w) (on_ledger_part ?E seal) (\<lambda>_ w. ?S w \<and> unissued w) (\<lambda>_. A)"
    by (rule s_unissued [OF k_parts(4) [OF q] s_seal [OF f sb(1)]])
  note env = s_unissued [OF k_use_env s_use_env [OF sb(2)]] and envM = s_unissued [OF k_use_env s_use_env [OF sb(3)]]
  note sw = s_unissued [OF k_switch [OF q] s_switch [OF f sb(2)]]
  have mir: "spec (evolves P) (\<lambda>w. ?S w \<and> unissued w) (get_op (\<lambda>w. mirror_snapshot P (w_mirror w)))
      (\<lambda>y w. ?M y w \<and> unissued w) (\<lambda>_. A)" by (rule evo.s_get) simp
  have wit: "spec (evolves P) (\<lambda>w. ?M y w \<and> unissued w) (on_witness ?E (witness_checkpoint P c))
      (\<lambda>_ w. ?M y w \<and> unissued w) (\<lambda>_. A)" for y c
    by (rule s_unissued [OF k_parts(3) [OF q] s_frame [OF g_witness [OF f] sb(3)]]) simp
  have sv: "spec (evolves P) (\<lambda>w. ?M y w \<and> unissued w) (get_op w_supervisor) (\<lambda>_ w. ?M y w \<and> unissued w) (\<lambda>_. A)" for y
    by (rule evo.s_get) simp
  have mk: "spec (evolves P) (\<lambda>w. ?M y w \<and> unissued w) (lift_result (make_receipt P C st snap v fa fn y cp))
      (\<lambda>r w. (?M y w \<and> unissued w) \<and> make_receipt P C st snap v fa fn y cp = Inr r) (\<lambda>_. A)" for y v fa fn cp
    by (rule evo.s_lift) simp_all
  have put: "spec (evolves P) (\<lambda>w. (?M y w \<and> unissued w) \<and> make_receipt P C st snap v fa fn y cp = Inr r)
      (on_supervisor (modify_op (\<lambda>s. s\<lparr> sv_receipt := Some r \<rparr>)))
      (\<lambda>_ w. A w \<and> sv_receipt (w_supervisor w) = Some r \<and> rb_status (r_body r) = st) (\<lambda>_. A)" (is ?put) for y v fa fn cp r
  proof (rule s_assume [where q = "make_receipt P C st snap v fa fn y cp = Inr r"])
    assume m: "make_receipt P C st snap v fa fn y cp = Inr r"
    from make_receipt_Inr [OF m] show ?put
      by (intro s_conseq [OF s_store_receipt [OF sb(3) [of y], of r]]) (use assms(3) in \<open>auto simp: receipt_describes_def\<close>)
  qed simp
  show ?thesis unfolding issue_receipt_def
    by (rule evo.s_bind [OF sl evo.s_bind [OF env evo.s_bind [OF env evo.s_bind [OF sw evo.s_bind [OF mir evo.s_bind [OF envM
         evo.s_bind [OF wit evo.s_bind [OF sv evo.s_bind [OF mk evo.s_bind [OF put evo.s_ret]]]]]]]]]]) auto
qed

lemma s_receipt_locked:
  assumes "fair_env P E" "stable (evolves P) A" "\<And>w. A w \<Longrightarrow> world_ok P w"
  shows "spec (evolves P) A (receipt_locked P C (holding_receipt E) requested)
    (\<lambda>r w. A w \<and> sv_receipt (w_supervisor w) = Some r \<and> (requested \<noteq> None \<longrightarrow> requested = Some (rb_status (r_body r)))) (\<lambda>_. A)"
proof -
  let ?E = "holding_receipt E"
  note f = fair_holding(2) [OF assms(1)] and q = quiet_receipt [of E]
  let ?P = "\<lambda>x w. (A w \<and> cs_phase x = rs_phase (w_state w)) \<and> unissued w"
  let ?T = "\<lambda>st w. (A w \<and> status_fits st (rs_phase (w_state w))) \<and> unissued w"
  have snap: "spec (evolves P) (\<lambda>w. A w \<and> unissued w) (on_state ?E (get_op snapshot)) ?P (\<lambda>_. A)"
    by (rule s_unissued [OF k_parts(1) [OF q]], rule s_conseq [OF s_on_state [OF f assms(2)]])
      (use rs_run_Nil in \<open>auto simp: get_op_def snapshot_def\<close>)
  have emg: "spec (evolves P) (?P x) (get_op (\<lambda>w. sv_emergency_failure (w_supervisor w))) (\<lambda>_. ?P x) (\<lambda>_. A)" for x
    by (rule evo.s_get) simp
  have der: "spec (evolves P) (?P x) (lift_result (derive_status (cs_phase x) em)) ?T (\<lambda>_. A)" for x em
    by (rule evo.s_lift) (auto simp: derive_status_Inr status_fits_def)
  have fresh: "spec (evolves P) (?T s)
    (if requested \<noteq> None \<and> requested \<noteq> Some s then raise_op (ValueError ''requested receipt status conflicts with run state'')
     else issue_receipt P C ?E s x)
    (\<lambda>r w. A w \<and> sv_receipt (w_supervisor w) = Some r \<and> (requested \<noteq> None \<longrightarrow> requested = Some (rb_status (r_body r)))) (\<lambda>_. A)" for s x
    by (rule s_if, rule evo.s_raise, simp) (rule s_conseq [OF s_issue_receipt [OF assms]], auto)
  show ?thesis unfolding receipt_locked_def
  proof (rule evo.s_bind [OF evo.s_get [where B = "\<lambda>v w. A w \<and> sv_receipt (w_supervisor w) = v"]], simp, rule s_option, goal_cases)
    case (1 v)
    then show ?case
      by (intro s_pre [OF evo.s_bind [OF snap evo.s_bind [OF emg evo.s_bind [OF der fresh]]]]) auto
  next
    case (2 v r)
    then show ?case by (intro s_if evo.s_raise evo.s_ret) auto
  qed
qed

lemma s_receipt:
  assumes "fair_env P E" "stable (evolves P) A" "\<And>w. A w \<Longrightarrow> world_ok P w"
  shows "spec (evolves P) A (receipt P C E requested)
    (\<lambda>r w. A w \<and> sv_receipt (w_supervisor w) = Some r \<and> (requested \<noteq> None \<longrightarrow> requested = Some (rb_status (r_body r)))) (\<lambda>_. A)"
  unfolding receipt_def by (rule evo.s_bind [OF s_switch [OF assms(1,2)] s_receipt_locked [OF assms]])

lemma s_complete:
  assumes "fair_env P E" "stable (evolves P) A" "\<And>w. A w \<Longrightarrow> world_ok P w"
  shows "spec (evolves P) A (complete P C E)
    (\<lambda>r w. A w \<and> sv_receipt (w_supervisor w) = Some r \<and> rs_phase (w_state w) = PhCompleted) (\<lambda>_. A)"
proof -
  let ?D = "\<lambda>w. A w \<and> rs_phase (w_state w) = PhCompleted"
  have sd: "stable (evolves P) (\<lambda>w. rs_phase (w_state w) = PhCompleted)"
    by (auto simp: stable_def evolves_def dest: run_phase_stable)
  have st: "stable (evolves P) ?D" by (intro stability assms(2) sd)
  have post: "mark_completed s = (Inr u, t) \<Longrightarrow> rs_phase t = PhCompleted" for s u t
    by (auto simp: mark_completed_def split: if_splits)
  have mk: "spec (evolves P) A (on_state E mark_completed) (\<lambda>_. ?D) (\<lambda>_. A)"
    by (rule s_conseq [OF s_on_state [OF assms(1,2) rs_methods_run(7)]]) (auto dest: post)
  have rc: "spec (evolves P) ?D (receipt P C E None)
      (\<lambda>r w. A w \<and> sv_receipt (w_supervisor w) = Some r \<and> rs_phase (w_state w) = PhCompleted) (\<lambda>_. A)"
    by (rule s_conseq [OF s_receipt [OF assms(1) st]]) (use assms(3) in auto)
  show ?thesis unfolding complete_def by (rule evo.s_bind [OF mk rc])
qed


section \<open>Properties\<close>

text \<open>
  C3. Containment stops the run, whatever happens. For any other threads, clocks, isolation backend and
  file errors: when \<open>contain\<close> returns or raises, the run is no longer running and never will be; when it
  returns an acknowledgement, the run is marked killed and this acknowledgement is the one on file.
\<close>

theorem containment_stops_run:
  assumes "fair_env P E" "world_ok P w" "contain P C E trigger t w = (r, w')" "evolves P w' w''"
  shows "evolves P w w' \<and> world_ok P w' \<and> stopped w' \<and> stopped w'' \<and>
    (\<forall>k. r = Inr k \<longrightarrow> rs_phase (w_state w') = PhKilled \<and> rs_phase (w_state w'') = PhKilled \<and>
       sv_kill_acknowledgement (w_supervisor w') = Some k)"
proof -
  have "evolves P w w' \<and> (case r of Inl e \<Rightarrow> world_ok P w' \<and> stopped w'
      | Inr k \<Rightarrow> world_ok P w' \<and> rs_phase (w_state w') = PhKilled \<and> sv_kill_acknowledgement (w_supervisor w') = Some k)"
    using specD [OF s_contain [OF assms(1) stable_ok] assms(2,3)] by auto
  moreover have "stopped w' \<longrightarrow> stopped w''" "rs_phase (w_state w') = PhKilled \<longrightarrow> rs_phase (w_state w'') = PhKilled"
    using stable_stopped [of P] stable_killed [of P] assms(4) by (auto simp: stable_def)
  ultimately show ?thesis by (cases r) auto
qed

definition sample_trigger :: event where
  "sample_trigger =
     \<lparr> ev_body = \<lparr> eb_run_id = lit ''run-1'', eb_manifest_hash = replicate 64 49, eb_sequence = 0,
         eb_previous_event_hash = GENESIS_HASH, eb_kind = VIOLATION, eb_request_id = None,
         eb_producer_instance_id = lit ''ledger-1'', eb_observed_at = strftime_utc (sample_time 0), eb_monotonic_ns = 0,
         eb_payload_canonical_json = lit ''{}'', eb_payload_sha256 = replicate 64 49 \<rparr>,
       ev_hash = replicate 64 50 \<rparr>"

theorem containment_stops_run_witness:
  "fair_env sample_prims sample_env \<and> world_ok sample_prims sample_world \<and>
   rs_phase (w_state sample_world) = PhRunning \<and>
   stopped (snd (contain sample_prims sample_config sample_env sample_trigger 0 sample_world))"
  using containment_stops_run [OF sample_fair sample_world_ok prod.collapse [symmetric] evolves_refl, of sample_prims]
    sample_fair sample_world_ok by (simp add: sample_world_def init_state_def)

text \<open>
  Emergency isolation needs no evidence: when \<open>emergency_isolate\<close> returns, the run is killed; even when
  the isolation backend raises, the run is stopped; and in both cases the supervisor failure is on record.
\<close>

theorem emergency_isolation_stops_run:
  assumes "fair_env P E" "world_ok P w" "emergency_isolate E w = (r, w')"
  shows "evolves P w w' \<and> stopped w' \<and> sv_emergency_failure (w_supervisor w') \<and>
    (r = Inr () \<longrightarrow> rs_phase (w_state w') = PhKilled)"
  using specD [OF s_emergency_isolate [OF assms(1) stable_ok] assms(2,3)] by (cases r) auto

theorem emergency_isolation_stops_run_witness:
  "fair_env sample_prims sample_env \<and> world_ok sample_prims sample_world \<and>
   stopped (snd (emergency_isolate sample_env sample_world)) \<and>
   rs_phase (w_state (snd (emergency_isolate sample_env sample_world))) = PhKilled"
proof -
  have "fst (emergency_isolate sample_env sample_world) = Inr ()" by code_simp
  with emergency_isolation_stops_run [OF sample_fair sample_world_ok prod.collapse [symmetric], of sample_prims]
    sample_fair sample_world_ok show ?thesis by simp
qed

end
