(* ===== verification/BCP_Receipt.thy ===== *)
theory BCP_Receipt
  imports BCP_Supervisor
begin

text \<open>
  That a run comes to an end with a receipt an independent verifier accepts. The other theories show what
  holds whenever an operation returns; here, for an undisturbed thread, sound keys and clocks that do not
  run backwards, \<open>complete\<close> and \<open>contain\<close> followed by \<open>receipt\<close> do return, and \<open>verify_against\<close> accepts the
  receipt for the recorded events.
\<close>

section \<open>Bounds of the signed records\<close>

definition sound_ack :: "prims \<Rightarrow> kill_ack \<Rightarrow> bool" where
  "sound_ack P k \<longleftrightarrow>
     validate_kill_ack_body P (k_body k) = Inr (k_body k) \<and> validate_kill_ack P k = Inr k \<and>
     validate_signature (k_signature k) = Inr (k_signature k) \<and> length (ka_terminated_workload_ids (k_body k)) \<le> 500"

definition sound_checkpoint :: "prims \<Rightarrow> checkpoint \<Rightarrow> bool" where
  "sound_checkpoint P c \<longleftrightarrow>
     validate_checkpoint_body P (c_body c) = Inr (c_body c) \<and> validate_checkpoint P c = Inr c \<and>
     validate_signature (c_signature c) = Inr (c_signature c)"

lemma bounded_kill_ack:
  assumes "d \<le> 61" "nfc_fixes_ascii P" "sound_ack P k"
  shows "bounded_json P d 528 426216 (dump_kill_ack k)"
proof -
  let ?n = "int (length (ka_terminated_workload_ids (k_body k)))"
  from assms(3) have v: "validate_kill_ack_body P (k_body k) = Inr (k_body k)" "sha256_hex_text (k_hash k)"
    "validate_signature (k_signature k) = Inr (k_signature k)" "?n \<le> 500"
    by (simp_all add: sound_ack_def validate_kill_ack_def)
  note body = bm_Cons [OF bounded_kill_ack_body [OF _ assms(2) v(1), of "d + 1"]]
    and sg = bm_Cons [OF bounded_signature [OF _ assms(2) v(3), of "d + 1"]]
  have "bounded_json P d (1 + (27 + ?n)) (2 + (40714 + 771 * ?n)) (dump_kill_ack k)" unfolding dump_kill_ack_def
    by (rule bounded_obj; (intro body sg bm_small bm_Nil)?)
      (use assms(1,2) short_sha256 [OF v(2)] in \<open>simp_all add: short_lit small_json_simps\<close>)
  then show ?thesis by (rule bounded_mono) (use v(4) in simp_all)
qed

lemma bounded_checkpoint:
  assumes "d \<le> 62" "nfc_fixes_ascii P" "sound_checkpoint P c"
  shows "bounded_json P d 16 21596 (dump_checkpoint c)"
proof -
  from assms(3) have v: "validate_checkpoint_body P (c_body c) = Inr (c_body c)" "sha256_hex_text (c_hash c)"
    "validate_signature (c_signature c) = Inr (c_signature c)"
    by (simp_all add: sound_checkpoint_def validate_checkpoint_def)
  note body = bm_Cons [OF bounded_checkpoint_body [OF _ assms(2) v(1), of "d + 1"]]
    and sg = bm_Cons [OF bounded_signature [OF _ assms(2) v(3), of "d + 1"]]
  have "bounded_json P d (1 + 15) (2 + 21594) (dump_checkpoint c)" unfolding dump_checkpoint_def
    by (rule bounded_obj; (intro body sg bm_small bm_Nil)?)
      (use assms(1,2) short_sha256 [OF v(2)] in \<open>simp_all add: short_lit small_json_simps\<close>)
  then show ?thesis by simp
qed

lemma bounded_receipt_body:
  assumes "nfc_fixes_ascii P" "validate_receipt_body P b = Inr b" "opt_all (sound_ack P) (rb_kill_acknowledgement b)"
    "sound_checkpoint P (rb_witness_checkpoint b)" "d \<le> 60"
  shows "bounded_json P d 570 487908 (dump_receipt_body b)"
proof -
  from assms(2) have f: "short_text (rb_run_id b)" "short_text (rb_manifest_hash b)" "short_text (rb_supervisor_key_id b)"
    "short_text (rb_supervisor_instance_id b)" "short_text (rb_started_at b)" "short_text (rb_finished_at b)"
    "safe_nonneg (rb_started_monotonic_ns b)" "safe_nonneg (rb_finished_monotonic_ns b)" "safe_nonneg (rb_event_count b)"
    "opt_all short_text (rb_first_event_hash b)" "opt_all short_text (rb_final_event_hash b)"
    "short_text (rb_evidence_file_sha256 b)" "safe_nonneg (rb_observed_request_count b)"
    "safe_nonneg (rb_admitted_request_count b)" "safe_nonneg (rb_allowed_request_count b)"
    "safe_nonneg (rb_denied_request_count b)" "safe_nonneg (rb_dispatched_request_count b)"
    "safe_nonneg (rb_completed_request_count b)" "safe_nonneg (rb_rejected_overload_count b)"
    "safe_nonneg (rb_dropped_after_kill_count b)" "safe_nonneg (rb_total_egress_bytes b)"
    by (auto simp: validate_receipt_body_def intro: short_rules opt_all_mono)
  have ack: "bounded_json P (d + 1) 528 426216 (case rb_kill_acknowledgement b of None \<Rightarrow> PNone | Some k \<Rightarrow> dump_kill_ack k)"
    using assms(1,3,5) bounded_kill_ack [of "d + 1" P] bounded_mono [OF bounded_const(2) [of "d + 1" P], of 528 426216]
    by (auto split: option.splits)
  note ack = bm_Cons [OF ack] and cp = bm_Cons [OF bounded_checkpoint [OF _ assms(1,4), of "d + 1"]]
  have "bounded_json P d (1 + 569) (2 + 487906) (dump_receipt_body b)" unfolding dump_receipt_body_def
    by (rule bounded_obj; (intro ack cp bm_small bm_Nil)?)
      (use assms(1,5) f in \<open>simp_all add: short_lit small_json_simps short_names\<close>)
  then show ?thesis by simp
qed

definition sound_receipt :: "prims \<Rightarrow> receipt \<Rightarrow> bool" where
  "sound_receipt P r \<longleftrightarrow>
     validate_receipt_body P (r_body r) = Inr (r_body r) \<and> validate_receipt P r = Inr r \<and>
     validate_signature (r_signature r) = Inr (r_signature r) \<and> opt_all (sound_ack P) (rb_kill_acknowledgement (r_body r)) \<and>
     sound_checkpoint P (rb_witness_checkpoint (r_body r))"

section \<open>Verifying the recorded events\<close>

text \<open>The events the mirror has accepted, as a hash chain of this manifest.\<close>

definition recorded :: "prims \<Rightarrow> manifest \<Rightarrow> mirror \<Rightarrow> event list \<Rightarrow> bool" where
  "recorded P m mi es \<longleftrightarrow> chain P m es \<and> mirror_of P m mi es \<and> int (length es) \<le> MAX_SAFE_INTEGER"

definition trigger_scan :: "receipt_body \<Rightarrow> event list \<Rightarrow> pystr option \<Rightarrow> pystr option" where
  "trigger_scan b es trig =
     (case rb_kill_acknowledgement b of None \<Rightarrow> trig | Some k \<Rightarrow>
        fold (\<lambda>e t. if eb_sequence (ev_body e) = ka_trigger_event_sequence (k_body k) then Some (ev_hash e) else t) es trig)"

lemma trigger_scan_Cons:
  "trigger_scan b (e # es) trig = trigger_scan b es
     (case rb_kill_acknowledgement b of None \<Rightarrow> trig
      | Some k \<Rightarrow> if eb_sequence (ev_body e) = ka_trigger_event_sequence (k_body k) then Some (ev_hash e) else trig)"
  by (simp add: trigger_scan_def split: option.split)

abbreviation last_of :: "event list \<Rightarrow> event option" where
  "last_of es \<equiv> if es = [] then None else Some (last es)"

lemma verify_events_chain:
  assumes "chain P m (xs @ ys)" "sorted (map (\<lambda>e. eb_monotonic_ns (ev_body e)) (xs @ ys))"
    "rb_run_id b = mb_run_id (m_body m)" "rb_manifest_hash b = m_hash m"
    "int (length (xs @ ys)) \<le> rb_event_count b" "rb_first_event_hash b = first_hash (xs @ ys)"
    "canonical_jsonl_bytes P ys = Inr t"
  shows "verify_events P b (last_of xs) (int (length xs)) trig pre ys =
    Inr (last_of (xs @ ys), int (length (xs @ ys)), trigger_scan b ys trig, pre @ t)"
  using assms
proof (induction ys arbitrary: xs trig pre t)
  case Nil
  then show ?case by (simp add: trigger_scan_def split: option.split)
next
  case (Cons e ys)
  obtain line r where enc: "canonical_json_bytes P (dump_event e) = Inr line" "canonical_jsonl_bytes P ys = Inr r"
    "t = line @ [10] @ r"
    using Cons.prems(7) by (auto simp: encode_event_def)
  have l: "links P m xs e" using chain_links [OF Cons.prems(1), of "length xs"] by simp
  have l': "xs \<noteq> [] \<Longrightarrow> links P m (butlast xs) (last xs)"
    using chain_links [OF Cons.prems(1), of "length xs - 1"]
    by (simp add: nth_append last_conv_nth butlast_conv_take)
  have mono: "xs \<noteq> [] \<Longrightarrow> eb_monotonic_ns (ev_body (last xs)) \<le> eb_monotonic_ns (ev_body e)"
    using Cons.prems(2) by (auto simp: sorted_append)
  have f: "xs \<noteq> [] \<Longrightarrow> follows e (last xs)"
    using l l' mono by (cases xs rule: rev_cases) (auto simp: follows_def links_def previous_hash_def)
  have first: "xs = [] \<Longrightarrow> rb_first_event_hash b = Some (ev_hash e)"
    using Cons.prems(6) by (simp add: first_hash_def)
  note IH = Cons.IH [of "xs @ [e]" r]
  from l f first enc(1) Cons.prems(3-5) show ?case
    using IH Cons.prems enc
    by (auto simp: links_def previous_hash_def trigger_scan_Cons add.commute [of _ 1] split: if_splits)
qed

lemma trigger_found:
  assumes "chain P m es" "i < length es" "rb_kill_acknowledgement b = Some k"
    "ka_trigger_event_sequence (k_body k) = int i"
  shows "trigger_scan b es None = Some (ev_hash (es ! i))"
proof -
  let ?f = "\<lambda>e t. if eb_sequence (ev_body e) = int i then Some (ev_hash e) else t"
  have seq: "eb_sequence (ev_body (es ! j)) = int j" if "j < length es" for j
    using chain_links [OF assms(1) that] that by (simp add: links_def)
  have skip: "fold ?f ys t = t" if "\<forall>e \<in> set ys. eb_sequence (ev_body e) \<noteq> int i" for ys t
    using that by (induction ys arbitrary: t) auto
  have "\<forall>e \<in> set (drop (Suc i) es). eb_sequence (ev_body e) \<noteq> int i"
    using seq by (auto simp: in_set_conv_nth)
  then have "fold ?f (take i es @ es ! i # drop (Suc i) es) None = Some (ev_hash (es ! i))"
    using seq [OF assms(2)] skip by simp
  then have "fold ?f es None = Some (ev_hash (es ! i))"
    unfolding id_take_nth_drop [OF assms(2), symmetric] .
  with assms(3,4) show ?thesis by (simp add: trigger_scan_def)
qed

text \<open>A receipt over recorded events passes \<open>verify_against\<close> as soon as its signatures do.\<close>

lemma recorded_verifies:
  assumes "recorded P m mi es" "receipt_describes P r mi"
    "rb_run_id (r_body r) = mb_run_id (m_body m)" "rb_manifest_hash (r_body r) = m_hash m"
    "rb_supervisor_key_id (r_body r) = key_id (mb_supervisor_key (m_body m))"
    "verify_receipt P (mb_supervisor_key (m_body m)) r = Inr ()"
    "verify_checkpoint P (mb_witness_key (m_body m)) (rb_witness_checkpoint (r_body r)) = Inr ()"
    "es = [] \<Longrightarrow> rb_first_event_hash (r_body r) = None"
    "opt_all (\<lambda>k. verify_ack_against P m k (trigger_scan (r_body r) es None) = Inr ()) (rb_kill_acknowledgement (r_body r))"
  shows "verify_against P r m es = Inr ()"
proof -
  from assms(1) have mi: "chain P m es" "mirror_of P m mi es" by (simp_all add: recorded_def)
  from mi(2) assms(2,8) have b: "rb_event_count (r_body r) = int (length es)"
    "rb_final_event_hash (r_body r) = final_hash es" "rb_first_event_hash (r_body r) = first_hash es"
    "rb_evidence_file_sha256 (r_body r) = sha256_hex P (mi_text mi)"
    by (auto simp: mirror_of_def receipt_describes_def mirror_snapshot_def first_hash_def)
  have "verify_events P (r_body r) (last_of []) (int (length ([] :: event list))) None [] es =
      Inr (last_of ([] @ es), int (length ([] @ es)), trigger_scan (r_body r) es None, [] @ mi_text mi)"
    by (rule verify_events_chain [of P m]) (use mi assms(3,4) b in \<open>simp_all add: mirror_of_def\<close>)
  with assms(3-7,9) b show ?thesis
    by (auto simp: verify_against_def verify_stream_def verify_prefix_def verify_end_def final_hash_def split: option.splits)
qed

section \<open>An undisturbed thread with sound keys and clocks\<close>

definition calm :: "env \<Rightarrow> bool" where
  "calm E \<longleftrightarrow> (\<forall>n w. e_others E n w = w)"

lemma calm_fair: "calm E \<Longrightarrow> fair_env P E"
  by (simp add: calm_def fair_env_def evolves_refl)

lemma calm_holding: "calm E \<Longrightarrow> holding_receipt E = E" "calm E \<Longrightarrow> holding_contain E = E"
  by (cases E; auto simp: calm_def holding_receipt_def holding_contain_def fun_eq_iff)+

lemma calm_switch: "calm E \<Longrightarrow> switch E w = (Inr (), w\<lparr> w_ticks := w_ticks w + 1 \<rparr>)"
  by (simp add: calm_def switch_def)

definition keys_sound :: "prims \<Rightarrow> config \<Rightarrow> witness \<Rightarrow> bool" where
  "keys_sound P C wt \<longleftrightarrow>
     signer P (cf_supervisor_private_key C) (mb_supervisor_key (m_body (cf_manifest C))) \<and>
     signer P (wt_key wt) (mb_witness_key (m_body (cf_manifest C))) \<and>
     wt_key_id wt = key_id (mb_witness_key (m_body (cf_manifest C))) \<and>
     opaque_id (mb_run_id (m_body (cf_manifest C))) \<and> sha256_hex_text (m_hash (cf_manifest C)) \<and>
     opaque_id (cf_supervisor_instance_id C)"

definition clocks_sound :: "env \<Rightarrow> supervisor \<Rightarrow> bool" where
  "clocks_sound E sv \<longleftrightarrow>
     good_time (sv_started_at sv) \<and> safe_nonneg (sv_started_monotonic_ns sv) \<and>
     (\<forall>n. good_time (e_wall E n) \<and> safe_nonneg (e_mono E n) \<and>
        strftime_utc (sv_started_at sv) \<le> strftime_utc (e_wall E n) \<and> sv_started_monotonic_ns sv \<le> e_mono E n) \<and>
     (\<forall>i j. i \<le> j \<longrightarrow> strftime_utc (e_wall E i) \<le> strftime_utc (e_wall E j) \<and> e_mono E i \<le> e_mono E j)"

text \<open>What the counters of a run state must satisfy for a receipt; the rest follows from its invariant.\<close>

definition counters_fit :: "run_state \<Rightarrow> bool" where
  "counters_fit s \<longleftrightarrow>
     rs_allowed s + rs_denied s \<le> rs_admitted s \<and> rs_dispatched s \<le> rs_allowed s \<and>
     rs_observed s \<le> MAX_SAFE_INTEGER \<and> rs_egress_bytes s \<le> MAX_SAFE_INTEGER"

lemma make_checkpoint_total:
  assumes "keys_sound P C wt" "good_time (cc_wall c)" "cc_manifest c = cf_manifest C" "safe_nonneg (cc_event_count c)"
    "opt_all sha256_hex_text (cc_final_event_hash c)" "sha256_hex_text (cc_evidence_file_sha256 c)"
    "cc_event_count c = 0 \<longleftrightarrow> cc_final_event_hash c = None"
  shows "\<exists>cp. make_checkpoint P wt c = Inr cp \<and> sound_checkpoint P cp \<and>
    verify_checkpoint P (mb_witness_key (m_body (cf_manifest C))) cp = Inr () \<and>
    wc_run_id (c_body cp) = mb_run_id (m_body (cf_manifest C)) \<and> wc_manifest_hash (c_body cp) = m_hash (cf_manifest C)"
proof -
  let ?k = "mb_witness_key (m_body (cf_manifest C))"
  have k: "signer P (wt_key wt) ?k" "nfc_fixes_ascii P" "opaque_id (key_id ?k)"
    using assms(1) by (simp_all add: keys_sound_def signer_def)
  obtain at where at: "format_utc_timestamp (cc_wall c) = Inr at" "utc_timestamp P at"
    using format_good_time [OF assms(2) k(2)] by blast
  let ?b = "\<lparr> wc_run_id = mb_run_id (m_body (cf_manifest C)), wc_manifest_hash = m_hash (cf_manifest C),
    wc_witness_key_id = key_id ?k, wc_witnessed_at = at, wc_event_count = cc_event_count c,
    wc_final_event_hash = cc_final_event_hash c, wc_evidence_file_sha256 = cc_evidence_file_sha256 c \<rparr>"
  have b: "validate_checkpoint_body P ?b = Inr ?b"
    using assms at(2) k(3) by (auto simp: validate_checkpoint_body_def keys_sound_def)
  obtain h s where cp: "sign_checkpoint P ?b (wt_key wt) = Inr \<lparr> c_body = ?b, c_hash = h, c_signature = s \<rparr>"
      "validate_checkpoint P \<lparr> c_body = ?b, c_hash = h, c_signature = s \<rparr> = Inr \<lparr> c_body = ?b, c_hash = h, c_signature = s \<rparr>"
      "validate_signature s = Inr s" "verify_checkpoint P ?k \<lparr> c_body = ?b, c_hash = h, c_signature = s \<rparr> = Inr ()"
    using checkpoint_env.sign_total [OF k(1) bounded_checkpoint_body [OF _ k(2) b, of 0]] by auto
  have "make_checkpoint P wt c = Inr \<lparr> c_body = ?b, c_hash = h, c_signature = s \<rparr>"
    using at(1) b cp(1) assms(1,3) by (simp add: make_checkpoint_def keys_sound_def)
  with b cp(2-) show ?thesis by (intro exI [of _ "\<lparr> c_body = ?b, c_hash = h, c_signature = s \<rparr>"]) (simp add: sound_checkpoint_def)
qed


text \<open>
  Issuing a receipt from a world \<open>w\<close> whose mirror has recorded \<open>es\<close>: for a status that agrees with the
  acknowledgement on file, it succeeds and gives a receipt that verifies.
\<close>

definition issuable :: "prims \<Rightarrow> config \<Rightarrow> env \<Rightarrow> event list \<Rightarrow> world \<Rightarrow> bool" where
  "issuable P C E es w \<longleftrightarrow>
     calm E \<and> keys_sound P C (w_witness w) \<and> clocks_sound E (w_supervisor w) \<and> recorded P (cf_manifest C) (w_mirror w) es \<and>
     (es = [] \<longrightarrow> mi_first_hash (w_mirror w) = None) \<and>
     wt_roots (w_witness w) (mb_run_id (m_body (cf_manifest C)), m_hash (cf_manifest C)) = None \<and>
     sv_receipt (w_supervisor w) = None \<and> rs_inv (w_state w) \<and> counters_fit (w_state w)"

definition ack_fits :: "prims \<Rightarrow> config \<Rightarrow> env \<Rightarrow> event list \<Rightarrow> nat \<Rightarrow> kill_ack \<Rightarrow> bool" where
  "ack_fits P C E es n k \<longleftrightarrow>
     sound_ack P k \<and> ka_run_id (k_body k) = mb_run_id (m_body (cf_manifest C)) \<and>
     ka_manifest_hash (k_body k) = m_hash (cf_manifest C) \<and>
     ka_supervisor_key_id (k_body k) = key_id (mb_supervisor_key (m_body (cf_manifest C))) \<and>
     ka_kill_acknowledged_monotonic_ns (k_body k) \<le> e_mono E n"

lemma event_hash_hex: "chain P m es \<Longrightarrow> e \<in> set es \<Longrightarrow> sha256_hex_text (ev_hash e)"
  using chain_links [of P m es] by (fastforce simp: in_set_conv_nth links_def validate_event_def)

lemma mirror_values:
  assumes "recorded P m mi es" "es = [] \<longrightarrow> mi_first_hash mi = None" "digest_ok P"
  shows "mirror_snapshot P mi = (int (length es), first_hash es, final_hash es, sha256_hex P (mi_text mi))"
    "safe_nonneg (int (length es))" "opt_all sha256_hex_text (first_hash es)" "opt_all sha256_hex_text (final_hash es)"
    "sha256_hex_text (sha256_hex P (mi_text mi))"
  using assms event_hash_hex [of P m es]
  by (auto simp: recorded_def mirror_of_def mirror_snapshot_def first_hash_def final_hash_def safe_nonneg_def sha256_hex_ok)


lemma format_good:
  assumes "good_time d" "nfc_fixes_ascii P"
  shows "format_utc_timestamp d = Inr (strftime_utc d)" "utc_timestamp P (strftime_utc d)"
proof -
  show f: "format_utc_timestamp d = Inr (strftime_utc d)"
    using assms(1) by (simp add: good_time_def format_utc_timestamp_def)
  then show "utc_timestamp P (strftime_utc d)" using format_good_time [OF assms] by auto
qed

definition receipt_of :: "config \<Rightarrow> run_state \<Rightarrow> receipt \<Rightarrow> bool" where
  "receipt_of C s r \<longleftrightarrow>
     rb_allowed_request_count (r_body r) = rs_allowed s \<and> rb_denied_request_count (r_body r) = rs_denied s \<and>
     rb_dispatched_request_count (r_body r) = rs_dispatched s \<and> rb_completed_request_count (r_body r) = rs_completed s \<and>
     rb_run_id (r_body r) = mb_run_id (m_body (cf_manifest C)) \<and> rb_manifest_hash (r_body r) = m_hash (cf_manifest C) \<and>
     rb_supervisor_key_id (r_body r) = key_id (mb_supervisor_key (m_body (cf_manifest C)))"

lemma make_receipt_total:
  assumes "keys_sound P C wt" "recorded P (cf_manifest C) mi es" "es = [] \<longrightarrow> mi_first_hash mi = None"
    "good_time (sv_started_at sv)" "good_time finished_at" "strftime_utc (sv_started_at sv) \<le> strftime_utc finished_at"
    "safe_nonneg (sv_started_monotonic_ns sv)" "safe_nonneg finished_ns" "sv_started_monotonic_ns sv \<le> finished_ns"
    "rs_inv s" "counters_fit s" "sound_checkpoint P cp"
    "wc_run_id (c_body cp) = mb_run_id (m_body (cf_manifest C))" "wc_manifest_hash (c_body cp) = m_hash (cf_manifest C)"
    "wc_event_count (c_body cp) = int (length es)" "wc_final_event_hash (c_body cp) = final_hash es"
    "wc_evidence_file_sha256 (c_body cp) = sha256_hex P (mi_text mi)"
    "st = KILLED \<longleftrightarrow> sv_kill_acknowledgement sv \<noteq> None" "finished_ns = e_mono E n"
    "opt_all (ack_fits P C E es n) (sv_kill_acknowledgement sv)"
  shows "\<exists>r. make_receipt P C st (snapshot s) sv finished_at finished_ns (mirror_snapshot P mi) cp = Inr r \<and>
    verify_receipt P (mb_supervisor_key (m_body (cf_manifest C))) r = Inr () \<and> receipt_of C s r \<and> sound_receipt P r"
proof -
  let ?k = "mb_supervisor_key (m_body (cf_manifest C))"
  have k: "signer P (cf_supervisor_private_key C) ?k" "nfc_fixes_ascii P" "digest_ok P"
    using assms(1) by (simp_all add: keys_sound_def signer_def)
  note t0 = format_good [OF assms(4) k(2)] and t1 = format_good [OF assms(5) k(2)]
    and mv = mirror_values [OF assms(2,3) k(3)]
  let ?b = "\<lparr> rb_run_id = mb_run_id (m_body (cf_manifest C)), rb_manifest_hash = m_hash (cf_manifest C),
    rb_supervisor_key_id = key_id ?k, rb_supervisor_instance_id = cf_supervisor_instance_id C, rb_status = st,
    rb_started_at = strftime_utc (sv_started_at sv), rb_finished_at = strftime_utc finished_at,
    rb_started_monotonic_ns = sv_started_monotonic_ns sv, rb_finished_monotonic_ns = finished_ns,
    rb_event_count = int (length es), rb_first_event_hash = first_hash es, rb_final_event_hash = final_hash es,
    rb_evidence_file_sha256 = sha256_hex P (mi_text mi), rb_observed_request_count = rs_observed s,
    rb_admitted_request_count = rs_admitted s, rb_allowed_request_count = rs_allowed s,
    rb_denied_request_count = rs_denied s, rb_dispatched_request_count = rs_dispatched s,
    rb_completed_request_count = rs_completed s, rb_rejected_overload_count = rs_rejected_overload s,
    rb_dropped_after_kill_count = rs_dropped_after_kill s, rb_total_egress_bytes = rs_egress_bytes s,
    rb_kill_acknowledgement = sv_kill_acknowledgement sv, rb_witness_checkpoint = cp \<rparr>"
  have counters: "list_all safe_nonneg [rs_observed s, rs_admitted s, rs_allowed s, rs_denied s, rs_dispatched s,
      rs_completed s, rs_rejected_overload s, rs_dropped_after_kill s, rs_egress_bytes s]"
    "rs_admitted s \<le> rs_observed s" "rs_allowed s + rs_denied s \<le> rs_admitted s" "rs_dispatched s \<le> rs_allowed s"
    "rs_completed s \<le> rs_dispatched s" "rs_rejected_overload s + rs_dropped_after_kill s \<le> rs_observed s"
    using assms(10,11) by (auto simp: rs_inv_defs counters_fit_def safe_nonneg_def)
  have ack: "opt_all (\<lambda>x. ack_coherent ?b (k_body x)) (sv_kill_acknowledgement sv)"
    "opt_all (sound_ack P) (sv_kill_acknowledgement sv)"
    using assms(19,20) by (cases "sv_kill_acknowledgement sv"; simp add: ack_fits_def ack_coherent_def)+
  have "opaque_id (key_id ?k)" using k(1) by (simp add: signer_def)
  then have b: "validate_receipt_body P ?b = Inr ?b"
    using assms(1,6-9,13-18) t0 t1 mv counters ack(1)
    by (simp add: validate_receipt_body_def keys_sound_def first_hash_def final_hash_def)
  obtain h g where r: "sign_receipt P ?b (cf_supervisor_private_key C) = Inr \<lparr> r_body = ?b, r_hash = h, r_signature = g \<rparr>"
      "verify_receipt P ?k \<lparr> r_body = ?b, r_hash = h, r_signature = g \<rparr> = Inr ()"
      "validate_receipt P \<lparr> r_body = ?b, r_hash = h, r_signature = g \<rparr> = Inr \<lparr> r_body = ?b, r_hash = h, r_signature = g \<rparr>"
      "validate_signature g = Inr g"
    using receipt_env.sign_total [OF k(1) bounded_receipt_body [OF k(2) b, of 0]] ack(2) assms(12) by auto
  have "make_receipt P C st (snapshot s) sv finished_at finished_ns (mirror_snapshot P mi) cp =
      Inr \<lparr> r_body = ?b, r_hash = h, r_signature = g \<rparr>"
    using t0 t1 b r(1) mv(1) by (simp add: make_receipt_def snapshot_def)
  with r(2-) b ack(2) assms(12) show ?thesis by (simp add: receipt_of_def sound_receipt_def)
qed


definition issued :: "prims \<Rightarrow> config \<Rightarrow> run_status \<Rightarrow> world \<Rightarrow> receipt \<Rightarrow> world \<Rightarrow> bool" where
  "issued P C st w r w' \<longleftrightarrow>
     rb_status (r_body r) = st \<and> rb_kill_acknowledgement (r_body r) = sv_kill_acknowledgement (w_supervisor w) \<and>
     receipt_describes P r (w_mirror w) \<and> receipt_of C (w_state w) r \<and> sound_receipt P r \<and>
     verify_receipt P (mb_supervisor_key (m_body (cf_manifest C))) r = Inr () \<and>
     verify_checkpoint P (mb_witness_key (m_body (cf_manifest C))) (rb_witness_checkpoint (r_body r)) = Inr () \<and>
     w_mirror w' = w_mirror w \<and> w_state w' = w_state w \<and> ld_events (w_ledger w') = ld_events (w_ledger w) \<and> sv_receipt (w_supervisor w') = Some r"

lemma issue_total:
  assumes "issuable P C E es w" "st = KILLED \<longleftrightarrow> sv_kill_acknowledgement (w_supervisor w) \<noteq> None"
    "opt_all (ack_fits P C E es (w_ticks w + 2)) (sv_kill_acknowledgement (w_supervisor w))" "s = w_state w"
  shows "\<exists>r w'. issue_receipt P C E st (snapshot s) w = (Inr r, w') \<and> issued P C st w r w'"
proof -
  let ?n = "w_ticks w" and ?mi = "w_mirror w" and ?sv = "w_supervisor w" and ?wt = "w_witness w"
  from assms(1) have i: "calm E" "keys_sound P C ?wt" "clocks_sound E ?sv" "recorded P (cf_manifest C) ?mi es"
    "es = [] \<longrightarrow> mi_first_hash ?mi = None" "rs_inv s" "counters_fit s"
    "wt_roots ?wt (mb_run_id (m_body (cf_manifest C)), m_hash (cf_manifest C)) = None"
    using assms(4) by (simp_all add: issuable_def)
  have c: "good_time (sv_started_at ?sv)" "safe_nonneg (sv_started_monotonic_ns ?sv)" "good_time (e_wall E j)"
    "safe_nonneg (e_mono E j)" "strftime_utc (sv_started_at ?sv) \<le> strftime_utc (e_wall E j)"
    "sv_started_monotonic_ns ?sv \<le> e_mono E j" for j
    using i(3) by (simp_all add: clocks_sound_def)
  note mv = mirror_values [OF i(4,5)]
  have dg: "digest_ok P" using i(2) by (simp add: keys_sound_def signer_def)
  have none: "final_hash es = None \<longleftrightarrow> es = []" by (simp add: final_hash_def)
  let ?c = "\<lparr> cc_manifest = cf_manifest C, cc_event_count = int (length es), cc_final_event_hash = final_hash es,
    cc_evidence_file_sha256 = sha256_hex P (mi_text ?mi), cc_wall = e_wall E (?n + 4) \<rparr>"
  obtain cp where cp: "make_checkpoint P ?wt ?c = Inr cp" "sound_checkpoint P cp"
      "verify_checkpoint P (mb_witness_key (m_body (cf_manifest C))) cp = Inr ()"
      "wc_run_id (c_body cp) = mb_run_id (m_body (cf_manifest C))" "wc_manifest_hash (c_body cp) = m_hash (cf_manifest C)"
    using make_checkpoint_total [OF i(2), of ?c] c(3) mv(2-) [OF dg] none by auto
  obtain r where r: "make_receipt P C st (snapshot s) ?sv (e_wall E (?n + 1)) (e_mono E (?n + 2)) (mirror_snapshot P ?mi) cp = Inr r"
      "verify_receipt P (mb_supervisor_key (m_body (cf_manifest C))) r = Inr ()" "receipt_of C s r" "sound_receipt P r"
    using make_receipt_total [OF i(2,4,5) c(1) c(3) c(5) c(2) c(4) c(6) i(6,7) cp(2,4,5) _ _ _ assms(2) _ assms(3)]
      make_checkpoint_root [OF cp(1)] by auto
  have wc: "witness_checkpoint P ?c ?wt = (Inr cp, ?wt\<lparr> wt_roots := (wt_roots ?wt)(checkpoint_key ?c \<mapsto> cp) \<rparr>)"
    using cp(1) i(8) by (simp add: witness_checkpoint_def register_root_def checkpoint_key_def)
  have "\<exists>w'. issue_receipt P C E st (snapshot s) w = (Inr r, w') \<and>
      w_mirror w' = ?mi \<and> w_state w' = w_state w \<and> ld_events (w_ledger w') = ld_events (w_ledger w) \<and> sv_receipt (w_supervisor w') = Some r"
    using r(1) wc mv(1) [OF dg]
    by (simp add: issue_receipt_def on_ledger_part_def on_witness_def on_supervisor_def on_part_def calm_switch [OF i(1)]
        use_env_def seal_def op_simps numeral_Bit0)
  with r(2-) cp(3) make_receipt_Inr [OF r(1)] assms(4) show ?thesis
    by (auto simp: issued_def receipt_describes_def)
qed


lemma receipt_total:
  assumes i: "issuable P C E es w" and st: "derive_status (rs_phase (w_state w)) (sv_emergency_failure (w_supervisor w)) = Inr st"
    and ack: "st = KILLED \<longleftrightarrow> sv_kill_acknowledgement (w_supervisor w) \<noteq> None"
      "opt_all (ack_fits P C E es (w_ticks w + 4)) (sv_kill_acknowledgement (w_supervisor w))"
    and rq: "requested = None \<or> requested = Some st"
  shows "\<exists>r w'. receipt P C E requested w = (Inr r, w') \<and> issued P C st w r w'"
proof -
  let ?w = "w\<lparr> w_ticks := w_ticks w + 2 \<rparr>"
  have calm: "calm E" "sv_receipt (w_supervisor w) = None" using i by (simp_all add: issuable_def)
  have "issuable P C E es ?w" using i by (simp add: issuable_def)
  moreover have "opt_all (ack_fits P C E es (w_ticks ?w + 2)) (sv_kill_acknowledgement (w_supervisor ?w))"
    using ack(2) by (simp add: numeral_Bit0)
  ultimately obtain r w' where
    r: "issue_receipt P C E st (snapshot (w_state w)) ?w = (Inr r, w')" "issued P C st ?w r w'"
    using issue_total [of P C E es ?w st "w_state w"] ack(1) by auto
  have "receipt P C E requested w = (Inr r, w')"
    using r(1) st rq calm(2)
    by (auto simp: receipt_def receipt_locked_def calm_holding [OF calm(1)] on_state_def on_part_def
        calm_switch [OF calm(1)] op_simps snapshot_def [of "w_state w"] numeral_Bit0)
  with r(2) show ?thesis by (auto simp: issued_def)
qed

lemma issued_verifies:
  assumes "issued P C st w r w'" "recorded P (cf_manifest C) (w_mirror w) es" "es = ld_events (w_ledger w)"
    "es = [] \<longrightarrow> mi_first_hash (w_mirror w) = None"
    "opt_all (\<lambda>k. verify_ack_against P (cf_manifest C) k (trigger_scan (r_body r) es None) = Inr ()) (sv_kill_acknowledgement (w_supervisor w))"
  shows "verify_against P r (cf_manifest C) (ld_events (w_ledger w')) = Inr ()"
proof -
  have "verify_against P r (cf_manifest C) es = Inr ()"
    by (rule recorded_verifies [OF assms(2)])
      (use assms(1,4,5) in \<open>simp_all add: issued_def receipt_of_def receipt_describes_def mirror_snapshot_def\<close>)
  with assms(1,3) show ?thesis by (simp add: issued_def)
qed

text \<open>Completing a run, with everything its receipt says.\<close>

lemma complete_total:
  assumes "issuable P C E (ld_events (w_ledger w)) w" "rs_phase (w_state w) = PhRunning"
    "sv_kill_acknowledgement (w_supervisor w) = None" "\<not> sv_emergency_failure (w_supervisor w)"
  shows "\<exists>r w'. complete P C E w = (Inr r, w') \<and> rb_status (r_body r) = COMPLETED \<and> rb_kill_acknowledgement (r_body r) = None \<and>
    receipt_of C (w_state w) r \<and> sound_receipt P r \<and> ld_events (w_ledger w') = ld_events (w_ledger w) \<and>
    rb_event_count (r_body r) = int (length (ld_events (w_ledger w))) \<and> rs_phase (w_state w') = PhCompleted \<and>
    verify_against P r (cf_manifest C) (ld_events (w_ledger w)) = Inr ()"
proof -
  let ?s = "(w_state w)\<lparr> rs_phase := PhCompleted \<rparr>"
  let ?w = "w\<lparr> w_ticks := w_ticks w + 1, w_state := ?s \<rparr>" and ?es = "ld_events (w_ledger w)"
  have calm: "calm E" and rec: "recorded P (cf_manifest C) (w_mirror w) ?es" "?es = [] \<longrightarrow> mi_first_hash (w_mirror w) = None"
    using assms(1) by (simp_all add: issuable_def)
  have "rs_inv ?s" "counters_fit ?s"
    using assms(1,2) by (auto simp: issuable_def rs_inv_defs counters_fit_def)
  then have "issuable P C E ?es ?w" using assms(1) by (simp add: issuable_def)
  from receipt_total [OF this, of COMPLETED None] assms(3,4) obtain r w' where
    r: "receipt P C E None ?w = (Inr r, w')" "issued P C COMPLETED ?w r w'"
    by (auto simp: derive_status_def)
  have "complete P C E w = (Inr r, w')"
    using r(1) assms(2)
    by (simp add: complete_def on_state_def on_part_def calm_switch [OF calm] mark_completed_def op_simps)
  moreover have "verify_against P r (cf_manifest C) (ld_events (w_ledger w')) = Inr ()"
    by (rule issued_verifies [OF r(2)]) (use rec assms(3) in simp_all)
  ultimately show ?thesis using r(2) rec(1) assms(3)
    by (auto simp: issued_def receipt_of_def receipt_describes_def mirror_snapshot_def recorded_def mirror_of_def)
qed

text \<open>
  C23. A run that completes can be audited. From a running world without a kill or a failure, undisturbed,
  with sound keys and clocks and counters that fit the receipt, \<open>complete\<close> returns a receipt of status
  COMPLETED; its signature and the witness's verify, and \<open>verify_against\<close> accepts it for the ledger's events.
\<close>

theorem completed_run_verifies:
  assumes "issuable P C E (ld_events (w_ledger w)) w" "rs_phase (w_state w) = PhRunning"
    "sv_kill_acknowledgement (w_supervisor w) = None" "\<not> sv_emergency_failure (w_supervisor w)"
  shows "\<exists>r w'. complete P C E w = (Inr r, w') \<and> rb_status (r_body r) = COMPLETED \<and>
    rs_phase (w_state w') = PhCompleted \<and> verify_against P r (cf_manifest C) (ld_events (w_ledger w')) = Inr ()"
  using complete_total [OF assms] by auto

definition still_env :: env where
  "still_env = sample_env\<lparr> e_wall := \<lambda>_. sample_time 5, e_mono := \<lambda>_. 1000 \<rparr>"

lemma sample_world_fields [simp]:
  "w_state sample_world = init_state sample_criteria" "w_ledger sample_world = sample_ledger"
  "w_mirror sample_world = init_mirror sample_manifest" "w_witness sample_world = sample_witness"
  "w_supervisor sample_world = init_supervisor (sample_time 0) 0" "w_ticks sample_world = 0"
  by (simp_all add: sample_world_def)

lemma sample_keys: "keys_sound sample_prims sample_config sample_witness"
proof -
  have "signer sample_prims (replicate 32 2) (sample_key ''supervisor'' 2)" "signer sample_prims (replicate 32 3) (sample_key ''witness'' 3)"
    unfolding sample_key_def by (rule sample_signer; code_simp)+
  moreover have "opaque_id (lit ''run-1'')" "sha256_hex_text (replicate 64 49)" "opaque_id (lit ''supervisor-1'')" by code_simp+
  ultimately show ?thesis
    by (simp add: keys_sound_def sample_config_def sample_witness_def sample_manifest_def sample_manifest_body_def sample_key_def)
qed

lemma sample_clocks: "clocks_sound still_env (init_supervisor (sample_time 0) 0)"
proof -
  have "good_time (sample_time 0)" "good_time (sample_time 5)"
    by (auto simp: good_time_def sample_time_def real_time_def days_in_month_def)
  moreover have "strftime_utc (sample_time 0) \<le> strftime_utc (sample_time 5)" by code_simp
  ultimately show ?thesis
    by (simp add: clocks_sound_def still_env_def init_supervisor_def safe_nonneg_def MAX_SAFE_INTEGER_def)
qed

lemma sample_issuable: "issuable sample_prims sample_config still_env [] sample_world"
proof -
  have "calm still_env" by (simp add: calm_def still_env_def sample_env_def)
  moreover have "recorded sample_prims sample_manifest (init_mirror sample_manifest) []"
    using mirror_of_init chain_Nil by (simp add: recorded_def MAX_SAFE_INTEGER_def)
  moreover have "rs_inv (init_state sample_criteria)" by (rule rs_inv_init) (simp_all add: sample_criteria_def)
  ultimately show ?thesis
    using sample_keys sample_clocks
    by (simp add: issuable_def counters_fit_def init_state_def MAX_SAFE_INTEGER_def init_supervisor_def
        sample_config_def init_mirror_def sample_witness_def)
qed

theorem completed_run_verifies_witness:
  "issuable sample_prims sample_config still_env (ld_events (w_ledger sample_world)) sample_world \<and>
   (\<exists>r w'. complete sample_prims sample_config still_env sample_world = (Inr r, w') \<and> rb_status (r_body r) = COMPLETED \<and>
     verify_against sample_prims r sample_manifest (ld_events (w_ledger w')) = Inr ())"
proof -
  have "ld_events sample_ledger = []" by (simp add: sample_ledger_def)
  then have i: "issuable sample_prims sample_config still_env (ld_events (w_ledger sample_world)) sample_world"
    using sample_issuable by simp
  from completed_run_verifies [OF this] i show ?thesis
    by (auto simp: init_state_def init_supervisor_def sample_config_def)
qed

text \<open>
  C21. A receipt is final. When \<open>receipt\<close> returns, the run is in the terminal phase its status names, the
  ledger is sealed, and the receipt is well-formed and describes the mirror; from then on, whatever else
  happens, the mirror stays as the receipt describes it, and every later \<open>receipt\<close> that returns, returns
  this one.
\<close>

theorem receipt_final:
  assumes "fair_env P E" "world_ok P w" "receipt P C E requested w = (Inr r, w')" "evolves P w' w''"
  shows "ld_sealed (w_ledger w'') \<and> status_fits (rb_status (r_body r)) (rs_phase (w_state w'')) \<and>
    receipt_describes P r (w_mirror w'') \<and> receipt_ok P r \<and>
    (\<forall>E' requested' r' w3. fair_env P E' \<and> receipt P C E' requested' w'' = (Inr r', w3) \<longrightarrow> r' = r)"
proof -
  have w': "world_ok P w'" "sv_receipt (w_supervisor w') = Some r"
    using specD [OF s_receipt [OF assms(1) stable_ok] assms(2,3)] by auto
  then have w'': "world_ok P w''" "sv_receipt (w_supervisor w'') = Some r"
    using assms(4) by (auto simp: evolves_def supervisor_evolves_def keeps_some_def)
  have "r' = r" if "fair_env P E'" "receipt P C E' requested' w'' = (Inr r', w3)" for E' requested' r' w3
    using specD [OF s_receipt [OF that(1) stable_ok] w''(1) that(2)] w''(2)
    by (auto simp: evolves_def supervisor_evolves_def keeps_some_def)
  with w'' show ?thesis by (auto simp: world_ok_def)
qed

definition finished_world :: world where
  "finished_world = sample_world\<lparr> w_state := (init_state sample_criteria)\<lparr> rs_phase := PhCompleted \<rparr> \<rparr>"

lemma finished_receipt:
  "\<exists>r w'. receipt sample_prims sample_config still_env None finished_world = (Inr r, w') \<and> rb_status (r_body r) = COMPLETED"
proof -
  have "rs_inv ((init_state sample_criteria)\<lparr> rs_phase := PhCompleted \<rparr>)"
    using rs_inv_init [of sample_criteria] by (simp add: sample_criteria_def rs_inv_defs init_state_def)
  then have "issuable sample_prims sample_config still_env [] finished_world"
    using sample_issuable by (simp add: issuable_def finished_world_def counters_fit_def)
  from receipt_total [OF this, of COMPLETED None] show ?thesis
    by (auto simp: finished_world_def derive_status_def init_supervisor_def issued_def)
qed

theorem receipt_final_witness:
  "\<exists>r w'. receipt sample_prims sample_config still_env None finished_world = (Inr r, w') \<and>
     ld_sealed (w_ledger w') \<and> receipt_describes sample_prims r (w_mirror w') \<and> rb_status (r_body r) = COMPLETED"
proof -
  obtain r w' where r: "receipt sample_prims sample_config still_env None finished_world = (Inr r, w')"
    "rb_status (r_body r) = COMPLETED" using finished_receipt by blast
  have f: "fair_env sample_prims still_env" by (rule calm_fair) (simp add: calm_def still_env_def sample_env_def)
  have ok: "world_ok sample_prims finished_world" by (simp add: world_ok_def finished_world_def sample_world_def init_supervisor_def)
  from receipt_final [OF f ok r(1) evolves_refl] r show ?thesis by auto
qed

end
