(* ===== verification/BCP_Kill.thy ===== *)
theory BCP_Kill
  imports BCP_Receipt
begin

text \<open>
  The kill path to its end: an undisturbed \<open>contain\<close> with a backend that isolates returns a signed
  acknowledgement, commits it as evidence, and the KILLED receipt that follows verifies against the ledger.
\<close>

section \<open>An undisturbed commit\<close>

definition commit_ready :: "prims \<Rightarrow> env \<Rightarrow> world \<Rightarrow> bool" where
  "commit_ready P E w \<longleftrightarrow>
     calm E \<and> nfc_fixes_ascii P \<and> digest_ok P \<and> ledger_sound (w_ledger w) \<and> ledger_ready (w_ledger w) = Inr () \<and>
     ld_pending (w_ledger w) < ld_max_pending_commits (w_ledger w) \<and>
     (ld_wal (w_ledger w) = None \<or> (\<forall>n. e_wal E n = WalOk)) \<and> (\<forall>n. good_time (e_wall E n) \<and> safe_nonneg (e_mono E n)) \<and>
     recorded P (ld_manifest (w_ledger w)) (w_mirror w) (ld_events (w_ledger w))"

definition same_parameters :: "ledger \<Rightarrow> ledger \<Rightarrow> bool" where
  "same_parameters l l' \<longleftrightarrow>
     ld_producer_instance_id l' = ld_producer_instance_id l \<and> ld_pending l' = ld_pending l \<and>
     ld_max_pending_commits l' = ld_max_pending_commits l \<and> ld_manifest l' = ld_manifest l \<and>
     ld_max_events l' = ld_max_events l \<and> ld_sealed l' = ld_sealed l \<and>
     (ld_wal l' = None) = (ld_wal l = None)"

lemma commit_keeps_ledger:
  assumes "commit_event P observer kind payload req observed t wo (l, m) = (Inr e, (l', m'))"
  shows "same_parameters l l' \<and> eb_monotonic_ns (ev_body e) = t \<and> links P (ld_manifest l) (ld_events l) e"
  using assms
proof (cases rule: commit_event_cases)
  case (committed e')
  with next_event_links [OF committed(2)] assms show ?thesis
    by (auto simp: same_parameters_def commit_event_def take_slot_def on_ledger_def on_observer_def append_event_def write_wal_def op_simps
        split: if_splits prod.splits sum.splits option.splits wal_outcome.splits)
qed simp_all

definition event_of :: "prims \<Rightarrow> event_kind \<Rightarrow> pyval \<Rightarrow> pystr option \<Rightarrow> int \<Rightarrow> event \<Rightarrow> bool" where
  "event_of P kind payload req t e \<longleftrightarrow>
     eb_kind (ev_body e) = kind \<and> eb_request_id (ev_body e) = req \<and> eb_monotonic_ns (ev_body e) = t \<and>
     canonical_json P payload = Inr (eb_payload_canonical_json (ev_body e))"

text \<open>The commit with the clock value \<open>t\<close>, read before or, after the wall clock, by the commit itself.\<close>

lemma calm_commit_now:
  assumes r: "commit_ready P E w" and pl: "bounded_json P 0 n c payload" "n \<le> 100000" "c \<le> 500000"
    and rq: "opt_all opaque_id req" and t: "safe_nonneg t"
    "ld_events (w_ledger w) = [] \<or> eb_monotonic_ns (ev_body (last (ld_events (w_ledger w)))) \<le> t"
    and at: "at = Some t \<and> k = 2 \<or> at = None \<and> t = e_mono E (w_ticks w + 1) \<and> k = 3"
  shows "\<exists>e l mi. commit_now P E kind payload req at w =
      (Inr e, w\<lparr> w_ticks := w_ticks w + k, w_ledger := l, w_mirror := mi \<rparr>) \<and>
    ld_events l = ld_events (w_ledger w) @ [e] \<and> recorded P (ld_manifest (w_ledger w)) mi (ld_events l) \<and>
    same_parameters (w_ledger w) l \<and> event_of P kind payload req t e \<and>
    links P (ld_manifest (w_ledger w)) (ld_events (w_ledger w)) e"
proof -
  let ?l = "w_ledger w" and ?m = "w_mirror w"
  let ?wall = "e_wall E (w_ticks w)" and ?wo = "e_wal E (w_ticks w + k - 1)"
  from r have c: "recorded P (ld_manifest ?l) ?m (ld_events ?l)" by (simp add: commit_ready_def)
  obtain e l mi where ce: "commit_event P (observe P) kind payload req ?wall t ?wo (?l, ?m) = (Inr e, (l, mi))"
    using commit_total [of P ?l ?wo ?wall n c payload req t ?m kind] r pl rq t
    by (auto simp: commit_ready_def recorded_def)
  have "mirror.tracks P (ld_manifest ?l) P (?l, ?m) (length (ld_events ?l))"
    using c by (simp add: mirror.tracks_def recorded_def)
  from mirror.commit_in_step [OF this ce]
  have ev: "ld_events l = ld_events ?l @ [e]" "mirror_of P (ld_manifest ?l) mi (ld_events l)" by (auto simp: mirror.tracks_def)
  from ce have k: "chain P (ld_manifest ?l) (ld_events l) \<and> int (length (ld_events l)) \<le> MAX_SAFE_INTEGER \<and>
      event_of P kind payload req t e"
  proof (cases rule: commit_event_cases)
    case (committed e')
    then have "int (length (ld_events l)) \<le> MAX_SAFE_INTEGER"
      using r by (auto simp: ledger_ready_def commit_ready_def ledger_sound_def split: if_splits)
    with c next_event_links [OF committed(2)] committed(1,4) show ?thesis
      by (auto simp: recorded_def event_of_def intro: chain_snoc)
  qed simp_all
  have "commit_now P E kind payload req at w =
      (Inr e, w\<lparr> w_ticks := w_ticks w + k, w_ledger := l, w_mirror := mi \<rparr>)"
    using ce at by (auto simp: commit_now_def use_env_def on_part_def evidence_part_def put_evidence_def op_simps
        numeral_Bit0 numeral_Bit1)
  with ev k commit_keeps_ledger [OF ce] show ?thesis
    by (intro exI [of _ e] exI [of _ l] exI [of _ mi]) (simp add: recorded_def)
qed

lemma commit_ready_tick: "commit_ready P E (w\<lparr> w_ticks := n \<rparr>) = commit_ready P E w"
  by (simp add: commit_ready_def)

lemma calm_commit:
  assumes "commit_ready P E w" "bounded_json P 0 n c payload" "n \<le> 100000" "c \<le> 500000" "opt_all opaque_id req" "safe_nonneg t"
    "ld_events (w_ledger w) = [] \<or> eb_monotonic_ns (ev_body (last (ld_events (w_ledger w)))) \<le> t"
  shows "\<exists>e l mi. commit P E kind payload req (Some t) w =
      (Inr e, w\<lparr> w_ticks := w_ticks w + 3, w_ledger := l, w_mirror := mi \<rparr>) \<and>
    ld_events l = ld_events (w_ledger w) @ [e] \<and> recorded P (ld_manifest (w_ledger w)) mi (ld_events l) \<and>
    same_parameters (w_ledger w) l \<and> event_of P kind payload req t e \<and> links P (ld_manifest (w_ledger w)) (ld_events (w_ledger w)) e"
proof -
  let ?w = "w\<lparr> w_ticks := w_ticks w + 1 \<rparr>"
  have c: "calm E" "commit_ready P E ?w" using assms(1) by (simp_all add: commit_ready_def)
  obtain e l mi where "commit_now P E kind payload req (Some t) ?w =
      (Inr e, ?w\<lparr> w_ticks := w_ticks ?w + 2, w_ledger := l, w_mirror := mi \<rparr>)"
    "ld_events l = ld_events (w_ledger ?w) @ [e] \<and> recorded P (ld_manifest (w_ledger ?w)) mi (ld_events l) \<and>
     same_parameters (w_ledger ?w) l \<and> event_of P kind payload req t e \<and> links P (ld_manifest (w_ledger ?w)) (ld_events (w_ledger ?w)) e"
    using calm_commit_now [OF c(2) assms(2-6), of "Some t" 2 kind] assms(7) by auto
  then show ?thesis
    by (intro exI [of _ e] exI [of _ l] exI [of _ mi]) (auto simp: commit_def calm_switch [OF c(1)] op_simps)
qed


section \<open>The acknowledgement\<close>

text \<open>An outcome of the isolation backend that an acknowledgement may report.\<close>

definition isolation_sound :: "isolation_result \<Rightarrow> int \<Rightarrow> bool" where
  "isolation_sound i signalled \<longleftrightarrow>
     list_all opaque_id (iso_terminated_workload_ids i) \<and> length (iso_terminated_workload_ids i) \<le> 500 \<and>
     safe_nonneg (iso_inflight_cancelled i) \<and> iso_inflight_cancelled i \<le> signalled \<and>
     opt_all sha256_hex_text (iso_isolation_evidence_sha256 i) \<and>
     (if iso_termination_mode i = SIMULATED
      then iso_terminated_workload_ids i = [] \<and> \<not> iso_network_isolation_confirmed i \<and> iso_isolation_evidence_sha256 i = None
      else iso_terminated_workload_ids i \<noteq> [] \<and>
        (iso_network_isolation_confirmed i \<longrightarrow> iso_isolation_evidence_sha256 i \<noteq> None))"

lemma sorted_set_props:
  "strictly_sorted (sorted_set ids)" "set (sorted_set ids) = set ids" "length (sorted_set ids) \<le> length ids"
  "sorted_set ids = [] \<longleftrightarrow> ids = []"
  by (simp_all add: sorted_set_def strictly_sorted_iff length_remdups_leq)
    (metis remdups_eq_nil_iff set_empty set_sort)

lemma make_kill_ack_total:
  assumes "keys_sound P C wt" "good_time ra" "good_time aa" "strftime_utc ra \<le> strftime_utc aa"
    "safe_nonneg t" "safe_nonneg rn" "safe_nonneg an" "t \<le> rn" "rn \<le> an"
    "safe_nonneg (eb_sequence (ev_body trigger))" "sha256_hex_text (ev_hash trigger)"
    "safe_nonneg inflight" "0 \<le> signals" "isolation_sound i (min signals inflight)"
  shows "\<exists>k. make_kill_ack P C trigger t ra rn aa an i inflight signals = Inr k \<and> sound_ack P k \<and>
    verify_kill_ack P (mb_supervisor_key (m_body (cf_manifest C))) k = Inr () \<and>
    ka_supervisor_key_id (k_body k) = key_id (mb_supervisor_key (m_body (cf_manifest C))) \<and>
    ka_kill_latency_ns (k_body k) = an - t"
proof -
  let ?k = "mb_supervisor_key (m_body (cf_manifest C))"
  have k: "signer P (cf_supervisor_private_key C) ?k" "nfc_fixes_ascii P" "opaque_id (key_id ?k)"
    using assms(1) by (simp_all add: keys_sound_def signer_def)
  note t0 = format_good [OF assms(2) k(2)] and t1 = format_good [OF assms(3) k(2)]
  let ?ids = "sorted_set (iso_terminated_workload_ids i)"
  let ?b = "\<lparr> ka_run_id = mb_run_id (m_body (cf_manifest C)), ka_manifest_hash = m_hash (cf_manifest C),
    ka_supervisor_key_id = key_id ?k, ka_supervisor_instance_id = cf_supervisor_instance_id C,
    ka_trigger_event_sequence = eb_sequence (ev_body trigger), ka_trigger_event_hash = ev_hash trigger,
    ka_trigger_monotonic_ns = t, ka_kill_requested_at = strftime_utc ra, ka_kill_requested_monotonic_ns = rn,
    ka_kill_acknowledged_at = strftime_utc aa, ka_kill_acknowledged_monotonic_ns = an, ka_kill_latency_ns = an - t,
    ka_termination_mode = iso_termination_mode i, ka_terminated_workload_ids = ?ids,
    ka_inflight_at_trigger = inflight, ka_inflight_cancel_signalled = min signals inflight,
    ka_inflight_cancelled = iso_inflight_cancelled i, ka_network_isolation_confirmed = iso_network_isolation_confirmed i,
    ka_isolation_evidence_sha256 = iso_isolation_evidence_sha256 i \<rparr>"
  note ids = sorted_set_props [of "iso_terminated_workload_ids i"]
  have idl: "list_all opaque_id ?ids" using assms(14) ids(2) by (simp add: isolation_sound_def list_all_iff)
  have b: "validate_kill_ack_body P ?b = Inr ?b"
    using assms k(3) t0(2) t1(2) ids(1,4) idl
    by (auto simp: validate_kill_ack_body_def keys_sound_def isolation_sound_def safe_nonneg_def split: if_splits)
  have len: "int (length ?ids) \<le> 500" using assms(14) ids(3) by (simp add: isolation_sound_def)
  obtain h s where a: "sign_kill_ack P ?b (cf_supervisor_private_key C) = Inr \<lparr> k_body = ?b, k_hash = h, k_signature = s \<rparr>"
      "validate_kill_ack P \<lparr> k_body = ?b, k_hash = h, k_signature = s \<rparr> = Inr \<lparr> k_body = ?b, k_hash = h, k_signature = s \<rparr>"
      "validate_signature s = Inr s" "verify_kill_ack P ?k \<lparr> k_body = ?b, k_hash = h, k_signature = s \<rparr> = Inr ()"
    using ack_env.sign_total [OF k(1) bounded_kill_ack_body [OF _ k(2) b, of 0]] len by auto
  have "make_kill_ack P C trigger t ra rn aa an i inflight signals = Inr \<lparr> k_body = ?b, k_hash = h, k_signature = s \<rparr>"
    using t0 t1 b a(1) by (simp add: make_kill_ack_def)
  with b a(2-) len show ?thesis by (auto simp: sound_ack_def)
qed


section \<open>Containment completes\<close>

text \<open>A running or already latched world in which containment has everything it needs.\<close>

definition containable :: "prims \<Rightarrow> config \<Rightarrow> env \<Rightarrow> isolation_result \<Rightarrow> event \<Rightarrow> int \<Rightarrow> world \<Rightarrow> bool" where
  "containable P C E i trigger t w \<longleftrightarrow>
     issuable P C E (ld_events (w_ledger w)) w \<and> commit_ready P E w \<and> ld_manifest (w_ledger w) = cf_manifest C \<and>
     (rs_phase (w_state w) = PhRunning \<or> rs_phase (w_state w) = PhKilling) \<and> rs_inflight (w_state w) \<le> MAX_SAFE_INTEGER \<and>
     sv_kill_acknowledgement (w_supervisor w) = None \<and> \<not> sv_isolation_done (w_supervisor w) \<and>
     \<not> sv_emergency_failure (w_supervisor w) \<and>
     (\<forall>n. e_isolate E n = Inr i) \<and> isolation_sound i (min (int (length (rg_events (w_registry w)))) (rs_inflight (w_state w))) \<and>
     trigger \<in> set (ld_events (w_ledger w)) \<and> safe_nonneg t \<and> (\<forall>n. t \<le> e_mono E n) \<and>
     (\<forall>n. eb_monotonic_ns (ev_body (last (ld_events (w_ledger w)))) \<le> e_mono E n)"

definition killed_state :: "run_state \<Rightarrow> run_state" where
  "killed_state s = snd (mark_killed (snd (latch_kill s)))"

lemma killed_state_props:
  assumes "rs_phase s = PhRunning \<or> rs_phase s = PhKilling"
  shows "\<exists>f ep s1. latch_kill s = (Inr (f, ep, rs_inflight s), s1) \<and> mark_killed s1 = (Inr (), killed_state s)"
    "rs_phase (killed_state s) = PhKilled"
    "rs_inv s \<Longrightarrow> rs_inv (killed_state s)" "counters_fit s \<Longrightarrow> counters_fit (killed_state s)"
proof -
  show "rs_inv s \<Longrightarrow> rs_inv (killed_state s)"
    unfolding killed_state_def
    by (meson rs_inv_run rs_methods_run(2,6))
qed (use assms in \<open>auto simp: killed_state_def mark_killed_def latch_kill_def Let_def counters_fit_def\<close>)


lemma trigger_hex:
  assumes "chain P m es" "e \<in> set es" "int (length es) \<le> MAX_SAFE_INTEGER"
  obtains i where "i < length es" "es ! i = e" "eb_sequence (ev_body e) = int i" "safe_nonneg (eb_sequence (ev_body e))"
    "sha256_hex_text (ev_hash e)"
proof -
  obtain i where i: "i < length es" "es ! i = e" using assms(2) by (auto simp: in_set_conv_nth)
  with chain_links [OF assms(1) i(1)] have "eb_sequence (ev_body e) = int i" by (simp add: links_def)
  with i assms(3) event_hash_hex [OF assms(1,2)] that show ?thesis by (simp add: safe_nonneg_def)
qed

lemma contain_total:
  assumes c: "containable P C E i trigger t w"
  shows "\<exists>k e w'. contain P C E trigger t w = (Inr k, w') \<and>
    ld_events (w_ledger w') = ld_events (w_ledger w) @ [e] \<and> issuable P C E (ld_events (w_ledger w')) w' \<and>
    rs_phase (w_state w') = PhKilled \<and> \<not> sv_emergency_failure (w_supervisor w') \<and>
    sv_kill_acknowledgement (w_supervisor w') = Some k \<and> (\<forall>j \<ge> w_ticks w'. ack_fits P C E (ld_events (w_ledger w')) j k) \<and>
    ack_for P C trigger t k \<and> verify_kill_ack P (mb_supervisor_key (m_body (cf_manifest C))) k = Inr () \<and>
    ka_kill_latency_ns (k_body k) = e_mono E (w_ticks w + 7) - t"
proof -
  let ?n = "w_ticks w" and ?s = "w_state w" and ?es = "ld_events (w_ledger w)"
  from c have iw: "issuable P C E ?es w" and cr: "commit_ready P E w" and lm: "ld_manifest (w_ledger w) = cf_manifest C"
    and ph: "rs_phase ?s = PhRunning \<or> rs_phase ?s = PhKilling" and tr: "trigger \<in> set ?es"
    and sv: "sv_kill_acknowledgement (w_supervisor w) = None" "\<not> sv_isolation_done (w_supervisor w)"
      "\<not> sv_emergency_failure (w_supervisor w)"
    and iso: "e_isolate E j = Inr i" "isolation_sound i (min (int (length (rg_events (w_registry w)))) (rs_inflight ?s))"
    and t: "safe_nonneg t" "t \<le> e_mono E j" "eb_monotonic_ns (ev_body (last ?es)) \<le> e_mono E j"
    and fl: "rs_inflight ?s \<le> MAX_SAFE_INTEGER" for j
    by (simp_all add: containable_def)
  from iw have calm: "calm E" and keys: "keys_sound P C (w_witness w)" and ck: "clocks_sound E (w_supervisor w)"
    and rec: "recorded P (cf_manifest C) (w_mirror w) ?es" and inv: "rs_inv ?s"
    by (simp_all add: issuable_def)
  have fl0: "0 \<le> rs_inflight ?s" using inv by (simp add: rs_inv_defs)
  have e: "good_time (e_wall E j)" "safe_nonneg (e_mono E j)" for j using ck by (simp_all add: clocks_sound_def)
  have mono: "a \<le> b \<Longrightarrow> strftime_utc (e_wall E a) \<le> strftime_utc (e_wall E b) \<and> e_mono E a \<le> e_mono E b" for a b
    using ck by (simp add: clocks_sound_def)
  obtain q where q: "q < length ?es" "?es ! q = trigger" "eb_sequence (ev_body trigger) = int q"
      "safe_nonneg (eb_sequence (ev_body trigger))" "sha256_hex_text (ev_hash trigger)"
    using trigger_hex [of P "cf_manifest C" ?es trigger] rec tr by (auto simp: recorded_def)
  obtain k where k: "make_kill_ack P C trigger t (e_wall E (?n + 3)) (e_mono E (?n + 4)) (e_wall E (?n + 8)) (e_mono E (?n + 7)) i
        (rs_inflight ?s) (int (length (rg_events (w_registry w)))) = Inr k" "sound_ack P k"
      "verify_kill_ack P (mb_supervisor_key (m_body (cf_manifest C))) k = Inr ()"
      "ka_supervisor_key_id (k_body k) = key_id (mb_supervisor_key (m_body (cf_manifest C)))"
      "ka_kill_latency_ns (k_body k) = e_mono E (?n + 7) - t"
    using make_kill_ack_total [OF keys e(1) e(1) _ t(1) e(2) e(2) t(2) _ q(4,5) _ _ iso(2), of "?n + 3" "?n + 8" "?n + 4" "?n + 7"]
      mono [of "?n + 3" "?n + 8"] mono [of "?n + 4" "?n + 7"] fl fl0 by (auto simp: safe_nonneg_def)
  let ?sv = "(w_supervisor w)\<lparr> sv_isolation_result := Some i, sv_isolation_done := True, sv_kill_acknowledgement := Some k \<rparr>"
  let ?w = "w\<lparr> w_registry := snd (signal_all (w_registry w)), w_isolations := w_isolations w + 1, w_ticks := ?n + 10,
    w_state := killed_state ?s, w_supervisor := ?sv \<rparr>"
  have cr': "commit_ready P E ?w" using cr by (simp add: commit_ready_def)
  have bj: "bounded_json P 0 528 426216 (dump_kill_ack k)"
    using bounded_kill_ack [of 0 P k] k(2) keys by (simp add: keys_sound_def signer_def)
  have sz: "(528 :: int) \<le> 100000" "(426216 :: int) \<le> 500000" "opt_all opaque_id None" by simp_all
  have last: "ld_events (w_ledger ?w) = [] \<or> eb_monotonic_ns (ev_body (last (ld_events (w_ledger ?w)))) \<le> e_mono E (?n + 7)"
    using t(3) by simp
  obtain ev l mi where cm: "commit P E KILL_ACKNOWLEDGED (dump_kill_ack k) None (Some (e_mono E (?n + 7))) ?w =
        (Inr ev, ?w\<lparr> w_ticks := w_ticks ?w + 3, w_ledger := l, w_mirror := mi \<rparr>)"
      "ld_events l = ld_events (w_ledger ?w) @ [ev]" "recorded P (ld_manifest (w_ledger ?w)) mi (ld_events l)"
    using calm_commit [OF cr' bj sz e(2) last, of KILL_ACKNOWLEDGED] by blast
  let ?w' = "?w\<lparr> w_ticks := w_ticks ?w + 3, w_ledger := l, w_mirror := mi \<rparr>"
  note ks = killed_state_props [OF ph]
  obtain f ep s1 where latch: "latch_kill ?s = (Inr (f, ep, rs_inflight ?s), s1)" "mark_killed s1 = (Inr (), killed_state ?s)"
    using ks(1) by blast
  have "contain P C E trigger t w = (Inr k, ?w')"
    using k(1) cm(1) sv latch iso(1)
    by (simp add: contain_def contain_locked_def run_containment_def isolate_once_def call_isolate_def record_ack_def
        on_state_def on_registry_def on_supervisor_def on_part_def use_env_def calm_switch [OF calm] calm_holding [OF calm]
        signal_all_def op_simps eval_nat_numeral)
  moreover have "issuable P C E (ld_events (w_ledger ?w')) ?w'"
    using iw cm(2,3) lm ks(3,4) by (simp add: issuable_def clocks_sound_def)
  moreover have "ack_fits P C E (ld_events (w_ledger ?w')) j k" if "w_ticks ?w' \<le> j" for j
    using make_kill_ack_for [OF k(1)] k(2,4) mono [of "?n + 7" j] that by (auto simp: ack_fits_def ack_for_def)
  ultimately show ?thesis
    using cm(2) ks(2) sv(3) make_kill_ack_for [OF k(1)] k(3,5)
    by (intro exI [of _ k] exI [of _ ev] exI [of _ ?w']) auto
qed


section \<open>Properties\<close>

text \<open>
  C22. A killed run can be audited. From a running or latched world whose ledger holds the trigger, undisturbed,
  with sound keys, clocks that never run backwards or past the latency limit, and an isolation backend that
  reports a consistent outcome: \<open>contain\<close> returns an acknowledgement, the \<open>receipt\<close> that follows returns with
  status KILLED and carries it, and \<open>verify_against\<close> accepts the receipt for the ledger's events, the
  acknowledgement's signature, latency and trigger included.
\<close>

theorem killed_run_verifies:
  assumes "containable P C E i trigger t w"
    "\<forall>n. e_mono E n \<le> t + supervisor_kill_latency_sla_ms (mb_kill_criteria (m_body (cf_manifest C))) * 1000000"
  shows "\<exists>k w1 r w2. contain P C E trigger t w = (Inr k, w1) \<and> receipt P C E (Some KILLED) w1 = (Inr r, w2) \<and>
    rb_status (r_body r) = KILLED \<and> rb_kill_acknowledgement (r_body r) = Some k \<and>
    verify_against P r (cf_manifest C) (ld_events (w_ledger w2)) = Inr ()"
proof -
  obtain k e w1 where k: "contain P C E trigger t w = (Inr k, w1)" "ld_events (w_ledger w1) = ld_events (w_ledger w) @ [e]"
      "issuable P C E (ld_events (w_ledger w1)) w1" "rs_phase (w_state w1) = PhKilled" "\<not> sv_emergency_failure (w_supervisor w1)"
      "sv_kill_acknowledgement (w_supervisor w1) = Some k" "\<forall>j \<ge> w_ticks w1. ack_fits P C E (ld_events (w_ledger w1)) j k"
      "ack_for P C trigger t k" "verify_kill_ack P (mb_supervisor_key (m_body (cf_manifest C))) k = Inr ()"
      "ka_kill_latency_ns (k_body k) = e_mono E (w_ticks w + 7) - t"
    using contain_total [OF assms(1)] by blast
  let ?es = "ld_events (w_ledger w1)"
  have fits: "opt_all (ack_fits P C E ?es (w_ticks w1 + 4)) (sv_kill_acknowledgement (w_supervisor w1))" using k(6,7) by simp
  obtain r w2 where r: "receipt P C E (Some KILLED) w1 = (Inr r, w2)" "issued P C KILLED w1 r w2"
    using receipt_total [OF k(3) _ _ fits, of KILLED "Some KILLED"] k(4-6) by (auto simp: derive_status_def)
  have rec: "recorded P (cf_manifest C) (w_mirror w1) ?es" using k(3) by (simp add: issuable_def)
  obtain q where q: "q < length ?es" "?es ! q = trigger" "eb_sequence (ev_body trigger) = int q"
    using trigger_hex [of P "cf_manifest C" ?es trigger] rec assms(1) k(2) by (auto simp: recorded_def containable_def)
  have rk: "rb_kill_acknowledgement (r_body r) = Some k" using r(2) k(6) by (simp add: issued_def)
  have scan: "trigger_scan (r_body r) ?es None = Some (ev_hash trigger)"
    using trigger_found [of P "cf_manifest C", OF _ q(1) rk] rec q k(8) by (simp add: recorded_def ack_for_def)
  have "verify_ack_against P (cf_manifest C) k (trigger_scan (r_body r) ?es None) = Inr ()"
    using assms(2) [rule_format, of "w_ticks w + 7"] k(8-10) scan by (simp add: verify_ack_against_def ack_for_def)
  then have "verify_against P r (cf_manifest C) (ld_events (w_ledger w2)) = Inr ()"
    by (intro issued_verifies [OF r(2) rec]) (use k(2,6) in simp_all)
  with k(1) r rk show ?thesis by (auto simp: issued_def)
qed

text \<open>The sample runtime after one VIOLATION, with the clock at rest.\<close>

definition violation_commit :: "event result \<times> world" where
  "violation_commit = commit sample_prims still_env VIOLATION (cm_payload (sample_call 0)) None (Some 1000) sample_world"

lemma still_calm: "calm still_env"
  by (simp add: calm_def still_env_def sample_env_def)

lemma sample_commit_ready: "commit_ready sample_prims still_env sample_world"
proof -
  have "good_time (sample_time 5)" by (auto simp: good_time_def sample_time_def real_time_def days_in_month_def)
  moreover have "recorded sample_prims sample_manifest (init_mirror sample_manifest) []"
    using mirror_of_init chain_Nil by (simp add: recorded_def MAX_SAFE_INTEGER_def)
  ultimately show ?thesis using still_calm sample_ledger_sound sample_prims_ok
    by (simp add: commit_ready_def sample_ledger_def ledger_ready_def still_env_def sample_env_def safe_nonneg_def MAX_SAFE_INTEGER_def)
qed

lemma violation_commit_ok:
  "\<exists>e l mi. violation_commit = (Inr e, sample_world\<lparr> w_ticks := 3, w_ledger := l, w_mirror := mi \<rparr>) \<and>
     ld_events l = [e] \<and> recorded sample_prims sample_manifest mi [e] \<and> same_parameters sample_ledger l \<and>
     eb_monotonic_ns (ev_body e) = 1000 \<and> links sample_prims sample_manifest [] e \<and> eb_kind (ev_body e) = VIOLATION"
proof -
  have ld: "ld_events sample_ledger = []" "ld_manifest sample_ledger = sample_manifest" by (simp_all add: sample_ledger_def)
  have "\<exists>e l mi. violation_commit =
      (Inr e, sample_world\<lparr> w_ticks := w_ticks sample_world + 3, w_ledger := l, w_mirror := mi \<rparr>) \<and>
      ld_events l = ld_events (w_ledger sample_world) @ [e] \<and>
      recorded sample_prims (ld_manifest (w_ledger sample_world)) mi (ld_events l) \<and>
      same_parameters (w_ledger sample_world) l \<and> event_of sample_prims VIOLATION (cm_payload (sample_call 0)) None 1000 e \<and>
      links sample_prims (ld_manifest (w_ledger sample_world)) (ld_events (w_ledger sample_world)) e"
    unfolding violation_commit_def
    by (rule calm_commit [OF sample_commit_ready sample_payload_bounded]) (simp_all add: ld safe_nonneg_def MAX_SAFE_INTEGER_def)
  then obtain e l mi where "violation_commit =
      (Inr e, sample_world\<lparr> w_ticks := w_ticks sample_world + 3, w_ledger := l, w_mirror := mi \<rparr>)"
      "ld_events l = ld_events (w_ledger sample_world) @ [e]"
      "recorded sample_prims (ld_manifest (w_ledger sample_world)) mi (ld_events l)" "same_parameters (w_ledger sample_world) l"
      "event_of sample_prims VIOLATION (cm_payload (sample_call 0)) None 1000 e"
      "links sample_prims (ld_manifest (w_ledger sample_world)) (ld_events (w_ledger sample_world)) e" by blast
  with ld show ?thesis by (intro exI [of _ e] exI [of _ l] exI [of _ mi]) (simp add: event_of_def)
qed


definition triggered_world :: world where
  "triggered_world = snd violation_commit"

definition violation_event :: event where
  "violation_event = hd (ld_events (w_ledger triggered_world))"

definition sample_isolation :: isolation_result where
  "sample_isolation =
     \<lparr> iso_termination_mode = SIMULATED, iso_terminated_workload_ids = [], iso_inflight_cancelled = 0,
       iso_network_isolation_confirmed = False, iso_isolation_evidence_sha256 = None \<rparr>"


lemma triggered_events:
  "ld_events (w_ledger triggered_world) = [violation_event]" "eb_kind (ev_body violation_event) = VIOLATION"
proof -
  obtain e l mi where v: "violation_commit = (Inr e, sample_world\<lparr> w_ticks := 3, w_ledger := l, w_mirror := mi \<rparr>)" "ld_events l = [e]"
    "eb_kind (ev_body e) = VIOLATION" using violation_commit_ok by blast
  show "ld_events (w_ledger triggered_world) = [violation_event]" "eb_kind (ev_body violation_event) = VIOLATION"
    unfolding triggered_world_def violation_event_def v(1) using v(2,3) by simp_all
qed

lemma triggered_containable:
  "containable sample_prims sample_config still_env sample_isolation violation_event 1000 triggered_world"
proof -
  obtain e l mi where v: "violation_commit = (Inr e, sample_world\<lparr> w_ticks := 3, w_ledger := l, w_mirror := mi \<rparr>)"
      "ld_events l = [e]" "recorded sample_prims sample_manifest mi [e]" "same_parameters sample_ledger l"
      "eb_monotonic_ns (ev_body e) = 1000" "links sample_prims sample_manifest [] e"
    using violation_commit_ok by blast
  have w: "triggered_world = sample_world\<lparr> w_ticks := 3, w_ledger := l, w_mirror := mi \<rparr>" "violation_event = e"
    unfolding triggered_world_def violation_event_def v(1) using v(2) by simp_all
  have hash: "sha256_hex_text (ev_hash e)" "ev_hash e \<noteq> GENESIS_HASH"
    using v(6) sample_hash_nonzero by (auto simp: links_def validate_event_def)
  have par: "ld_manifest l = sample_manifest" "ledger_sound l" "ledger_ready l = Inr ()"
    "ld_pending l < ld_max_pending_commits l"
    using v(2,4) hash sample_ledger_sound
    by (simp_all add: same_parameters_def ledger_sound_def ledger_ready_def sample_ledger_def)
  have iw: "issuable sample_prims sample_config still_env (ld_events (w_ledger triggered_world)) triggered_world"
    unfolding w using sample_issuable v(2,3) by (simp add: issuable_def sample_config_def)
  have cr: "commit_ready sample_prims still_env triggered_world"
    unfolding w using sample_commit_ready v(2,3) par by (simp add: commit_ready_def still_env_def sample_env_def)
  show ?thesis
    using iw cr par v(2,5) unfolding w
    by (simp add: containable_def isolation_sound_def sample_isolation_def still_env_def sample_env_def sample_config_def
        init_state_def init_supervisor_def safe_nonneg_def MAX_SAFE_INTEGER_def sample_world_def init_registry_def)
qed

theorem killed_run_verifies_witness:
  "\<exists>k w1 r w2. contain sample_prims sample_config still_env violation_event 1000 triggered_world = (Inr k, w1) \<and>
     receipt sample_prims sample_config still_env (Some KILLED) w1 = (Inr r, w2) \<and> rb_status (r_body r) = KILLED \<and>
     verify_against sample_prims r sample_manifest (ld_events (w_ledger w2)) = Inr ()"
proof -
  have "e_mono still_env n \<le> 1000 + supervisor_kill_latency_sla_ms (mb_kill_criteria (m_body (cf_manifest sample_config))) * 1000000" for n
    by (simp add: still_env_def sample_env_def sample_config_def sample_manifest_def sample_manifest_body_def sample_criteria_def)
  then have "\<forall>n. e_mono still_env n \<le> 1000 + supervisor_kill_latency_sla_ms (mb_kill_criteria (m_body (cf_manifest sample_config))) * 1000000" ..
  from killed_run_verifies [OF triggered_containable this] show ?thesis
    by (auto simp: sample_config_def)
qed


section \<open>Receipts seal the ledger\<close>

lemma sealed_commit_raises:
  assumes "fair_env P E" "ld_sealed (w_ledger w)"
  shows "\<exists>x. fst (commit P E kind payload req at w) = Inl x"
proof -
  let ?w = "e_others E (w_ticks w) (w\<lparr> w_ticks := w_ticks w + 1 \<rparr>)"
  have "evolves P (w\<lparr> w_ticks := w_ticks w + 1 \<rparr>) ?w" using assms(1) by (simp add: fair_env_def)
  then have sealed: "ld_sealed (w_ledger ?w)"
    using assms(2) by (auto simp: evolves_def evidence_part_def dest: evidence_run_sealed)
  have raises: "\<exists>x. r = Inl x" if "commit_event P (observe P) kind payload req o1 t wo (l, m) = (r, (l', m'))" "ld_sealed l"
    for r o1 t wo l m l' m'
    using that(1) by (cases rule: commit_event_cases) (use that(2) in \<open>auto simp: ledger_ready_def\<close>)
  show ?thesis
    by (cases at) (auto simp: commit_def commit_now_def switch_def use_env_def on_part_def evidence_part_def op_simps
        split: prod.splits sum.splits dest!: raises [OF _ sealed [simplified]])
qed

text \<open>Whatever becomes of the receipt, the ledger is sealed and keeps its events.\<close>

lemma issue_receipt_seals:
  assumes "calm E" "issue_receipt P C E st snap w = (res, w')"
  shows "ld_sealed (w_ledger w') \<and> ld_events (w_ledger w') = ld_events (w_ledger w)"
proof -
  obtain a b c d where "mirror_snapshot P (w_mirror w) = (a, b, c, d)" by (cases "mirror_snapshot P (w_mirror w)") auto
  then show ?thesis using assms(2)
    by (auto simp: issue_receipt_def on_ledger_part_def on_witness_def on_supervisor_def on_part_def calm_switch [OF assms(1)]
        use_env_def seal_def op_simps split: sum.splits prod.splits)
qed

lemma issue_receipt_made:
  assumes "calm E" "issue_receipt P C E st snap w = (Inr r, w')"
  shows "\<exists>fa fn ms cp. make_receipt P C st snap (w_supervisor w) fa fn ms cp = Inr r"
proof -
  obtain a b c d where "mirror_snapshot P (w_mirror w) = (a, b, c, d)" by (cases "mirror_snapshot P (w_mirror w)") auto
  then have "\<exists>cp. make_receipt P C st snap (w_supervisor w) (e_wall E (Suc (w_ticks w))) (e_mono E (Suc (Suc (w_ticks w)))) (a, b, c, d) cp = Inr r"
    using assms(2)
    by (auto simp: issue_receipt_def on_ledger_part_def on_witness_def on_supervisor_def on_part_def calm_switch [OF assms(1)]
        use_env_def seal_def op_simps split: sum.splits prod.splits)
  then show ?thesis by blast
qed

text \<open>
  A receipt of a killed run without an emergency: it seals the ledger, and when it returns, the receipt has the status KILLED
  and the acknowledgement that is stored at that moment, recorded or not.
\<close>

lemma killed_receipt_seals:
  assumes "calm E" "rs_phase (w_state w) = PhKilled" "\<not> sv_emergency_failure (w_supervisor w)" "sv_receipt (w_supervisor w) = None"
    "requested = None \<or> requested = Some KILLED"
  shows "\<exists>res w'. receipt P C E requested w = (res, w') \<and> ld_sealed (w_ledger w') \<and> ld_events (w_ledger w') = ld_events (w_ledger w) \<and>
    (\<forall>r. res = Inr r \<longrightarrow> rb_status (r_body r) = KILLED \<and> rb_kill_acknowledgement (r_body r) = sv_kill_acknowledgement (w_supervisor w) \<and>
       sv_kill_acknowledgement (w_supervisor w) \<noteq> None)"
proof -
  let ?w = "w\<lparr> w_ticks := w_ticks w + 2 \<rparr>"
  obtain res w' where i: "issue_receipt P C E KILLED (snapshot (w_state w)) ?w = (res, w')" by fastforce
  have "receipt P C E requested w = (res, w')"
    using i assms(2-5)
    by (auto simp: receipt_def receipt_locked_def calm_holding [OF assms(1)] calm_switch [OF assms(1)] on_state_def on_part_def
        derive_status_def snapshot_def [of "w_state w"] op_simps numeral_Bit0)
  moreover have "rb_status (r_body r) = KILLED \<and> rb_kill_acknowledgement (r_body r) = sv_kill_acknowledgement (w_supervisor w) \<and>
       sv_kill_acknowledgement (w_supervisor w) \<noteq> None" if r: "res = Inr r" for r
  proof -
    obtain fa fn ms cp where "make_receipt P C KILLED (snapshot (w_state w)) (w_supervisor w) fa fn ms cp = Inr r"
      using issue_receipt_made [OF assms(1) i [unfolded r]] by auto
    from make_receipt_Inr [OF this] show ?thesis by (auto simp: receipt_ok_def validate_receipt_body_def)
  qed
  ultimately show ?thesis using issue_receipt_seals [OF assms(1) i] by auto
qed

lemma sealed_ack_raises:
  assumes "fair_env P E" "ld_sealed (w_ledger w)"
  shows "\<exists>y. fst (record_ack P E k t w) = Inl y"
proof -
  let ?w = "w\<lparr> w_supervisor := (w_supervisor w)\<lparr> sv_kill_acknowledgement := Some k \<rparr> \<rparr>"
  obtain q v where "commit P E KILL_ACKNOWLEDGED (dump_kill_ack k) None (Some t) ?w = (q, v)" by fastforce
  moreover from this obtain z where "q = Inl z"
    using sealed_commit_raises [OF assms(1), of ?w KILL_ACKNOWLEDGED "dump_kill_ack k" None "Some t"] assms(2) by auto
  ultimately show ?thesis by (simp add: record_ack_def on_supervisor_def on_part_def op_simps)
qed

section \<open>An emergency after the kill\<close>

lemma acknowledged_emergency_no_receipt:
  assumes "calm E" "sv_receipt (w_supervisor w) = None" "sv_kill_acknowledgement (w_supervisor w) \<noteq> None"
    "sv_emergency_failure (w_supervisor w)"
  shows "\<exists>x w'. receipt P C E requested w = (Inl x, w')"
proof (cases "receipt P C E requested w")
  case (Pair res w')
  show ?thesis
  proof (cases res)
    case (Inr r)
    note run = Pair [unfolded Inr]
    obtain st snap w1 where "issue_receipt P C E st snap w1 = (Inr r, w')" "w_supervisor w1 = w_supervisor w" "st = SUPERVISOR_FAILURE"
      using run assms
      by (auto simp: receipt_def receipt_locked_def calm_holding [OF assms(1)] on_state_def on_part_def
        calm_switch [OF assms(1)] op_simps derive_status_def split: if_splits)
    then obtain fa fn ms cp where m: "make_receipt P C SUPERVISOR_FAILURE snap (w_supervisor w) fa fn ms cp = Inr r"
      using issue_receipt_made [OF assms(1), of P C SUPERVISOR_FAILURE snap w1 r w'] by auto
    from make_receipt_Inr [OF m] assms(3) show ?thesis by (auto simp: receipt_ok_def validate_receipt_body_def)
  qed (use Pair in simp)
qed

lemma emergency_flags:
  assumes "calm E" "emergency_isolate E w = (y, w')"
  shows "sv_emergency_failure (w_supervisor w')" "sv_receipt (w_supervisor w') = sv_receipt (w_supervisor w)"
    "sv_kill_acknowledgement (w_supervisor w') = sv_kill_acknowledgement (w_supervisor w)"
  using assms(2)
  by (auto simp: emergency_isolate_def isolate_once_def call_isolate_def calm_holding [OF assms(1)] on_state_def on_supervisor_def on_part_def
      calm_switch [OF assms(1)] use_env_def latch_kill_def mark_killed_def op_simps split: if_splits option.splits sum.splits prod.splits)

text \<open>
  C36. An emergency after an acknowledged kill makes the receipt impossible. \<open>emergency_isolate\<close>, which the gateway calls
  when a commit fails, sets the emergency flag also when the run was killed and acknowledged before; when no receipt was
  issued before it, \<open>receipt\<close> raises from then on, whatever status is asked for: the only status it derives is SUPERVISOR_FAILURE, and only KILLED receipts may
  carry an acknowledgement.
\<close>

theorem emergency_after_kill_blocks_receipt:
  assumes "calm E" "sv_receipt (w_supervisor w) = None" "sv_kill_acknowledgement (w_supervisor w) \<noteq> None"
    "emergency_isolate E w = (y, w1)"
  shows "\<exists>x w2. receipt P C E requested w1 = (Inl x, w2)"
  using acknowledged_emergency_no_receipt [OF assms(1), of w1] emergency_flags [OF assms(1,4)] assms(2,3) by simp

theorem emergency_after_kill_blocks_receipt_witness:
  "\<exists>k w1 y w2 x w3. contain sample_prims sample_config still_env violation_event 1000 triggered_world = (Inr k, w1) \<and>
     emergency_isolate still_env w1 = (y, w2) \<and> receipt sample_prims sample_config still_env None w2 = (Inl x, w3)"
proof -
  obtain k w1 where k: "contain sample_prims sample_config still_env violation_event 1000 triggered_world = (Inr k, w1)"
    "sv_kill_acknowledgement (w_supervisor w1) \<noteq> None" "sv_receipt (w_supervisor w1) = None"
    using contain_total [OF triggered_containable] by (auto simp: issuable_def)
  obtain y w2 where e: "emergency_isolate still_env w1 = (y, w2)" by (cases "emergency_isolate still_env w1")
  from emergency_after_kill_blocks_receipt [OF _ k(3,2) e] k(1) e show ?thesis
    by (force simp: calm_def still_env_def sample_env_def)
qed

end
