(* ===== verification/BCP_Gateway.thy ===== *)
theory BCP_Gateway
  imports BCP_Supervisor
begin

text \<open>
  The gateway of \<^verbatim>\<open>app/gateway.py\<close>: \<open>submit_raw\<close> from the admission of raw bytes to the signed decision,
  and \<open>fail_closed\<close>, which the executor calls when a dispatch fails. The policy engine, the run state, the
  ledger and the supervisor are the shared parts of the world.
\<close>

section \<open>Operations\<close>

record gateway_result =
  gr_accepted :: bool
  gr_reason_code :: pystr
  gr_action :: "action option"
  gr_decision :: "decision option"

definition refusal :: "pystr \<Rightarrow> gateway_result" where
  "refusal reason = \<lparr> gr_accepted = False, gr_reason_code = reason, gr_action = None, gr_decision = None \<rparr>"

text \<open>\<open>_commit\<close>: a commit that fails isolates the run before the exception goes on.\<close>

definition gateway_commit ::
  "prims \<Rightarrow> env \<Rightarrow> event_kind \<Rightarrow> pyval \<Rightarrow> pystr option \<Rightarrow> int option \<Rightarrow> (world, event) op" where
  "gateway_commit P E kind payload req at =
     try_op (commit P E kind payload req at) (\<lambda>x. bind_op (emergency_isolate E) (\<lambda>_. raise_op x))"

definition reason_payload :: "pystr \<Rightarrow> pyval" where
  "reason_payload reason = obj [(''reason_code'', PStr reason)]"

definition deadline_exceeded :: "prims \<Rightarrow> config \<Rightarrow> env \<Rightarrow> int \<Rightarrow> (world, gateway_result) op" where
  "deadline_exceeded P C E admitted_ns =
     bind_op (on_state E latch_kill) (\<lambda>_.
     bind_op (gateway_commit P E VIOLATION (reason_payload (lit ''runtime.budget_exhausted'')) None (Some admitted_ns)) (\<lambda>event.
     bind_op (contain P C E event admitted_ns) (\<lambda>_.
       ret_op (refusal (lit ''runtime.budget_exhausted'')))))"

definition overload_payload :: "prims \<Rightarrow> bytes \<Rightarrow> int \<Rightarrow> pyval" where
  "overload_payload P raw admitted_ns =
     obj [(''first_excess_monotonic_ns'', PInt admitted_ns), (''raw_bytes'', PInt (int (length raw))),
          (''raw_sha256'', PStr (sha256_hex P raw)), (''reason_code'', PStr (lit ''admission.overload''))]"

definition overload_kill :: "prims \<Rightarrow> config \<Rightarrow> env \<Rightarrow> bytes \<Rightarrow> int \<Rightarrow> (world, gateway_result) op" where
  "overload_kill P C E raw admitted_ns =
     bind_op (gateway_commit P E OVERLOAD_SUMMARY (overload_payload P raw admitted_ns) None (Some admitted_ns)) (\<lambda>event.
     bind_op (modify_op (\<lambda>w. w\<lparr> w_overload_event := Some event \<rparr>)) (\<lambda>_.
     bind_op (contain P C E event admitted_ns) (\<lambda>_.
       ret_op (refusal (lit ''admission.overload'')))))"

definition invalid_payload :: "prims \<Rightarrow> bytes \<Rightarrow> pyval" where
  "invalid_payload P raw =
     obj [(''raw_bytes'', PInt (int (length raw))), (''raw_sha256'', PStr (sha256_hex P raw)),
          (''reason_code'', PStr (lit ''request.ambiguous_or_invalid''))]"

definition invalid_request :: "prims \<Rightarrow> config \<Rightarrow> env \<Rightarrow> bytes \<Rightarrow> int \<Rightarrow> (world, gateway_result) op" where
  "invalid_request P C E raw admitted_ns =
     bind_op (gateway_commit P E VIOLATION (invalid_payload P raw) None (Some admitted_ns)) (\<lambda>event.
     bind_op (on_state E latch_kill) (\<lambda>_.
     bind_op (contain P C E event admitted_ns) (\<lambda>_.
       ret_op (refusal (lit ''request.ambiguous_or_invalid'')))))"

definition request_payload :: "action \<Rightarrow> pystr \<Rightarrow> pyval" where
  "request_payload a digest = obj [(''action'', dump_action a), (''action_sha256'', PStr digest)]"

definition violation_payload :: "pystr \<Rightarrow> pystr \<Rightarrow> pystr \<Rightarrow> pyval" where
  "violation_payload digest decision_hash reason =
     obj [(''action_sha256'', PStr digest), (''decision_hash'', PStr decision_hash), (''reason_code'', PStr reason)]"

definition make_decision ::
  "prims \<Rightarrow> config \<Rightarrow> action \<Rightarrow> event \<Rightarrow> pystr \<Rightarrow> int \<Rightarrow> int \<Rightarrow> policy_result \<Rightarrow> pystr option \<Rightarrow> decision result" where
  "make_decision P C a request_event decided_at decided_ns epoch result authorization =
     bind_result (action_digest P a) (\<lambda>digest.
     bind_result (validate_decision_body P
       \<lparr> db_run_id = mb_run_id (m_body (cf_manifest C)), db_manifest_hash = m_hash (cf_manifest C),
         db_request_id = a_request_id a, db_request_event_sequence = eb_sequence (ev_body request_event),
         db_request_event_hash = ev_hash request_event, db_action_sha256 = digest,
         db_gateway_key_id = key_id (mb_gateway_key (m_body (cf_manifest C))),
         db_gateway_instance_id = cf_gateway_instance_id C, db_decided_at = decided_at,
         db_decision_monotonic_ns = decided_ns, db_kill_epoch = epoch, db_verdict = pr_verdict result,
         db_reason_code = pr_reason_code result, db_matched_rule_id = pr_matched_rule_id result,
         db_hard_violation = pr_hard_violation result, db_authorization_id = authorization,
         db_authorization_expires_monotonic_ns =
           (if authorization = None then None else Some (decided_ns + cf_authorization_ttl_ns C)),
         db_authorization_single_use = (authorization \<noteq> None) \<rparr>) (\<lambda>body.
       sign_decision P body (cf_gateway_private_key C)))"

definition authorization_for :: "env \<Rightarrow> verdict \<Rightarrow> (world, pystr option) op" where
  "authorization_for E v =
     (if v = ALLOW then bind_op (use_env (e_token E)) (\<lambda>token. ret_op (Some (lit ''auth:'' @ token))) else ret_op None)"

definition kill_request :: "prims \<Rightarrow> config \<Rightarrow> env \<Rightarrow> action \<Rightarrow> decision \<Rightarrow> policy_result \<Rightarrow> (world, gateway_result) op" where
  "kill_request P C E a d result =
     bind_op (lift_result (action_digest P a)) (\<lambda>digest.
     bind_op (gateway_commit P E VIOLATION (violation_payload digest (d_hash d) (pr_reason_code result))
       (Some (a_request_id a)) None) (\<lambda>violation.
     bind_op (contain P C E violation (eb_monotonic_ns (ev_body violation))) (\<lambda>_.
       ret_op \<lparr> gr_accepted = False, gr_reason_code = pr_reason_code result, gr_action = Some a, gr_decision = Some d \<rparr>)))"

definition decide :: "prims \<Rightarrow> config \<Rightarrow> env \<Rightarrow> action \<Rightarrow> int \<Rightarrow> (world, gateway_result) op" where
  "decide P C E a admitted_ns =
     bind_op (lift_result (action_digest P a)) (\<lambda>digest.
     bind_op (gateway_commit P E REQUEST (request_payload a digest) (Some (a_request_id a)) (Some admitted_ns)) (\<lambda>request_event.
     bind_op (use_env (e_mono E)) (\<lambda>decided_ns.
     bind_op (use_env (e_wall E)) (\<lambda>decided_wall.
     bind_op (lift_result (format_utc_timestamp decided_wall)) (\<lambda>decided_at.
     bind_op (on_policy E (authorize a decided_at)) (\<lambda>result.
     bind_op (if pr_verdict result = KILL then bind_op (on_state E latch_kill) (\<lambda>_. ret_op ()) else ret_op ()) (\<lambda>_.
     bind_op (on_state E current_epoch) (\<lambda>epoch.
     bind_op (authorization_for E (pr_verdict result)) (\<lambda>authorization.
     bind_op (lift_result (make_decision P C a request_event decided_at decided_ns epoch result authorization)) (\<lambda>d.
     bind_op (gateway_commit P E DECISION (dump_decision d) (Some (a_request_id a)) (Some decided_ns)) (\<lambda>_.
     bind_op (on_state E (record_decision (pr_verdict result))) (\<lambda>_.
       if pr_verdict result = KILL then kill_request P C E a d result
       else ret_op \<lparr> gr_accepted = True, gr_reason_code = pr_reason_code result, gr_action = Some a,
                     gr_decision = Some d \<rparr>))))))))))))"

definition submit_raw :: "prims \<Rightarrow> config \<Rightarrow> env \<Rightarrow> bytes \<Rightarrow> (world, gateway_result) op" where
  "submit_raw P C E raw =
     bind_op (use_env (e_mono E)) (\<lambda>admitted_ns.
     bind_op (get_op (\<lambda>w. sv_started_monotonic_ns (w_supervisor w))) (\<lambda>started_ns.
       if admitted_ns - started_ns > max_runtime_ms (mb_kill_criteria (m_body (cf_manifest C))) * 1000000
       then deadline_exceeded P C E admitted_ns
       else bind_op (on_state E (admit (int (length raw)) admitted_ns)) (\<lambda>admission. case admission of
         DROPPED_AFTER_KILL \<Rightarrow> ret_op (refusal (lit ''run.not_dispatchable''))
       | FIRST_OVERLOAD \<Rightarrow> overload_kill P C E raw admitted_ns
       | ADMITTED \<Rightarrow>
           (case from_wire P (InBytes raw) of
              Inl _ \<Rightarrow> invalid_request P C E raw admitted_ns
            | Inr a \<Rightarrow> decide P C E a admitted_ns))))"

definition fail_closed :: "prims \<Rightarrow> config \<Rightarrow> env \<Rightarrow> pystr \<Rightarrow> pystr option \<Rightarrow> (world, unit) op" where
  "fail_closed P C E reason req =
     bind_op (use_env (e_mono E)) (\<lambda>trigger_ns.
     bind_op (on_state E latch_kill) (\<lambda>_.
     bind_op
       (try_op (gateway_commit P E VIOLATION (reason_payload reason) req (Some trigger_ns))
         (\<lambda>_. bind_op (switch E) (\<lambda>_. bind_op (get_op (\<lambda>w. ld_events (w_ledger w))) (\<lambda>events.
            if events = [] then raise_op (RuntimeError ''evidence failed before any trusted trigger could be recorded'')
            else ret_op (last events))))) (\<lambda>trigger.
     bind_op (contain P C E trigger trigger_ns) (\<lambda>_. ret_op ()))))"

section \<open>Specifications\<close>

lemma s_gateway_commit:
  assumes "fair_env P E" "stable (evolves P) A" "\<And>w. A w \<Longrightarrow> world_ok P w"
  shows "spec (evolves P) A (gateway_commit P E kind payload req at)
    (\<lambda>e w. A w \<and> committed_as P w kind payload req at e) (\<lambda>_ w. A w \<and> stopped w)"
proof -
  have em: "spec (evolves P) A (emergency_isolate E) (\<lambda>_ w. A w \<and> stopped w) (\<lambda>_ w. A w \<and> stopped w)"
    by (rule s_conseq [OF s_emergency_isolate [OF assms]]) auto
  show ?thesis unfolding gateway_commit_def
    by (rule evo.s_try [OF s_commit [OF assms(1,2), of "\<lambda>_. A"] evo.s_bind [OF em evo.s_raise]]) auto
qed

lemma s_stop:
  assumes "fair_env P E" "stable (evolves P) A" "\<And>w. A w \<Longrightarrow> world_ok P w"
  shows "spec (evolves P) A (contain P C E event t) (\<lambda>_ w. A w \<and> stopped w) (\<lambda>_ w. A w \<and> stopped w)"
  by (rule s_conseq [OF s_contain [OF assms]]) auto

lemma s_deadline_exceeded:
  assumes "fair_env P E" "stable (evolves P) A" "\<And>w. A w \<Longrightarrow> world_ok P w"
  shows "spec (evolves P) A (deadline_exceeded P C E t) (\<lambda>r w. A w \<and> stopped w \<and> \<not> gr_accepted r) (\<lambda>_ w. A w \<and> stopped w)"
proof -
  let ?S = "\<lambda>w. A w \<and> stopped w"
  have st: "stable (evolves P) ?S" by (intro stability assms(2))
  have ok: "\<And>w. ?S w \<Longrightarrow> world_ok P w" using assms(3) by blast
  have com: "spec (evolves P) ?S (gateway_commit P E k p q u) (\<lambda>_. ?S) (\<lambda>_. ?S)" for k p q u
    by (rule s_conseq [OF s_gateway_commit [OF assms(1) st ok]]) auto
  have con: "spec (evolves P) ?S (contain P C E e u) (\<lambda>_. ?S) (\<lambda>_. ?S)" for e u
    by (rule s_conseq [OF s_stop [OF assms(1) st ok]]) auto
  show ?thesis unfolding deadline_exceeded_def
    by (rule evo.s_bind [OF s_latch [OF assms(1,2)] evo.s_bind [OF com evo.s_bind [OF con evo.s_ret]]]) (simp_all add: refusal_def)
qed


lemma s_overload_kill:
  assumes "fair_env P E" "stable (evolves P) A" "\<And>w. A w \<Longrightarrow> world_ok P w"
  shows "spec (evolves P) A (overload_kill P C E raw t) (\<lambda>r w. A w \<and> stopped w \<and> \<not> gr_accepted r) (\<lambda>_ w. A w \<and> stopped w)"
proof -
  have com: "spec (evolves P) A (gateway_commit P E k p q u) (\<lambda>_. A) (\<lambda>_ w. A w \<and> stopped w)" for k p q u
    by (rule s_conseq [OF s_gateway_commit [OF assms]]) auto
  have set: "spec (evolves P) A (modify_op (\<lambda>w. w\<lparr> w_overload_event := q \<rparr>)) (\<lambda>_. A) X" for q X
    using assms(2) by (intro evo.s_modify) (auto simp: stable_def)
  show ?thesis unfolding overload_kill_def
    by (rule evo.s_bind [OF com evo.s_bind [OF set evo.s_bind [OF s_stop [OF assms] evo.s_ret]]]) (simp_all add: refusal_def)
qed

lemma s_invalid_request:
  assumes "fair_env P E" "stable (evolves P) A" "\<And>w. A w \<Longrightarrow> world_ok P w"
  shows "spec (evolves P) A (invalid_request P C E raw t) (\<lambda>r w. A w \<and> stopped w \<and> \<not> gr_accepted r) (\<lambda>_ w. A w \<and> stopped w)"
proof -
  have com: "spec (evolves P) A (gateway_commit P E k p q u) (\<lambda>_. A) (\<lambda>_ w. A w \<and> stopped w)" for k p q u
    by (rule s_conseq [OF s_gateway_commit [OF assms]]) auto
  have latch: "spec (evolves P) A (on_state E latch_kill) (\<lambda>_. A) (\<lambda>_ w. A w \<and> stopped w)"
    by (rule s_conseq [OF s_latch [OF assms(1,2)]]) auto
  show ?thesis unfolding invalid_request_def
    by (rule evo.s_bind [OF com evo.s_bind [OF latch evo.s_bind [OF s_stop [OF assms] evo.s_ret]]]) (simp_all add: refusal_def)
qed

lemma from_wire_valid: "from_wire P raw = Inr a \<Longrightarrow> validate_action P a = Inr a"
proof -
  assume "from_wire P raw = Inr a"
  then obtain j where "action_of_json P j = Inr a" by (auto simp: from_wire_def)
  then obtain x where "validate_action P x = Inr a"
    unfolding action_of_json_def bad_shape_def by (cases j) (auto simp del: validated_Inr split: option.splits if_splits)
  then show ?thesis by (simp add: validate_action_def)
qed

text \<open>The policy engine of a runtime: the engine of its manifest.\<close>

definition engine_of :: "prims \<Rightarrow> config \<Rightarrow> policy_engine \<Rightarrow> bool" where
  "engine_of P C e \<longleftrightarrow> policy_wf P e \<and> pe_manifest e = cf_manifest C"

lemma stable_engine [stability]: "stable (evolves P) (\<lambda>w. engine_of Q C (w_policy w))"
  by (auto simp: stable_def evolves_def engine_of_def policy_wf_def)

definition policy_answer :: "prims \<Rightarrow> config \<Rightarrow> action \<Rightarrow> pystr \<Rightarrow> policy_result \<Rightarrow> bool" where
  "policy_answer P C a now r \<longleftrightarrow>
     (\<exists>e. engine_of P C e \<and> ((\<exists>rule. permitted e a now rule \<and> r = allow_result rule) \<or> (\<exists>why. r = kill_result why)))"

lemma authorize_answer:
  assumes "engine_of P C e" "validate_action P a = Inr a"
  shows "\<exists>r e'. authorize a now e = (Inr r, e') \<and> policy_answer P C a now r"
  using authorize_spec [of P e a now] assms unfolding policy_answer_def engine_of_def by blast

lemma s_policy:
  assumes "fair_env P E" "stable (evolves P) A" "\<And>w. A w \<Longrightarrow> engine_of P C (w_policy w)" "validate_action P a = Inr a"
  shows "spec (evolves P) A (on_policy E (authorize a now)) (\<lambda>r w. A w \<and> policy_answer P C a now r) X"
  unfolding on_policy_def
proof (rule evo.s_bind [OF s_switch [OF assms(1,2)]])
  let ?m = "on_part w_policy (\<lambda>s w. w\<lparr> w_policy := s \<rparr>) (authorize a now)"
  have "evolves P w (snd (?m w)) \<and> (case fst (?m w) of Inl x \<Rightarrow> X x (snd (?m w))
      | Inr r \<Rightarrow> A (snd (?m w)) \<and> policy_answer P C a now r)" if A: "A w" for w
  proof -
    obtain r e where r: "authorize a now (w_policy w) = (Inr r, e)" "policy_answer P C a now r"
      using authorize_answer [OF assms(3) [OF A] assms(4), of now] by blast
    have "evolves P w (w\<lparr> w_policy := e \<rparr>)"
      using evolves_refl [of P w] authorize_manifest [of a now "w_policy w"] r(1) by (simp add: evolves_def evidence_part_def)
    with r assms(2) A show ?thesis by (simp add: on_part_def stable_def)
  qed
  then show "spec (evolves P) A ?m (\<lambda>r w. A w \<and> policy_answer P C a now r) X" by (simp add: spec_def)
qed

section \<open>Decisions\<close>

text \<open>
  A capability: the action the bytes denote, the rule of the manifest the policy found for it, a signed ALLOW
  decision for exactly this action and run, and the evidence of request and decision in the ledger.
\<close>

definition decision_for :: "prims \<Rightarrow> config \<Rightarrow> action \<Rightarrow> event \<Rightarrow> policy_result \<Rightarrow> decision \<Rightarrow> bool" where
  "decision_for P C a request result d \<longleftrightarrow>
     validate_decision P d = Inr d \<and> validate_decision_body P (d_body d) = Inr (d_body d) \<and>
     db_run_id (d_body d) = mb_run_id (m_body (cf_manifest C)) \<and> db_manifest_hash (d_body d) = m_hash (cf_manifest C) \<and>
     db_request_id (d_body d) = a_request_id a \<and> action_digest P a = Inr (db_action_sha256 (d_body d)) \<and>
     db_request_event_sequence (d_body d) = eb_sequence (ev_body request) \<and>
     db_request_event_hash (d_body d) = ev_hash request \<and> db_verdict (d_body d) = pr_verdict result \<and>
     db_matched_rule_id (d_body d) = pr_matched_rule_id result"

definition capability :: "prims \<Rightarrow> config \<Rightarrow> action \<Rightarrow> decision \<Rightarrow> world \<Rightarrow> bool" where
  "capability P C a d w \<longleftrightarrow>
     (\<exists>e rule request decided. engine_of P C e \<and> permitted e a (db_decided_at (d_body d)) rule \<and>
        decision_for P C a request (allow_result rule) d \<and>
        committed_as P w REQUEST (request_payload a (db_action_sha256 (d_body d))) (Some (a_request_id a)) None request \<and>
        committed_as P w DECISION (dump_decision d) (Some (a_request_id a)) (Some (db_decision_monotonic_ns (d_body d))) decided)"

lemma make_decision_for:
  assumes "make_decision P C a request at ns epoch result auth = Inr d"
  shows "decision_for P C a request result d \<and> db_decided_at (d_body d) = at \<and> db_decision_monotonic_ns (d_body d) = ns \<and>
    db_kill_epoch (d_body d) = epoch \<and> db_authorization_id (d_body d) = auth"
proof -
  from assms obtain digest b body where dg: "action_digest P a = Inr digest"
    and b: "validate_decision_body P b = Inr body" "db_run_id b = mb_run_id (m_body (cf_manifest C))"
      "db_manifest_hash b = m_hash (cf_manifest C)" "db_request_id b = a_request_id a" "db_action_sha256 b = digest"
      "db_request_event_sequence b = eb_sequence (ev_body request)" "db_request_event_hash b = ev_hash request"
      "db_verdict b = pr_verdict result" "db_matched_rule_id b = pr_matched_rule_id result" "db_decided_at b = at"
      "db_decision_monotonic_ns b = ns" "db_kill_epoch b = epoch" "db_authorization_id b = auth"
    and d: "sign_decision P body (cf_gateway_private_key C) = Inr d"
    unfolding make_decision_def bind_result_eq_Inr by (elim exE conjE) fastforce
  have body: "body = b" using b(1) by (simp only: validate_decision_body_def validated_Inr)
  with b(1) have "validate_decision_body P b = Inr b" by simp
  with decision_env.sign_shape [OF d] dg b(2-) body show ?thesis by (auto simp: decision_for_def)
qed


lemma s_bind_lift:
  assumes "\<And>e s. v = Inl e \<Longrightarrow> A s \<Longrightarrow> X e s" "\<And>x. v = Inr x \<Longrightarrow> spec (evolves P) A (f x) B X"
  shows "spec (evolves P) A (bind_op (lift_result v) f) B X"
proof (cases v)
  case (Inl e)
  with assms(1) show ?thesis by (simp add: spec_def op_simps evolves_refl)
next
  case (Inr x)
  then have "bind_op (lift_result v) f = f x" by (simp add: fun_eq_iff op_simps)
  with assms(2) [OF Inr] show ?thesis by simp
qed

lemma s_bind_fact:
  assumes "spec (evolves P) A m (\<lambda>x w. B w \<and> q x) X" "\<And>x. q x \<Longrightarrow> spec (evolves P) B (f x) D X"
  shows "spec (evolves P) A (bind_op m f) D X"
proof (rule evo.s_bind [OF assms(1)])
  show "spec (evolves P) (\<lambda>w. B w \<and> q x) (f x) D X" for x
    by (rule s_assume [of _ "q x"], simp, rule s_pre [OF assms(2)], simp_all)
qed

lemma stable_imp [stability]: "stable R A \<Longrightarrow> stable R (\<lambda>w. b \<longrightarrow> A w)"
  by (auto simp: stable_def)

text \<open>What \<open>decide\<close> establishes when it returns.\<close>

definition decided :: "prims \<Rightarrow> config \<Rightarrow> action \<Rightarrow> gateway_result \<Rightarrow> world \<Rightarrow> bool" where
  "decided P C a r w \<longleftrightarrow>
     (if gr_accepted r then \<exists>d. gr_action r = Some a \<and> gr_decision r = Some d \<and> capability P C a d w else stopped w)"

lemma s_kill_request:
  assumes "fair_env P E" "stable (evolves P) A" "\<And>w. A w \<Longrightarrow> world_ok P w"
  shows "spec (evolves P) A (kill_request P C E a d result) (\<lambda>r w. A w \<and> decided P C a r w) (\<lambda>_. A)"
proof -
  have com: "spec (evolves P) A (gateway_commit P E k p q u) (\<lambda>_. A) (\<lambda>_. A)" for k p q u
    by (rule s_conseq [OF s_gateway_commit [OF assms]]) auto
  have con: "spec (evolves P) A (contain P C E e u) (\<lambda>_ w. A w \<and> stopped w) (\<lambda>_. A)" for e u
    by (rule s_conseq [OF s_stop [OF assms]]) auto
  show ?thesis unfolding kill_request_def
    by (rule s_bind_lift, simp, rule evo.s_bind [OF com evo.s_bind [OF con evo.s_ret]]) (simp add: decided_def)
qed

text \<open>From the signed decision on: its commit, the counters and the answer.\<close>

lemma s_conclude:
  assumes "fair_env P E" "stable (evolves P) A" "\<And>w. A w \<Longrightarrow> world_ok P w"
    and d: "make_decision P C a request at ns epoch result auth = Inr d" and digest: "action_digest P a = Inr digest"
    and ans: "policy_answer P C a at result"
  shows "spec (evolves P) (\<lambda>w. A w \<and> committed_as P w REQUEST (request_payload a digest) (Some (a_request_id a)) None request)
    (bind_op (gateway_commit P E DECISION (dump_decision d) (Some (a_request_id a)) (Some ns)) (\<lambda>_.
     bind_op (on_state E (record_decision (pr_verdict result))) (\<lambda>_.
       if pr_verdict result = KILL then kill_request P C E a d result
       else ret_op \<lparr> gr_accepted = True, gr_reason_code = pr_reason_code result, gr_action = Some a, gr_decision = Some d \<rparr>)))
    (\<lambda>r w. A w \<and> decided P C a r w) (\<lambda>_. A)"
proof -
  let ?R = "\<lambda>w. A w \<and> committed_as P w REQUEST (request_payload a digest) (Some (a_request_id a)) None request"
  let ?D = "\<lambda>e w. ?R w \<and> committed_as P w DECISION (dump_decision d) (Some (a_request_id a)) (Some ns) e"
  note f = make_decision_for [OF d]
  have sb: "stable (evolves P) ?R" "stable (evolves P) (?D e)" for e by (intro stability assms(2))+
  have com: "spec (evolves P) ?R (gateway_commit P E DECISION (dump_decision d) (Some (a_request_id a)) (Some ns)) ?D (\<lambda>_. A)"
    by (rule s_conseq [OF s_gateway_commit [OF assms(1) sb(1)]]) (use assms(3) in auto)
  have rec: "spec (evolves P) (?D e) (on_state E (record_decision v)) (\<lambda>_. ?D e) (\<lambda>_. A)" for e v
    by (rule s_conseq [OF s_on_state [OF assms(1) sb(2) rs_methods_run(4)]]) auto
  have kill: "spec (evolves P) (?D e) (kill_request P C E a d result) (\<lambda>r w. A w \<and> decided P C a r w) (\<lambda>_. A)" for e
    by (rule s_conseq [OF s_kill_request [OF assms(1) sb(2)]]) (use assms(3) in auto)
  have cap: "capability P C a d w" if dw: "?D e w" and nk: "pr_verdict result \<noteq> KILL" for e w
  proof -
    obtain en rule where en: "engine_of P C en" "permitted en a at rule" "result = allow_result rule"
      using ans nk by (auto simp: policy_answer_def kill_result_def)
    moreover have "digest = db_action_sha256 (d_body d)" using f digest by (simp add: decision_for_def)
    ultimately show ?thesis using dw f unfolding capability_def by blast
  qed
  have ret: "spec (evolves P) (?D e)
      (ret_op \<lparr> gr_accepted = True, gr_reason_code = pr_reason_code result, gr_action = Some a, gr_decision = Some d \<rparr>)
      (\<lambda>r w. A w \<and> decided P C a r w) (\<lambda>_. A)" if "pr_verdict result \<noteq> KILL" for e
    using cap [OF _ that] by (intro evo.s_ret) (auto simp: decided_def)
  show ?thesis by (rule evo.s_bind [OF com evo.s_bind [OF rec s_if [OF kill ret]]])
qed


lemma s_decide:
  assumes "fair_env P E" "stable (evolves P) A" "\<And>w. A w \<Longrightarrow> world_ok P w"
    "\<And>w. A w \<Longrightarrow> engine_of P C (w_policy w)" "validate_action P a = Inr a"
  shows "spec (evolves P) A (decide P C E a admitted_ns) (\<lambda>r w. A w \<and> decided P C a r w) (\<lambda>_. A)"
  unfolding decide_def
proof (rule s_bind_lift, simp, goal_cases)
  case (1 digest)
  let ?R = "\<lambda>q w. A w \<and> committed_as P w REQUEST (request_payload a digest) (Some (a_request_id a)) None q"
  have sb: "stable (evolves P) (?R q)" for q by (intro stability assms(2))
  have req: "spec (evolves P) A (gateway_commit P E REQUEST (request_payload a digest) (Some (a_request_id a)) (Some admitted_ns))
      ?R (\<lambda>_. A)"
    by (rule s_conseq [OF s_gateway_commit [OF assms(1-3)]]) (auto simp: committed_as_def)
  have latch: "spec (evolves P) (?R q) (if b then bind_op (on_state E latch_kill) (\<lambda>_. ret_op ()) else ret_op ()) (\<lambda>_. ?R q) (\<lambda>_. A)" for b q
    by (intro s_if evo.s_ret) (rule s_conseq [OF evo.s_bind [OF s_latch [OF assms(1) sb] evo.s_ret]], auto)
  have epoch: "spec (evolves P) (?R q) (on_state E current_epoch) (\<lambda>_. ?R q) (\<lambda>_. A)" for q
    by (rule s_conseq [OF s_on_state [OF assms(1) sb rs_methods_run(3)]]) auto
  have auth: "spec (evolves P) (?R q) (authorization_for E v) (\<lambda>_. ?R q) (\<lambda>_. A)" for q v
    unfolding authorization_for_def by (intro s_if evo.s_ret evo.s_bind [OF s_use_env [OF sb]]) simp_all
  have pol: "spec (evolves P) (?R q) (on_policy E (authorize a now)) (\<lambda>r w. ?R q w \<and> policy_answer P C a now r) (\<lambda>_. A)" for q now
    by (rule s_policy [OF assms(1) sb _ assms(5)]) (use assms(4) in auto)
  show ?case
    by (rule evo.s_bind [OF req evo.s_bind [OF s_use_env [OF sb] evo.s_bind [OF s_use_env [OF sb] s_bind_lift
        [OF _ s_bind_fact [OF pol evo.s_bind [OF latch evo.s_bind [OF epoch evo.s_bind [OF auth
         s_bind_lift [OF _ s_conclude [OF assms(1-3) _ 1]]]]]]]]]]) auto
qed


lemma admit_dropped: "admit raw now s = (Inr DROPPED_AFTER_KILL, t) \<Longrightarrow> rs_phase t \<noteq> PhRunning"
  by (auto simp: admit_def Let_def split: if_splits)

definition answered :: "prims \<Rightarrow> config \<Rightarrow> bytes \<Rightarrow> gateway_result \<Rightarrow> world \<Rightarrow> bool" where
  "answered P C raw r w \<longleftrightarrow>
     (if gr_accepted r
      then \<exists>a d. from_wire P (InBytes raw) = Inr a \<and> gr_action r = Some a \<and> gr_decision r = Some d \<and> capability P C a d w
      else stopped w)"

lemma s_submit_raw:
  assumes "fair_env P E" "stable (evolves P) A" "\<And>w. A w \<Longrightarrow> world_ok P w" "\<And>w. A w \<Longrightarrow> engine_of P C (w_policy w)"
  shows "spec (evolves P) A (submit_raw P C E raw) (\<lambda>r w. A w \<and> answered P C raw r w) (\<lambda>_. A)"
proof -
  let ?B = "\<lambda>r w. A w \<and> answered P C raw r w"
  have refuse: "spec (evolves P) A m (\<lambda>r w. A w \<and> stopped w \<and> \<not> gr_accepted r) (\<lambda>_ w. A w \<and> stopped w) \<Longrightarrow>
      spec (evolves P) A m ?B (\<lambda>_. A)" for m
    by (erule s_conseq) (auto simp: answered_def)
  have adm: "spec (evolves P) A (on_state E (admit n t)) (\<lambda>x w. A w \<and> (x = DROPPED_AFTER_KILL \<longrightarrow> stopped w)) (\<lambda>_. A)" for n t
    by (rule s_conseq [OF s_on_state [OF assms(1,2) rs_methods_run(1)]]) (auto dest: admit_dropped)
  have drop: "spec (evolves P) (\<lambda>w. A w \<and> (x = DROPPED_AFTER_KILL \<longrightarrow> stopped w)) (ret_op (refusal q)) ?B (\<lambda>_. A)"
    if "x = DROPPED_AFTER_KILL" for x q
    using that by (intro evo.s_ret) (simp add: answered_def refusal_def)
  have go: "spec (evolves P) A (case from_wire P (InBytes raw) of Inl _ \<Rightarrow> invalid_request P C E raw t | Inr a \<Rightarrow> decide P C E a t)
      ?B (\<lambda>_. A)" for t
  proof (cases "from_wire P (InBytes raw)")
    case (Inl x)
    then show ?thesis using refuse [OF s_invalid_request [OF assms(1-3)]] by simp
  next
    case (Inr a)
    have "decided P C a r w \<Longrightarrow> answered P C raw r w" for r w
      using Inr by (simp add: answered_def decided_def split: if_splits)
    then have "spec (evolves P) A (decide P C E a t) ?B (\<lambda>_. A)"
      by (intro s_conseq [OF s_decide [OF assms from_wire_valid [OF Inr]]]) auto
    with Inr show ?thesis by simp
  qed
  have branch: "spec (evolves P) (\<lambda>w. A w \<and> (x = DROPPED_AFTER_KILL \<longrightarrow> stopped w))
      (case x of DROPPED_AFTER_KILL \<Rightarrow> ret_op (refusal (lit ''run.not_dispatchable''))
       | FIRST_OVERLOAD \<Rightarrow> overload_kill P C E raw t
       | ADMITTED \<Rightarrow> (case from_wire P (InBytes raw) of Inl _ \<Rightarrow> invalid_request P C E raw t | Inr a \<Rightarrow> decide P C E a t))
      ?B (\<lambda>_. A)" for x t
    using drop [of x] s_pre [OF go [of t]] s_pre [OF refuse [OF s_overload_kill [OF assms(1-3)]]] by (cases x) auto
  show ?thesis unfolding submit_raw_def
    by (rule evo.s_bind [OF s_use_env [OF assms(2)] evo.s_bind [OF evo.s_get [where B = "\<lambda>_. A"]
        s_if [OF refuse [OF s_deadline_exceeded [OF assms(1-3)]] evo.s_bind [OF adm branch]]]]) simp
qed

lemma s_fail_closed:
  assumes "fair_env P E" "stable (evolves P) A" "\<And>w. A w \<Longrightarrow> world_ok P w"
  shows "spec (evolves P) A (fail_closed P C E reason req)
    (\<lambda>_ w. A w \<and> rs_phase (w_state w) = PhKilled) (\<lambda>_ w. A w \<and> stopped w)"
proof -
  let ?S = "\<lambda>w. A w \<and> stopped w"
  have st: "stable (evolves P) ?S" by (intro stability assms(2))
  have ok: "\<And>w. ?S w \<Longrightarrow> world_ok P w" using assms(3) by blast
  have com: "spec (evolves P) ?S (gateway_commit P E k p q u) (\<lambda>_. ?S) (\<lambda>_. ?S)" for k p q u
    by (rule s_conseq [OF s_gateway_commit [OF assms(1) st ok]]) auto
  have evs: "spec (evolves P) ?S (bind_op (get_op (\<lambda>w. ld_events (w_ledger w))) (\<lambda>events.
      if events = [] then raise_op x else ret_op (last events))) (\<lambda>_. ?S) (\<lambda>_. ?S)" for x
    by (rule evo.s_bind [OF evo.s_get [where B = "\<lambda>_. ?S"] s_if [OF evo.s_raise evo.s_ret]]) auto
  have con: "spec (evolves P) ?S (contain P C E e u) (\<lambda>_ w. A w \<and> rs_phase (w_state w) = PhKilled) (\<lambda>_. ?S)" for e u
    by (rule s_conseq [OF s_contain [OF assms(1) st ok]]) auto
  show ?thesis unfolding fail_closed_def
    by (rule evo.s_bind [OF s_use_env [OF assms(2)] evo.s_bind [OF s_latch [OF assms(1,2)] evo.s_bind [OF
         evo.s_try [OF com evo.s_bind [OF s_switch [OF assms(1) st] evs]] evo.s_bind [OF con evo.s_ret]]]]) simp
qed


section \<open>Properties\<close>

text \<open>
  C2. Complete mediation. For any bytes, other threads, clocks, backend and file errors, when \<open>submit_raw\<close>
  returns: an accepted answer carries an action read from these bytes and an ALLOW decision in a valid envelope (the hash
  of its body and a signature that names the key of its body; the executor verifies the signature itself)
  bound to it, to this run and to the recorded request; a rule of the manifest permits the action under the
  policy; and both the REQUEST and the DECISION event are in the ledger. A refusal leaves the run stopped.
\<close>

theorem gateway_mediates:
  assumes "fair_env P E" "world_ok P w" "engine_of P C (w_policy w)" "submit_raw P C E raw w = (Inr r, w')"
  shows "evolves P w w' \<and>
    (if gr_accepted r
     then \<exists>a d e rule request decided.
       from_wire P (InBytes raw) = Inr a \<and> gr_action r = Some a \<and> gr_decision r = Some d \<and>
       engine_of P C e \<and> permitted e a (db_decided_at (d_body d)) rule \<and>
       db_verdict (d_body d) = ALLOW \<and> db_matched_rule_id (d_body d) = Some (rule_id rule) \<and>
       validate_decision P d = Inr d \<and> db_run_id (d_body d) = mb_run_id (m_body (cf_manifest C)) \<and>
       db_manifest_hash (d_body d) = m_hash (cf_manifest C) \<and> db_request_id (d_body d) = a_request_id a \<and>
       action_digest P a = Inr (db_action_sha256 (d_body d)) \<and> db_request_event_hash (d_body d) = ev_hash request \<and>
       committed_as P w' REQUEST (request_payload a (db_action_sha256 (d_body d))) (Some (a_request_id a)) None request \<and>
       committed_as P w' DECISION (dump_decision d) (Some (a_request_id a)) (Some (db_decision_monotonic_ns (d_body d))) decided
     else stopped w')"
proof -
  let ?A = "\<lambda>w. world_ok P w \<and> engine_of P C (w_policy w)"
  have st: "stable (evolves P) ?A" by (intro stability)
  have r: "evolves P w w'" "answered P C raw r w'"
    using specD [OF s_submit_raw [OF assms(1) st] _ assms(4)] assms(2,3) by auto
  show ?thesis
  proof (cases "gr_accepted r")
    case True
    with r(2) obtain a d where "from_wire P (InBytes raw) = Inr a" "gr_action r = Some a" "gr_decision r = Some d"
      "capability P C a d w'" by (auto simp: answered_def)
    with True r(1) show ?thesis
      by (simp add: capability_def decision_for_def allow_result_def) blast
  next
    case False
    with r show ?thesis by (simp add: answered_def)
  qed
qed

text \<open>
  C17. Evidence failures stop the run: when the gateway's \<open>_commit\<close> raises, for whatever reason, the run is no
  longer running; and \<open>fail_closed\<close> leaves it killed when it returns and stopped when it raises.
\<close>

theorem gateway_fails_closed:
  assumes "fair_env P E" "world_ok P w"
  shows "(\<forall>x w'. gateway_commit P E kind payload req at w = (Inl x, w') \<longrightarrow> stopped w') \<and>
    (\<forall>r w'. fail_closed P C E reason req w = (r, w') \<longrightarrow> stopped w' \<and> (r = Inr () \<longrightarrow> rs_phase (w_state w') = PhKilled))"
proof (intro conjI allI impI)
  fix x w' assume "gateway_commit P E kind payload req at w = (Inl x, w')"
  from specD [OF s_gateway_commit [OF assms(1) stable_ok] assms(2) this] show "stopped w'" by simp
next
  fix r w' assume "fail_closed P C E reason req w = (r, w')"
  from specD [OF s_fail_closed [OF assms(1) stable_ok] assms(2) this] show "stopped w'" by (auto split: sum.splits)
next
  fix r w' assume "fail_closed P C E reason req w = (r, w')" "r = Inr ()"
  from specD [OF s_fail_closed [OF assms(1) stable_ok] assms(2) this(1)] this(2) show "rs_phase (w_state w') = PhKilled" by simp
qed

end
