(* ===== verification/BCP_Executor.thy ===== *)
theory BCP_Executor
  imports BCP_Gateway
begin

text \<open>
  The executor of \<^verbatim>\<open>app/executor.py\<close>: the credential broker and \<open>dispatch\<close>, which verifies a decision,
  consumes it through the run state with the DISPATCH evidence committed under the same lock, releases the
  credential, calls the transport, and commits the RESULT. \<open>fail_closed\<close> is the gateway's and \<open>mirror\<close> the
  supervisor's \<open>commit_observation\<close>, as the factory wires them. The in-flight registry is in the theory of
  the world.
\<close>

section \<open>Operations\<close>

definition release :: "config \<Rightarrow> action \<Rightarrow> bytes option result" where
  "release C a =
     (case a_credential_id a of
        None \<Rightarrow> Inr None
      | Some cid \<Rightarrow>
          (case find (\<lambda>g. credential_id g = cid) (mb_credentials (m_body (cf_manifest C))) of
             None \<Rightarrow> Inl (PermissionError ''credential is not releasable for this action'')
           | Some grant \<Rightarrow>
               if is_canary grant \<or> audience grant \<noteq> a_host a
               then Inl (PermissionError ''credential is not releasable for this action'')
               else (case cf_secrets C (broker_ref grant) of
                       None \<Rightarrow> Inl (PermissionError ''credential broker reference is unavailable'')
                     | Some secret \<Rightarrow> Inr (Some secret))))"

text \<open>The binding check; the digest is computed only when the three identifiers agree.\<close>

definition check_binding :: "prims \<Rightarrow> config \<Rightarrow> action \<Rightarrow> decision \<Rightarrow> unit result" where
  "check_binding P C a d =
     (if db_run_id (d_body d) \<noteq> mb_run_id (m_body (cf_manifest C)) \<or> db_manifest_hash (d_body d) \<noteq> m_hash (cf_manifest C) \<or>
         db_request_id (d_body d) \<noteq> a_request_id a
      then Inl (PermissionError ''decision is not bound to this action and run'')
      else bind_result (action_digest P a) (\<lambda>digest.
        if db_action_sha256 (d_body d) \<noteq> digest
        then Inl (PermissionError ''decision is not bound to this action and run'') else Inr ()))"

definition matched_rule :: "config \<Rightarrow> decision \<Rightarrow> egress_rule result" where
  "matched_rule C d =
     (case find (\<lambda>r. Some (rule_id r) = db_matched_rule_id (d_body d)) (mb_allowed_egress (m_body (cf_manifest C))) of
        None \<Rightarrow> Inl StopIteration | Some rule \<Rightarrow> Inr rule)"

definition commit_dispatch :: "prims \<Rightarrow> env \<Rightarrow> action \<Rightarrow> decision \<Rightarrow> (world, unit) op" where
  "commit_dispatch P E a d =
     bind_op (lift_result (action_digest P a)) (\<lambda>digest.
     bind_op (commit_now P E DISPATCH (dispatch_payload digest d) (Some (a_request_id a)) None) (\<lambda>_. ret_op ()))"

definition result_payload :: "pystr \<Rightarrow> decision \<Rightarrow> transport_result \<Rightarrow> pyval" where
  "result_payload digest d r =
     obj [(''action_sha256'', PStr digest), (''authorization_id'', opt_str (db_authorization_id (d_body d))),
          (''decision_hash'', PStr (d_hash d)), (''kill_epoch'', PInt (db_kill_epoch (d_body d))),
          (''response_bytes'', PInt (tr_response_bytes r)), (''response_sha256'', PStr (tr_response_sha256 r)),
          (''status_code'', PInt (tr_status_code r))]"

definition commit_result :: "prims \<Rightarrow> env \<Rightarrow> action \<Rightarrow> decision \<Rightarrow> transport_result \<Rightarrow> (world, unit) op" where
  "commit_result P E a d r =
     bind_op (lift_result (action_digest P a)) (\<lambda>digest.
     bind_op (commit_now P E RESULT (result_payload digest d r) (Some (a_request_id a)) None) (\<lambda>_. ret_op ()))"

definition begin_dispatch :: "prims \<Rightarrow> env \<Rightarrow> action \<Rightarrow> decision \<Rightarrow> int \<Rightarrow> egress_rule \<Rightarrow> (world, dispatch_lease) op" where
  "begin_dispatch P E a d now_ns rule =
     bind_op (switch E) (\<lambda>_.
       begin_authorized w_state (\<lambda>s w. w\<lparr> w_state := s \<rparr>) (d_body d) now_ns (max_response_bytes rule) (commit_dispatch P E a d))"

text \<open>The call of the transport is logged; other threads run while it is under way.\<close>

definition call_transport :: "env \<Rightarrow> action \<Rightarrow> bytes option \<Rightarrow> int \<Rightarrow> (world, transport_result) op" where
  "call_transport E a secret bound =
     bind_op (modify_op (\<lambda>w. w\<lparr> w_sent := w_sent w @ [(a, secret, bound)] \<rparr>)) (\<lambda>_.
     bind_op (switch E) (\<lambda>_.
     bind_op (use_env (e_transport E)) lift_result))"

definition finish_dispatch ::
  "prims \<Rightarrow> env \<Rightarrow> action \<Rightarrow> decision \<Rightarrow> dispatch_lease \<Rightarrow> transport_result \<Rightarrow> (world, unit) op" where
  "finish_dispatch P E a d lease r =
     bind_op (switch E) (\<lambda>_.
       finish_authorized w_state (\<lambda>s w. w\<lparr> w_state := s \<rparr>) lease (tr_response_bytes r) (commit_result P E a d r))"

definition leased :: "prims \<Rightarrow> config \<Rightarrow> env \<Rightarrow> action \<Rightarrow> decision \<Rightarrow> egress_rule \<Rightarrow> dispatch_lease \<Rightarrow> (world, transport_result) op" where
  "leased P C E a d rule lease =
     bind_op (lift_result (release C a)) (\<lambda>secret.
     bind_op (call_transport E a secret (max_response_bytes rule)) (\<lambda>r.
       if tr_response_bytes r > max_response_bytes rule then raise_op (RuntimeError ''transport exceeded response byte bound'')
       else bind_op (finish_dispatch P E a d lease r) (\<lambda>_. ret_op r)))"

text \<open>The \<open>except\<close> block, with the lease if there is one by then.\<close>

definition dispatch_failed ::
  "prims \<Rightarrow> config \<Rightarrow> env \<Rightarrow> action \<Rightarrow> nat \<Rightarrow> dispatch_lease option \<Rightarrow> exn \<Rightarrow> (world, 'a) op" where
  "dispatch_failed P C E a cancel lease x =
     bind_op (case lease of None \<Rightarrow> ret_op () | Some l \<Rightarrow> on_state E (abort_authorized l)) (\<lambda>_.
     bind_op (switch E) (\<lambda>_.
     bind_op (get_op (\<lambda>w. is_set cancel (w_registry w))) (\<lambda>cancelled.
       if cancelled then raise_op (PermissionError ''dispatch cancelled by containment'')
       else bind_op (fail_closed P C E (lit ''executor.atomic_dispatch_failed'') (Some (a_request_id a))) (\<lambda>_.
         raise_op x))))"

text \<open>\<open>finally\<close> with an operation that does not raise.\<close>

definition with_finally :: "('s, 'a) op \<Rightarrow> ('s, unit) op \<Rightarrow> ('s, 'a) op" where
  "with_finally m cleanup =
     bind_op (try_op (bind_op m (\<lambda>x. ret_op (Inr x))) (\<lambda>e. ret_op (Inl e))) (\<lambda>r.
     bind_op cleanup (\<lambda>_. lift_result r))"

definition registered_dispatch ::
  "prims \<Rightarrow> config \<Rightarrow> env \<Rightarrow> action \<Rightarrow> decision \<Rightarrow> int \<Rightarrow> egress_rule \<Rightarrow> nat \<Rightarrow> (world, transport_result) op" where
  "registered_dispatch P C E a d now_ns rule cancel =
     bind_op (try_op (begin_dispatch P E a d now_ns rule) (dispatch_failed P C E a cancel None)) (\<lambda>lease.
       try_op (leased P C E a d rule lease) (dispatch_failed P C E a cancel (Some lease)))"

definition dispatch :: "prims \<Rightarrow> config \<Rightarrow> env \<Rightarrow> action \<Rightarrow> decision \<Rightarrow> int \<Rightarrow> (world, transport_result) op" where
  "dispatch P C E a d now_ns =
     bind_op (lift_result (verify_decision P (mb_gateway_key (m_body (cf_manifest C))) d)) (\<lambda>_.
     bind_op (lift_result (check_binding P C a d)) (\<lambda>_.
     bind_op (lift_result (matched_rule C d)) (\<lambda>rule.
       case db_authorization_id (d_body d) of
         None \<Rightarrow> raise_op (PermissionError ''decision has no authorization ID'')
       | Some aid \<Rightarrow>
           bind_op (on_registry E (register aid)) (\<lambda>cancel.
             with_finally (registered_dispatch P C E a d now_ns rule cancel)
               (on_registry E (\<lambda>g. (Inr (), unregister aid g)))))))"


section \<open>Dispatch under the state lock\<close>

text \<open>A callback that neither reads nor writes the run state.\<close>

definition state_free :: "(world, unit) op \<Rightarrow> bool" where
  "state_free cb \<longleftrightarrow> (\<forall>s w. cb (w\<lparr> w_state := s \<rparr>) = (fst (cb w), (snd (cb w))\<lparr> w_state := s \<rparr>)) \<and>
     (\<forall>w. w_state (snd (cb w)) = w_state w)"

lemma commit_now_free:
  "commit_now P E k p q t (w\<lparr> w_state := s \<rparr>) =
     (fst (commit_now P E k p q t w), (snd (commit_now P E k p q t w))\<lparr> w_state := s \<rparr>)"
  by (cases t) (auto simp: commit_now_def use_env_def on_part_def evidence_part_def put_evidence_def op_simps split: prod.splits)

lemma free_commit: "state_free (bind_op (commit_now P E k p q t) (\<lambda>_. ret_op ()))"
proof -
  have "bind_op (commit_now P E k p q t) (\<lambda>_. ret_op ()) (w\<lparr> w_state := s \<rparr>) =
      (fst (bind_op (commit_now P E k p q t) (\<lambda>_. ret_op ()) w),
       (snd (bind_op (commit_now P E k p q t) (\<lambda>_. ret_op ()) w))\<lparr> w_state := s \<rparr>) \<and>
    w_state (snd (bind_op (commit_now P E k p q t) (\<lambda>_. ret_op ()) w)) = w_state w" for s w
  proof -
    obtain r v where c: "commit_now P E k p q t w = (r, v)" by fastforce
    have "w_state v = w_state w" using commit_now_state [of P E k p q t w] c by simp
    with commit_now_free [where w = w and s = s, of P E k p q t] c show ?thesis by (cases r) (simp_all add: bind_op_def ret_op_def)
  qed
  then show ?thesis by (simp add: state_free_def)
qed

lemma callbacks_free: "state_free (commit_dispatch P E a d)" "state_free (commit_result P E a d r)"
proof -
  have free: "state_free (bind_op (lift_result v) (\<lambda>digest. bind_op (commit_now P E k (p digest) q t) (\<lambda>_. ret_op ())))"
    for v :: "pystr result" and k p q t
  proof (cases v)
    case (Inl x)
    then show ?thesis by (simp add: state_free_def bind_op_def lift_result_def)
  next
    case (Inr digest)
    then have "bind_op (lift_result v) (\<lambda>digest. bind_op (commit_now P E k (p digest) q t) (\<lambda>_. ret_op ())) =
        bind_op (commit_now P E k (p digest) q t) (\<lambda>_. ret_op ())"
      by (simp add: fun_eq_iff bind_op_def lift_result_def)
    with free_commit show ?thesis by simp
  qed
  show "state_free (commit_dispatch P E a d)" "state_free (commit_result P E a d r)"
    unfolding commit_dispatch_def commit_result_def by (rule free)+
qed

abbreviation begin_world :: "decision_body \<Rightarrow> int \<Rightarrow> int \<Rightarrow> (world, unit) op \<Rightarrow> (world, dispatch_lease) op" where
  "begin_world \<equiv> begin_authorized w_state (\<lambda>s w. w\<lparr> w_state := s \<rparr>)"

abbreviation finish_world :: "dispatch_lease \<Rightarrow> int \<Rightarrow> (world, unit) op \<Rightarrow> (world, unit) op" where
  "finish_world \<equiv> finish_authorized w_state (\<lambda>s w. w\<lparr> w_state := s \<rparr>)"

lemma begin_world_cases:
  assumes "state_free cb" "begin_world body now reserve cb w = (r, w')"
  shows "(\<exists>tr. rs_run (w_state w) tr (w_state w')) \<and>
    ((\<exists>s x. r = Inl x \<and> w' = w\<lparr> w_state := s \<rparr>) \<or>
     (\<exists>s. w' = (snd (cb w))\<lparr> w_state := s \<rparr> \<and> (\<forall>l. r = Inr l \<longrightarrow> fst (cb w) = Inr ())))"
proof (intro conjI)
  have keep: "w_state (snd (cb v)) = w_state v" for v using assms(1) by (simp add: state_free_def)
  show "\<exists>tr. rs_run (w_state w) tr (w_state w')"
    using host.begin_hosted [of cb body now reserve w] keep assms(2) rs_methods_run(8) by (metis snd_conv)
  have cb: "cb (w\<lparr> w_state := s \<rparr>) = (fst (cb w), (snd (cb w))\<lparr> w_state := s \<rparr>)" for s using assms(1) by (simp add: state_free_def)
  show "(\<exists>s x. r = Inl x \<and> w' = w\<lparr> w_state := s \<rparr>) \<or>
     (\<exists>s. w' = (snd (cb w))\<lparr> w_state := s \<rparr> \<and> (\<forall>l. r = Inr l \<longrightarrow> fst (cb w) = Inr ()))"
  proof (cases "begin_guard body now (w_state w)")
    case (Inl x)
    with assms(2) show ?thesis by (intro disjI1 exI [of _ "w_state w"]) (auto simp: begin_authorized_def)
  next
    case (Inr aid)
    with assms(2) cb show ?thesis
      by (auto simp: begin_authorized_def split: if_splits sum.splits)
  qed
qed

lemma begin_world_allow: "begin_world body now reserve cb w = (Inr l, w') \<Longrightarrow> db_verdict body = ALLOW"
  using begin_guard_Inr by (auto simp: begin_authorized_def split: sum.splits)


lemma finish_world_cases:
  assumes "state_free cb" "finish_world lease egress cb w = (r, w')"
  shows "(\<exists>tr. rs_run (w_state w) tr (w_state w')) \<and>
    ((\<exists>s x. r = Inl x \<and> w' = w\<lparr> w_state := s \<rparr>) \<or>
     (\<exists>s. w' = (snd (cb w))\<lparr> w_state := s \<rparr> \<and> (\<forall>u. r = Inr u \<longrightarrow> fst (cb w) = Inr ())))"
proof (intro conjI)
  have keep: "w_state (snd (cb v)) = w_state v" for v using assms(1) by (simp add: state_free_def)
  show "\<exists>tr. rs_run (w_state w) tr (w_state w')"
    using host.finish_hosted [of cb lease egress w] keep assms(2) rs_methods_run(9) by (metis snd_conv)
  show "(\<exists>s x. r = Inl x \<and> w' = w\<lparr> w_state := s \<rparr>) \<or>
     (\<exists>s. w' = (snd (cb w))\<lparr> w_state := s \<rparr> \<and> (\<forall>u. r = Inr u \<longrightarrow> fst (cb w) = Inr ()))"
  proof (cases "rs_active (w_state w) (lease_authorization_id lease)")
    case None
    with assms(2) show ?thesis by (intro disjI1 exI [of _ "w_state w"]) (auto simp: finish_authorized_def)
  next
    case (Some reserved)
    obtain q v where cb: "cb w = (q, v)" by fastforce
    have "\<exists>s. v = v\<lparr> w_state := s \<rparr>" by (intro exI [of _ "w_state v"]) simp
    with Some assms(2) cb show ?thesis
      by (auto simp: finish_authorized_def split: if_splits sum.splits)
  qed
qed

lemma hosted_evolves:
  assumes "state_free cb" "guarantees (evolves P) cb" "rs_run (w_state w) tr (w_state w')"
    "w' = w\<lparr> w_state := s \<rparr> \<or> w' = (snd (cb w))\<lparr> w_state := s \<rparr>"
  shows "evolves P w w'"
  using assms(4)
proof
  assume "w' = w\<lparr> w_state := s \<rparr>"
  with assms(3) evolves_state [of w tr s P] show ?thesis by simp
next
  assume w': "w' = (snd (cb w))\<lparr> w_state := s \<rparr>"
  have "w_state (snd (cb w)) = w_state w" using assms(1) by (simp add: state_free_def)
  then have "evolves P (snd (cb w)) w'" using evolves_state [of "snd (cb w)" tr s P] assms(3) w' by simp
  moreover have "evolves P w (snd (cb w))" using assms(2) by (simp add: guarantees_def)
  ultimately show ?thesis using evolves_trans by blast
qed

text \<open>What a callback records is recorded after the locked section.\<close>

lemma s_commit_cb:
  assumes "stable (evolves P) A"
  shows "spec (evolves P) A (bind_op (lift_result v) (\<lambda>digest. bind_op (commit_now P E k (p digest) q None) (\<lambda>_. ret_op ())))
    (\<lambda>_ w. A w \<and> (\<exists>digest e. v = Inr digest \<and> recorded_in P (w_ledger w) k (p digest) q e)) (\<lambda>_. A)"
proof (rule s_bind_lift, simp)
  fix digest assume "v = Inr digest"
  then show "spec (evolves P) A (bind_op (commit_now P E k (p digest) q None) (\<lambda>_. ret_op ()))
      (\<lambda>_ w. A w \<and> (\<exists>digest e. v = Inr digest \<and> recorded_in P (w_ledger w) k (p digest) q e)) (\<lambda>_. A)"
    by (intro evo.s_bind [OF s_commit_now [OF assms] evo.s_ret]) (auto simp: committed_as_def recorded_in_def)
qed

lemma s_hosted:
  assumes "spec (evolves P) A cb (\<lambda>_ w. A w \<and> Q w) (\<lambda>_. A)" "stable (evolves P) A" "state_free cb" "guarantees (evolves P) cb"
    "\<And>w s. Q (w\<lparr> w_state := s \<rparr>) = Q w"
    "\<And>w r w'. m w = (r, w') \<Longrightarrow> (\<exists>tr. rs_run (w_state w) tr (w_state w')) \<and>
      ((\<exists>s x. r = Inl x \<and> w' = w\<lparr> w_state := s \<rparr>) \<or>
       (\<exists>s. w' = (snd (cb w))\<lparr> w_state := s \<rparr> \<and> (\<forall>l. r = Inr l \<longrightarrow> fst (cb w) = Inr ())))"
  shows "spec (evolves P) A m (\<lambda>_ w. A w \<and> Q w) (\<lambda>_. A)"
  unfolding spec_def
proof (intro allI impI)
  fix w assume A: "A w"
  obtain r w' where m: "m w = (r, w')" by fastforce
  obtain tr where run: "rs_run (w_state w) tr (w_state w')" using assms(6) [OF m] by blast
  have ev: "evolves P w w'" using assms(6) [OF m] hosted_evolves [OF assms(3,4) run] by blast
  have "Q w'" if r: "r = Inr l" for l
  proof -
    obtain s where s: "w' = (snd (cb w))\<lparr> w_state := s \<rparr>" "fst (cb w) = Inr ()" using assms(6) [OF m] r by auto
    have "Q (snd (cb w))" using assms(1) A s(2) by (auto simp: spec_def split: sum.splits)
    with s(1) assms(5) show ?thesis by simp
  qed
  with m ev A assms(2) show "evolves P w (snd (m w)) \<and> (case fst (m w) of Inl e \<Rightarrow> A (snd (m w)) | Inr x \<Rightarrow> A (snd (m w)) \<and> Q (snd (m w)))"
    by (cases r) (auto simp: stable_def)
qed


lemma stable_ex [stability]: "(\<And>x. stable R (A x)) \<Longrightarrow> stable R (\<lambda>w. \<exists>x. A x w)"
  by (fastforce simp: stable_def)

lemma stable_recorded_in [stability]: "stable (evolves P) (\<lambda>w. recorded_in Q (w_ledger w) k p q e)"
  using stable_recorded [of P e] by (auto simp: stable_def recorded_in_def)

lemma stable_manifest [stability]: "stable (evolves P) (\<lambda>w. ld_manifest (w_ledger w) = m)"
  by (auto simp: stable_def evolves_def evidence_part_def ledger_extends_def dest!: evidence_run_extends)

lemma g_callbacks: "guarantees (evolves P) (commit_dispatch P E a d)" "guarantees (evolves P) (commit_result P E a d r)"
  unfolding commit_dispatch_def commit_result_def by (intro evo.g_bind evo.g_lift g_commit_now evo.g_ret)+

lemma s_pure: "spec R A m B X \<Longrightarrow> (\<And>w x w'. A w \<Longrightarrow> m w = (Inr x, w') \<Longrightarrow> q) \<Longrightarrow> spec R A m (\<lambda>x w. B x w \<and> q) X"
  unfolding spec_def by (force split: sum.splits simp: prod_eq_iff)

text \<open>The DISPATCH evidence of an action.\<close>

definition dispatch_recorded :: "prims \<Rightarrow> action \<Rightarrow> decision \<Rightarrow> world \<Rightarrow> bool" where
  "dispatch_recorded P a d w \<longleftrightarrow>
     (\<exists>digest e. action_digest P a = Inr digest \<and> recorded_in P (w_ledger w) DISPATCH (dispatch_payload digest d) (Some (a_request_id a)) e)"

definition result_recorded :: "prims \<Rightarrow> action \<Rightarrow> decision \<Rightarrow> transport_result \<Rightarrow> world \<Rightarrow> bool" where
  "result_recorded P a d r w \<longleftrightarrow>
     (\<exists>digest e. action_digest P a = Inr digest \<and> recorded_in P (w_ledger w) RESULT (result_payload digest d r) (Some (a_request_id a)) e)"

lemma stable_evidence [stability]:
  "stable (evolves P) (dispatch_recorded Q a d)" "stable (evolves P) (result_recorded Q a d r)"
  unfolding dispatch_recorded_def result_recorded_def by (intro stability)+

lemma s_begin_dispatch:
  assumes "fair_env P E" "stable (evolves P) A"
  shows "spec (evolves P) A (begin_dispatch P E a d now rule)
    (\<lambda>_ w. (A w \<and> dispatch_recorded P a d w) \<and> db_verdict (d_body d) = ALLOW) (\<lambda>_. A)"
  unfolding begin_dispatch_def
proof (rule evo.s_bind [OF s_switch [OF assms] s_pure], rule s_hosted [OF _ assms(2) callbacks_free(1) g_callbacks(1)])
  show "spec (evolves P) A (commit_dispatch P E a d) (\<lambda>_ w. A w \<and> dispatch_recorded P a d w) (\<lambda>_. A)"
    unfolding commit_dispatch_def dispatch_recorded_def by (rule s_commit_cb [OF assms(2)])
  show "dispatch_recorded P a d (w\<lparr> w_state := s \<rparr>) = dispatch_recorded P a d w" for w s by (simp add: dispatch_recorded_def)
qed (erule begin_world_cases [OF callbacks_free(1)], erule begin_world_allow)

lemma s_begin_stopped:
  assumes "fair_env P E" "stable (evolves P) A" "\<And>w. A w \<Longrightarrow> stopped w"
  shows "spec (evolves P) A (begin_dispatch P E a d now rule) (\<lambda>_ _. False) (\<lambda>_. A)"
  unfolding begin_dispatch_def
proof (rule evo.s_bind [OF s_switch [OF assms(1,2)]])
  show "spec (evolves P) A (begin_world b now n cb) (\<lambda>_ _. False) (\<lambda>_. A)" for b n cb
    using assms(3) by (auto simp: spec_def begin_authorized_def begin_guard_def evolves_refl)
qed

lemma s_finish_dispatch:
  assumes "fair_env P E" "stable (evolves P) A"
  shows "spec (evolves P) A (finish_dispatch P E a d lease r) (\<lambda>_ w. A w \<and> result_recorded P a d r w) (\<lambda>_. A)"
  unfolding finish_dispatch_def
proof (rule evo.s_bind [OF s_switch [OF assms]], rule s_hosted [OF _ assms(2) callbacks_free(2) g_callbacks(2)])
  show "spec (evolves P) A (commit_result P E a d r) (\<lambda>_ w. A w \<and> result_recorded P a d r w) (\<lambda>_. A)"
    unfolding commit_result_def result_recorded_def by (rule s_commit_cb [OF assms(2)])
  show "result_recorded P a d r (w\<lparr> w_state := s \<rparr>) = result_recorded P a d r w" for w s by (simp add: result_recorded_def)
qed (fact finish_world_cases [OF callbacks_free(2)])

section \<open>Transport and failure\<close>

lemma release_Inr:
  assumes "release C a = Inr secret"
  shows "releasable (cf_manifest C) a \<and> (a_credential_id a = None \<longrightarrow> secret = None)"
  using assms by (auto simp: release_def releasable_def find_Some_iff split: option.splits if_splits)

lemma check_binding_Inr:
  "check_binding P C a d = Inr () \<Longrightarrow> db_run_id (d_body d) = mb_run_id (m_body (cf_manifest C)) \<and>
     db_manifest_hash (d_body d) = m_hash (cf_manifest C) \<and> db_request_id (d_body d) = a_request_id a \<and>
     action_digest P a = Inr (db_action_sha256 (d_body d))"
  by (auto simp: check_binding_def split: if_splits)

lemma matched_rule_Inr:
  assumes "matched_rule C d = Inr rule"
  shows "rule \<in> set (mb_allowed_egress (m_body (cf_manifest C))) \<and> db_matched_rule_id (d_body d) = Some (rule_id rule)"
  using assms by (auto simp: matched_rule_def find_Some_iff split: option.splits)


lemma s_call_transport:
  assumes "fair_env P E" "stable (evolves P) A" "\<And>w. A w \<Longrightarrow> sent_justified P (w_ledger w) (a, secret, bound)"
  shows "spec (evolves P) A (call_transport E a secret bound) (\<lambda>_. A) (\<lambda>_. A)"
proof -
  have log: "spec (evolves P) A (modify_op (\<lambda>w. w\<lparr> w_sent := w_sent w @ [(a, secret, bound)] \<rparr>)) (\<lambda>_. A) (\<lambda>_. A)"
    using assms(2) evolves_sent [OF assms(3)] by (intro evo.s_modify) (auto simp: stable_def)
  show ?thesis unfolding call_transport_def
    by (rule evo.s_bind [OF log evo.s_bind [OF s_switch [OF assms(1,2)] evo.s_bind [OF s_use_env [OF assms(2)] evo.s_lift]]]) auto
qed

lemma s_leased:
  assumes "fair_env P E" "stable (evolves P) A" "\<And>w. A w \<Longrightarrow> ld_manifest (w_ledger w) = cf_manifest C"
    "\<And>w. A w \<Longrightarrow> dispatch_recorded P a d w" "decision_bound P (cf_manifest C) a d" "db_verdict (d_body d) = ALLOW"
    "matched_rule C d = Inr rule"
  shows "spec (evolves P) A (leased P C E a d rule lease) (\<lambda>r w. A w \<and> result_recorded P a d r w) (\<lambda>_. A)"
  unfolding leased_def
proof (rule s_bind_lift, simp)
  fix secret assume rel: "release C a = Inr secret"
  have just: "sent_justified P (w_ledger w) (a, secret, max_response_bytes rule)" if A: "A w" for w
  proof -
    obtain e where "recorded_in P (w_ledger w) DISPATCH (dispatch_payload (db_action_sha256 (d_body d)) d) (Some (a_request_id a)) e"
      using assms(4) [OF A] assms(5) by (auto simp: dispatch_recorded_def decision_bound_def)
    with assms(3) [OF A] assms(5,6) matched_rule_Inr [OF assms(7)] release_Inr [OF rel] show ?thesis
      unfolding sent_justified_def by auto
  qed
  show "spec (evolves P) A (bind_op (call_transport E a secret (max_response_bytes rule)) (\<lambda>r.
       if tr_response_bytes r > max_response_bytes rule then raise_op (RuntimeError ''transport exceeded response byte bound'')
       else bind_op (finish_dispatch P E a d lease r) (\<lambda>_. ret_op r)))
     (\<lambda>r w. A w \<and> result_recorded P a d r w) (\<lambda>_. A)"
    by (rule evo.s_bind [OF s_call_transport [OF assms(1,2) just] s_if [OF evo.s_raise
          evo.s_bind [OF s_finish_dispatch [OF assms(1,2)] evo.s_ret]]]) auto
qed

lemma s_dispatch_failed:
  assumes "fair_env P E" "stable (evolves P) A" "\<And>w. A w \<Longrightarrow> world_ok P w"
  shows "spec (evolves P) A (dispatch_failed P C E a cancel lease x) (\<lambda>_ _. False) (\<lambda>_ w. A w \<and> stopped w)"
proof -
  let ?S = "\<lambda>w. A w \<and> stopped w"
  have abort: "spec (evolves P) A (case lease of None \<Rightarrow> ret_op () | Some l \<Rightarrow> on_state E (abort_authorized l)) (\<lambda>_. A) (\<lambda>_. ?S)"
  proof (rule s_option)
    show "spec (evolves P) A (on_state E (abort_authorized l)) (\<lambda>_. A) (\<lambda>_. ?S)" for l
      by (rule s_conseq [OF s_on_state [OF assms(1,2) rs_methods_run(5)]])
        (auto simp: abort_authorized_def split: option.splits)
  qed (intro evo.s_ret, simp)
  have got: "spec (evolves P) A (get_op (\<lambda>w. is_set cancel (w_registry w))) (\<lambda>c w. A w \<and> (c \<longrightarrow> stopped w)) (\<lambda>_. ?S)"
    using assms(3) by (intro evo.s_get) (fastforce simp: is_set_def world_ok_def)
  have fail: "spec (evolves P) (\<lambda>w. A w \<and> (c \<longrightarrow> stopped w)) (fail_closed P C E reason req) (\<lambda>_. ?S) (\<lambda>_. ?S)" for c reason req
    by (rule s_conseq [OF s_fail_closed [OF assms]]) auto
  show ?thesis unfolding dispatch_failed_def
    by (rule evo.s_bind [OF abort evo.s_bind [OF s_switch [OF assms(1,2)] evo.s_bind [OF got s_if [OF evo.s_raise
          evo.s_bind [OF fail evo.s_raise]]]]]) auto
qed

context run_order
begin

lemma s_with_finally:
  assumes "spec R A m B X" "\<And>x. spec R (B x) cleanup (\<lambda>_. B x) X" "\<And>e. spec R (X e) cleanup (\<lambda>_. X e) X"
  shows "spec R A (with_finally m cleanup) B X"
proof -
  let ?R = "\<lambda>r w. case r of Inl e \<Rightarrow> X e w | Inr x \<Rightarrow> B x w"
  have tried: "spec R A (try_op (bind_op m (\<lambda>x. ret_op (Inr x))) (\<lambda>e. ret_op (Inl e))) ?R X"
    by (rule s_try [OF s_bind [OF assms(1) s_ret] s_ret]) simp_all
  have "spec R (?R r) (bind_op cleanup (\<lambda>_. lift_result r)) B X" for r
  proof (cases r)
    case (Inl e)
    then show ?thesis by (auto intro: s_bind [OF assms(3) s_lift])
  next
    case (Inr x)
    then show ?thesis by (auto intro: s_bind [OF assms(2) s_lift])
  qed
  then show ?thesis unfolding with_finally_def by (rule s_bind [OF tried])
qed

end


section \<open>Dispatch\<close>

lemma s_registered_dispatch:
  assumes "fair_env P E" "stable (evolves P) A" "\<And>w. A w \<Longrightarrow> world_ok P w" "\<And>w. A w \<Longrightarrow> ld_manifest (w_ledger w) = cf_manifest C"
    "decision_bound P (cf_manifest C) a d" "matched_rule C d = Inr rule"
  shows "spec (evolves P) A (registered_dispatch P C E a d now rule cancel)
    (\<lambda>r w. (A w \<and> dispatch_recorded P a d w \<and> db_verdict (d_body d) = ALLOW) \<and> result_recorded P a d r w) (\<lambda>_ w. A w \<and> stopped w)"
proof -
  let ?D = "\<lambda>w. A w \<and> dispatch_recorded P a d w \<and> db_verdict (d_body d) = ALLOW" and ?S = "\<lambda>_ w. A w \<and> stopped w"
  have sb: "stable (evolves P) ?D" by (intro stability assms(2))
  have ok: "\<And>w. ?D w \<Longrightarrow> world_ok P w" using assms(3) by blast
  have failA: "spec (evolves P) A (dispatch_failed P C E a cancel l x) (\<lambda>_. ?D) ?S" for l x
    by (rule s_conseq [OF s_dispatch_failed [OF assms(1-3)]]) auto
  have begun: "spec (evolves P) A (try_op (begin_dispatch P E a d now rule) (dispatch_failed P C E a cancel None)) (\<lambda>_. ?D) ?S"
  proof (rule evo.s_try)
    show "spec (evolves P) A (begin_dispatch P E a d now rule) (\<lambda>_. ?D) (\<lambda>_. A)"
      by (rule s_conseq [OF s_begin_dispatch [OF assms(1,2)]]) auto
  qed (rule failA)
  have run: "spec (evolves P) ?D (leased P C E a d rule l) (\<lambda>r w. ?D w \<and> result_recorded P a d r w) (\<lambda>_. ?D)" for l
    by (rule s_assume [of _ "db_verdict (d_body d) = ALLOW"], simp, rule s_leased [OF assms(1) sb _ _ assms(5) _ assms(6)])
      (use assms(4) in auto)
  have failD: "spec (evolves P) ?D (dispatch_failed P C E a cancel l x) (\<lambda>r w. ?D w \<and> result_recorded P a d r w) ?S" for l x
    by (rule s_conseq [OF s_dispatch_failed [OF assms(1) sb ok]]) auto
  show ?thesis unfolding registered_dispatch_def
    by (rule evo.s_bind [OF begun evo.s_try [OF run failD]])
qed

text \<open>The exceptions \<open>dispatch\<close> raises before it touches the run state.\<close>

definition refused_early :: "prims \<Rightarrow> config \<Rightarrow> action \<Rightarrow> decision \<Rightarrow> exn \<Rightarrow> bool" where
  "refused_early P C a d x \<longleftrightarrow>
     verify_decision P (mb_gateway_key (m_body (cf_manifest C))) d = Inl x \<or> check_binding P C a d = Inl x \<or>
     matched_rule C d = Inl x \<or> db_authorization_id (d_body d) = None \<or>
     x = RuntimeError ''inflight authorization is already registered''"

lemma s_dispatch:
  assumes "fair_env P E" "stable (evolves P) A" "\<And>w. A w \<Longrightarrow> world_ok P w" "\<And>w. A w \<Longrightarrow> ld_manifest (w_ledger w) = cf_manifest C"
  shows "spec (evolves P) A (dispatch P C E a d now)
    (\<lambda>r w. (A w \<and> dispatch_recorded P a d w \<and> db_verdict (d_body d) = ALLOW) \<and> result_recorded P a d r w)
    (\<lambda>x w. A w \<and> (refused_early P C a d x \<or> stopped w))"
  unfolding dispatch_def
proof (rule s_bind_lift, simp add: refused_early_def, rule s_bind_lift, simp add: refused_early_def,
    rule s_bind_lift, simp add: refused_early_def, rule s_option, goal_cases)
  case (1 u v rule)
  then show ?case by (intro evo.s_raise) (simp add: refused_early_def)
next
  case (2 u v rule aid)
  let ?B = "\<lambda>r w. (A w \<and> dispatch_recorded P a d w \<and> db_verdict (d_body d) = ALLOW) \<and> result_recorded P a d r w"
  let ?X = "\<lambda>x w. A w \<and> (refused_early P C a d x \<or> stopped w)"
  have db: "decision_bound P (cf_manifest C) a d"
    using 2(1,2) check_binding_Inr [of P C a d] by (simp add: decision_bound_def)
  have sb: "stable (evolves P) (?B r)" "stable (evolves P) (?X x)" for r x
  proof -
    show "stable (evolves P) (?B r)" by (intro stability assms(2))
    show "stable (evolves P) (?X x)"
      using assms(2) stable_stopped [of P] unfolding stable_def by blast
  qed
  have keep: "rg_set (snd (register aid g)) = rg_set g" "rg_set (unregister aid g) = rg_set g" for g
    by (simp_all add: register_def unregister_def)
  have reg: "spec (evolves P) A (on_registry E (register aid)) (\<lambda>_. A) ?X"
  proof -
    let ?m = "on_part w_registry (\<lambda>s w. w\<lparr> w_registry := s \<rparr>) (register aid)"
    have ev: "evolves P w (w\<lparr> w_registry := snd (register aid (w_registry w)) \<rparr>)" for w by (rule evolves_registry) (simp add: keep)
    have "spec (evolves P) A ?m (\<lambda>_. A) ?X" unfolding spec_def
    proof (intro allI impI)
      fix w assume w: "A w"
      have "A (w\<lparr> w_registry := snd (register aid (w_registry w)) \<rparr>)" using assms(2) ev w unfolding stable_def by blast
      moreover have "fst (register aid (w_registry w)) = Inl x \<Longrightarrow> refused_early P C a d x" for x
        by (auto simp: register_def refused_early_def split: if_splits)
      ultimately show "evolves P w (snd (?m w)) \<and> (case fst (?m w) of Inl x \<Rightarrow> ?X x (snd (?m w)) | Inr r \<Rightarrow> A (snd (?m w)))"
        using ev [of w] by (auto simp: on_part_def split: prod.splits sum.splits)
    qed
    then show ?thesis unfolding on_registry_def by (rule evo.s_bind [OF s_switch [OF assms(1,2)]])
  qed
  have un: "guarantees (evolves P) (on_registry E (\<lambda>g. (Inr (), unregister aid g)))"
    by (rule g_on_registry [OF assms(1)]) (simp add: keep)
  have clean: "spec (evolves P) Y (on_registry E (\<lambda>g. (Inr (), unregister aid g))) (\<lambda>_. Y) ?X" if "stable (evolves P) Y" for Y
  proof -
    have "fst (on_registry E (\<lambda>g. (Inr (), unregister aid g)) w) = Inr ()" for w
      by (simp add: on_registry_def on_part_def switch_def op_simps)
    with un that show ?thesis by (simp add: spec_def guarantees_def stable_def)
  qed
  have run: "spec (evolves P) A (registered_dispatch P C E a d now rule c) ?B ?X" for c
    by (rule s_conseq [OF s_registered_dispatch [OF assms db]]) (use 2(3) in auto)
  show ?case
    by (rule evo.s_bind [OF reg evo.s_with_finally [OF run clean clean]]) (rule sb)+
qed


section \<open>The transport log\<close>

text \<open>Other threads that call no transport, and the operations that call none.\<close>

definition send_quiet :: "env \<Rightarrow> bool" where
  "send_quiet E \<longleftrightarrow> (\<forall>n w. w_sent (e_others E n w) = w_sent w)"

abbreviation sent_keep :: "world \<Rightarrow> world \<Rightarrow> bool" where
  "sent_keep w w' \<equiv> w_sent w' = w_sent w"

interpretation sentk: run_order sent_keep
  by unfold_locales auto

named_theorems sk_step \<open>steps that call no transport\<close>

lemma sk_basic [sk_step]:
  "guarantees sent_keep (ret_op x)" "guarantees sent_keep (raise_op e)" "guarantees sent_keep (get_op f)"
  "guarantees sent_keep (lift_result r)" "guarantees sent_keep (use_env h)"
  "guarantees sent_keep (on_supervisor m)" "guarantees sent_keep (modify_op (\<lambda>w. w\<lparr> w_isolations := k w \<rparr>))"
  by (simp_all add: guarantees_def ret_op_def raise_op_def get_op_def lift_result_def use_env_def modify_op_def
      on_supervisor_def on_part_def split_def)

lemma sk_switch [sk_step]: "send_quiet E \<Longrightarrow> guarantees sent_keep (switch E)"
  by (simp add: guarantees_def switch_def send_quiet_def)

lemma sk_part: "(\<And>s w. w_sent (put s w) = w_sent w) \<Longrightarrow> guarantees sent_keep (on_part get put m)"
  by (simp add: guarantees_def on_part_def split_def)

lemma quiet_holding [sk_step]: "send_quiet E \<Longrightarrow> send_quiet (holding_contain E)"
  by (simp add: send_quiet_def holding_contain_def)

lemma sk_parts [sk_step]:
  assumes "send_quiet E"
  shows "guarantees sent_keep (on_state E m1)" "guarantees sent_keep (on_registry E m2)"
  unfolding on_state_def on_registry_def
  by (intro sentk.g_bind sk_switch assms sk_part; simp)+

lemma sk_commit_now [sk_step]: "guarantees sent_keep (commit_now P E kind payload req at)"
  unfolding commit_now_def by (intro sentk.g_bind sentk.g_option sk_basic sk_part) (simp add: put_evidence_def)

lemma sk_commit [sk_step]: "send_quiet E \<Longrightarrow> guarantees sent_keep (commit P E kind payload req at)"
  unfolding commit_def by (intro sentk.g_bind sk_switch sk_commit_now)

lemma sk_isolate_once [sk_step]: "send_quiet E \<Longrightarrow> guarantees sent_keep (isolate_once E)"
  unfolding isolate_once_def call_isolate_def by (intro sentk.g_bind sentk.g_if sk_step)

lemma sk_emergency [sk_step]: "send_quiet E \<Longrightarrow> guarantees sent_keep (emergency_isolate E)"
  unfolding emergency_isolate_def by (intro sentk.g_bind sk_step)

lemma sk_contain [sk_step]: "send_quiet E \<Longrightarrow> guarantees sent_keep (contain P C E e t)"
  unfolding contain_def contain_locked_def run_containment_def record_ack_def split_def
  by (intro sentk.g_bind sentk.g_option sentk.g_try sk_step)

lemma sk_fail_closed [sk_step]: "send_quiet E \<Longrightarrow> guarantees sent_keep (fail_closed P C E reason req)"
  unfolding fail_closed_def gateway_commit_def by (intro sentk.g_bind sentk.g_try sentk.g_if sk_step)

lemma sk_dispatch_failed [sk_step]: "send_quiet E \<Longrightarrow> guarantees sent_keep (dispatch_failed P C E a cancel lease x)"
  unfolding dispatch_failed_def by (intro sentk.g_bind sentk.g_option sentk.g_if sk_step)

lemma s_and: "spec R A m B X \<Longrightarrow> guarantees R' m \<Longrightarrow> spec (\<lambda>w w'. R w w' \<and> R' w w') A m B X"
  by (simp add: spec_def guarantees_def)

abbreviation evolves_unsent :: "prims \<Rightarrow> world \<Rightarrow> world \<Rightarrow> bool" where
  "evolves_unsent P \<equiv> \<lambda>w w'. evolves P w w' \<and> sent_keep w w'"

interpretation evou: run_order "evolves_unsent P"
  by unfold_locales (auto simp: evolves_refl intro: evolves_trans)

lemma sk_begin [sk_step]: "send_quiet E \<Longrightarrow> guarantees sent_keep (begin_dispatch P E a d now rule)"
proof -
  assume E: "send_quiet E"
  have cb: "guarantees sent_keep (commit_dispatch P E a d)"
    unfolding commit_dispatch_def by (intro sentk.g_bind sk_step)
  have "guarantees sent_keep (begin_world b now n (commit_dispatch P E a d))" for b n
  proof -
    have "w_sent (snd (begin_world b now n (commit_dispatch P E a d) w)) = w_sent w" for w
    proof -
      obtain r w' where m: "begin_world b now n (commit_dispatch P E a d) w = (r, w')" by fastforce
      have "w_sent w' = w_sent w"
        using begin_world_cases [OF callbacks_free(1) m] cb by (auto simp: guarantees_def)
      with m show ?thesis by simp
    qed
    then show ?thesis by (simp add: guarantees_def)
  qed
  then show ?thesis unfolding begin_dispatch_def by (intro sentk.g_bind sk_switch E)
qed

lemma s_dispatch_stopped:
  assumes "fair_env P E" "send_quiet E" "stable (evolves P) A" "\<And>w. A w \<Longrightarrow> world_ok P w" "\<And>w. A w \<Longrightarrow> stopped w"
  shows "spec (evolves_unsent P) A (dispatch P C E a d now) (\<lambda>_ _. False) (\<lambda>_. A)"
proof -
  let ?R = "evolves_unsent P"
  have keep: "rg_set (snd (register aid g)) = rg_set g" "rg_set (unregister aid g) = rg_set g" for aid g
    by (simp_all add: register_def unregister_def)
  have reg: "spec ?R A (on_registry E (register aid)) (\<lambda>_. A) (\<lambda>_. A)" for aid
    by (rule s_and [OF s_frame [OF g_on_registry [OF assms(1)] assms(3)] sk_parts(2) [OF assms(2)]]) (simp_all add: keep)
  have un: "spec ?R A (on_registry E (\<lambda>g. (Inr (), unregister aid g))) (\<lambda>_. A) (\<lambda>_. A)" for aid
    by (rule s_and [OF s_frame [OF g_on_registry [OF assms(1)] assms(3)] sk_parts(2) [OF assms(2)]]) (simp_all add: keep)
  have failed: "spec ?R A (dispatch_failed P C E a cancel l x) (\<lambda>_ _. False) (\<lambda>_. A)" for cancel l x
    by (rule s_conseq [OF s_and [OF s_dispatch_failed [OF assms(1,3,4)] sk_dispatch_failed [OF assms(2)]]]) auto
  have begun: "spec ?R A (try_op (begin_dispatch P E a d now rule) (dispatch_failed P C E a cancel l)) (\<lambda>_ _. False) (\<lambda>_. A)"
    for rule cancel l
    by (rule evou.s_try [OF s_and [OF s_begin_stopped [OF assms(1,3,5)] sk_begin [OF assms(2)]] failed])
  have never: "spec ?R (\<lambda>_. False) m (\<lambda>_ _. False) (\<lambda>_. A)" for m :: "(world, transport_result) op" by (simp add: spec_def)
  have run: "spec ?R A (registered_dispatch P C E a d now rule cancel) (\<lambda>_ _. False) (\<lambda>_. A)" for rule cancel
    unfolding registered_dispatch_def by (rule evou.s_bind [OF begun never])
  have fin: "spec ?R A (with_finally (registered_dispatch P C E a d now rule cancel)
      (on_registry E (\<lambda>g. (Inr (), unregister aid g)))) (\<lambda>_ _. False) (\<lambda>_. A)" for rule cancel aid
    by (rule evou.s_with_finally [OF run _ un]) (simp add: spec_def)
  have lift: "spec ?R A (lift_result v) (\<lambda>_. A) (\<lambda>_. A)" for v :: "'z result" by (rule evou.s_lift) auto
  show ?thesis unfolding dispatch_def
    by (rule evou.s_bind [OF lift evou.s_bind [OF lift evou.s_bind [OF lift s_option [OF evou.s_raise evou.s_bind [OF reg fin]]]]])
qed

section \<open>Properties\<close>

text \<open>
  C1. No call of the transport without authorization. Whatever other threads do, after a dispatch every call
  ever made of the transport, by this dispatch or another, is justified: the manifest's gateway key signed an
  ALLOW decision that is bound to this run, this manifest and this action; the rule it names is a rule of the
  manifest and gives the response bound; its DISPATCH event is in the ledger; and a credential, if the action
  names one, is a non-canary grant for the action's host.
\<close>

theorem transport_calls_justified:
  assumes "fair_env P E" "world_ok P w" "ld_manifest (w_ledger w) = cf_manifest C" "dispatch P C E a d now w = (r, w')"
    "(b, secret, bound) \<in> set (w_sent w')"
  shows "\<exists>q rule e.
    verify_decision P (mb_gateway_key (m_body (cf_manifest C))) q = Inr () \<and> db_verdict (d_body q) = ALLOW \<and>
    db_run_id (d_body q) = mb_run_id (m_body (cf_manifest C)) \<and> db_manifest_hash (d_body q) = m_hash (cf_manifest C) \<and>
    db_request_id (d_body q) = a_request_id b \<and> action_digest P b = Inr (db_action_sha256 (d_body q)) \<and>
    rule \<in> set (mb_allowed_egress (m_body (cf_manifest C))) \<and> db_matched_rule_id (d_body q) = Some (rule_id rule) \<and>
    bound = max_response_bytes rule \<and> e \<in> set (ld_events (w_ledger w')) \<and> eb_kind (ev_body e) = DISPATCH \<and>
    canonical_json P (dispatch_payload (db_action_sha256 (d_body q)) q) = Inr (eb_payload_canonical_json (ev_body e)) \<and>
    (case a_credential_id b of
       None \<Rightarrow> secret = None
     | Some cid \<Rightarrow> \<exists>g\<in>set (mb_credentials (m_body (cf_manifest C))). credential_id g = cid \<and> \<not> is_canary g \<and> audience g = a_host b)"
proof -
  let ?A = "\<lambda>w. world_ok P w \<and> ld_manifest (w_ledger w) = cf_manifest C"
  have "stable (evolves P) ?A" by (intro stability)
  from specD [OF s_dispatch [OF assms(1) this] _ assms(4)] assms(2,3) have "?A w'" by (auto split: sum.splits)
  with assms(5) have "sent_justified P (w_ledger w') (b, secret, bound)" "ld_manifest (w_ledger w') = cf_manifest C"
    by (auto simp: world_ok_def)
  then show ?thesis
    by (cases "a_credential_id b") (auto simp: sent_justified_def decision_bound_def recorded_in_def releasable_def; blast)+
qed

text \<open>
  C28. The outcome of a dispatch. A result is returned only for an ALLOW decision with both its DISPATCH and its
  RESULT event, which records this response, in the ledger. An exception is either one of the refusals before
  the run state is touched, or the run is stopped.
\<close>

theorem dispatch_outcome:
  assumes "fair_env P E" "world_ok P w" "ld_manifest (w_ledger w) = cf_manifest C" "dispatch P C E a d now w = (r, w')"
  shows "evolves P w w' \<and>
    (case r of
       Inr t \<Rightarrow> db_verdict (d_body d) = ALLOW \<and> dispatch_recorded P a d w' \<and> result_recorded P a d t w'
     | Inl x \<Rightarrow> refused_early P C a d x \<or> stopped w')"
proof -
  let ?A = "\<lambda>w. world_ok P w \<and> ld_manifest (w_ledger w) = cf_manifest C"
  have "stable (evolves P) ?A" by (intro stability)
  from specD [OF s_dispatch [OF assms(1) this] _ assms(4)] assms(2,3) show ?thesis by (auto split: sum.splits)
qed

text \<open>
  C18. After the kill nothing is sent: on a stopped run \<open>dispatch\<close> raises, whatever decision it is given, and while
  no other thread is in the transport the log of transport calls does not grow. The run stays stopped.
\<close>

theorem stopped_run_never_sends:
  assumes "fair_env P E" "send_quiet E" "world_ok P w" "stopped w"
  shows "\<exists>x w'. dispatch P C E a d now w = (Inl x, w') \<and> stopped w' \<and> w_sent w' = w_sent w"
proof -
  let ?A = "\<lambda>w. world_ok P w \<and> stopped w"
  obtain r w' where m: "dispatch P C E a d now w = (r, w')" by fastforce
  have "stable (evolves P) ?A" by (intro stability)
  from specD [OF s_dispatch_stopped [OF assms(1,2) this] _ m] assms(3,4) m show ?thesis by (cases r) auto
qed

end
