(* ===== verification/BCP_Wire.thy ===== *)
theory BCP_Wire
  imports BCP_Policy BCP_Progress
begin

text \<open>
  Models on the wire: what \<open>model_dump\<close> and \<open>canonical_json_bytes\<close> write, the strict parser and
  \<open>model_validate\<close> read back. The shared part is that a dumped object is parsed to an object with the
  same members, whatever order the canonical form gave them.
\<close>

lemma json_of_py_of_json [simp]: "json_of_py (py_of_json j) = j"
proof (induction j)
  case (JObj kvs)
  then have "(case case p of (k, v) \<Rightarrow> (KStr k, py_of_json v) of
      (k, v) \<Rightarrow> (case k of KStr s \<Rightarrow> s | KOther \<Rightarrow> [], json_of_py v)) = p" if "p \<in> set kvs" for p
    using that by (cases p) (force simp: snds.simps)
  then show ?case by (simp add: map_idI comp_def)
qed (simp_all add: map_idI)

lemma map_of_sorted:
  assumes "distinct (map fst kvs)"
  shows "map_of (sort_key f kvs) = map_of kvs"
proof -
  have "distinct (map fst (sort_key f kvs))"
    using assms by (metis distinct_map distinct_sort set_sort mset_map mset_sort mset_eq_imp_distinct_iff)
  with assms show ?thesis by (simp add: map_of_inject_set)
qed

lemma map_of_ordered: "map_of (map (\<lambda>(k, v). (k, g v)) kvs) k = map_option g (map_of kvs k)"
  by (induction kvs) auto

text \<open>The members of a dumped object, by name.\<close>

definition dumped :: "(string \<times> pyval) list \<Rightarrow> pystr \<Rightarrow> json option" where
  "dumped fs k = map_of (map (\<lambda>(k, v). (lit k, order_for_jcs (json_of_py v))) fs) k"

lemma parse_dumped:
  assumes "canonical_json_bytes P (obj fs) = Inr b"
  obtains kvs where "parse_canonical_json P (InBytes b) = Inr (JObj kvs)" "map_of kvs = dumped fs"
    "fst ` set kvs = (lit \<circ> fst) ` set fs"
proof -
  from assms obtain t where t: "canonical_text P (obj fs) = Inr t" "b = concat (map utf8_char t)"
    "int (length b) \<le> MAX_CANONICAL_JSON_BYTES" by (auto simp: canonical_json_bytes_Inr)
  have dec: "utf8_decode b = Inr t" unfolding t(2) by (intro utf8_decode_encode canonical_text_scalar [OF t(1)])
  have "canonical_json P (obj fs) = Inr t" using t by (simp add: canonical_json_Inr)
  then obtain j where j: "obj fs = py_of_json j" "json_ok P j" "parse_canonical_json P (InStr t) = Inr (order_for_jcs j)"
    by (rule canonical_json_parse)
  let ?kvs = "map (\<lambda>(k, v). (lit k, json_of_py v)) fs" and ?f = "\<lambda>(k :: pystr, v :: json). utf16_be k"
  have "j = json_of_py (obj fs)" using j(1) by simp
  then have jo: "j = JObj ?kvs" by (simp add: obj_def comp_def split_def)
  then have d: "distinct (map fst ?kvs)" using j(2) by simp
  let ?out = "map (\<lambda>(k, v). (k, order_for_jcs v)) (sort_key ?f ?kvs)"
  have "map_of ?out k = dumped fs k" for k
  proof -
    have "dumped fs k = map_of (map (\<lambda>(k, v). (k, order_for_jcs v)) ?kvs) k"
      by (simp add: dumped_def comp_def split_def)
    then show ?thesis by (simp only: map_of_ordered map_of_sorted [OF d])
  qed
  then have "map_of ?out = dumped fs" ..
  moreover have "fst ` set ?out = (lit \<circ> fst) ` set fs" by (force simp: image_iff)
  moreover have "parse_canonical_json P (InBytes b) = Inr (JObj ?out)"
    using j(3) dec jo by (simp add: parse_canonical_json_def input_text_def)
  ultimately show ?thesis using that by blast
qed

section \<open>Actions\<close>

lemma order_scalar [simp]:
  "order_for_jcs (json_of_py (opt_str s)) = json_of_py (opt_str s)" by (cases s) (simp_all add: opt_str_def)

lemma read_method: "read_enum http_methods (JStr (method_name m)) = Some m"
  by (cases m) (simp_all add: read_enum_def http_methods_def method_name_def)

lemma read_opt_str: "read_optional read_str (json_of_py (opt_str s)) = Some s"
  by (cases s) (simp_all add: read_optional_def opt_str_def)

lemma action_read_back:
  assumes "validate_action P a = Inr a" "canonical_json_bytes P (dump_action a) = Inr b"
  shows "from_wire P (InBytes b) = Inr a"
proof -
  obtain kvs where kvs: "parse_canonical_json P (InBytes b) = Inr (JObj kvs)"
    "map_of kvs = dumped
       [(''request_id'', PStr (a_request_id a)), (''method'', PStr (method_name (a_method a))),
        (''scheme'', PStr (lit ''https'')), (''host'', PStr (a_host a)), (''port'', PInt (a_port a)),
        (''path'', PStr (a_path a)), (''resolved_ip'', PStr (a_resolved_ip a)),
        (''tls_spki_sha256'', PStr (a_tls_spki_sha256 a)),
        (''body_canonical_json'', PStr (a_body_canonical_json a)), (''body_sha256'', PStr (a_body_sha256 a)),
        (''body_bytes'', PInt (a_body_bytes a)), (''credential_id'', opt_str (a_credential_id a)),
        (''redirects'', PBool False)]" "fst ` set kvs = lit ` set action_fields"
    using assms(2) unfolding dump_action_def by (rule parse_dumped) (simp add: action_fields_def)
  have "closed_object kvs action_fields" using kvs(3) by (force simp: closed_object_def list_all_iff)
  moreover have "read_action kvs = Some a"
    by (simp add: read_action_def req_field_def def_field_def kvs(2) dumped_def read_method read_opt_str read_literal_def)
  ultimately show ?thesis using assms(1) kvs(1) by (simp add: from_wire_def action_of_json_def)
qed

text \<open>
  An action read from the wire is the action that was written: for every valid action, \<open>from_wire\<close> on its
  canonical bytes returns it.
\<close>

theorem action_wire_roundtrip:
  assumes "validate_action P a = Inr a" "canonical_json_bytes P (dump_action a) = Inr b"
  shows "from_wire P (InBytes b) = Inr a"
  by (rule action_read_back [OF assms])

lemma short_action_bounded:
  assumes "d \<le> 62" "nfc_fixes_ascii P" "short_text (a_request_id a)" "short_text (method_name (a_method a))" "short_text (a_host a)"
    "short_text (a_path a)" "short_text (a_resolved_ip a)" "short_text (a_tls_spki_sha256 a)"
    "short_text (a_body_canonical_json a)" "short_text (a_body_sha256 a)" "opt_all short_text (a_credential_id a)"
    "safe_nonneg (a_port a)" "safe_nonneg (a_body_bytes a)"
  shows "bounded_json P d 14 20048 (dump_action a)"
proof -
  have "bounded_json P d (1 + 13) (2 + 20046) (dump_action a)" unfolding dump_action_def
    by (intro bounded_obj bm_small bm_Nil) (use assms in \<open>simp_all add: short_lit small_json_simps\<close>)
  then show ?thesis by simp
qed

lemma sample_action_bounded:
  assumes "d \<le> 62"
  shows "bounded_json sample_prims d 14 20048 (dump_action (sample_action ''/v1/x''))"
proof -
  let ?a = "sample_action ''/v1/x''"
  have "short_text (a_request_id ?a)" "short_text (method_name (a_method ?a))" "short_text (a_host ?a)"
    "short_text (a_path ?a)" "short_text (a_resolved_ip ?a)" "short_text (a_tls_spki_sha256 ?a)"
    "short_text (a_body_canonical_json ?a)" "short_text (a_body_sha256 ?a)" "opt_all short_text (a_credential_id ?a)"
    "safe_nonneg (a_port ?a)" "safe_nonneg (a_body_bytes ?a)" by code_simp+
  from short_action_bounded [OF assms sample_prims_ok(3) this] show ?thesis .
qed

lemma sample_action_bytes: "\<exists>b. canonical_json_bytes sample_prims (dump_action (sample_action ''/v1/x'')) = Inr b"
proof -
  have "json_value sample_prims (dump_action (sample_action ''/v1/x''))"
    by (rule bounded_total [OF sample_action_bounded]) simp_all
  from canonical_json_total [OF this] show ?thesis by (auto simp: canonical_json_def)
qed

theorem action_wire_roundtrip_witness:
  "\<exists>b. canonical_json_bytes sample_prims (dump_action (sample_action ''/v1/x'')) = Inr b \<and>
     from_wire sample_prims (InBytes b) = Inr (sample_action ''/v1/x'')"
proof -
  obtain b where "canonical_json_bytes sample_prims (dump_action (sample_action ''/v1/x'')) = Inr b"
    using sample_action_bytes by blast
  with action_wire_roundtrip [OF sample_action_valid this] show ?thesis by blast
qed

end
