(* ===== verification/BCP_Serve.thy ===== *)
theory BCP_Serve
  imports BCP_Kill BCP_Executor BCP_Wire
begin

text \<open>
  The good path to its end. The safety theorems of the gateway and the executor would hold of components that
  refuse everything; here an undisturbed, permitted request is accepted and dispatched, with its four events in
  the ledger and exactly one call of the transport.
\<close>

section \<open>Room in the ledger\<close>

text \<open>No digest is the all-zero digest that marks the start of the chain.\<close>

definition nonzero_digests :: "prims \<Rightarrow> bool" where
  "nonzero_digests P \<longleftrightarrow> (\<forall>x. sha256_hex P x \<noteq> GENESIS_HASH)"

definition last_le :: "world \<Rightarrow> int \<Rightarrow> bool" where
  "last_le w t \<longleftrightarrow> ld_events (w_ledger w) = [] \<or> eb_monotonic_ns (ev_body (last (ld_events (w_ledger w)))) \<le> t"

lemma last_le_mono: "last_le w t \<Longrightarrow> t \<le> u \<Longrightarrow> last_le w u"
  by (auto simp: last_le_def)

text \<open>An undisturbed runtime whose ledger has room for \<open>n\<close> events.\<close>

definition room :: "prims \<Rightarrow> env \<Rightarrow> nat \<Rightarrow> world \<Rightarrow> bool" where
  "room P E n w \<longleftrightarrow>
     calm E \<and> nfc_fixes_ascii P \<and> digest_ok P \<and> nonzero_digests P \<and> ledger_sound (w_ledger w) \<and>
     \<not> ld_sealed (w_ledger w) \<and> int (length (ld_events (w_ledger w))) + int n \<le> ld_max_events (w_ledger w) \<and>
     ld_pending (w_ledger w) < ld_max_pending_commits (w_ledger w) \<and>
     (ld_wal (w_ledger w) = None \<or> (\<forall>n. e_wal E n = WalOk)) \<and> (\<forall>n. good_time (e_wall E n) \<and> safe_nonneg (e_mono E n)) \<and>
     (\<forall>i j. i \<le> j \<longrightarrow> e_mono E i \<le> e_mono E j) \<and> last_le w (e_mono E (w_ticks w)) \<and>
     recorded P (ld_manifest (w_ledger w)) (w_mirror w) (ld_events (w_ledger w))"

lemma room_ready: "room P E (Suc n) w \<Longrightarrow> commit_ready P E w"
  by (auto simp: room_def commit_ready_def ledger_ready_def)

lemma room_calm: "room P E n w \<Longrightarrow> calm E"
  by (simp add: room_def)

lemma room_le: "room P E n w \<Longrightarrow> m \<le> n \<Longrightarrow> room P E m w"
  by (auto simp: room_def)

text \<open>Steps that leave the evidence alone and let time pass keep the room.\<close>

lemma room_frame:
  assumes "room P E n w" "w_ledger w' = w_ledger w" "w_mirror w' = w_mirror w" "w_ticks w \<le> w_ticks w'"
  shows "room P E n w'"
proof -
  from assms have "e_mono E (w_ticks w) \<le> e_mono E (w_ticks w')" "last_le w (e_mono E (w_ticks w))" by (simp_all add: room_def)
  then have "last_le w' (e_mono E (w_ticks w'))" using assms(2) last_le_mono [of w] by (simp add: last_le_def)
  with assms show ?thesis unfolding room_def by simp
qed

lemma links_hash:
  assumes "links P m es e" "nonzero_digests P" "digest_ok P"
  shows "sha256_hex_text (ev_hash e)" "ev_hash e \<noteq> GENESIS_HASH"
  using assms by (auto simp: links_def validate_event_def domain_hash_def nonzero_digests_def)

lemma room_commit_now:
  assumes r: "room P E (Suc n) w" and pl: "bounded_json P 0 i c payload" "i \<le> 100000" "c \<le> 500000"
    and rq: "opt_all opaque_id req"
    and at: "at = None \<and> t = e_mono E (w_ticks w + 1) \<or>
      at = Some t \<and> safe_nonneg t \<and> last_le w t \<and> t \<le> e_mono E (w_ticks w)"
  shows "\<exists>e l mi k. commit_now P E kind payload req at w =
      (Inr e, w\<lparr> w_ticks := w_ticks w + k, w_ledger := l, w_mirror := mi \<rparr>) \<and>
    ld_events l = ld_events (w_ledger w) @ [e] \<and> same_parameters (w_ledger w) l \<and> event_of P kind payload req t e \<and>
    links P (ld_manifest (w_ledger w)) (ld_events (w_ledger w)) e \<and> (at \<noteq> None \<longrightarrow> k = 2) \<and>
    room P E n (w\<lparr> w_ticks := w_ticks w + k, w_ledger := l, w_mirror := mi \<rparr>)"
proof -
  have mono: "e_mono E a \<le> e_mono E b" if "a \<le> b" for a b using r that by (simp add: room_def)
  have sn: "safe_nonneg (e_mono E a)" for a using r by (simp add: room_def)
  obtain k :: nat where k: "at = Some t \<and> k = 2 \<or> at = None \<and> t = e_mono E (w_ticks w + 1) \<and> k = 3" using at by blast
  have t: "safe_nonneg t" "last_le w t"
    using at sn mono [of "w_ticks w" "w_ticks w + 1"] last_le_mono [of w "e_mono E (w_ticks w)" t] r by (auto simp: room_def)
  obtain e l mi where e: "commit_now P E kind payload req at w =
      (Inr e, w\<lparr> w_ticks := w_ticks w + k, w_ledger := l, w_mirror := mi \<rparr>)"
    "ld_events l = ld_events (w_ledger w) @ [e]" "recorded P (ld_manifest (w_ledger w)) mi (ld_events l)"
    "same_parameters (w_ledger w) l" "event_of P kind payload req t e"
    "links P (ld_manifest (w_ledger w)) (ld_events (w_ledger w)) e"
    using calm_commit_now [OF room_ready [OF r] pl rq t(1) _ k, of kind] t(2) by (auto simp: last_le_def)
  have le: "t \<le> e_mono E (w_ticks w + k)"
    using at k mono [of "w_ticks w" "w_ticks w + k"] mono [of "w_ticks w + 1" "w_ticks w + k"] by force
  have "ledger_sound l"
    using r e(2,4) links_hash [OF e(6)] by (auto simp: room_def ledger_sound_def same_parameters_def)
  with r e le have "room P E n (w\<lparr> w_ticks := w_ticks w + k, w_ledger := l, w_mirror := mi \<rparr>)"
    by (auto simp: room_def same_parameters_def last_le_def event_of_def)
  moreover have "at \<noteq> None \<longrightarrow> k = 2" using k by auto
  ultimately show ?thesis using e by blast
qed

lemma room_gateway_commit:
  assumes r: "room P E (Suc n) w" and pl: "bounded_json P 0 i c payload" "i \<le> 100000" "c \<le> 500000"
    and rq: "opt_all opaque_id req" and t: "safe_nonneg t" "last_le w t" "t \<le> e_mono E (w_ticks w)"
  shows "\<exists>e l mi. gateway_commit P E kind payload req (Some t) w =
      (Inr e, w\<lparr> w_ticks := w_ticks w + 3, w_ledger := l, w_mirror := mi \<rparr>) \<and>
    ld_events l = ld_events (w_ledger w) @ [e] \<and> same_parameters (w_ledger w) l \<and> event_of P kind payload req t e \<and>
    links P (ld_manifest (w_ledger w)) (ld_events (w_ledger w)) e \<and>
    room P E n (w\<lparr> w_ticks := w_ticks w + 3, w_ledger := l, w_mirror := mi \<rparr>)"
proof -
  let ?w = "w\<lparr> w_ticks := w_ticks w + 1 \<rparr>"
  note c = room_calm [OF r]
  have r1: "room P E (Suc n) ?w" by (rule room_frame [OF r]) simp_all
  have "e_mono E (w_ticks w) \<le> e_mono E (w_ticks ?w)" using r by (simp add: room_def)
  then have "Some t = None \<and> t = e_mono E (w_ticks ?w + 1) \<or> Some t = Some t \<and> safe_nonneg t \<and> last_le ?w t \<and> t \<le> e_mono E (w_ticks ?w)"
    using t by (simp add: last_le_def)
  from room_commit_now [OF r1 pl rq this, of kind]
  obtain e l mi where "commit_now P E kind payload req (Some t) ?w =
      (Inr e, ?w\<lparr> w_ticks := w_ticks ?w + 2, w_ledger := l, w_mirror := mi \<rparr>)"
    "ld_events l = ld_events (w_ledger ?w) @ [e]" "same_parameters (w_ledger ?w) l" "event_of P kind payload req t e"
    "links P (ld_manifest (w_ledger ?w)) (ld_events (w_ledger ?w)) e"
    "room P E n (?w\<lparr> w_ticks := w_ticks ?w + 2, w_ledger := l, w_mirror := mi \<rparr>)" by auto
  then show ?thesis
    by (intro exI [of _ e] exI [of _ l] exI [of _ mi])
      (simp add: gateway_commit_def commit_def calm_switch [OF c] op_simps eval_nat_numeral)
qed

section \<open>The decision\<close>

text \<open>ASCII text of moderate size, as a payload and as a member of one.\<close>

definition moderate :: "prims \<Rightarrow> pyval \<Rightarrow> bool" where
  "moderate P v \<longleftrightarrow> (\<exists>n c. n \<le> 90000 \<and> c \<le> 400000 \<and> bounded_json P 0 n c v \<and> bounded_json P 1 n c v)"

text \<open>A gateway that can sign, and a request the policy permits at any time the clock may show.\<close>

definition acceptable :: "prims \<Rightarrow> config \<Rightarrow> env \<Rightarrow> action \<Rightarrow> egress_rule \<Rightarrow> world \<Rightarrow> bool" where
  "acceptable P C E a rule w \<longleftrightarrow>
     validate_action P a = Inr a \<and> moderate P (dump_action a) \<and>
     engine_of P C (w_policy w) \<and> (\<forall>n. permitted (w_policy w) a (strftime_utc (e_wall E n)) rule) \<and>
     signer P (cf_gateway_private_key C) (mb_gateway_key (m_body (cf_manifest C))) \<and>
     opaque_id (mb_run_id (m_body (cf_manifest C))) \<and> sha256_hex_text (m_hash (cf_manifest C)) \<and>
     opaque_id (cf_gateway_instance_id C) \<and> (\<forall>n. opaque_id (lit ''auth:'' @ e_token E n)) \<and>
     0 < cf_authorization_ttl_ns C \<and> (\<forall>n. safe_nonneg (e_mono E n + cf_authorization_ttl_ns C)) \<and>
     safe_nonneg (rs_kill_epoch (w_state w))"

lemma bounded_decision:
  assumes "d \<le> 62" "nfc_fixes_ascii P" "validate_decision_body P (d_body x) = Inr (d_body x)" "sha256_hex_text (d_hash x)"
    "validate_signature (d_signature x) = Inr (d_signature x)"
  shows "bounded_json P d 27 38558 (dump_decision x)"
proof -
  note body = bm_Cons [OF bounded_decision_body [of "d + 1" P "d_body x"]]
    and sig = bm_Cons [OF bounded_signature [of "d + 1" P "d_signature x"]]
  have "bounded_json P d (1 + 26) (2 + 38556) (dump_decision x)" unfolding dump_decision_def
    by (rule bounded_obj; (intro sig body bm_small bm_Nil)?)
      (use assms short_sha256 in \<open>simp_all add: short_lit small_json_simps\<close>)
  then show ?thesis by simp
qed

lemma bounded_request:
  assumes "nfc_fixes_ascii P" "moderate P (dump_action a)" "sha256_hex_text digest"
  shows "\<exists>n c. n \<le> 100000 \<and> c \<le> 500000 \<and> bounded_json P 0 n c (request_payload a digest)"
proof -
  obtain n c where b: "n \<le> 90000" "c \<le> 400000" "bounded_json P (0 + 1) n c (dump_action a)"
    using assms(2) by (auto simp: moderate_def)
  note action = bm_Cons [OF b(3)]
  have "bounded_json P 0 (1 + (n + 1)) (2 + (c + 772 + 1542)) (request_payload a digest)" unfolding request_payload_def
    by (rule bounded_obj; (intro action bm_small bm_Nil)?)
      (use assms short_sha256 in \<open>simp_all add: short_lit small_json_simps\<close>)
  with b(1,2) show ?thesis by (intro exI [of _ "1 + (n + 1)"] exI [of _ "2 + (c + 772 + 1542)"]) simp
qed

lemma moderate_digest:
  assumes "moderate P (dump_action a)" "digest_ok P"
  shows "\<exists>digest. action_digest P a = Inr digest \<and> sha256_hex_text digest"
  using assms bounded_domain_hash [of P _ _ "dump_action a" "''ACTION-HASH''"] by (fastforce simp: moderate_def action_digest_def)

text \<open>The capability a decision gives.\<close>

definition grants ::
  "prims \<Rightarrow> config \<Rightarrow> action \<Rightarrow> egress_rule \<Rightarrow> event \<Rightarrow> int \<Rightarrow> int \<Rightarrow> pystr \<Rightarrow> decision \<Rightarrow> bool" where
  "grants P C a rule request epoch ns aid d \<longleftrightarrow>
     decision_bound P (cf_manifest C) a d \<and> validate_decision P d = Inr d \<and>
     validate_decision_body P (d_body d) = Inr (d_body d) \<and> validate_signature (d_signature d) = Inr (d_signature d) \<and>
     db_verdict (d_body d) = ALLOW \<and> db_matched_rule_id (d_body d) = Some (rule_id rule) \<and> db_kill_epoch (d_body d) = epoch \<and>
     db_authorization_id (d_body d) = Some aid \<and> \<not> db_hard_violation (d_body d) \<and>
     db_authorization_expires_monotonic_ns (d_body d) = Some (ns + cf_authorization_ttl_ns C) \<and>
     db_request_event_sequence (d_body d) = eb_sequence (ev_body request) \<and> db_request_event_hash (d_body d) = ev_hash request"

lemma make_decision_total:
  assumes a: "acceptable P C E a rule w" and re: "safe_nonneg (eb_sequence (ev_body request))" "sha256_hex_text (ev_hash request)"
    and wall: "good_time wall" and ns: "safe_nonneg (e_mono E k)"
  shows "\<exists>d. make_decision P C a request (strftime_utc wall) (e_mono E k) (rs_kill_epoch (w_state w)) (allow_result rule)
      (Some (lit ''auth:'' @ e_token E j)) = Inr d \<and>
    grants P C a rule request (rs_kill_epoch (w_state w)) (e_mono E k) (lit ''auth:'' @ e_token E j) d"
proof -
  let ?m = "cf_manifest C" and ?key = "mb_gateway_key (m_body (cf_manifest C))" and ?aid = "lit ''auth:'' @ e_token E j"
  from a have s: "signer P (cf_gateway_private_key C) ?key" by (simp add: acceptable_def)
  then have P: "digest_ok P" "nfc_fixes_ascii P" "opaque_id (key_id ?key)" by (simp_all add: signer_def)
  obtain dg where dg: "action_digest P a = Inr dg" "sha256_hex_text dg"
    using moderate_digest [of P a] P(1) a unfolding acceptable_def by blast
  have rid: "opaque_id (rule_id rule)"
  proof -
    have "rule \<in> set (mb_allowed_egress (m_body (pe_manifest (w_policy w))))"
      using a permitted_rule unfolding acceptable_def by blast
    then have "validate_egress_rule P rule = Inr rule" using a by (auto simp: acceptable_def engine_of_def policy_wf_def)
    then show ?thesis by (simp add: validate_egress_rule_def)
  qed
  have reason: "opaque_id (lit ''policy.allowed'')" by code_simp
  let ?b = "\<lparr> db_run_id = mb_run_id (m_body ?m), db_manifest_hash = m_hash ?m, db_request_id = a_request_id a,
    db_request_event_sequence = eb_sequence (ev_body request), db_request_event_hash = ev_hash request, db_action_sha256 = dg,
    db_gateway_key_id = key_id ?key, db_gateway_instance_id = cf_gateway_instance_id C, db_decided_at = strftime_utc wall,
    db_decision_monotonic_ns = e_mono E k, db_kill_epoch = rs_kill_epoch (w_state w), db_verdict = ALLOW,
    db_reason_code = lit ''policy.allowed'', db_matched_rule_id = Some (rule_id rule), db_hard_violation = False,
    db_authorization_id = Some ?aid, db_authorization_expires_monotonic_ns = Some (e_mono E k + cf_authorization_ttl_ns C),
    db_authorization_single_use = True \<rparr>"
  have b: "validate_decision_body P ?b = Inr ?b"
    using a re ns dg P rid reason format_good(2) [OF wall P(2)]
    by (simp add: validate_decision_body_def acceptable_def validate_action_def)
  obtain h sg where d: "sign_decision P ?b (cf_gateway_private_key C) = Inr \<lparr> d_body = ?b, d_hash = h, d_signature = sg \<rparr>"
      "validate_decision P \<lparr> d_body = ?b, d_hash = h, d_signature = sg \<rparr> = Inr \<lparr> d_body = ?b, d_hash = h, d_signature = sg \<rparr>"
      "validate_signature sg = Inr sg" "verify_decision P ?key \<lparr> d_body = ?b, d_hash = h, d_signature = sg \<rparr> = Inr ()"
    using decision_env.sign_total [OF s bounded_decision_body [OF _ P(2) b, of 0]] by auto
  have "make_decision P C a request (strftime_utc wall) (e_mono E k) (rs_kill_epoch (w_state w)) (allow_result rule) (Some ?aid) =
      Inr \<lparr> d_body = ?b, d_hash = h, d_signature = sg \<rparr>"
    using dg(1) b d(1) by (simp add: make_decision_def allow_result_def)
  then show ?thesis using b d dg(1) unfolding grants_def decision_bound_def by (intro exI conjI) (assumption | simp)+
qed

section \<open>The gateway accepts\<close>

lemma calm_on_state: "calm E \<Longrightarrow> m (w_state w) = (r, s) \<Longrightarrow> on_state E m w = (r, w\<lparr> w_ticks := w_ticks w + 1, w_state := s \<rparr>)"
  by (simp add: on_state_def on_part_def calm_switch op_simps)

lemma calm_on_policy: "calm E \<Longrightarrow> m (w_policy w) = (r, s) \<Longrightarrow> on_policy E m w = (r, w\<lparr> w_ticks := w_ticks w + 1, w_policy := s \<rparr>)"
  by (simp add: on_policy_def on_part_def calm_switch op_simps)

lemma room_clock:
  assumes "room P E n w"
  shows "good_time (e_wall E k)" "safe_nonneg (e_mono E k)" "i \<le> j \<Longrightarrow> e_mono E i \<le> e_mono E j" "last_le w (e_mono E (w_ticks w))"
    "nfc_fixes_ascii P" "digest_ok P"
  using assms by (simp_all add: room_def)

text \<open>The two events of an accepted request.\<close>

definition requested ::
  "prims \<Rightarrow> config \<Rightarrow> action \<Rightarrow> egress_rule \<Rightarrow> int \<Rightarrow> int \<Rightarrow> event list \<Rightarrow> pystr \<Rightarrow> event \<Rightarrow> event \<Rightarrow> decision \<Rightarrow> bool" where
  "requested P C a rule epoch t es aid e1 e2 d \<longleftrightarrow>
     (\<exists>ns digest. t \<le> ns \<and> action_digest P a = Inr digest \<and>
        event_of P REQUEST (request_payload a digest) (Some (a_request_id a)) t e1 \<and> links P (cf_manifest C) es e1 \<and>
        event_of P DECISION (dump_decision d) (Some (a_request_id a)) ns e2 \<and> links P (cf_manifest C) (es @ [e1]) e2 \<and>
        grants P C a rule e1 epoch ns aid d)"

lemma permitted_authorize:
  assumes "engine_of P C e" "validate_action P a = Inr a" "permitted e a now rule"
  shows "authorize a now e = (Inr (allow_result rule), count_use a rule e)"
proof -
  from assms(1) have wf: "policy_wf P e" by (simp add: engine_of_def)
  obtain r where r: "permitted e a now r" "authorize a now e = (Inr (allow_result r), count_use a r e)"
    using authorize_spec [OF wf assms(2), of now] assms(3) by blast
  from r(1) assms(3) have "r = rule" by (simp add: permitted_def)
  with r(2) show ?thesis by simp
qed

lemma decide_accepts:
  assumes r: "room P E (Suc (Suc n)) w" and a: "acceptable P C E a rule w" and m: "ld_manifest (w_ledger w) = cf_manifest C"
    and t: "safe_nonneg t" "last_le w t" "t \<le> e_mono E (w_ticks w)"
  shows "\<exists>e1 e2 d l mi k j. decide P C E a t w =
      (Inr \<lparr> gr_accepted = True, gr_reason_code = lit ''policy.allowed'', gr_action = Some a, gr_decision = Some d \<rparr>,
       w\<lparr> w_ticks := w_ticks w + k, w_ledger := l, w_mirror := mi, w_policy := count_use a rule (w_policy w),
          w_state := (w_state w)\<lparr> rs_allowed := rs_allowed (w_state w) + 1 \<rparr> \<rparr>) \<and>
    ld_events l = ld_events (w_ledger w) @ [e1, e2] \<and> same_parameters (w_ledger w) l \<and>
    requested P C a rule (rs_kill_epoch (w_state w)) t (ld_events (w_ledger w)) (lit ''auth:'' @ e_token E j) e1 e2 d \<and>
    room P E n (w\<lparr> w_ticks := w_ticks w + k, w_ledger := l, w_mirror := mi \<rparr>) \<and> j = w_ticks w + 7 \<and> j < w_ticks w + k"
proof -
  note c = room_calm [OF r] and ck = room_clock [OF r]
  obtain dg where dg: "action_digest P a = Inr dg" "sha256_hex_text dg"
    using moderate_digest [of P a] ck(6) a unfolding acceptable_def by blast
  obtain i q where pl: "bounded_json P 0 i q (request_payload a dg)" "i \<le> 100000" "q \<le> 500000"
    using bounded_request [OF ck(5) _ dg(2)] a unfolding acceptable_def by blast
  have rq: "opt_all opaque_id (Some (a_request_id a))" using a by (simp add: acceptable_def validate_action_def)
  let ?k = "3 :: nat"
  obtain e1 l1 mi1 where g1: "gateway_commit P E REQUEST (request_payload a dg) (Some (a_request_id a)) (Some t) w =
      (Inr e1, w\<lparr> w_ticks := w_ticks w + ?k, w_ledger := l1, w_mirror := mi1 \<rparr>)"
    "ld_events l1 = ld_events (w_ledger w) @ [e1]" "same_parameters (w_ledger w) l1"
    "event_of P REQUEST (request_payload a dg) (Some (a_request_id a)) t e1"
    "links P (cf_manifest C) (ld_events (w_ledger w)) e1"
    "room P E (Suc n) (w\<lparr> w_ticks := w_ticks w + ?k, w_ledger := l1, w_mirror := mi1 \<rparr>)"
    using room_gateway_commit [OF r pl rq t, of REQUEST] unfolding m by blast
  let ?w1 = "w\<lparr> w_ticks := w_ticks w + ?k, w_ledger := l1, w_mirror := mi1 \<rparr>" and ?n = "w_ticks w + ?k"
  let ?ns = "e_mono E ?n" and ?wall = "e_wall E (?n + 1)" and ?aid = "lit ''auth:'' @ e_token E (?n + 4)"
  let ?pol = "count_use a rule (w_policy w)"
  have seq: "safe_nonneg (eb_sequence (ev_body e1))" "sha256_hex_text (ev_hash e1)"
    using g1(5) by (auto simp: links_def validate_event_body_def validate_event_def)
  obtain d where d: "make_decision P C a e1 (strftime_utc ?wall) ?ns (rs_kill_epoch (w_state w)) (allow_result rule) (Some ?aid) = Inr d"
    "grants P C a rule e1 (rs_kill_epoch (w_state w)) ?ns ?aid d"
    using make_decision_total [OF a seq ck(1,2)] by blast
  have pol: "authorize a (strftime_utc ?wall) (w_policy w) = (Inr (allow_result rule), ?pol)"
    using a by (intro permitted_authorize [of P C]) (simp_all add: acceptable_def)
  let ?w2 = "w\<lparr> w_ledger := l1, w_mirror := mi1, w_policy := ?pol, w_ticks := ?n + 5 \<rparr>"
  have r2: "room P E (Suc n) ?w2" by (rule room_frame [OF g1(6)]) simp_all
  have bd: "bounded_json P 0 27 38558 (dump_decision d)"
    by (rule bounded_decision) (use d(2) ck(5) in \<open>auto simp: grants_def validate_decision_def\<close>)
  have tn: "t \<le> ?ns" using t(3) ck(3) [of "w_ticks w" ?n] by simp
  have l2: "last_le ?w2 ?ns" using tn g1(2,4) by (simp add: last_le_def event_of_def)
  obtain e2 l mi where g2: "gateway_commit P E DECISION (dump_decision d) (Some (a_request_id a)) (Some ?ns) ?w2 =
      (Inr e2, ?w2\<lparr> w_ticks := w_ticks ?w2 + 3, w_ledger := l, w_mirror := mi \<rparr>)"
    "ld_events l = ld_events (w_ledger ?w2) @ [e2]" "same_parameters (w_ledger ?w2) l"
    "event_of P DECISION (dump_decision d) (Some (a_request_id a)) ?ns e2"
    "links P (ld_manifest (w_ledger ?w2)) (ld_events (w_ledger ?w2)) e2"
    "room P E n (?w2\<lparr> w_ticks := w_ticks ?w2 + 3, w_ledger := l, w_mirror := mi \<rparr>)"
    using room_gateway_commit [OF r2 bd _ _ rq ck(2) l2, of DECISION] ck(3) [of ?n "?n + 5"] by auto
  have "decide P C E a t w =
      (Inr \<lparr> gr_accepted = True, gr_reason_code = lit ''policy.allowed'', gr_action = Some a, gr_decision = Some d \<rparr>,
       w\<lparr> w_ticks := w_ticks w + (?k + 3 + 6), w_ledger := l, w_mirror := mi, w_policy := ?pol,
          w_state := (w_state w)\<lparr> rs_allowed := rs_allowed (w_state w) + 1 \<rparr> \<rparr>)"
    using g1(1) g2(1) d(1) pol dg(1) format_good(1) [OF ck(1) ck(5)]
    by (simp add: decide_def bind_op_def lift_result_def use_env_def calm_on_policy [OF c] calm_on_state [OF c]
        current_epoch_def record_decision_def authorization_for_def ret_op_def allow_result_def eval_nat_numeral)
  moreover have "room P E n (w\<lparr> w_ticks := w_ticks w + (?k + 3 + 6), w_ledger := l, w_mirror := mi \<rparr>)"
    by (rule room_frame [OF g2(6)]) simp_all
  moreover have "requested P C a rule (rs_kill_epoch (w_state w)) t (ld_events (w_ledger w)) ?aid e1 e2 d"
    unfolding requested_def using tn dg(1) g1(2-5) g2(4,5) d(2) m by (auto simp: same_parameters_def)
  moreover have "same_parameters (w_ledger w) l" using g1(3) g2(3) by (simp add: same_parameters_def)
  ultimately show ?thesis using g1(2) g2(2)
    by (intro exI [of _ e1] exI [of _ e2] exI [of _ d] exI [of _ l] exI [of _ mi] exI [of _ "?k + 3 + 6"] exI [of _ "?n + 4"]) simp
qed

lemma admit_admitted:
  assumes "admit n now s = (Inr ADMITTED, s')"
  shows "rs_phase s' = PhRunning" "rs_kill_epoch s' = rs_kill_epoch s" "rs_consumed s' = rs_consumed s" "rs_active s' = rs_active s"
    "rs_criteria s' = rs_criteria s" "rs_egress_bytes s' = rs_egress_bytes s" "rs_reserved_egress_bytes s' = rs_reserved_egress_bytes s"
  using assms by (auto simp: admit_def roll_window_def Let_def split: if_splits option.splits)

text \<open>The run is within its limits at any time the clock may show.\<close>

definition admissible :: "config \<Rightarrow> env \<Rightarrow> bytes \<Rightarrow> world \<Rightarrow> bool" where
  "admissible C E raw w \<longleftrightarrow>
     (\<forall>n. fst (admit (int (length raw)) (e_mono E n) (w_state w)) = Inr ADMITTED \<and>
        e_mono E n - sv_started_monotonic_ns (w_supervisor w) \<le> max_runtime_ms (mb_kill_criteria (m_body (cf_manifest C))) * 1000000)"

text \<open>What an accepted request leaves behind: the state with its counters, and two more events.\<close>

definition accepted_in ::
  "prims \<Rightarrow> config \<Rightarrow> env \<Rightarrow> action \<Rightarrow> egress_rule \<Rightarrow> nat \<Rightarrow> event \<Rightarrow> event \<Rightarrow> decision \<Rightarrow> pystr \<Rightarrow> int \<Rightarrow> int \<Rightarrow> world \<Rightarrow> world \<Rightarrow> bool" where
  "accepted_in P C E a rule n e1 e2 d aid sz t w w' \<longleftrightarrow>
     ld_events (w_ledger w') = ld_events (w_ledger w) @ [e1, e2] \<and> same_parameters (w_ledger w) (w_ledger w') \<and>
     requested P C a rule (rs_kill_epoch (w_state w)) t (ld_events (w_ledger w)) aid e1 e2 d \<and> room P E n w' \<and>
     w_registry w' = w_registry w \<and> w_sent w' = w_sent w \<and> w_supervisor w' = w_supervisor w \<and> w_witness w' = w_witness w \<and>
     w_policy w' = count_use a rule (w_policy w) \<and>
     w_state w' = (snd (admit sz t (w_state w)))
       \<lparr> rs_allowed := rs_allowed (snd (admit sz t (w_state w))) + 1 \<rparr>"

lemma submit_accepts:
  assumes r: "room P E (Suc (Suc n)) w" and a: "acceptable P C E a rule w" and m: "ld_manifest (w_ledger w) = cf_manifest C"
    and adm: "admissible C E raw w" and wire: "from_wire P (InBytes raw) = Inr a"
  shows "\<exists>e1 e2 d j w'. submit_raw P C E raw w =
      (Inr \<lparr> gr_accepted = True, gr_reason_code = lit ''policy.allowed'', gr_action = Some a, gr_decision = Some d \<rparr>, w') \<and>
    accepted_in P C E a rule n e1 e2 d (lit ''auth:'' @ e_token E j) (int (length raw)) (e_mono E (w_ticks w)) w w' \<and>
    j = w_ticks w + 9 \<and> j < w_ticks w'"
proof -
  note c = room_calm [OF r] and ck = room_clock [OF r]
  let ?t = "e_mono E (w_ticks w)"
  obtain s where s: "admit (int (length raw)) ?t (w_state w) = (Inr ADMITTED, s)"
    using adm unfolding admissible_def by (metis prod.collapse)
  let ?w = "w\<lparr> w_ticks := Suc (Suc (w_ticks w)), w_state := s \<rparr>"
  have ep: "rs_kill_epoch s = rs_kill_epoch (w_state w)" by (rule admit_admitted(2) [OF s])
  have r1: "room P E (Suc (Suc n)) ?w" by (rule room_frame [OF r]) simp_all
  have a1: "acceptable P C E a rule ?w" using a ep by (simp add: acceptable_def)
  have l: "last_le ?w ?t" "?t \<le> e_mono E (w_ticks ?w)" using ck(4) ck(3) [of "w_ticks w" "Suc (Suc (w_ticks w))"] by (simp_all add: last_le_def)
  have m1: "ld_manifest (w_ledger ?w) = cf_manifest C" using m by simp
  obtain e1 e2 d l mi k j where dc: "decide P C E a ?t ?w =
      (Inr \<lparr> gr_accepted = True, gr_reason_code = lit ''policy.allowed'', gr_action = Some a, gr_decision = Some d \<rparr>,
       ?w\<lparr> w_ticks := w_ticks ?w + k, w_ledger := l, w_mirror := mi, w_policy := count_use a rule (w_policy ?w),
          w_state := (w_state ?w)\<lparr> rs_allowed := rs_allowed (w_state ?w) + 1 \<rparr> \<rparr>)"
    "ld_events l = ld_events (w_ledger ?w) @ [e1, e2]" "same_parameters (w_ledger ?w) l"
    "requested P C a rule (rs_kill_epoch (w_state ?w)) ?t (ld_events (w_ledger ?w)) (lit ''auth:'' @ e_token E j) e1 e2 d"
    "room P E n (?w\<lparr> w_ticks := w_ticks ?w + k, w_ledger := l, w_mirror := mi \<rparr>)" "j = w_ticks ?w + 7" "j < w_ticks ?w + k"
    using decide_accepts [OF r1 a1 m1 ck(2) l] by blast
  let ?w' = "snd (decide P C E a ?t ?w)"
  have dl: "\<not> e_mono E (w_ticks w) - sv_started_monotonic_ns (w_supervisor w) > max_runtime_ms (mb_kill_criteria (m_body (cf_manifest C))) * 1000000"
    using adm by (simp add: admissible_def not_less)
  have "submit_raw P C E raw w =
      (Inr \<lparr> gr_accepted = True, gr_reason_code = lit ''policy.allowed'', gr_action = Some a, gr_decision = Some d \<rparr>, ?w')"
    using dl s wire dc(1) by (simp add: submit_raw_def bind_op_def use_env_def get_op_def calm_on_state [OF c])
  moreover have "room P E n ?w'" by (rule room_frame [OF dc(5)]) (simp_all add: dc(1))
  ultimately show ?thesis using dc s ep
    by (intro exI [of _ e1] exI [of _ e2] exI [of _ d] exI [of _ j] exI [of _ ?w']) (simp add: accepted_in_def)
qed

section \<open>The executor dispatches\<close>

lemma calm_on_registry:
  "calm E \<Longrightarrow> m (w_registry w) = (r, s) \<Longrightarrow> on_registry E m w = (r, w\<lparr> w_ticks := w_ticks w + 1, w_registry := s \<rparr>)"
  by (simp add: on_registry_def on_part_def calm_switch op_simps)

text \<open>A backend and a broker that answer within the bounds of the rule.\<close>

definition deliverable :: "prims \<Rightarrow> config \<Rightarrow> env \<Rightarrow> action \<Rightarrow> egress_rule \<Rightarrow> bytes option \<Rightarrow> transport_result \<Rightarrow> bool" where
  "deliverable P C E a rule secret t \<longleftrightarrow>
     release C a = Inr secret \<and> (\<forall>n. e_transport E n = Inr t) \<and>
     0 \<le> tr_response_bytes t \<and> tr_response_bytes t \<le> max_response_bytes rule \<and> safe_nonneg (tr_response_bytes t) \<and>
     100 \<le> tr_status_code t \<and> tr_status_code t \<le> 599 \<and> sha256_hex_text (tr_response_sha256 t)"

lemma grants_fields:
  assumes "grants P C a rule request epoch ns aid d"
  shows "sha256_hex_text (db_action_sha256 (d_body d))" "sha256_hex_text (d_hash d)" "opaque_id aid"
    "safe_nonneg (db_kill_epoch (d_body d))" "opaque_id (a_request_id a)" "action_digest P a = Inr (db_action_sha256 (d_body d))"
  using assms by (auto simp: grants_def validate_decision_body_def validate_decision_def decision_bound_def)

lemma bounded_dispatch:
  assumes "nfc_fixes_ascii P" "grants P C a rule request epoch ns aid d"
  shows "bounded_json P 0 5 6170 (dispatch_payload (db_action_sha256 (d_body d)) d)"
proof -
  note f = grants_fields [OF assms(2)]
  have au: "db_authorization_id (d_body d) = Some aid" using assms(2) by (simp add: grants_def)
  have "bounded_json P 0 (1 + 4) (2 + 6168) (dispatch_payload (db_action_sha256 (d_body d)) d)" unfolding dispatch_payload_def
    by (rule bounded_obj; (intro bm_small bm_Nil)?)
      (use assms(1) f short_sha256 short_opaque au in \<open>simp_all add: short_lit small_json_simps\<close>)
  then show ?thesis by simp
qed

lemma bounded_result:
  assumes "nfc_fixes_ascii P" "grants P C a rule request epoch ns aid d" "deliverable P C E a rule secret t"
  shows "bounded_json P 0 8 10796 (result_payload (db_action_sha256 (d_body d)) d t)"
proof -
  note f = grants_fields [OF assms(2)]
  have au: "db_authorization_id (d_body d) = Some aid" using assms(2) by (simp add: grants_def)
  have t: "safe_nonneg (tr_response_bytes t)" "safe_nonneg (tr_status_code t)" "short_text (tr_response_sha256 t)"
    using assms(3) short_sha256 by (auto simp: deliverable_def safe_nonneg_def MAX_SAFE_INTEGER_def)
  have "bounded_json P 0 (1 + 7) (2 + 10794) (result_payload (db_action_sha256 (d_body d)) d t)" unfolding result_payload_def
    by (rule bounded_obj; (intro bm_small bm_Nil)?)
      (use assms(1) f t short_sha256 short_opaque au in \<open>simp_all add: short_lit small_json_simps\<close>)
  then show ?thesis by simp
qed

lemma matched_rule_found:
  assumes "engine_of P C e" "rule \<in> set (mb_allowed_egress (m_body (cf_manifest C)))" "db_matched_rule_id (d_body d) = Some (rule_id rule)"
  shows "matched_rule C d = Inr rule"
proof -
  have ss: "strictly_sorted (map rule_id (mb_allowed_egress (m_body (cf_manifest C))))"
    using assms(1) by (auto simp: engine_of_def policy_wf_def validate_manifest_body_def)
  obtain r where r: "find (\<lambda>r. Some (rule_id r) = db_matched_rule_id (d_body d)) (mb_allowed_egress (m_body (cf_manifest C))) = Some r"
    using assms(2,3) by (cases "find (\<lambda>r. Some (rule_id r) = db_matched_rule_id (d_body d)) (mb_allowed_egress (m_body (cf_manifest C)))")
      (auto simp: find_None_iff)
  then have "r \<in> set (mb_allowed_egress (m_body (cf_manifest C)))" "rule_id r = rule_id rule"
    using assms(3) by (auto simp: find_Some_iff)
  with strictly_sorted_unique [OF ss] assms(2) have "r = rule" by blast
  with r show ?thesis by (simp add: matched_rule_def)
qed

text \<open>The accounting of a dispatch from beginning to end.\<close>

definition served_state :: "pystr \<Rightarrow> int \<Rightarrow> int \<Rightarrow> run_state \<Rightarrow> run_state" where
  "served_state aid reserve egress s = complete_dispatch aid reserve egress (reserve_dispatch aid reserve s)"

lemma begin_serves:
  assumes r: "room P E (Suc n) w" and m: "ld_manifest (w_ledger w) = cf_manifest C"
    and g: "grants P C a rule request (rs_kill_epoch (w_state w)) ns aid d"
    and st: "rs_phase (w_state w) = PhRunning" "aid \<notin> rs_consumed (w_state w)" "\<not> budget_blocked (max_response_bytes rule) (w_state w)"
    and now: "now \<le> ns + cf_authorization_ttl_ns C"
  shows "\<exists>e l mi k. begin_dispatch P E a d now rule w =
      (Inr \<lparr> lease_authorization_id = aid, lease_reserved_egress_bytes = max_response_bytes rule \<rparr>,
       w\<lparr> w_ticks := w_ticks w + k, w_state := reserve_dispatch aid (max_response_bytes rule) (w_state w), w_ledger := l, w_mirror := mi \<rparr>) \<and>
    ld_events l = ld_events (w_ledger w) @ [e] \<and> same_parameters (w_ledger w) l \<and>
    event_of P DISPATCH (dispatch_payload (db_action_sha256 (d_body d)) d) (Some (a_request_id a)) (e_mono E (w_ticks w + 2)) e \<and>
    links P (cf_manifest C) (ld_events (w_ledger w)) e \<and>
    room P E n (w\<lparr> w_ticks := w_ticks w + k, w_ledger := l, w_mirror := mi \<rparr>)"
proof -
  let ?s = "reserve_dispatch aid (max_response_bytes rule) (w_state w)"
  let ?w = "w\<lparr> w_ticks := Suc (w_ticks w), w_state := ?s \<rparr>"
  note c = room_calm [OF r] and ck = room_clock [OF r] and f = grants_fields [OF g]
  have rq: "opt_all opaque_id (Some (a_request_id a))" using f(5) by simp
  have r1: "room P E (Suc n) ?w" by (rule room_frame [OF r]) simp_all
  obtain e l mi k where e: "commit_now P E DISPATCH (dispatch_payload (db_action_sha256 (d_body d)) d) (Some (a_request_id a)) None ?w =
      (Inr e, ?w\<lparr> w_ticks := w_ticks ?w + k, w_ledger := l, w_mirror := mi \<rparr>)"
    "ld_events l = ld_events (w_ledger ?w) @ [e]" "same_parameters (w_ledger ?w) l"
    "event_of P DISPATCH (dispatch_payload (db_action_sha256 (d_body d)) d) (Some (a_request_id a)) (e_mono E (w_ticks ?w + 1)) e"
    "links P (ld_manifest (w_ledger ?w)) (ld_events (w_ledger ?w)) e"
    "room P E n (?w\<lparr> w_ticks := w_ticks ?w + k, w_ledger := l, w_mirror := mi \<rparr>)"
    using room_commit_now [OF r1 bounded_dispatch [OF ck(5) g] _ _ rq disjI1 [OF conjI [OF refl refl]], of DISPATCH] by auto
  have guard: "begin_guard (d_body d) now (w_state w) = Inr aid"
    using g st(1,2) now by (simp add: begin_guard_def grants_def)
  have "begin_dispatch P E a d now rule w =
      (Inr \<lparr> lease_authorization_id = aid, lease_reserved_egress_bytes = max_response_bytes rule \<rparr>,
       ?w\<lparr> w_ticks := w_ticks ?w + k, w_ledger := l, w_mirror := mi \<rparr>)"
    using guard st(3) e(1) f(6)
    by (simp add: begin_dispatch_def bind_op_def calm_switch [OF c] begin_authorized_def commit_dispatch_def lift_result_def ret_op_def)
  moreover have "room P E n (w\<lparr> w_ticks := w_ticks w + Suc k, w_ledger := l, w_mirror := mi \<rparr>)"
    by (rule room_frame [OF e(6)]) simp_all
  ultimately show ?thesis using e m
    by (intro exI [of _ e] exI [of _ l] exI [of _ mi] exI [of _ "Suc k"]) simp
qed

lemma leased_serves:
  assumes r: "room P E (Suc n) w" and m: "ld_manifest (w_ledger w) = cf_manifest C"
    and g: "grants P C a rule request epoch ns aid d" and dv: "deliverable P C E a rule secret t"
    and act: "rs_active (w_state w) aid = Some (max_response_bytes rule)"
  shows "\<exists>e l mi k u. leased P C E a d rule \<lparr> lease_authorization_id = aid, lease_reserved_egress_bytes = max_response_bytes rule \<rparr> w =
      (Inr t, w\<lparr> w_ticks := w_ticks w + k, w_state := complete_dispatch aid (max_response_bytes rule) (tr_response_bytes t) (w_state w),
         w_ledger := l, w_mirror := mi, w_sent := w_sent w @ [(a, secret, max_response_bytes rule)] \<rparr>) \<and>
    ld_events l = ld_events (w_ledger w) @ [e] \<and> same_parameters (w_ledger w) l \<and>
    event_of P RESULT (result_payload (db_action_sha256 (d_body d)) d t) (Some (a_request_id a)) u e \<and>
    links P (cf_manifest C) (ld_events (w_ledger w)) e \<and>
    room P E n (w\<lparr> w_ticks := w_ticks w + k, w_ledger := l, w_mirror := mi \<rparr>)"
proof -
  let ?w = "w\<lparr> w_sent := w_sent w @ [(a, secret, max_response_bytes rule)], w_ticks := w_ticks w + 3 \<rparr>"
  let ?s = "complete_dispatch aid (max_response_bytes rule) (tr_response_bytes t) (w_state w)"
  note c = room_calm [OF r] and ck = room_clock [OF r] and f = grants_fields [OF g]
  have rq: "opt_all opaque_id (Some (a_request_id a))" using f(5) by simp
  have r1: "room P E (Suc n) ?w" by (rule room_frame [OF r]) simp_all
  obtain e l mi k where e: "commit_now P E RESULT (result_payload (db_action_sha256 (d_body d)) d t) (Some (a_request_id a)) None ?w =
      (Inr e, ?w\<lparr> w_ticks := w_ticks ?w + k, w_ledger := l, w_mirror := mi \<rparr>)"
    "ld_events l = ld_events (w_ledger ?w) @ [e]" "same_parameters (w_ledger ?w) l"
    "event_of P RESULT (result_payload (db_action_sha256 (d_body d)) d t) (Some (a_request_id a)) (e_mono E (w_ticks ?w + 1)) e"
    "links P (ld_manifest (w_ledger ?w)) (ld_events (w_ledger ?w)) e"
    "room P E n (?w\<lparr> w_ticks := w_ticks ?w + k, w_ledger := l, w_mirror := mi \<rparr>)"
    using room_commit_now [OF r1 bounded_result [OF ck(5) g dv] _ _ rq disjI1 [OF conjI [OF refl refl]], of RESULT] by auto
  let ?w' = "?w\<lparr> w_ticks := w_ticks ?w + k, w_ledger := l, w_mirror := mi, w_state := ?s \<rparr>"
  have "leased P C E a d rule \<lparr> lease_authorization_id = aid, lease_reserved_egress_bytes = max_response_bytes rule \<rparr> w = (Inr t, ?w')"
    using dv act e(1) f(6)
    by (simp add: leased_def call_transport_def finish_dispatch_def finish_authorized_def commit_result_def deliverable_def
        bind_op_def lift_result_def modify_op_def use_env_def ret_op_def calm_switch [OF c] eval_nat_numeral)
  moreover have "?w' = w\<lparr> w_ticks := w_ticks w + (3 + k), w_state := ?s, w_ledger := l, w_mirror := mi,
      w_sent := w_sent w @ [(a, secret, max_response_bytes rule)] \<rparr>" by (rule world.equality) simp_all
  moreover have "room P E n (w\<lparr> w_ticks := w_ticks w + (3 + k), w_ledger := l, w_mirror := mi \<rparr>)"
    by (rule room_frame [OF e(6)]) simp_all
  ultimately show ?thesis using e m
    by (intro exI [of _ e] exI [of _ l] exI [of _ mi] exI [of _ "3 + k"] exI [of _ "e_mono E (w_ticks ?w + 1)"]) simp
qed

text \<open>The two events of a dispatch.\<close>

definition dispatched ::
  "prims \<Rightarrow> config \<Rightarrow> action \<Rightarrow> transport_result \<Rightarrow> int \<Rightarrow> event list \<Rightarrow> decision \<Rightarrow> event \<Rightarrow> event \<Rightarrow> bool" where
  "dispatched P C a t limit es d e3 e4 \<longleftrightarrow>
     (\<exists>u v. u \<le> limit \<and> event_of P DISPATCH (dispatch_payload (db_action_sha256 (d_body d)) d) (Some (a_request_id a)) u e3 \<and>
        links P (cf_manifest C) es e3 \<and>
        event_of P RESULT (result_payload (db_action_sha256 (d_body d)) d t) (Some (a_request_id a)) v e4 \<and>
        links P (cf_manifest C) (es @ [e3]) e4)"

lemma dispatch_serves:
  assumes r: "room P E (Suc (Suc n)) w" and m: "ld_manifest (w_ledger w) = cf_manifest C"
    and g: "grants P C a rule request (rs_kill_epoch (w_state w)) ns aid d" and dv: "deliverable P C E a rule secret t"
    and st: "rs_phase (w_state w) = PhRunning" "aid \<notin> rs_consumed (w_state w)" "\<not> budget_blocked (max_response_bytes rule) (w_state w)"
    and now: "now \<le> ns + cf_authorization_ttl_ns C" "\<And>k. e_mono E k \<le> ns + cf_authorization_ttl_ns C"
    and reg: "map_of (rg_events (w_registry w)) aid = None" and mr: "matched_rule C d = Inr rule"
  shows "\<exists>e3 e4 w'. dispatch P C E a d now w = (Inr t, w') \<and>
    ld_events (w_ledger w') = ld_events (w_ledger w) @ [e3, e4] \<and> same_parameters (w_ledger w) (w_ledger w') \<and>
    dispatched P C a t (ns + cf_authorization_ttl_ns C) (ld_events (w_ledger w)) d e3 e4 \<and> room P E n w' \<and>
    w_state w' = served_state aid (max_response_bytes rule) (tr_response_bytes t) (w_state w) \<and>
    w_sent w' = w_sent w @ [(a, secret, max_response_bytes rule)] \<and> w_supervisor w' = w_supervisor w \<and>
    w_witness w' = w_witness w \<and> w_policy w' = w_policy w \<and> rg_events (w_registry w') = rg_events (w_registry w) \<and>
    w_ticks w \<le> w_ticks w'"
proof -
  let ?g = "(w_registry w)\<lparr> rg_events := rg_events (w_registry w) @ [(aid, rg_next (w_registry w))], rg_next := rg_next (w_registry w) + 1 \<rparr>"
  let ?w1 = "w\<lparr> w_ticks := w_ticks w + 1, w_registry := ?g \<rparr>" and ?b = "max_response_bytes rule"
  let ?lease = "\<lparr> lease_authorization_id = aid, lease_reserved_egress_bytes = ?b \<rparr>"
  note c = room_calm [OF r]
  have reg': "register aid (w_registry w) = (Inr (rg_next (w_registry w)), ?g)" using reg by (simp add: register_def)
  have r1: "room P E (Suc (Suc n)) ?w1" by (rule room_frame [OF r]) simp_all
  have m1: "ld_manifest (w_ledger ?w1) = cf_manifest C" using m by simp
  have g1: "grants P C a rule request (rs_kill_epoch (w_state ?w1)) ns aid d" using g by simp
  obtain e3 l mi k where b: "begin_dispatch P E a d now rule ?w1 =
      (Inr ?lease, ?w1\<lparr> w_ticks := w_ticks ?w1 + k, w_state := reserve_dispatch aid ?b (w_state ?w1), w_ledger := l, w_mirror := mi \<rparr>)"
    "ld_events l = ld_events (w_ledger ?w1) @ [e3]" "same_parameters (w_ledger ?w1) l"
    "event_of P DISPATCH (dispatch_payload (db_action_sha256 (d_body d)) d) (Some (a_request_id a)) (e_mono E (w_ticks ?w1 + 2)) e3"
    "links P (cf_manifest C) (ld_events (w_ledger ?w1)) e3"
    "room P E (Suc n) (?w1\<lparr> w_ticks := w_ticks ?w1 + k, w_ledger := l, w_mirror := mi \<rparr>)"
    using begin_serves [OF r1 m1 g1 _ _ _ now(1)] st by auto
  let ?w2 = "?w1\<lparr> w_ticks := w_ticks ?w1 + k, w_state := reserve_dispatch aid ?b (w_state ?w1), w_ledger := l, w_mirror := mi \<rparr>"
  have r2: "room P E (Suc n) ?w2" by (rule room_frame [OF b(6)]) simp_all
  have m2: "ld_manifest (w_ledger ?w2) = cf_manifest C" using m b(3) by (simp add: same_parameters_def)
  have act: "rs_active (w_state ?w2) aid = Some ?b" by (simp add: reserve_dispatch_def)
  obtain e4 l2 mi2 k2 v where l: "leased P C E a d rule ?lease ?w2 =
      (Inr t, ?w2\<lparr> w_ticks := w_ticks ?w2 + k2, w_state := complete_dispatch aid ?b (tr_response_bytes t) (w_state ?w2),
         w_ledger := l2, w_mirror := mi2, w_sent := w_sent ?w2 @ [(a, secret, ?b)] \<rparr>)"
    "ld_events l2 = ld_events (w_ledger ?w2) @ [e4]" "same_parameters (w_ledger ?w2) l2"
    "event_of P RESULT (result_payload (db_action_sha256 (d_body d)) d t) (Some (a_request_id a)) v e4"
    "links P (cf_manifest C) (ld_events (w_ledger ?w2)) e4"
    "room P E n (?w2\<lparr> w_ticks := w_ticks ?w2 + k2, w_ledger := l2, w_mirror := mi2 \<rparr>)"
    using leased_serves [OF r2 m2 g dv act] by blast
  let ?w3 = "?w2\<lparr> w_ticks := w_ticks ?w2 + k2, w_state := complete_dispatch aid ?b (tr_response_bytes t) (w_state ?w2),
         w_ledger := l2, w_mirror := mi2, w_sent := w_sent ?w2 @ [(a, secret, ?b)] \<rparr>"
  let ?w4 = "?w3\<lparr> w_ticks := w_ticks ?w3 + 1, w_registry := unregister aid ?g \<rparr>"
  have run: "registered_dispatch P C E a d now rule x ?w1 = (Inr t, ?w3)" for x
    unfolding registered_dispatch_def bind_op_def try_op_def b(1) prod.case sum.case l(1) ..
  have un: "on_registry E (\<lambda>g. (Inr (), unregister aid g)) ?w3 = (Inr (), ?w4)" by (subst calm_on_registry [OF c]) simp_all
  have fin: "with_finally (registered_dispatch P C E a d now rule x) (on_registry E (\<lambda>g. (Inr (), unregister aid g))) ?w1 = (Inr t, ?w4)" for x
    unfolding with_finally_def bind_op_def try_op_def run prod.case sum.case ret_op_def un lift_result_def ..
  have db: "verify_decision P (mb_gateway_key (m_body (cf_manifest C))) d = Inr ()" "check_binding P C a d = Inr ()"
      "db_authorization_id (d_body d) = Some aid"
    using g by (auto simp: grants_def decision_bound_def check_binding_def)
  have regw: "on_registry E (register aid) w = (Inr (rg_next (w_registry w)), ?w1)"
    by (rule calm_on_registry [OF c]) (rule reg')
  have "dispatch P C E a d now w = (Inr t, ?w4)"
    unfolding dispatch_def bind_op_def lift_result_def db mr prod.case sum.case option.case regw fin ..
  moreover have "room P E n ?w4" by (rule room_frame [OF l(6)]) simp_all
  moreover have "rg_events (unregister aid ?g) = rg_events (w_registry w)"
  proof -
    have "x \<noteq> aid" if "(x, y) \<in> set (rg_events (w_registry w))" for x y
      using that reg by (auto simp: map_of_eq_None_iff image_iff)
    then have "filter (\<lambda>(a, h). a \<noteq> aid) (rg_events (w_registry w)) = rg_events (w_registry w)" by (intro filter_True) auto
    then show ?thesis by (simp add: unregister_def)
  qed
  moreover have "dispatched P C a t (ns + cf_authorization_ttl_ns C) (ld_events (w_ledger w)) d e3 e4"
    unfolding dispatched_def using now(2) b(2,4,5) l(4,5) by auto
  moreover have "same_parameters (w_ledger w) l2" using b(3) l(3) by (simp add: same_parameters_def)
  ultimately show ?thesis using b(2) l(2)
    by (intro exI [of _ e3] exI [of _ e4] exI [of _ ?w4]) (simp add: served_state_def)
qed

section \<open>From bytes to the response\<close>

text \<open>
  Everything a permitted request needs: an undisturbed runtime with room for \<open>n + 4\<close> events, a run within its
  limits, a fresh token, and a backend that answers.
\<close>

definition servable ::
  "prims \<Rightarrow> config \<Rightarrow> env \<Rightarrow> nat \<Rightarrow> bytes \<Rightarrow> action \<Rightarrow> egress_rule \<Rightarrow> bytes option \<Rightarrow> transport_result \<Rightarrow> world \<Rightarrow> bool" where
  "servable P C E n raw a rule secret t w \<longleftrightarrow>
     room P E (n + 4) w \<and> acceptable P C E a rule w \<and> ld_manifest (w_ledger w) = cf_manifest C \<and> admissible C E raw w \<and>
     from_wire P (InBytes raw) = Inr a \<and> deliverable P C E a rule secret t \<and>
     (\<forall>j \<ge> w_ticks w. lit ''auth:'' @ e_token E j \<notin> rs_consumed (w_state w) \<and>
        map_of (rg_events (w_registry w)) (lit ''auth:'' @ e_token E j) = None) \<and>
     \<not> budget_blocked (max_response_bytes rule) (w_state w) \<and>
     (\<forall>i j. e_mono E j \<le> e_mono E i + cf_authorization_ttl_ns C)"

lemma serve_run_later:
  assumes sv: "servable P C E n raw a rule secret t w"
  shows "\<exists>d w1 w2 e1 e2 e3 e4 aid ns.
    submit_raw P C E raw w =
      (Inr \<lparr> gr_accepted = True, gr_reason_code = lit ''policy.allowed'', gr_action = Some a, gr_decision = Some d \<rparr>, w1) \<and>
    accepted_in P C E a rule (Suc (Suc n)) e1 e2 d aid (int (length raw)) (e_mono E (w_ticks w)) w w1 \<and>
    grants P C a rule e1 (rs_kill_epoch (w_state w)) ns aid d \<and>
    dispatch P C E a d (e_mono E k) (w1\<lparr> w_ticks := w_ticks w1 + i \<rparr>) = (Inr t, w2) \<and>
    ld_events (w_ledger w2) = ld_events (w_ledger w) @ [e1, e2, e3, e4] \<and> same_parameters (w_ledger w) (w_ledger w2) \<and>
    dispatched P C a t (ns + cf_authorization_ttl_ns C) (ld_events (w_ledger w) @ [e1, e2]) d e3 e4 \<and> room P E n w2 \<and>
    w_state w2 = served_state aid (max_response_bytes rule) (tr_response_bytes t) (w_state w1) \<and>
    w_sent w2 = w_sent w @ [(a, secret, max_response_bytes rule)] \<and> w_supervisor w2 = w_supervisor w \<and>
    w_witness w2 = w_witness w \<and> rg_events (w_registry w2) = rg_events (w_registry w) \<and> aid \<notin> rs_consumed (w_state w) \<and>
    w_policy w2 = count_use a rule (w_policy w) \<and> aid = lit ''auth:'' @ e_token E (w_ticks w + 9) \<and> w_ticks w + 9 < w_ticks w2"
proof -
  from sv have h: "room P E (Suc (Suc (Suc (Suc n)))) w" "acceptable P C E a rule w" "ld_manifest (w_ledger w) = cf_manifest C"
      "admissible C E raw w" "from_wire P (InBytes raw) = Inr a" "deliverable P C E a rule secret t"
      "\<not> budget_blocked (max_response_bytes rule) (w_state w)"
    and fresh: "\<And>j. w_ticks w \<le> j \<Longrightarrow> lit ''auth:'' @ e_token E j \<notin> rs_consumed (w_state w)"
      "\<And>j. w_ticks w \<le> j \<Longrightarrow> map_of (rg_events (w_registry w)) (lit ''auth:'' @ e_token E j) = None"
    and prompt: "\<And>i j. e_mono E j \<le> e_mono E i + cf_authorization_ttl_ns C"
    by (simp_all add: servable_def eval_nat_numeral)
  obtain e1 e2 d j w1 where a: "submit_raw P C E raw w =
      (Inr \<lparr> gr_accepted = True, gr_reason_code = lit ''policy.allowed'', gr_action = Some a, gr_decision = Some d \<rparr>, w1)"
    "accepted_in P C E a rule (Suc (Suc n)) e1 e2 d (lit ''auth:'' @ e_token E j) (int (length raw)) (e_mono E (w_ticks w)) w w1"
    and j: "j = w_ticks w + 9" "j < w_ticks w1"
    using submit_accepts [OF h(1-5)] by blast
  have later: "w_ticks w \<le> j" using j(1) by simp
  let ?aid = "lit ''auth:'' @ e_token E j" and ?adm = "admit (int (length raw)) (e_mono E (w_ticks w)) (w_state w)"
  from a(2) have f: "ld_events (w_ledger w1) = ld_events (w_ledger w) @ [e1, e2]" "same_parameters (w_ledger w) (w_ledger w1)"
    "requested P C a rule (rs_kill_epoch (w_state w)) (e_mono E (w_ticks w)) (ld_events (w_ledger w)) ?aid e1 e2 d"
    "room P E (Suc (Suc n)) w1" "w_registry w1 = w_registry w" "w_sent w1 = w_sent w" "w_supervisor w1 = w_supervisor w"
    "w_witness w1 = w_witness w" "w_policy w1 = count_use a rule (w_policy w)" "w_state w1 = (snd ?adm)\<lparr> rs_allowed := rs_allowed (snd ?adm) + 1 \<rparr>"
    by (simp_all add: accepted_in_def)
  have "fst ?adm = Inr ADMITTED" using h(4) by (simp add: admissible_def)
  then have "?adm = (Inr ADMITTED, snd ?adm)" by (metis prod.collapse)
  note ad = admit_admitted [OF this]
  have st: "rs_phase (w_state w1) = PhRunning" "?aid \<notin> rs_consumed (w_state w1)" "\<not> budget_blocked (max_response_bytes rule) (w_state w1)"
    "rs_kill_epoch (w_state w1) = rs_kill_epoch (w_state w)"
    using ad fresh(1) [OF later] h(7) f(10) by (simp_all add: budget_blocked_def)
  obtain ns where ns: "e_mono E (w_ticks w) \<le> ns" "grants P C a rule e1 (rs_kill_epoch (w_state w)) ns ?aid d"
    using f(3) by (auto simp: requested_def)
  have now: "e_mono E i \<le> ns + cf_authorization_ttl_ns C" for i using prompt [of i "w_ticks w"] ns(1) by simp
  have g1: "grants P C a rule e1 (rs_kill_epoch (w_state w1)) ns ?aid d" using ns(2) st(4) by simp
  have rule: "rule \<in> set (mb_allowed_egress (m_body (cf_manifest C)))" "engine_of P C (w_policy w)"
    using h(2) permitted_rule [of "w_policy w" a _ rule] by (auto simp: acceptable_def engine_of_def)
  have mr: "matched_rule C d = Inr rule"
    by (rule matched_rule_found [OF rule(2,1)]) (use ns(2) in \<open>simp add: grants_def\<close>)
  have m1: "ld_manifest (w_ledger w1) = cf_manifest C" using h(3) f(2) by (simp add: same_parameters_def)
  have reg: "map_of (rg_events (w_registry w1)) ?aid = None" using fresh(2) [OF later] f(5) by simp
  let ?v = "w1\<lparr> w_ticks := w_ticks w1 + i \<rparr>"
  have v: "room P E (Suc (Suc n)) ?v" by (rule room_frame [OF f(4)]) simp_all
  have "ld_manifest (w_ledger ?v) = cf_manifest C" "grants P C a rule e1 (rs_kill_epoch (w_state ?v)) ns ?aid d"
    "rs_phase (w_state ?v) = PhRunning" "?aid \<notin> rs_consumed (w_state ?v)" "\<not> budget_blocked (max_response_bytes rule) (w_state ?v)"
    "map_of (rg_events (w_registry ?v)) ?aid = None"
    using m1 g1 st(1-3) reg by simp_all
  from dispatch_serves [where now = "e_mono E k", OF v this(1,2) h(6) this(3-5) now now this(6) mr]
  obtain e3 e4 w2 where "dispatch P C E a d (e_mono E k) ?v = (Inr t, w2)"
    "ld_events (w_ledger w2) = ld_events (w_ledger w1) @ [e3, e4]" "same_parameters (w_ledger w1) (w_ledger w2)"
    "dispatched P C a t (ns + cf_authorization_ttl_ns C) (ld_events (w_ledger w1)) d e3 e4" "room P E n w2"
    "w_state w2 = served_state ?aid (max_response_bytes rule) (tr_response_bytes t) (w_state w1)"
    "w_sent w2 = w_sent w1 @ [(a, secret, max_response_bytes rule)]" "w_supervisor w2 = w_supervisor w1"
    "w_witness w2 = w_witness w1" "rg_events (w_registry w2) = rg_events (w_registry w1)" "w_policy w2 = w_policy w1"
    "w_ticks ?v \<le> w_ticks w2" by auto
  moreover from this(12) j have "?aid = lit ''auth:'' @ e_token E (w_ticks w + 9)" "w_ticks w + 9 < w_ticks w2" by simp_all
  ultimately show ?thesis using a f ns(2) fresh(1) [OF later]
    by (intro exI [of _ d] exI [of _ w1] exI [of _ w2] exI [of _ e1] exI [of _ e2] exI [of _ e3] exI [of _ e4] exI [of _ ?aid] exI [of _ ns])
      (simp add: same_parameters_def)
qed

lemma serve_run:
  assumes sv: "servable P C E n raw a rule secret t w"
  shows "\<exists>d w1 w2 e1 e2 e3 e4 aid ns.
    submit_raw P C E raw w =
      (Inr \<lparr> gr_accepted = True, gr_reason_code = lit ''policy.allowed'', gr_action = Some a, gr_decision = Some d \<rparr>, w1) \<and>
    accepted_in P C E a rule (Suc (Suc n)) e1 e2 d aid (int (length raw)) (e_mono E (w_ticks w)) w w1 \<and>
    grants P C a rule e1 (rs_kill_epoch (w_state w)) ns aid d \<and>
    dispatch P C E a d (e_mono E k) w1 = (Inr t, w2) \<and>
    ld_events (w_ledger w2) = ld_events (w_ledger w) @ [e1, e2, e3, e4] \<and> same_parameters (w_ledger w) (w_ledger w2) \<and>
    dispatched P C a t (ns + cf_authorization_ttl_ns C) (ld_events (w_ledger w) @ [e1, e2]) d e3 e4 \<and> room P E n w2 \<and>
    w_state w2 = served_state aid (max_response_bytes rule) (tr_response_bytes t) (w_state w1) \<and>
    w_sent w2 = w_sent w @ [(a, secret, max_response_bytes rule)] \<and> w_supervisor w2 = w_supervisor w \<and>
    w_witness w2 = w_witness w \<and> rg_events (w_registry w2) = rg_events (w_registry w) \<and> aid \<notin> rs_consumed (w_state w) \<and>
    w_policy w2 = count_use a rule (w_policy w) \<and> aid = lit ''auth:'' @ e_token E (w_ticks w + 9) \<and> w_ticks w + 9 < w_ticks w2"
  using serve_run_later [OF sv, of k 0] by simp

text \<open>
  A permitted request is served. In an undisturbed runtime with room for its events, a request that the policy
  permits, within the limits of the run, with a fresh token and a backend that answers within the response bound,
  is accepted by \<open>submit_raw\<close>; \<open>dispatch\<close> of the decision it returns gives the backend's answer; the ledger has
  exactly the four events REQUEST, DECISION, DISPATCH and RESULT more, the transport was called exactly once more,
  with the released credential and the rule's bound, and the run keeps running.
\<close>

theorem permitted_request_served:
  assumes "servable P C E n raw a rule secret t w"
  shows "\<exists>d w1 w2 es. submit_raw P C E raw w =
      (Inr \<lparr> gr_accepted = True, gr_reason_code = lit ''policy.allowed'', gr_action = Some a, gr_decision = Some d \<rparr>, w1) \<and>
    dispatch P C E a d (e_mono E k) w1 = (Inr t, w2) \<and> ld_events (w_ledger w2) = ld_events (w_ledger w) @ es \<and>
    map (\<lambda>e. eb_kind (ev_body e)) es = [REQUEST, DECISION, DISPATCH, RESULT] \<and>
    w_sent w2 = w_sent w @ [(a, secret, max_response_bytes rule)] \<and> rs_phase (w_state w2) = PhRunning \<and>
    rs_inflight (w_state w2) = rs_inflight (w_state w) \<and>
    rs_egress_bytes (w_state w2) = rs_egress_bytes (w_state w) + tr_response_bytes t"
proof -
  obtain d w1 w2 e1 e2 e3 e4 aid ns where s: "submit_raw P C E raw w =
      (Inr \<lparr> gr_accepted = True, gr_reason_code = lit ''policy.allowed'', gr_action = Some a, gr_decision = Some d \<rparr>, w1)"
    "accepted_in P C E a rule (Suc (Suc n)) e1 e2 d aid (int (length raw)) (e_mono E (w_ticks w)) w w1"
    "dispatch P C E a d (e_mono E k) w1 = (Inr t, w2)"
    "ld_events (w_ledger w2) = ld_events (w_ledger w) @ [e1, e2, e3, e4]"
    "dispatched P C a t (ns + cf_authorization_ttl_ns C) (ld_events (w_ledger w) @ [e1, e2]) d e3 e4"
    "w_state w2 = served_state aid (max_response_bytes rule) (tr_response_bytes t) (w_state w1)"
    "w_sent w2 = w_sent w @ [(a, secret, max_response_bytes rule)]"
    using serve_run [OF assms, of k] by blast
  have "map (\<lambda>e. eb_kind (ev_body e)) [e1, e2, e3, e4] = [REQUEST, DECISION, DISPATCH, RESULT]"
    using s(2,5) by (auto simp: accepted_in_def requested_def dispatched_def event_of_def)
  moreover have "fst (admit (int (length raw)) (e_mono E (w_ticks w)) (w_state w)) = Inr ADMITTED"
    using assms by (simp add: servable_def admissible_def)
  then have "rs_phase (w_state w2) = PhRunning" "rs_inflight (w_state w2) = rs_inflight (w_state w)"
    "rs_egress_bytes (w_state w2) = rs_egress_bytes (w_state w) + tr_response_bytes t"
    using s(2,6) by (auto simp: accepted_in_def served_state_def complete_dispatch_def reserve_dispatch_def admit_def Let_def
        roll_window_def split: if_splits option.splits)
  ultimately show ?thesis using s
    by (intro exI [of _ d] exI [of _ w1] exI [of _ w2] exI [of _ "[e1, e2, e3, e4]"]) simp
qed

section \<open>A served sample\<close>

definition sample_bytes :: bytes where
  "sample_bytes = (case canonical_json_bytes sample_prims (dump_action (sample_action ''/v1/x'')) of Inr b \<Rightarrow> b | Inl _ \<Rightarrow> [])"

definition sample_response :: transport_result where
  "sample_response = \<lparr> tr_status_code = 200, tr_response_bytes = 11, tr_response_sha256 = replicate 64 51 \<rparr>"

lemma sample_from_wire: "from_wire sample_prims (InBytes sample_bytes) = Inr (sample_action ''/v1/x'')"
proof -
  obtain b where b: "canonical_json_bytes sample_prims (dump_action (sample_action ''/v1/x'')) = Inr b"
    using sample_action_bytes by blast
  then have "sample_bytes = b" by (simp add: sample_bytes_def)
  with action_read_back [OF sample_action_valid b] show ?thesis by simp
qed

lemma sample_nonzero: "nonzero_digests sample_prims"
proof -
  have "hd (sha256_hex sample_prims x) = 49" for x
    by (simp add: sha256_hex_def sample_prims_def sample_sha256_def hexdigest_def hex_byte_def hex_digit_def Let_def)
  moreover have "hd GENESIS_HASH = 48" by (simp add: GENESIS_HASH_def)
  ultimately show ?thesis unfolding nonzero_digests_def by (metis numeral_eq_iff num.distinct(1) semiring_norm(88) semiring_norm(90))
qed

lemma sample_size: "int (length sample_bytes) \<le> 4096"
proof -
  let ?v = "dump_action (sample_action ''/v1/x'')"
  have "json_value sample_prims ?v" by (rule bounded_total [OF sample_action_bounded]) simp_all
  from canonical_json_total [OF this] obtain t where t: "canonical_json_bytes sample_prims ?v = Inr (concat (map utf8_char t))"
    "utf8_len t \<le> json_cost (json_of_py ?v)" by blast
  have "json_cost (json_of_py ?v) \<le> 4096" by code_simp
  with t show ?thesis by (simp add: sample_bytes_def utf8_len_def)
qed

lemma sample_room: "room sample_prims still_env 4 sample_world"
  using sample_commit_ready sample_nonzero unfolding commit_ready_def room_def
  by (auto simp: last_le_def sample_world_def sample_ledger_def still_env_def ledger_ready_def)

lemma sample_permitted: "permitted (init_policy sample_manifest) (sample_action ''/v1/x'') (strftime_utc (sample_time 5)) sample_rule"
proof -
  have "map_sum id pr_verdict (fst (authorize (sample_action ''/v1/x'') (strftime_utc (sample_time 5)) (init_policy sample_manifest))) = Inr ALLOW"
    by code_simp
  with authorize_spec [OF sample_policy_wf sample_action_valid, of "strftime_utc (sample_time 5)"]
  obtain r where r: "permitted (init_policy sample_manifest) (sample_action ''/v1/x'') (strftime_utc (sample_time 5)) r" by auto
  then have "r = sample_rule"
    by (auto simp: permitted_def init_policy_def sample_manifest_def sample_manifest_body_def split: if_splits)
  with r show ?thesis by simp
qed

lemma sample_gateway_signer: "signer sample_prims (cf_gateway_private_key sample_config) (mb_gateway_key sample_manifest_body)"
proof -
  have "opaque_id (lit ''gateway'')" by code_simp
  then show ?thesis using sample_prims_ok
    by (simp add: signer_def sample_config_def sample_manifest_body_def sample_key_def sample_prims_def list_all_iff is_byte_def)
qed

lemma sample_acceptable: "acceptable sample_prims sample_config still_env (sample_action ''/v1/x'') sample_rule sample_world"
proof -
  have w: "w_policy sample_world = init_policy sample_manifest" "rs_kill_epoch (w_state sample_world) = 0"
    "cf_manifest sample_config = sample_manifest" "m_body sample_manifest = sample_manifest_body"
    "pe_manifest (init_policy sample_manifest) = sample_manifest"
    by (simp_all add: sample_world_def init_state_def sample_config_def sample_manifest_def init_policy_def)
  have e: "e_wall still_env n = sample_time 5" "e_mono still_env n = 1000" "e_token still_env n = replicate 32 97" for n
    by (simp_all add: still_env_def sample_env_def)
  have ids: "opaque_id (mb_run_id sample_manifest_body)" "sha256_hex_text (m_hash sample_manifest)"
    "opaque_id (cf_gateway_instance_id sample_config)" "opaque_id (lit ''auth:'' @ replicate 32 97)"
    "0 < cf_authorization_ttl_ns sample_config" "safe_nonneg (1000 + cf_authorization_ttl_ns sample_config)" "safe_nonneg 0"
    by code_simp+
  have "moderate sample_prims (dump_action (sample_action ''/v1/x''))" unfolding moderate_def
    by (intro exI [of _ 14] exI [of _ 20048] conjI sample_action_bounded) simp_all
  with sample_action_valid sample_permitted sample_gateway_signer sample_policy_wf ids show ?thesis
    by (simp add: acceptable_def w e engine_of_def init_state_def)
qed

lemma sample_servable:
  "servable sample_prims sample_config still_env 0 sample_bytes (sample_action ''/v1/x'') sample_rule (Some [115, 51]) sample_response sample_world"
proof -
  have e: "e_mono still_env n = 1000" "e_transport still_env n = Inr sample_response" for n
    by (simp_all add: still_env_def sample_env_def sample_response_def)
  have w: "ld_manifest (w_ledger sample_world) = cf_manifest sample_config" "w_state sample_world = init_state sample_criteria"
    "w_registry sample_world = init_registry" "sv_started_monotonic_ns (w_supervisor sample_world) = 0"
    "mb_kill_criteria (m_body (cf_manifest sample_config)) = sample_criteria"
    by (simp_all add: sample_world_def sample_ledger_def sample_config_def init_supervisor_def sample_manifest_def sample_manifest_body_def)
  have adm: "admissible sample_config still_env sample_bytes sample_world"
    using sample_size
    by (simp add: admissible_def w e admit_def roll_window_def would_overload_def init_state_def sample_criteria_def init_supervisor_def Let_def)
  have "release sample_config (sample_action ''/v1/x'') = Inr (Some [115, 51])" by code_simp
  moreover have "sha256_hex_text (replicate 64 51)" by code_simp
  ultimately have dv: "deliverable sample_prims sample_config still_env (sample_action ''/v1/x'') sample_rule (Some [115, 51]) sample_response"
    by (simp add: deliverable_def e sample_response_def sample_rule_def safe_nonneg_def MAX_SAFE_INTEGER_def)
  have "\<not> budget_blocked (max_response_bytes sample_rule) (init_state sample_criteria)" by code_simp
  moreover have "rs_consumed (init_state sample_criteria) = {}" "rg_events init_registry = []" "0 \<le> cf_authorization_ttl_ns sample_config"
    by (simp_all add: init_state_def init_registry_def sample_config_def)
  ultimately show ?thesis using sample_room sample_acceptable sample_from_wire adm dv w(1) unfolding servable_def w(2,3) e by simp
qed

theorem permitted_request_served_witness:
  "\<exists>d w1 w2. submit_raw sample_prims sample_config still_env sample_bytes sample_world =
      (Inr \<lparr> gr_accepted = True, gr_reason_code = lit ''policy.allowed'', gr_action = Some (sample_action ''/v1/x''), gr_decision = Some d \<rparr>, w1) \<and>
    dispatch sample_prims sample_config still_env (sample_action ''/v1/x'') d 1000 w1 = (Inr sample_response, w2) \<and>
    length (ld_events (w_ledger w2)) = 4 \<and> length (w_sent w2) = 1 \<and> rs_egress_bytes (w_state w2) = 11"
proof -
  have e: "e_mono still_env n = 1000" for n by (simp add: still_env_def)
  have w: "ld_events (w_ledger sample_world) = []" "w_sent sample_world = []" "rs_egress_bytes (w_state sample_world) = 0"
    "tr_response_bytes sample_response = 11"
    by (simp_all add: sample_world_def sample_ledger_def init_state_def sample_response_def)
  obtain d w1 w2 es where *: "submit_raw sample_prims sample_config still_env sample_bytes sample_world =
      (Inr \<lparr> gr_accepted = True, gr_reason_code = lit ''policy.allowed'', gr_action = Some (sample_action ''/v1/x''), gr_decision = Some d \<rparr>, w1)"
    "dispatch sample_prims sample_config still_env (sample_action ''/v1/x'') d 1000 w1 = (Inr sample_response, w2)"
    "ld_events (w_ledger w2) = es" "map (\<lambda>e. eb_kind (ev_body e)) es = [REQUEST, DECISION, DISPATCH, RESULT]"
    "w_sent w2 = [(sample_action ''/v1/x'', Some [115, 51], max_response_bytes sample_rule)]" "rs_egress_bytes (w_state w2) = 11"
    using permitted_request_served [OF sample_servable, of 0] unfolding e w by auto
  from arg_cong [OF *(4), of length] have "length es = 4" by simp
  with * show ?thesis by (intro exI [of _ d] exI [of _ w1] exI [of _ w2]) simp
qed

section \<open>The safety theorems on the served sample\<close>

lemma sample_served:
  "\<exists>d w1 w2. submit_raw sample_prims sample_config still_env sample_bytes sample_world =
      (Inr \<lparr> gr_accepted = True, gr_reason_code = lit ''policy.allowed'', gr_action = Some (sample_action ''/v1/x''), gr_decision = Some d \<rparr>, w1) \<and>
    dispatch sample_prims sample_config still_env (sample_action ''/v1/x'') d 1000 w1 = (Inr sample_response, w2) \<and>
    ld_manifest (w_ledger w1) = sample_manifest \<and> w_sent w2 = [(sample_action ''/v1/x'', Some [115, 51], 200)]"
proof -
  have e: "e_mono still_env n = 1000" for n by (simp add: still_env_def)
  have w: "w_sent sample_world = []" "max_response_bytes sample_rule = 200" "ld_manifest (w_ledger sample_world) = sample_manifest"
    by (simp_all add: sample_world_def sample_rule_def sample_ledger_def)
  from serve_run [OF sample_servable, of 0] show ?thesis
    unfolding e w accepted_in_def same_parameters_def by (elim exE conjE) (intro exI conjI, assumption+, simp_all)
qed

lemma sample_engine: "engine_of sample_prims sample_config (w_policy sample_world)"
  using sample_acceptable by (simp add: acceptable_def)

lemma still_fair: "fair_env sample_prims still_env"
  by (rule calm_fair [OF still_calm])

lemma sample_accepted_ok:
  assumes "submit_raw sample_prims sample_config still_env sample_bytes sample_world = (r, w1)"
  shows "world_ok sample_prims w1"
proof -
  let ?A = "\<lambda>w. world_ok sample_prims w \<and> engine_of sample_prims sample_config (w_policy w)"
  have "stable (evolves sample_prims) ?A" by (intro stability)
  from specD [OF s_submit_raw [OF still_fair this] _ assms] sample_world_ok sample_engine show ?thesis
    by (auto simp: evolves_def)
qed

theorem gateway_mediates_witness:
  "\<exists>d (rule :: egress_rule) w1. submit_raw sample_prims sample_config still_env sample_bytes sample_world =
      (Inr \<lparr> gr_accepted = True, gr_reason_code = lit ''policy.allowed'', gr_action = Some (sample_action ''/v1/x''), gr_decision = Some d \<rparr>, w1) \<and>
    db_verdict (d_body d) = ALLOW \<and> db_matched_rule_id (d_body d) = Some (rule_id rule) \<and> validate_decision sample_prims d = Inr d"
proof -
  obtain d w1 where s: "submit_raw sample_prims sample_config still_env sample_bytes sample_world =
      (Inr \<lparr> gr_accepted = True, gr_reason_code = lit ''policy.allowed'', gr_action = Some (sample_action ''/v1/x''), gr_decision = Some d \<rparr>, w1)"
    using sample_served by blast
  from conjunct2 [OF gateway_mediates [OF still_fair sample_world_ok sample_engine s], simplified] show ?thesis
  proof (elim exE conjE)
    fix rule :: egress_rule
    assume "db_verdict (d_body d) = ALLOW" "db_matched_rule_id (d_body d) = Some (rule_id rule)" "validate_decision sample_prims d = Inr d"
    with s show ?thesis by (intro exI [of _ d] exI [of _ rule] exI [of _ w1] conjI)
  qed
qed

theorem gateway_fails_closed_witness:
  "stopped (snd (fail_closed sample_prims sample_config still_env (lit ''executor.atomic_dispatch_failed'') None sample_world))"
  using gateway_fails_closed [OF still_fair sample_world_ok, of VIOLATION PNone None None sample_config "lit ''executor.atomic_dispatch_failed''"]
  by (metis prod.collapse)

theorem transport_calls_justified_witness:
  "\<exists>d (q :: decision) e w1 w2. dispatch sample_prims sample_config still_env (sample_action ''/v1/x'') d 1000 w1 = (Inr sample_response, w2) \<and>
     db_verdict (d_body q) = ALLOW \<and> e \<in> set (ld_events (w_ledger w2)) \<and> eb_kind (ev_body e) = DISPATCH \<and>
     w_sent w2 = [(sample_action ''/v1/x'', Some [115, 51], 200)]"
proof -
  obtain d w1 w2 where s: "submit_raw sample_prims sample_config still_env sample_bytes sample_world =
      (Inr \<lparr> gr_accepted = True, gr_reason_code = lit ''policy.allowed'', gr_action = Some (sample_action ''/v1/x''), gr_decision = Some d \<rparr>, w1)"
    "dispatch sample_prims sample_config still_env (sample_action ''/v1/x'') d 1000 w1 = (Inr sample_response, w2)"
    "ld_manifest (w_ledger w1) = sample_manifest" "w_sent w2 = [(sample_action ''/v1/x'', Some [115, 51], 200)]"
    using sample_served by blast
  have "ld_manifest (w_ledger w1) = cf_manifest sample_config" using s(3) by (simp add: sample_config_def)
  note m = this
  have "(sample_action ''/v1/x'', Some [115, 51], 200) \<in> set (w_sent w2)" using s(4) by simp
  from transport_calls_justified [OF still_fair sample_accepted_ok [OF s(1)] m s(2) this] show ?thesis
  proof (elim exE conjE)
    fix q :: decision and rule :: egress_rule and e :: event
    assume "db_verdict (d_body q) = ALLOW" "e \<in> set (ld_events (w_ledger w2))" "eb_kind (ev_body e) = DISPATCH"
    with s(2,4) show ?thesis by blast
  qed
qed

theorem dispatch_outcome_witness:
  "\<exists>d w2. db_verdict (d_body d) = ALLOW \<and> dispatch_recorded sample_prims (sample_action ''/v1/x'') d w2 \<and>
     result_recorded sample_prims (sample_action ''/v1/x'') d sample_response w2"
proof -
  obtain d w1 w2 where s: "submit_raw sample_prims sample_config still_env sample_bytes sample_world =
      (Inr \<lparr> gr_accepted = True, gr_reason_code = lit ''policy.allowed'', gr_action = Some (sample_action ''/v1/x''), gr_decision = Some d \<rparr>, w1)"
    "dispatch sample_prims sample_config still_env (sample_action ''/v1/x'') d 1000 w1 = (Inr sample_response, w2)"
    "ld_manifest (w_ledger w1) = sample_manifest" using sample_served by blast
  have "ld_manifest (w_ledger w1) = cf_manifest sample_config" using s(3) by (simp add: sample_config_def)
  from dispatch_outcome [OF still_fair sample_accepted_ok [OF s(1)] this s(2)] show ?thesis by auto
qed

theorem stopped_run_never_sends_witness:
  "\<exists>d x w'. dispatch sample_prims sample_config still_env (sample_action ''/v1/x'') d 1000
     (sample_world\<lparr> w_state := (init_state sample_criteria)\<lparr> rs_phase := PhKilled \<rparr> \<rparr>) = (Inl x, w') \<and> w_sent w' = []"
proof -
  let ?w = "sample_world\<lparr> w_state := (init_state sample_criteria)\<lparr> rs_phase := PhKilled \<rparr> \<rparr>"
  have q: "send_quiet still_env" using still_calm by (simp add: calm_def send_quiet_def)
  have "world_ok sample_prims ?w" by (simp add: world_ok_def sample_world_def init_supervisor_def init_registry_def)
  from stopped_run_never_sends [OF still_fair q this, of sample_config "sample_action ''/v1/x''" _ 1000]
  show ?thesis by (simp add: sample_world_def) blast
qed

end
