(* ===== verification/BCP_Adapter.thy ===== *)
theory BCP_Adapter
  imports BCP_Serve
begin

text \<open>
  The HTTP adapter of \<^verbatim>\<open>app/main.py\<close>: the bounded reader of request bodies, the agent-facing endpoints
  \<open>/v1/dispatch\<close> and \<open>/v1/status\<close>, and the control plane with \<open>/v1/complete\<close> and \<open>/v1/receipt\<close> behind a bearer
  token. A request is what the endpoints read of it: header values as the framework hands them over (text decoded
  from Latin-1), the chunks of the body stream, and how the stream ends. Routing and sending belong to the framework
  and are not modelled; an exception an endpoint lets through is the value \<open>Inl\<close>.
\<close>

section \<open>Requests and responses\<close>

record http_request =
  hq_content_type :: "pystr option"
  hq_content_length :: "pystr option"
  hq_authorization :: "pystr option"
  hq_chunks :: "bytes list"
  hq_stream_end :: "unit result"

record http_response =
  hr_status :: int
  hr_content :: pystr

definition json_response :: "prims \<Rightarrow> int \<Rightarrow> pyval \<Rightarrow> http_response result" where
  "json_response P status v = bind_result (canonical_json P v) (\<lambda>s. Inr \<lparr> hr_status = status, hr_content = s \<rparr>)"

text \<open>
  Python's \<open>int\<close> on the text of a header: surrounding white space, a sign, digits with single underscores between
  them; more than 4300 digits are refused.
\<close>

definition py_space :: "int \<Rightarrow> bool" where
  "py_space c \<longleftrightarrow> c \<in> {9, 10, 11, 12, 13, 32, 133, 160}"

definition py_strip :: "pystr \<Rightarrow> pystr" where
  "py_strip s = rev (dropWhile py_space (rev (dropWhile py_space s)))"

fun py_digits :: "pystr \<Rightarrow> pystr option" where
  "py_digits [] = None"
| "py_digits [c] = (if is_digit c then Some [c] else None)"
| "py_digits (c # u # s) =
     (if is_digit c then map_option (Cons c) (if u = 95 then py_digits s else py_digits (u # s)) else None)"

definition signed_digits :: "pystr \<Rightarrow> bool \<times> pystr" where
  "signed_digits s = (case s of [] \<Rightarrow> (False, []) | c # u \<Rightarrow> if c = 45 then (True, u) else if c = 43 then (False, u) else (False, s))"

definition py_int :: "pystr \<Rightarrow> int result" where
  "py_int s =
     (case signed_digits (py_strip s) of (negative, u) \<Rightarrow>
        case py_digits u of
          None \<Rightarrow> Inl (ValueError ''invalid literal for int() with base 10'')
        | Some ds \<Rightarrow>
            if 4300 < length ds then Inl (ValueError ''Exceeds the limit (4300 digits) for integer string conversion'')
            else Inr (if negative then - digits_value ds else digits_value ds))"

section \<open>The body\<close>

fun read_chunks :: "int \<Rightarrow> unit result \<Rightarrow> bytes \<Rightarrow> bytes list \<Rightarrow> bytes result" where
  "read_chunks limit fin body [] = bind_result fin (\<lambda>_. Inr body)"
| "read_chunks limit fin body (c # cs) =
     (if int (length (body @ c)) > limit then Inl (OverflowError ''request body exceeds admission limit'')
      else read_chunks limit fin (body @ c) cs)"

definition bounded_body :: "config \<Rightarrow> http_request \<Rightarrow> bytes result" where
  "bounded_body C q =
     (let limit = max_event_payload_bytes (mb_kill_criteria (m_body (cf_manifest C))) in
      case hq_content_length q of
        None \<Rightarrow> Inl (ValueError ''content-length is required'')
      | Some s \<Rightarrow>
          (case py_int s of
             Inl _ \<Rightarrow> Inl (ValueError ''content-length is invalid'')
           | Inr declared \<Rightarrow>
               if declared < 0 \<or> declared > limit then Inl (OverflowError ''request body exceeds admission limit'')
               else bind_result (read_chunks limit (hq_stream_end q) [] (hq_chunks q)) (\<lambda>body.
                 if int (length body) \<noteq> declared then Inl (ValueError ''content-length does not match streamed body'')
                 else Inr body)))"

section \<open>The agent-facing endpoints\<close>

definition phase_name :: "run_phase \<Rightarrow> pystr" where
  "phase_name ph = (case ph of PhRunning \<Rightarrow> lit ''RUNNING'' | PhKilling \<Rightarrow> lit ''KILLING'' | PhKilled \<Rightarrow> lit ''KILLED''
                    | PhCompleted \<Rightarrow> lit ''COMPLETED'')"

definition media_type :: "http_request \<Rightarrow> pystr" where
  "media_type q = takeWhile (\<lambda>c. c \<noteq> 59) (case hq_content_type q of None \<Rightarrow> [] | Some s \<Rightarrow> s)"

text \<open>\<open>except ValueError\<close> also catches the validation errors, a subclass.\<close>

definition value_error :: "exn \<Rightarrow> bool" where
  "value_error x \<longleftrightarrow> (case x of ValueError _ \<Rightarrow> True | ValidationError _ \<Rightarrow> True | _ \<Rightarrow> False)"

definition rejected_value :: "pystr \<Rightarrow> pyval" where
  "rejected_value reason = obj [(''accepted'', PBool False), (''reason_code'', PStr reason)]"

definition reject_request :: "prims \<Rightarrow> config \<Rightarrow> env \<Rightarrow> pystr \<Rightarrow> int \<Rightarrow> (world, http_response) op" where
  "reject_request P C E reason status =
     bind_op (fail_closed P C E reason None) (\<lambda>_. lift_result (json_response P status (rejected_value reason)))"

definition refused_value :: "pystr \<Rightarrow> run_phase \<Rightarrow> pyval" where
  "refused_value reason ph =
     obj [(''accepted'', PBool False), (''reason_code'', PStr reason), (''phase'', PStr (phase_name ph))]"

definition accepted_value :: "decision \<Rightarrow> transport_result \<Rightarrow> pyval" where
  "accepted_value d t =
     obj [(''accepted'', PBool True), (''decision_hash'', PStr (d_hash d)), (''response_bytes'', PInt (tr_response_bytes t)),
          (''response_sha256'', PStr (tr_response_sha256 t)), (''status_code'', PInt (tr_status_code t))]"

definition serve_body :: "prims \<Rightarrow> config \<Rightarrow> env \<Rightarrow> bytes \<Rightarrow> (world, http_response) op" where
  "serve_body P C E raw =
     bind_op (submit_raw P C E raw) (\<lambda>authorized.
       if \<not> gr_accepted authorized
       then bind_op (on_state E (get_op snapshot)) (\<lambda>snap.
         lift_result (json_response P 403 (refused_value (gr_reason_code authorized) (cs_phase snap))))
       else (case (gr_action authorized, gr_decision authorized) of
           (Some a, Some d) \<Rightarrow>
             bind_op (use_env (e_mono E)) (\<lambda>now_ns.
             bind_op (dispatch P C E a d now_ns) (\<lambda>t. lift_result (json_response P 200 (accepted_value d t))))
         | _ \<Rightarrow> raise_op AssertionError))"

definition dispatch_endpoint :: "prims \<Rightarrow> config \<Rightarrow> env \<Rightarrow> http_request \<Rightarrow> (world, http_response) op" where
  "dispatch_endpoint P C E q =
     (if media_type q \<noteq> lit ''application/json'' then reject_request P C E (lit ''request.content_type_invalid'') 415
      else case bounded_body C q of
        Inr raw \<Rightarrow> serve_body P C E raw
      | Inl x \<Rightarrow>
          (case x of
             OverflowError _ \<Rightarrow> reject_request P C E (lit ''admission.body_too_large'') 413
           | _ \<Rightarrow> if value_error x then reject_request P C E (lit ''request.length_invalid'') 400 else raise_op x))"

definition status_value :: "counter_snapshot \<Rightarrow> pyval" where
  "status_value snap =
     obj [(''counters'',
            obj [(''admitted'', PInt (cs_admitted snap)), (''allowed'', PInt (cs_allowed snap)), (''denied'', PInt (cs_denied snap)),
                 (''dispatched'', PInt (cs_dispatched snap)), (''dropped_after_kill'', PInt (cs_dropped_after_kill snap)),
                 (''observed'', PInt (cs_observed snap)), (''overload'', PInt (cs_rejected_overload snap))]),
          (''kill_epoch'', PInt (cs_kill_epoch snap)), (''phase'', PStr (phase_name (cs_phase snap)))]"

definition status_endpoint :: "prims \<Rightarrow> env \<Rightarrow> (world, http_response) op" where
  "status_endpoint P E =
     bind_op (on_state E (get_op snapshot)) (\<lambda>snap. lift_result (json_response P 200 (status_value snap)))"

section \<open>The control plane\<close>

definition create_control_app :: "pystr \<Rightarrow> pystr result" where
  "create_control_app token = (if token = [] then Inl (ValueError ''control bearer token must not be empty'') else Inr token)"

definition authenticated :: "pystr \<Rightarrow> http_request \<Rightarrow> bool result" where
  "authenticated token q =
     bind_result (utf8_encode (case hq_authorization q of None \<Rightarrow> [] | Some s \<Rightarrow> s)) (\<lambda>supplied.
     bind_result (utf8_encode (lit ''Bearer '' @ token)) (\<lambda>expected. Inr (supplied = expected)))"

definition dump_receipt :: "receipt \<Rightarrow> pyval" where
  "dump_receipt r =
     obj [(''body'', dump_receipt_body (r_body r)), (''receipt_hash'', PStr (r_hash r)),
          (''supervisor_signature'', dump_signature (r_signature r))]"

definition error_value :: "string \<Rightarrow> pyval" where
  "error_value msg = obj [(''error'', PStr (lit msg))]"

text \<open>What both endpoints do: the token, the call of the supervisor, \<open>RuntimeError\<close> as a conflict.\<close>

definition control_endpoint :: "prims \<Rightarrow> pystr \<Rightarrow> http_request \<Rightarrow> (world, receipt) op \<Rightarrow> (world, http_response) op" where
  "control_endpoint P token q call =
     bind_op (lift_result (authenticated token q)) (\<lambda>ok.
       if \<not> ok then lift_result (json_response P 401 (error_value ''unauthorized''))
       else bind_op
         (try_op (bind_op call (\<lambda>r. ret_op (Inr r)))
           (\<lambda>x. case x of RuntimeError msg \<Rightarrow> ret_op (Inl msg) | _ \<Rightarrow> raise_op x)) (\<lambda>answer.
         case answer of
           Inl msg \<Rightarrow> lift_result (json_response P 409 (error_value msg))
         | Inr r \<Rightarrow> lift_result (json_response P 200 (dump_receipt r))))"

definition complete_endpoint :: "prims \<Rightarrow> config \<Rightarrow> env \<Rightarrow> pystr \<Rightarrow> http_request \<Rightarrow> (world, http_response) op" where
  "complete_endpoint P C E token q = control_endpoint P token q (complete P C E)"

definition receipt_endpoint :: "prims \<Rightarrow> config \<Rightarrow> env \<Rightarrow> pystr \<Rightarrow> http_request \<Rightarrow> (world, http_response) op" where
  "receipt_endpoint P C E token q = control_endpoint P token q (receipt P C E None)"

section \<open>The bounded body\<close>

lemma read_chunks_Inr:
  "read_chunks limit fin body cs = Inr raw \<Longrightarrow> int (length body) \<le> limit \<Longrightarrow>
     fin = Inr () \<and> raw = body @ concat cs \<and> int (length raw) \<le> limit"
  by (induction limit fin body cs rule: read_chunks.induct) (auto split: if_splits)

lemma read_chunks_total:
  "fin = Inr () \<Longrightarrow> int (length (body @ concat cs)) \<le> limit \<Longrightarrow> read_chunks limit fin body cs = Inr (body @ concat cs)"
  by (induction limit fin body cs rule: read_chunks.induct) auto

lemma bounded_body_iff:
  "bounded_body C q = Inr raw \<longleftrightarrow>
     hq_stream_end q = Inr () \<and> raw = concat (hq_chunks q) \<and>
     int (length raw) \<le> max_event_payload_bytes (mb_kill_criteria (m_body (cf_manifest C))) \<and>
     (\<exists>s. hq_content_length q = Some s \<and> py_int s = Inr (int (length raw)))"
    (is "_ \<longleftrightarrow> ?B")
proof
  assume b: "bounded_body C q = Inr raw"
  let ?l = "max_event_payload_bytes (mb_kill_criteria (m_body (cf_manifest C)))"
  from b obtain s n where s: "hq_content_length q = Some s" "py_int s = Inr n" "0 \<le> n" "n \<le> ?l"
      "read_chunks ?l (hq_stream_end q) [] (hq_chunks q) = Inr raw" "int (length raw) = n"
    by (auto simp: bounded_body_def Let_def split: option.splits sum.splits if_splits)
  from read_chunks_Inr [OF s(5)] s show ?B by auto
next
  assume ?B
  then show "bounded_body C q = Inr raw"
    using read_chunks_total [of "hq_stream_end q" "[]" "hq_chunks q"] by (auto simp: bounded_body_def Let_def)
qed

section \<open>What the endpoints guarantee\<close>

text \<open>The framing errors for which the endpoint fails closed.\<close>

definition misframed :: "config \<Rightarrow> http_request \<Rightarrow> bool" where
  "misframed C q \<longleftrightarrow>
     media_type q \<noteq> lit ''application/json'' \<or>
     (case bounded_body C q of Inr _ \<Rightarrow> False | Inl x \<Rightarrow> value_error x \<or> (\<exists>msg. x = OverflowError msg))"

definition served_response :: "prims \<Rightarrow> config \<Rightarrow> bytes \<Rightarrow> http_response \<Rightarrow> world \<Rightarrow> bool" where
  "served_response P C raw p w \<longleftrightarrow>
     (\<exists>a d t. from_wire P (InBytes raw) = Inr a \<and> capability P C a d w \<and> db_verdict (d_body d) = ALLOW \<and>
        dispatch_recorded P a d w \<and> result_recorded P a d t w \<and> canonical_json P (accepted_value d t) = Inr (hr_content p))"

lemma s_json_response:
  assumes "\<And>s w. canonical_json P v = Inr s \<Longrightarrow> A w \<Longrightarrow> B \<lparr> hr_status = status, hr_content = s \<rparr> w" "\<And>x w. A w \<Longrightarrow> X x w"
  shows "spec (evolves P) A (lift_result (json_response P status v)) B X"
  by (rule evo.s_lift) (use assms in \<open>auto simp: json_response_def\<close>)

lemma s_reject_request:
  assumes "fair_env P E" "stable (evolves P) A" "\<And>w. A w \<Longrightarrow> world_ok P w"
  shows "spec (evolves P) A (reject_request P C E reason status)
    (\<lambda>p w. A w \<and> stopped w \<and> hr_status p = status) (\<lambda>_ w. A w \<and> stopped w)"
proof -
  have "spec (evolves P) A (fail_closed P C E reason None) (\<lambda>_ w. A w \<and> stopped w) (\<lambda>_ w. A w \<and> stopped w)"
    by (rule s_conseq [OF s_fail_closed [OF assms]]) auto
  then show ?thesis unfolding reject_request_def by (rule evo.s_bind [OF _ s_json_response]) simp_all
qed

lemma s_snapshot:
  assumes "fair_env P E" "stable (evolves P) A"
  shows "spec (evolves P) A (on_state E (get_op snapshot)) (\<lambda>_. A) X"
proof -
  have "\<exists>tr. rs_run s tr (snd (get_op snapshot s))" for s using rs_run_Nil by (auto simp: get_op_def)
  from s_on_state [OF assms this] show ?thesis by (rule s_conseq) (auto simp: get_op_def)
qed

lemma s_serve_body:
  assumes "fair_env P E" "stable (evolves P) A" "\<And>w. A w \<Longrightarrow> world_ok P w" "\<And>w. A w \<Longrightarrow> engine_of P C (w_policy w)"
    "\<And>w. A w \<Longrightarrow> ld_manifest (w_ledger w) = cf_manifest C"
  shows "spec (evolves P) A (serve_body P C E raw)
    (\<lambda>p w. A w \<and> (hr_status p = 200 \<and> served_response P C raw p w \<or> hr_status p = 403 \<and> stopped w)) (\<lambda>_. A)"
    (is "spec _ _ _ ?B _")
proof -
  have refuse: "spec (evolves P) (\<lambda>w. A w \<and> stopped w) (bind_op (on_state E (get_op snapshot)) (\<lambda>snap.
      lift_result (json_response P 403 (refused_value reason (cs_phase snap))))) ?B (\<lambda>_. A)" for reason
  proof -
    have "stable (evolves P) (\<lambda>w. A w \<and> stopped w)" by (intro stability assms(2))
    then show ?thesis by (intro evo.s_bind [OF s_snapshot [OF assms(1)] s_json_response]) auto
  qed
  have go: "spec (evolves P) (\<lambda>w. A w \<and> capability P C a d w)
      (bind_op (use_env (e_mono E)) (\<lambda>now_ns. bind_op (dispatch P C E a d now_ns) (\<lambda>t.
         lift_result (json_response P 200 (accepted_value d t))))) ?B (\<lambda>_. A)"
    if wire: "from_wire P (InBytes raw) = Inr a" for a d
  proof -
    let ?A = "\<lambda>w. A w \<and> capability P C a d w"
    have st: "stable (evolves P) ?A" unfolding capability_def by (intro stability assms(2))
    have dis: "spec (evolves P) ?A (dispatch P C E a d now)
       (\<lambda>r w. (?A w \<and> dispatch_recorded P a d w \<and> db_verdict (d_body d) = ALLOW) \<and> result_recorded P a d r w) (\<lambda>_. A)" for now
      by (rule s_conseq [OF s_dispatch [OF assms(1) st]]) (use assms(3,5) in auto)
    show ?thesis
      by (rule evo.s_bind [OF s_use_env [OF st] evo.s_bind [OF dis s_json_response]])
        (use wire in \<open>auto simp: served_response_def\<close>)
  qed
  have pick: "spec (evolves P) (\<lambda>w. A w \<and> answered P C raw r w)
      (case (gr_action r, gr_decision r) of
         (Some a, Some d) \<Rightarrow> bind_op (use_env (e_mono E)) (\<lambda>now_ns. bind_op (dispatch P C E a d now_ns) (\<lambda>t.
           lift_result (json_response P 200 (accepted_value d t))))
       | _ \<Rightarrow> raise_op AssertionError) ?B (\<lambda>_. A)" if acc: "gr_accepted r" for r
  proof (rule s_assume)
    let ?q = "\<exists>a d. from_wire P (InBytes raw) = Inr a \<and> gr_action r = Some a \<and> gr_decision r = Some d"
    show "A w \<and> answered P C raw r w \<Longrightarrow> ?q" for w using acc by (auto simp: answered_def)
    assume ?q
    then obtain a d where ad: "from_wire P (InBytes raw) = Inr a" "gr_action r = Some a" "gr_decision r = Some d" by blast
    show ?thesis unfolding ad prod.case option.case
      by (rule s_pre [OF go [OF ad(1)]]) (use acc ad in \<open>simp add: answered_def\<close>)
  qed
  have refused: "spec (evolves P) (\<lambda>w. A w \<and> answered P C raw r w) (bind_op (on_state E (get_op snapshot)) (\<lambda>snap.
      lift_result (json_response P 403 (refused_value reason (cs_phase snap))))) ?B (\<lambda>_. A)" if "\<not> gr_accepted r" for r reason
    by (rule s_pre [OF refuse]) (use that in \<open>simp add: answered_def\<close>)
  show ?thesis unfolding serve_body_def
    by (rule evo.s_bind [OF s_submit_raw [OF assms(1-4)] s_if [OF refused pick]]) simp_all
qed


lemma s_dispatch_endpoint:
  assumes "fair_env P E" "stable (evolves P) A" "\<And>w. A w \<Longrightarrow> world_ok P w" "\<And>w. A w \<Longrightarrow> engine_of P C (w_policy w)"
    "\<And>w. A w \<Longrightarrow> ld_manifest (w_ledger w) = cf_manifest C"
  shows "spec (evolves P) A (dispatch_endpoint P C E q)
    (\<lambda>p w. A w \<and> (hr_status p = 200 \<and> \<not> misframed C q \<and> bounded_body C q = Inr (concat (hq_chunks q)) \<and>
                     served_response P C (concat (hq_chunks q)) p w \<or>
                   hr_status p \<in> {400, 403, 413, 415} \<and> stopped w))
    (\<lambda>_ w. A w \<and> (misframed C q \<longrightarrow> stopped w))"
    (is "spec _ _ _ ?B ?X")
proof -
  have rej: "spec (evolves P) A (reject_request P C E reason status) ?B ?X" if "status \<in> {400, 413, 415}" for reason status
    by (rule s_conseq [OF s_reject_request [OF assms(1-3)]]) (use that in auto)
  show ?thesis
  proof (cases "media_type q = lit ''application/json''")
    case False
    then show ?thesis using rej [of 415] by (simp add: dispatch_endpoint_def)
  next
    case json: True
    show ?thesis
    proof (cases "bounded_body C q")
      case (Inr raw)
      then have raw: "raw = concat (hq_chunks q)" by (simp add: bounded_body_iff)
      have "\<not> misframed C q" using json Inr by (simp add: misframed_def)
      note raw = raw this
      have "spec (evolves P) A (serve_body P C E raw) ?B ?X"
        by (rule s_conseq [OF s_serve_body [OF assms]]) (use Inr raw in auto)
      with json Inr show ?thesis by (simp add: dispatch_endpoint_def)
    next
      case (Inl x)
      have "spec (evolves P) A (raise_op x) ?B ?X" if "\<not> value_error x" "\<nexists>msg. x = OverflowError msg"
        using that json Inl by (intro evo.s_raise) (auto simp: misframed_def)
      then show ?thesis using json Inl rej [of 400] rej [of 413]
        by (cases x) (auto simp: dispatch_endpoint_def value_error_def)
    qed
  qed
qed

section \<open>Properties\<close>

text \<open>
  C6. The agent-facing endpoint is contained. For any request and any behaviour of other threads: a response with
  status 200 is given only for a JSON body of the declared length within the admission limit, whose action the
  gateway permitted and the executor dispatched with DISPATCH and RESULT in the ledger; every other response has status
  400, 403, 413 or 415 and leaves the run stopped; and a misframed request leaves the run stopped even when the
  endpoint raises.
\<close>

theorem endpoint_contained:
  assumes "fair_env P E" "world_ok P w" "engine_of P C (w_policy w)" "ld_manifest (w_ledger w) = cf_manifest C"
    "dispatch_endpoint P C E q w = (r, w')"
  shows "evolves P w w' \<and> (misframed C q \<longrightarrow> stopped w') \<and>
    (case r of
       Inl x \<Rightarrow> True
     | Inr p \<Rightarrow>
         (if hr_status p = 200
          then \<exists>raw s a d t. raw = concat (hq_chunks q) \<and> hq_content_length q = Some s \<and> py_int s = Inr (int (length raw)) \<and>
            int (length raw) \<le> max_event_payload_bytes (mb_kill_criteria (m_body (cf_manifest C))) \<and>
            from_wire P (InBytes raw) = Inr a \<and> capability P C a d w' \<and> db_verdict (d_body d) = ALLOW \<and>
            dispatch_recorded P a d w' \<and> result_recorded P a d t w' \<and> canonical_json P (accepted_value d t) = Inr (hr_content p)
          else hr_status p \<in> {400, 403, 413, 415} \<and> stopped w'))"
proof -
  let ?A = "\<lambda>w. world_ok P w \<and> engine_of P C (w_policy w) \<and> ld_manifest (w_ledger w) = cf_manifest C"
  have "stable (evolves P) ?A" by (intro stability)
  from specD [OF s_dispatch_endpoint [OF assms(1) this] _ assms(5)] assms(2-4) show ?thesis
    by (cases r) (auto simp: bounded_body_iff served_response_def)
qed


section \<open>A permitted request over HTTP\<close>

lemma bounded_accepted:
  assumes "nfc_fixes_ascii P" "grants P C a rule request epoch ns aid d" "deliverable P C E a rule secret t"
  shows "\<exists>s. canonical_json P (accepted_value d t) = Inr s"
proof -
  note f = grants_fields [OF assms(2)]
  have t: "safe_nonneg (tr_response_bytes t)" "safe_nonneg (tr_status_code t)" "short_text (tr_response_sha256 t)"
    using assms(3) short_sha256 by (auto simp: deliverable_def safe_nonneg_def MAX_SAFE_INTEGER_def)
  have "bounded_json P 0 (1 + 5) (2 + 7710) (accepted_value d t)" unfolding accepted_value_def
    by (rule bounded_obj; (intro bm_small bm_Nil)?)
      (use assms(1) f t short_sha256 in \<open>simp_all add: short_lit small_json_simps\<close>)
  from canonical_json_total [OF bounded_total [OF this]] show ?thesis by auto
qed


text \<open>A well-formed HTTP request that carries these bytes.\<close>

definition carries :: "config \<Rightarrow> http_request \<Rightarrow> bytes \<Rightarrow> bool" where
  "carries C q raw \<longleftrightarrow> media_type q = lit ''application/json'' \<and> bounded_body C q = Inr raw"

lemma endpoint_serves:
  assumes sv: "servable P C E n raw a rule secret t w" and q: "carries C q raw"
  shows "\<exists>d s w2. dispatch_endpoint P C E q w = (Inr \<lparr> hr_status = 200, hr_content = s \<rparr>, w2) \<and>
    canonical_json P (accepted_value d t) = Inr s \<and> w_sent w2 = w_sent w @ [(a, secret, max_response_bytes rule)] \<and>
    length (ld_events (w_ledger w2)) = length (ld_events (w_ledger w)) + 4 \<and> w_supervisor w2 = w_supervisor w"
proof -
  obtain d w1 where sub: "submit_raw P C E raw w =
      (Inr \<lparr> gr_accepted = True, gr_reason_code = lit ''policy.allowed'', gr_action = Some a, gr_decision = Some d \<rparr>, w1)"
    using serve_run [OF sv] by blast
  obtain w2 e1 e2 e3 e4 aid ns where s: "grants P C a rule e1 (rs_kill_epoch (w_state w)) ns aid d"
    "dispatch P C E a d (e_mono E (w_ticks w1)) (w1\<lparr> w_ticks := w_ticks w1 + 1 \<rparr>) = (Inr t, w2)"
    "ld_events (w_ledger w2) = ld_events (w_ledger w) @ [e1, e2, e3, e4]"
    "w_sent w2 = w_sent w @ [(a, secret, max_response_bytes rule)]" "w_supervisor w2 = w_supervisor w"
    using serve_run_later [OF sv, of "w_ticks w1" 1] sub by auto
  from sv have "nfc_fixes_ascii P" "deliverable P C E a rule secret t" by (simp_all add: servable_def room_def)
  then obtain c where c: "canonical_json P (accepted_value d t) = Inr c" using bounded_accepted s(1) by blast
  have "serve_body P C E raw w = (Inr \<lparr> hr_status = 200, hr_content = c \<rparr>, w2)"
    using s(2) c by (simp add: serve_body_def sub use_env_def json_response_def op_simps)
  then have "dispatch_endpoint P C E q w = (Inr \<lparr> hr_status = 200, hr_content = c \<rparr>, w2)"
    using q by (simp add: dispatch_endpoint_def carries_def)
  with c s(3-5) show ?thesis by (intro exI [of _ d] exI [of _ c] exI [of _ w2]) simp
qed

text \<open>
  C25. A permitted request over HTTP is answered. In an undisturbed runtime with room for its events, a JSON request
  whose declared length is the length of its body, within the admission limit, and whose action the policy permits and
  the backend answers, gets status 200 with the canonical JSON of the backend's answer; the transport was called
  exactly once more and the ledger has four more events.
\<close>

theorem http_request_answered:
  assumes "servable P C E n raw a rule secret t w" "media_type q = lit ''application/json''" "concat (hq_chunks q) = raw"
    "hq_stream_end q = Inr ()" "hq_content_length q = Some s" "py_int s = Inr (int (length raw))"
    "int (length raw) \<le> max_event_payload_bytes (mb_kill_criteria (m_body (cf_manifest C)))"
  shows "\<exists>d c w2. dispatch_endpoint P C E q w = (Inr \<lparr> hr_status = 200, hr_content = c \<rparr>, w2) \<and>
    canonical_json P (accepted_value d t) = Inr c \<and> w_sent w2 = w_sent w @ [(a, secret, max_response_bytes rule)] \<and>
    length (ld_events (w_ledger w2)) = length (ld_events (w_ledger w)) + 4"
proof -
  have "carries C q raw" using assms(2-7) by (auto simp: carries_def bounded_body_iff)
  from endpoint_serves [OF assms(1) this] show ?thesis by blast
qed

section \<open>The control plane needs the token\<close>

lemma utf8_encode_inject: "utf8_encode s = Inr b \<Longrightarrow> utf8_encode t = Inr b \<Longrightarrow> s = t"
  using utf8_decode_encode [of s] utf8_decode_encode [of t] by (auto simp: utf8_encode_def split: if_splits)

lemma authenticated_True: "authenticated token q = Inr True \<Longrightarrow> hq_authorization q = Some (lit ''Bearer '' @ token)"
  by (cases "hq_authorization q") (auto simp: authenticated_def dest: utf8_encode_inject)

lemma error_total: "nfc_fixes_ascii P \<Longrightarrow> \<exists>s. canonical_json P (error_value ''unauthorized'') = Inr s"
proof -
  assume P: "nfc_fixes_ascii P"
  have "bounded_json P 0 (1 + 1) (2 + 1542) (error_value ''unauthorized'')" unfolding error_value_def
    by (rule bounded_obj; (intro bm_small bm_Nil)?) (use P in \<open>simp_all add: short_lit small_json_simps\<close>)
  from canonical_json_total [OF bounded_total [OF this]] show ?thesis by auto
qed

lemma control_unauthorized:
  assumes "nfc_fixes_ascii P" "authenticated token q = Inr False"
  obtains p where "hr_status p = 401" "\<And>call w. control_endpoint P token q call w = (Inr p, w)"
proof -
  obtain s where "canonical_json P (error_value ''unauthorized'') = Inr s" using error_total [OF assms(1)] by blast
  with assms(2) that [of "\<lparr> hr_status = 401, hr_content = s \<rparr>"] show ?thesis
    by (simp add: control_endpoint_def json_response_def op_simps)
qed

lemma control_endpoint_200:
  assumes "control_endpoint P token q call w = (Inr p, w')" "hr_status p = 200"
  shows "hq_authorization q = Some (lit ''Bearer '' @ token) \<and>
    (\<exists>r. call w = (Inr r, w') \<and> canonical_json P (dump_receipt r) = Inr (hr_content p))"
proof -
  from assms have auth: "authenticated token q = Inr True"
    by (auto simp: control_endpoint_def json_response_def op_simps split: sum.splits if_splits)
  obtain r v where c: "call w = (r, v)" by fastforce
  have "\<exists>r. call w = (Inr r, w') \<and> canonical_json P (dump_receipt r) = Inr (hr_content p)"
  proof (cases r)
    case (Inl x)
    with assms auth c show ?thesis by (cases x) (auto simp: control_endpoint_def json_response_def op_simps)
  next
    case (Inr a)
    with assms auth c show ?thesis by (auto simp: control_endpoint_def json_response_def op_simps)
  qed
  with authenticated_True [OF auth] show ?thesis by blast
qed

text \<open>
  C26. Without the token the control plane does nothing: when the authorization header is not exactly the bearer
  token, both endpoints answer 401 and leave the world as it is. Whoever asks, a receipt is handed out only with
  status 200, is the one the supervisor keeps, and comes from \<open>/v1/complete\<close> only for a completed run.
  The contents of responses with another status are not described here.
\<close>

theorem control_plane_guarded:
  assumes "fair_env P E" "world_ok P w" "nfc_fixes_ascii P"
  shows "(hq_authorization q \<noteq> Some (lit ''Bearer '' @ token) \<and> (\<exists>b. authenticated token q = Inr b) \<longrightarrow>
      (\<exists>p. complete_endpoint P C E token q w = (Inr p, w) \<and> receipt_endpoint P C E token q w = (Inr p, w) \<and> hr_status p = 401)) \<and>
    (\<forall>p w'. complete_endpoint P C E token q w = (Inr p, w') \<and> hr_status p = 200 \<longrightarrow>
      hq_authorization q = Some (lit ''Bearer '' @ token) \<and> rs_phase (w_state w') = PhCompleted \<and>
      (\<exists>r. sv_receipt (w_supervisor w') = Some r \<and> canonical_json P (dump_receipt r) = Inr (hr_content p))) \<and>
    (\<forall>p w'. receipt_endpoint P C E token q w = (Inr p, w') \<and> hr_status p = 200 \<longrightarrow>
      hq_authorization q = Some (lit ''Bearer '' @ token) \<and>
      (\<exists>r. sv_receipt (w_supervisor w') = Some r \<and> canonical_json P (dump_receipt r) = Inr (hr_content p)))"
proof (intro conjI impI allI; (elim conjE exE)?)
  fix b assume a: "hq_authorization q \<noteq> Some (lit ''Bearer '' @ token)" "authenticated token q = Inr b"
  then have "authenticated token q = Inr False" using authenticated_True [of token q] by (cases b) auto
  from control_unauthorized [OF assms(3) this]
  show "\<exists>p. complete_endpoint P C E token q w = (Inr p, w) \<and> receipt_endpoint P C E token q w = (Inr p, w) \<and> hr_status p = 401"
    unfolding complete_endpoint_def receipt_endpoint_def by metis
next
  fix p w' assume "complete_endpoint P C E token q w = (Inr p, w')" "hr_status p = 200"
  from control_endpoint_200 [OF this(1) [unfolded complete_endpoint_def] this(2)] obtain r where
    r: "hq_authorization q = Some (lit ''Bearer '' @ token)" "complete P C E w = (Inr r, w')"
      "canonical_json P (dump_receipt r) = Inr (hr_content p)" by blast
  from specD [OF s_complete [OF assms(1) stable_ok] assms(2) r(2)] r show
    "hq_authorization q = Some (lit ''Bearer '' @ token)" "rs_phase (w_state w') = PhCompleted"
    "\<exists>r. sv_receipt (w_supervisor w') = Some r \<and> canonical_json P (dump_receipt r) = Inr (hr_content p)" by auto
next
  fix p w' assume "receipt_endpoint P C E token q w = (Inr p, w')" "hr_status p = 200"
  from control_endpoint_200 [OF this(1) [unfolded receipt_endpoint_def] this(2)] obtain r where
    r: "hq_authorization q = Some (lit ''Bearer '' @ token)" "receipt P C E None w = (Inr r, w')"
      "canonical_json P (dump_receipt r) = Inr (hr_content p)" by blast
  from specD [OF s_receipt [OF assms(1) stable_ok] assms(2) r(2)] r show
    "hq_authorization q = Some (lit ''Bearer '' @ token)"
    "\<exists>r. sv_receipt (w_supervisor w') = Some r \<and> canonical_json P (dump_receipt r) = Inr (hr_content p)" by auto
qed


section \<open>Sample requests\<close>

text \<open>The sample action in two chunks, with a length header in decimal digits; a request without a token.\<close>

definition sample_http :: "pystr \<Rightarrow> http_request" where
  "sample_http n =
     \<lparr> hq_content_type = Some (lit ''application/json; charset=utf-8''), hq_content_length = Some n,
       hq_authorization = Some (lit ''Bearer other''), hq_chunks = [take 7 sample_bytes, drop 7 sample_bytes], hq_stream_end = Inr () \<rparr>"

lemma sample_length: "length sample_bytes = 358"
  by code_simp

lemma sample_http_simps [simp]:
  "media_type (sample_http n) = lit ''application/json''" "concat (hq_chunks (sample_http n)) = sample_bytes"
  "hq_stream_end (sample_http n) = Inr ()" "hq_content_length (sample_http n) = Some n"
  "hq_authorization (sample_http n) = Some (lit ''Bearer other'')"
proof -
  show "media_type (sample_http n) = lit ''application/json''"
    unfolding media_type_def sample_http_def http_request.simps option.case by code_simp
qed (simp_all add: sample_http_def)

lemma sample_limit: "max_event_payload_bytes (mb_kill_criteria (m_body (cf_manifest sample_config))) = 4096"
  by (simp add: sample_config_def sample_manifest_def sample_manifest_body_def sample_criteria_def)

theorem http_request_answered_witness:
  "\<exists>d c w2. dispatch_endpoint sample_prims sample_config still_env (sample_http (lit ''358'')) sample_world =
      (Inr \<lparr> hr_status = 200, hr_content = c \<rparr>, w2) \<and>
    canonical_json sample_prims (accepted_value d sample_response) = Inr c \<and> length (w_sent w2) = 1 \<and>
    length (ld_events (w_ledger w2)) = 4"
proof -
  have n: "py_int (lit ''358'') = Inr (int (length sample_bytes))" unfolding sample_length by code_simp
  have w: "w_sent sample_world = []" "ld_events (w_ledger sample_world) = []"
    by (simp_all add: sample_world_def sample_ledger_def)
  have le: "int (length sample_bytes) \<le> max_event_payload_bytes (mb_kill_criteria (m_body (cf_manifest sample_config)))"
    by (simp add: sample_limit sample_length)
  from http_request_answered [OF sample_servable sample_http_simps(1-4) n le] show ?thesis
    unfolding w by (elim exE conjE) (intro exI conjI, assumption+, simp_all)
qed

theorem endpoint_contained_witness:
  "\<exists>r s w1 w2. dispatch_endpoint sample_prims sample_config still_env (sample_http (lit ''359'')) sample_world = (r, w1) \<and> stopped w1 \<and>
    dispatch_endpoint sample_prims sample_config still_env (sample_http (lit ''358'')) sample_world =
      (Inr \<lparr> hr_status = 200, hr_content = s \<rparr>, w2) \<and>
    (\<exists>d t. db_verdict (d_body d) = ALLOW \<and> result_recorded sample_prims (sample_action ''/v1/x'') d t w2)"
proof -
  have p: "py_int (lit ''358'') = Inr 358" "py_int (lit ''359'') = Inr 359" by code_simp+
  have m: "ld_manifest (w_ledger sample_world) = cf_manifest sample_config"
    by (simp add: sample_world_def sample_ledger_def sample_config_def)
  note c = endpoint_contained [OF still_fair sample_world_ok sample_engine m]
  obtain r w1 where r: "dispatch_endpoint sample_prims sample_config still_env (sample_http (lit ''359'')) sample_world = (r, w1)"
    by fastforce
  have read: "read_chunks 4096 (Inr ()) [] (hq_chunks (sample_http n)) = Inr sample_bytes" for n
    using read_chunks_total [of "Inr ()" "[]" "hq_chunks (sample_http n)" 4096] sample_length by simp
  have "misframed sample_config (sample_http (lit ''359''))"
    by (simp add: misframed_def bounded_body_def sample_limit p read sample_length value_error_def)
  with c [OF r] have "stopped w1" by blast
  moreover have "carries sample_config (sample_http (lit ''358'')) sample_bytes"
    by (simp add: carries_def bounded_body_iff sample_limit p sample_length)
  from endpoint_serves [OF sample_servable this] obtain s w2 where
    ok: "dispatch_endpoint sample_prims sample_config still_env (sample_http (lit ''358'')) sample_world =
      (Inr \<lparr> hr_status = 200, hr_content = s \<rparr>, w2)" by blast
  have "\<exists>d t. db_verdict (d_body d) = ALLOW \<and> result_recorded sample_prims (sample_action ''/v1/x'') d t w2"
    using c [OF ok] by (auto simp: sample_from_wire)
  ultimately show ?thesis using r ok by blast
qed

theorem control_plane_guarded_witness:
  "\<exists>p. complete_endpoint sample_prims sample_config still_env (lit ''secret'') (sample_http []) sample_world = (Inr p, sample_world) \<and>
    receipt_endpoint sample_prims sample_config still_env (lit ''secret'') (sample_http []) sample_world = (Inr p, sample_world) \<and>
    hr_status p = 401"
proof -
  have "authenticated (lit ''secret'') (sample_http []) = Inr False"
    unfolding authenticated_def sample_http_simps option.case by code_simp
  moreover have "nfc_fixes_ascii sample_prims" using sample_room by (simp add: room_def)
  moreover have "lit ''Bearer other'' \<noteq> lit ''Bearer '' @ lit ''secret''" by code_simp
  ultimately show ?thesis
    using control_plane_guarded [OF still_fair sample_world_ok, of "sample_http []" "lit ''secret''" sample_config, THEN conjunct1] by auto
qed

end
