(* ===== verification/BCP_Readers.thy ===== *)
theory BCP_Readers
  imports BCP_Wire "HOL-Library.Monad_Syntax"
begin

text \<open>
  \<open>ContractModel.model_validate_json\<close> and the records the auditor reads with it: events, decisions,
  acknowledgements and the payloads of the event kinds. Every reader is an instance of one contract: what it
  returns is valid, and it returns a valid record from the JSON object the record was dumped to.
\<close>

section \<open>Closed objects\<close>

definition of_object :: "string list \<Rightarrow> ((pystr \<times> json) list \<Rightarrow> 'a option) \<Rightarrow> ('a \<Rightarrow> 'a result) \<Rightarrow> json \<Rightarrow> 'a result" where
  "of_object names rd validate j =
     (case j of
        JObj kvs \<Rightarrow>
          if \<not> closed_object kvs names then bad_shape
          else (case rd kvs of None \<Rightarrow> bad_shape | Some x \<Rightarrow> validate x)
      | _ \<Rightarrow> bad_shape)"

definition read_model :: "(json \<Rightarrow> 'a result) \<Rightarrow> json \<Rightarrow> 'a option" where
  "read_model f j = (case f j of Inl _ \<Rightarrow> None | Inr x \<Rightarrow> Some x)"

definition model_validate_json :: "prims \<Rightarrow> (json \<Rightarrow> 'a result) \<Rightarrow> json_input \<Rightarrow> 'a result" where
  "model_validate_json P validate input = bind_result (parse_canonical_json P input) validate"

definition read_strs :: "json \<Rightarrow> pystr list option" where
  "read_strs j = (case j of JArr js \<Rightarrow> those (map read_str js) | _ \<Rightarrow> None)"

definition protocol_fields :: "(pystr \<times> json) list \<Rightarrow> unit option" where
  "protocol_fields kvs =
     do { def_field kvs ''protocol'' (read_literal (JStr PROTOCOL)) ();
          def_field kvs ''schema_version'' (read_literal (JStr SCHEMA_VERSION)) () }"

section \<open>Signatures and events\<close>

definition read_signature :: "(pystr \<times> json) list \<Rightarrow> ed_signature option" where
  "read_signature kvs =
     do { kid \<leftarrow> req_field kvs ''key_id'' read_str;
          def_field kvs ''algorithm'' (read_literal (JStr (lit ''Ed25519''))) ();
          v \<leftarrow> req_field kvs ''value'' read_str;
          Some \<lparr> sig_key_id = kid, sig_value = v \<rparr> }"

definition signature_of_json :: "json \<Rightarrow> ed_signature result" where
  "signature_of_json = of_object [''key_id'', ''algorithm'', ''value''] read_signature validate_signature"

definition event_kinds :: "(pystr \<times> event_kind) list" where
  "event_kinds = map (\<lambda>k. (event_kind_name k, k))
     [REQUEST, DECISION, DISPATCH, RESULT, CANCELLATION, VIOLATION, KILL_REQUESTED, KILL_ACKNOWLEDGED, OVERLOAD_SUMMARY]"

definition event_body_fields :: "string list" where
  "event_body_fields =
     [''protocol'', ''schema_version'', ''run_id'', ''manifest_hash'', ''sequence'', ''previous_event_hash'', ''kind'',
      ''request_id'', ''producer_instance_id'', ''observed_at'', ''monotonic_ns'', ''payload_canonical_json'', ''payload_sha256'']"

definition read_event_body :: "(pystr \<times> json) list \<Rightarrow> event_body option" where
  "read_event_body kvs =
     do { protocol_fields kvs;
          run \<leftarrow> req_field kvs ''run_id'' read_str;
          mh \<leftarrow> req_field kvs ''manifest_hash'' read_str;
          sq \<leftarrow> req_field kvs ''sequence'' read_int;
          prev \<leftarrow> req_field kvs ''previous_event_hash'' read_str;
          kind \<leftarrow> req_field kvs ''kind'' (read_enum event_kinds);
          req \<leftarrow> def_field kvs ''request_id'' (read_optional read_str) None;
          prod \<leftarrow> req_field kvs ''producer_instance_id'' read_str;
          obs \<leftarrow> req_field kvs ''observed_at'' read_str;
          ns \<leftarrow> req_field kvs ''monotonic_ns'' read_int;
          p \<leftarrow> req_field kvs ''payload_canonical_json'' read_str;
          ph \<leftarrow> req_field kvs ''payload_sha256'' read_str;
          Some \<lparr> eb_run_id = run, eb_manifest_hash = mh, eb_sequence = sq, eb_previous_event_hash = prev, eb_kind = kind,
                 eb_request_id = req, eb_producer_instance_id = prod, eb_observed_at = obs, eb_monotonic_ns = ns,
                 eb_payload_canonical_json = p, eb_payload_sha256 = ph \<rparr> }"

definition event_body_of_json :: "prims \<Rightarrow> json \<Rightarrow> event_body result" where
  "event_body_of_json P = of_object event_body_fields read_event_body (validate_event_body P)"

definition read_event :: "prims \<Rightarrow> (pystr \<times> json) list \<Rightarrow> event option" where
  "read_event P kvs =
     do { b \<leftarrow> req_field kvs ''body'' (read_model (event_body_of_json P));
          h \<leftarrow> req_field kvs ''event_hash'' read_str;
          Some \<lparr> ev_body = b, ev_hash = h \<rparr> }"

definition event_of_json :: "prims \<Rightarrow> json \<Rightarrow> event result" where
  "event_of_json P = of_object [''body'', ''event_hash''] (read_event P) (validate_event P)"

section \<open>Decisions and acknowledgements\<close>

definition verdicts :: "(pystr \<times> verdict) list" where
  "verdicts = map (\<lambda>v. (verdict_name v, v)) [ALLOW, DENY, KILL]"

definition decision_body_fields :: "string list" where
  "decision_body_fields =
     [''protocol'', ''schema_version'', ''run_id'', ''manifest_hash'', ''request_id'', ''request_event_sequence'',
      ''request_event_hash'', ''action_sha256'', ''gateway_key_id'', ''gateway_instance_id'', ''decided_at'',
      ''decision_monotonic_ns'', ''kill_epoch'', ''verdict'', ''reason_code'', ''matched_rule_id'', ''hard_violation'',
      ''authorization_id'', ''authorization_expires_monotonic_ns'', ''authorization_max_uses'']"

definition read_decision_body :: "(pystr \<times> json) list \<Rightarrow> decision_body option" where
  "read_decision_body kvs =
     do { protocol_fields kvs;
          run \<leftarrow> req_field kvs ''run_id'' read_str;
          mh \<leftarrow> req_field kvs ''manifest_hash'' read_str;
          req \<leftarrow> req_field kvs ''request_id'' read_str;
          sq \<leftarrow> req_field kvs ''request_event_sequence'' read_int;
          rh \<leftarrow> req_field kvs ''request_event_hash'' read_str;
          ah \<leftarrow> req_field kvs ''action_sha256'' read_str;
          gk \<leftarrow> req_field kvs ''gateway_key_id'' read_str;
          gi \<leftarrow> req_field kvs ''gateway_instance_id'' read_str;
          at \<leftarrow> req_field kvs ''decided_at'' read_str;
          ns \<leftarrow> req_field kvs ''decision_monotonic_ns'' read_int;
          ep \<leftarrow> req_field kvs ''kill_epoch'' read_int;
          v \<leftarrow> req_field kvs ''verdict'' (read_enum verdicts);
          rc \<leftarrow> req_field kvs ''reason_code'' read_str;
          rule \<leftarrow> def_field kvs ''matched_rule_id'' (read_optional read_str) None;
          hard \<leftarrow> req_field kvs ''hard_violation'' read_bool;
          aid \<leftarrow> def_field kvs ''authorization_id'' (read_optional read_str) None;
          ex \<leftarrow> def_field kvs ''authorization_expires_monotonic_ns'' (read_optional read_int) None;
          mx \<leftarrow> def_field kvs ''authorization_max_uses'' (read_optional (read_literal (JInt 1))) None;
          Some \<lparr> db_run_id = run, db_manifest_hash = mh, db_request_id = req, db_request_event_sequence = sq,
                 db_request_event_hash = rh, db_action_sha256 = ah, db_gateway_key_id = gk, db_gateway_instance_id = gi,
                 db_decided_at = at, db_decision_monotonic_ns = ns, db_kill_epoch = ep, db_verdict = v, db_reason_code = rc,
                 db_matched_rule_id = rule, db_hard_violation = hard, db_authorization_id = aid,
                 db_authorization_expires_monotonic_ns = ex, db_authorization_single_use = (mx \<noteq> None) \<rparr> }"

definition decision_body_of_json :: "prims \<Rightarrow> json \<Rightarrow> decision_body result" where
  "decision_body_of_json P = of_object decision_body_fields read_decision_body (validate_decision_body P)"

definition read_decision :: "prims \<Rightarrow> (pystr \<times> json) list \<Rightarrow> decision option" where
  "read_decision P kvs =
     do { b \<leftarrow> req_field kvs ''body'' (read_model (decision_body_of_json P));
          h \<leftarrow> req_field kvs ''decision_hash'' read_str;
          s \<leftarrow> req_field kvs ''gateway_signature'' (read_model signature_of_json);
          Some \<lparr> d_body = b, d_hash = h, d_signature = s \<rparr> }"

definition decision_of_json :: "prims \<Rightarrow> json \<Rightarrow> decision result" where
  "decision_of_json P = of_object [''body'', ''decision_hash'', ''gateway_signature''] (read_decision P) (validate_decision P)"

definition termination_modes :: "(pystr \<times> termination_mode) list" where
  "termination_modes = map (\<lambda>t. (termination_mode_name t, t))
     [SIMULATED, CGROUP_KILL, JOB_OBJECT_TERMINATE, MICROVM_DESTROY, PROCESS_NAMESPACE_KILL]"

definition kill_ack_body_fields :: "string list" where
  "kill_ack_body_fields =
     [''protocol'', ''schema_version'', ''run_id'', ''manifest_hash'', ''supervisor_key_id'', ''supervisor_instance_id'',
      ''trigger_event_sequence'', ''trigger_event_hash'', ''trigger_monotonic_ns'', ''kill_requested_at'',
      ''kill_requested_monotonic_ns'', ''kill_acknowledged_at'', ''kill_acknowledged_monotonic_ns'', ''kill_latency_ns'',
      ''termination_mode'', ''terminated_workload_ids'', ''inflight_at_trigger'', ''inflight_cancel_signalled'',
      ''inflight_cancelled'', ''network_isolation_confirmed'', ''isolation_evidence_sha256'']"

definition read_kill_ack_body :: "(pystr \<times> json) list \<Rightarrow> kill_ack_body option" where
  "read_kill_ack_body kvs =
     do { protocol_fields kvs;
          run \<leftarrow> req_field kvs ''run_id'' read_str;
          mh \<leftarrow> req_field kvs ''manifest_hash'' read_str;
          sk \<leftarrow> req_field kvs ''supervisor_key_id'' read_str;
          si \<leftarrow> req_field kvs ''supervisor_instance_id'' read_str;
          ts \<leftarrow> req_field kvs ''trigger_event_sequence'' read_int;
          th \<leftarrow> req_field kvs ''trigger_event_hash'' read_str;
          tn \<leftarrow> req_field kvs ''trigger_monotonic_ns'' read_int;
          ra \<leftarrow> req_field kvs ''kill_requested_at'' read_str;
          rn \<leftarrow> req_field kvs ''kill_requested_monotonic_ns'' read_int;
          aa \<leftarrow> req_field kvs ''kill_acknowledged_at'' read_str;
          an \<leftarrow> req_field kvs ''kill_acknowledged_monotonic_ns'' read_int;
          ln \<leftarrow> req_field kvs ''kill_latency_ns'' read_int;
          tm \<leftarrow> req_field kvs ''termination_mode'' (read_enum termination_modes);
          ids \<leftarrow> def_field kvs ''terminated_workload_ids'' read_strs [];
          ia \<leftarrow> req_field kvs ''inflight_at_trigger'' read_int;
          ig \<leftarrow> def_field kvs ''inflight_cancel_signalled'' read_int 0;
          ic \<leftarrow> req_field kvs ''inflight_cancelled'' read_int;
          nc \<leftarrow> req_field kvs ''network_isolation_confirmed'' read_bool;
          ev \<leftarrow> def_field kvs ''isolation_evidence_sha256'' (read_optional read_str) None;
          Some \<lparr> ka_run_id = run, ka_manifest_hash = mh, ka_supervisor_key_id = sk, ka_supervisor_instance_id = si,
                 ka_trigger_event_sequence = ts, ka_trigger_event_hash = th, ka_trigger_monotonic_ns = tn,
                 ka_kill_requested_at = ra, ka_kill_requested_monotonic_ns = rn, ka_kill_acknowledged_at = aa,
                 ka_kill_acknowledged_monotonic_ns = an, ka_kill_latency_ns = ln, ka_termination_mode = tm,
                 ka_terminated_workload_ids = ids, ka_inflight_at_trigger = ia, ka_inflight_cancel_signalled = ig,
                 ka_inflight_cancelled = ic, ka_network_isolation_confirmed = nc, ka_isolation_evidence_sha256 = ev \<rparr> }"

definition kill_ack_body_of_json :: "prims \<Rightarrow> json \<Rightarrow> kill_ack_body result" where
  "kill_ack_body_of_json P = of_object kill_ack_body_fields read_kill_ack_body (validate_kill_ack_body P)"

definition read_kill_ack :: "prims \<Rightarrow> (pystr \<times> json) list \<Rightarrow> kill_ack option" where
  "read_kill_ack P kvs =
     do { b \<leftarrow> req_field kvs ''body'' (read_model (kill_ack_body_of_json P));
          h \<leftarrow> req_field kvs ''acknowledgement_hash'' read_str;
          s \<leftarrow> req_field kvs ''supervisor_signature'' (read_model signature_of_json);
          Some \<lparr> k_body = b, k_hash = h, k_signature = s \<rparr> }"

definition kill_ack_of_json :: "prims \<Rightarrow> json \<Rightarrow> kill_ack result" where
  "kill_ack_of_json P = of_object [''body'', ''acknowledgement_hash'', ''supervisor_signature''] (read_kill_ack P) (validate_kill_ack P)"

section \<open>Payloads\<close>

record request_payload =
  qp_action :: "(pystr \<times> json) list"
  qp_action_sha256 :: pystr

text \<open>\<open>action: dict[str, Any]\<close> takes any object.\<close>

definition read_object :: "json \<Rightarrow> (pystr \<times> json) list option" where
  "read_object j = (case j of JObj kvs \<Rightarrow> Some kvs | _ \<Rightarrow> None)"

definition read_request_payload :: "(pystr \<times> json) list \<Rightarrow> request_payload option" where
  "read_request_payload kvs =
     do { a \<leftarrow> req_field kvs ''action'' read_object;
          h \<leftarrow> req_field kvs ''action_sha256'' read_str;
          Some \<lparr> qp_action = a, qp_action_sha256 = h \<rparr> }"

definition validate_request_payload :: "request_payload \<Rightarrow> request_payload result" where
  "validate_request_payload p = validated [(sha256_hex_text (qp_action_sha256 p), ''action_sha256'')] p"

definition request_payload_of_json :: "json \<Rightarrow> request_payload result" where
  "request_payload_of_json = of_object [''action'', ''action_sha256''] read_request_payload validate_request_payload"

definition read_dispatch_payload :: "(pystr \<times> json) list \<Rightarrow> dispatch_payload option" where
  "read_dispatch_payload kvs =
     do { ah \<leftarrow> req_field kvs ''action_sha256'' read_str;
          aid \<leftarrow> req_field kvs ''authorization_id'' read_str;
          dh \<leftarrow> req_field kvs ''decision_hash'' read_str;
          ep \<leftarrow> req_field kvs ''kill_epoch'' read_int;
          Some \<lparr> dp_action_sha256 = ah, dp_authorization_id = aid, dp_decision_hash = dh, dp_kill_epoch = ep \<rparr> }"

definition dispatch_payload_of_json :: "json \<Rightarrow> dispatch_payload result" where
  "dispatch_payload_of_json =
     of_object [''action_sha256'', ''authorization_id'', ''decision_hash'', ''kill_epoch''] read_dispatch_payload validate_dispatch_payload"

definition read_result_payload :: "(pystr \<times> json) list \<Rightarrow> result_payload option" where
  "read_result_payload kvs =
     do { ah \<leftarrow> req_field kvs ''action_sha256'' read_str;
          aid \<leftarrow> req_field kvs ''authorization_id'' read_str;
          dh \<leftarrow> req_field kvs ''decision_hash'' read_str;
          ep \<leftarrow> req_field kvs ''kill_epoch'' read_int;
          rb \<leftarrow> req_field kvs ''response_bytes'' read_int;
          rh \<leftarrow> req_field kvs ''response_sha256'' read_str;
          sc \<leftarrow> req_field kvs ''status_code'' read_int;
          Some \<lparr> rp_action_sha256 = ah, rp_authorization_id = aid, rp_decision_hash = dh, rp_kill_epoch = ep,
                 rp_response_bytes = rb, rp_response_sha256 = rh, rp_status_code = sc \<rparr> }"

definition result_payload_of_json :: "json \<Rightarrow> result_payload result" where
  "result_payload_of_json =
     of_object [''action_sha256'', ''authorization_id'', ''decision_hash'', ''kill_epoch'', ''response_bytes'', ''response_sha256'',
       ''status_code''] read_result_payload validate_result_payload"

definition cancellation_statuses :: "(pystr \<times> cancellation_status) list" where
  "cancellation_statuses = [(lit ''SIGNALLED'', SIGNALLED), (lit ''CONFIRMED'', CONFIRMED)]"

definition read_cancellation_payload :: "(pystr \<times> json) list \<Rightarrow> cancellation_payload option" where
  "read_cancellation_payload kvs =
     do { ah \<leftarrow> req_field kvs ''action_sha256'' read_str;
          aid \<leftarrow> req_field kvs ''authorization_id'' read_str;
          dh \<leftarrow> req_field kvs ''decision_hash'' read_str;
          ep \<leftarrow> req_field kvs ''kill_epoch'' read_int;
          st \<leftarrow> req_field kvs ''status'' (read_enum cancellation_statuses);
          ev \<leftarrow> def_field kvs ''evidence_sha256'' (read_optional read_str) None;
          Some \<lparr> cp_action_sha256 = ah, cp_authorization_id = aid, cp_decision_hash = dh, cp_kill_epoch = ep,
                 cp_status = st, cp_evidence_sha256 = ev \<rparr> }"

definition cancellation_payload_of_json :: "json \<Rightarrow> cancellation_payload result" where
  "cancellation_payload_of_json =
     of_object [''action_sha256'', ''authorization_id'', ''decision_hash'', ''kill_epoch'', ''status'', ''evidence_sha256'']
       read_cancellation_payload validate_cancellation_payload"

definition read_violation_payload :: "(pystr \<times> json) list \<Rightarrow> violation_payload option" where
  "read_violation_payload kvs =
     do { rc \<leftarrow> req_field kvs ''reason_code'' read_str;
          rb \<leftarrow> def_field kvs ''raw_bytes'' (read_optional read_int) None;
          rh \<leftarrow> def_field kvs ''raw_sha256'' (read_optional read_str) None;
          ah \<leftarrow> def_field kvs ''action_sha256'' (read_optional read_str) None;
          dh \<leftarrow> def_field kvs ''decision_hash'' (read_optional read_str) None;
          Some \<lparr> vp_reason_code = rc, vp_raw_bytes = rb, vp_raw_sha256 = rh, vp_action_sha256 = ah, vp_decision_hash = dh \<rparr> }"

definition violation_payload_of_json :: "json \<Rightarrow> violation_payload result" where
  "violation_payload_of_json =
     of_object [''reason_code'', ''raw_bytes'', ''raw_sha256'', ''action_sha256'', ''decision_hash'']
       read_violation_payload validate_violation_payload"

definition read_overload_payload :: "(pystr \<times> json) list \<Rightarrow> overload_payload option" where
  "read_overload_payload kvs =
     do { ns \<leftarrow> req_field kvs ''first_excess_monotonic_ns'' read_int;
          rb \<leftarrow> req_field kvs ''raw_bytes'' read_int;
          rh \<leftarrow> req_field kvs ''raw_sha256'' read_str;
          req_field kvs ''reason_code'' (read_literal (JStr (lit ''admission.overload'')));
          Some \<lparr> op_first_excess_monotonic_ns = ns, op_raw_bytes = rb, op_raw_sha256 = rh \<rparr> }"

definition overload_payload_of_json :: "json \<Rightarrow> overload_payload result" where
  "overload_payload_of_json =
     of_object [''first_excess_monotonic_ns'', ''raw_bytes'', ''raw_sha256'', ''reason_code''] read_overload_payload validate_overload_payload"

section \<open>The contract of a reader\<close>

lemma lit_inj: "lit s = lit t \<longleftrightarrow> s = t"
proof -
  have "inj (of_char :: char \<Rightarrow> int)" by (metis inj_def of_char_eq_iff)
  then show ?thesis by (simp add: lit_def inj_map_eq_map)
qed

lemma ordered_obj:
  assumes "distinct (map fst fs)"
  obtains kvs where "order_for_jcs (json_of_py (obj fs)) = JObj kvs" "map_of kvs = dumped fs"
    "fst ` set kvs = (lit \<circ> fst) ` set fs"
proof -
  let ?kvs = "map (\<lambda>(k, v). (lit k, json_of_py v)) fs" and ?f = "\<lambda>(k :: pystr, v :: json). utf16_be k"
  let ?out = "map (\<lambda>(k, v). (k, order_for_jcs v)) (sort_key ?f ?kvs)"
  have "distinct (map lit (map fst fs))" using assms lit_inj by (simp add: distinct_map inj_on_def del: map_map)
  then have d: "distinct (map fst ?kvs)" by (simp add: comp_def split_def)
  have "map_of ?out k = dumped fs k" for k
  proof -
    have "dumped fs k = map_of (map (\<lambda>(k, v). (k, order_for_jcs v)) ?kvs) k"
      by (simp add: dumped_def comp_def split_def)
    then show ?thesis by (simp only: map_of_ordered map_of_sorted [OF d])
  qed
  then have "map_of ?out = dumped fs" ..
  moreover have "fst ` set ?out = (lit \<circ> fst) ` set fs" by (force simp: image_iff)
  moreover have "order_for_jcs (json_of_py (obj fs)) = JObj ?out" by (simp add: obj_def comp_def split_def)
  ultimately show ?thesis using that by blast
qed

locale contract_model =
  fixes dump :: "'a \<Rightarrow> pyval"
    and fields :: "'a \<Rightarrow> (string \<times> pyval) list"
    and of_json :: "prims \<Rightarrow> json \<Rightarrow> 'a result"
    and valid :: "prims \<Rightarrow> 'a \<Rightarrow> bool"
  assumes dump_eq: "dump x = obj (fields x)"
    and names_distinct: "distinct (map fst (fields x))"
    and read_back: "valid P x \<Longrightarrow> map_of kvs = dumped (fields x) \<Longrightarrow> fst ` set kvs = (lit \<circ> fst) ` set (fields x) \<Longrightarrow>
      of_json P (JObj kvs) = Inr x"
    and read_valid: "of_json P j = Inr x \<Longrightarrow> valid P x"
begin

lemma nested: "valid P x \<Longrightarrow> of_json P (order_for_jcs (json_of_py (dump x))) = Inr x"
  unfolding dump_eq using ordered_obj [OF names_distinct, of x] read_back by metis

lemma wire_roundtrip:
  assumes "valid P x" "canonical_json_bytes P (dump x) = Inr b"
  shows "model_validate_json P (of_json P) (InBytes b) = Inr x"
proof -
  obtain kvs where "parse_canonical_json P (InBytes b) = Inr (JObj kvs)" "map_of kvs = dumped (fields x)"
    "fst ` set kvs = (lit \<circ> fst) ` set (fields x)" using parse_dumped [OF assms(2) [unfolded dump_eq]] .
  with assms(1) read_back show ?thesis by (simp add: model_validate_json_def)
qed

lemma text_roundtrip:
  assumes "valid P x" "canonical_json P (dump x) = Inr t"
  shows "model_validate_json P (of_json P) (InStr t) = Inr x"
  using assms canonical_json_parse [OF assms(2)] nested
  by (metis bind_result.simps(2) json_of_py_of_json model_validate_json_def)

lemma reads_valid: "model_validate_json P (of_json P) input = Inr x \<Longrightarrow> valid P x"
  using read_valid by (auto simp: model_validate_json_def)

lemma read_nested [simp]: "valid P x \<Longrightarrow> read_model (of_json P) (order_for_jcs (json_of_py (dump x))) = Some x"
  by (simp add: read_model_def nested)

end

section \<open>Every reader keeps it\<close>

lemma of_object_Inr:
  "of_object names rd validate j = Inr x \<longleftrightarrow>
     (\<exists>kvs y. j = JObj kvs \<and> closed_object kvs names \<and> rd kvs = Some y \<and> validate y = Inr x)"
  by (auto simp: of_object_def bad_shape_def split: json.splits option.splits)

lemma closed_iff: "closed_object kvs names \<longleftrightarrow> fst ` set kvs \<subseteq> lit ` set names"
  by (auto simp: closed_object_def list_all_iff)

lemma read_fields:
  "map_of kvs = dumped fs \<Longrightarrow> map_of fs name = Some v \<Longrightarrow> req_field kvs name rd = rd (order_for_jcs (json_of_py v))"
  "map_of kvs = dumped fs \<Longrightarrow> map_of fs name = Some v \<Longrightarrow> def_field kvs name rd d = rd (order_for_jcs (json_of_py v))"
proof -
  have "dumped fs (lit name) = map_option (\<lambda>v. order_for_jcs (json_of_py v)) (map_of fs name)" for fs
    by (induction fs) (auto simp: dumped_def lit_inj)
  then show "map_of kvs = dumped fs \<Longrightarrow> map_of fs name = Some v \<Longrightarrow> req_field kvs name rd = rd (order_for_jcs (json_of_py v))"
    "map_of kvs = dumped fs \<Longrightarrow> map_of fs name = Some v \<Longrightarrow> def_field kvs name rd d = rd (order_for_jcs (json_of_py v))"
    by (simp_all add: req_field_def def_field_def)
qed

lemma read_scalars [simp]:
  "read_literal c c = Some ()" "read_optional read_str (json_of_py (opt_str t)) = Some t"
  "read_optional read_int (order_for_jcs (json_of_py (opt_int j))) = Some j"
  "read_optional (read_literal (JInt 1)) (JInt 1) = Some (Some ())" "read_optional r JNull = Some None"
proof -
  show "read_optional read_str (json_of_py (opt_str t)) = Some t" by (rule read_opt_str)
  show "read_optional read_int (order_for_jcs (json_of_py (opt_int j))) = Some j"
    by (cases j) (simp_all add: read_optional_def opt_int_def)
qed (simp_all add: read_literal_def read_optional_def)

lemma read_names [simp]:
  "read_enum event_kinds (JStr (event_kind_name k)) = Some k"
  "read_enum verdicts (JStr (verdict_name v)) = Some v"
  "read_enum termination_modes (JStr (termination_mode_name t)) = Some t"
proof -
  show "read_enum event_kinds (JStr (event_kind_name k)) = Some k"
    by (cases k) (simp_all add: read_enum_def event_kinds_def event_kind_name_def lit_inj)
  show "read_enum verdicts (JStr (verdict_name v)) = Some v"
    by (cases v) (simp_all add: read_enum_def verdicts_def verdict_name_def lit_inj)
  show "read_enum termination_modes (JStr (termination_mode_name t)) = Some t"
    by (cases t) (simp_all add: read_enum_def termination_modes_def termination_mode_name_def lit_inj)
qed

lemma read_strs_back [simp]: "read_strs (order_for_jcs (json_of_py (str_tuple ss))) = Some ss"
  by (induction ss) (simp_all add: read_strs_def str_tuple_def)

lemma read_Some:
  "read_model f j = Some x \<longleftrightarrow> f j = Inr x"
  "req_field kvs name rd = Some y \<longleftrightarrow> (\<exists>j. map_of kvs (lit name) = Some j \<and> rd j = Some y)"
  by (auto simp: read_model_def req_field_def split: sum.splits option.splits)

lemma of_object_back:
  "rd kvs = Some x \<Longrightarrow> validate x = Inr x \<Longrightarrow> fst ` set kvs \<subseteq> lit ` set names \<Longrightarrow> of_object names rd validate (JObj kvs) = Inr x"
  by (simp add: of_object_def closed_iff)

interpretation signature_wire: contract_model dump_signature
  "\<lambda>s. [(''key_id'', PStr (sig_key_id s)), (''algorithm'', PStr (lit ''Ed25519'')), (''value'', PStr (sig_value s))]"
  "\<lambda>_. signature_of_json" "\<lambda>_ s. validate_signature s = Inr s"
proof (unfold_locales, goal_cases)
  case (3 P x kvs)
  have "read_signature kvs = Some x" by (simp add: read_signature_def read_fields [OF 3(2)])
  with 3 show ?case unfolding signature_of_json_def by (intro of_object_back) simp_all
next
  case (4 P j x)
  then show ?case by (auto simp: signature_of_json_def of_object_Inr validate_signature_def)
qed (simp_all add: dump_signature_def)

interpretation event_body_wire: contract_model dump_event_body
  "\<lambda>b. [(''protocol'', PStr PROTOCOL), (''schema_version'', PStr SCHEMA_VERSION),
          (''run_id'', PStr (eb_run_id b)), (''manifest_hash'', PStr (eb_manifest_hash b)),
          (''sequence'', PInt (eb_sequence b)), (''previous_event_hash'', PStr (eb_previous_event_hash b)),
          (''kind'', PStr (event_kind_name (eb_kind b))), (''request_id'', opt_str (eb_request_id b)),
          (''producer_instance_id'', PStr (eb_producer_instance_id b)), (''observed_at'', PStr (eb_observed_at b)),
          (''monotonic_ns'', PInt (eb_monotonic_ns b)),
          (''payload_canonical_json'', PStr (eb_payload_canonical_json b)),
          (''payload_sha256'', PStr (eb_payload_sha256 b))]"
  event_body_of_json "\<lambda>P b. validate_event_body P b = Inr b"
proof (unfold_locales, goal_cases)
  case (3 P x kvs)
  have "read_event_body kvs = Some x" by (simp add: read_event_body_def protocol_fields_def read_fields [OF 3(2)])
  with 3 show ?case unfolding event_body_of_json_def event_body_fields_def by (intro of_object_back) simp_all
next
  case (4 P j x)
  then show ?case by (auto simp: event_body_of_json_def of_object_Inr validate_event_body_def)
qed (simp_all add: dump_event_body_def)

interpretation event_wire: contract_model dump_event
  "\<lambda>e. [(''body'', dump_event_body (ev_body e)), (''event_hash'', PStr (ev_hash e))]"
  event_of_json "\<lambda>P e. validate_event_body P (ev_body e) = Inr (ev_body e) \<and> validate_event P e = Inr e"
proof (unfold_locales, goal_cases)
  case (3 P x kvs)
  have "read_event P kvs = Some x"
    using 3(1) by (simp add: event_body_wire.read_nested read_event_def read_fields [OF 3(2)])
  with 3 show ?case unfolding event_of_json_def by (intro of_object_back) simp_all
next
  case (4 P j x)
  then show ?case by (auto simp: event_of_json_def of_object_Inr read_event_def read_Some Option.bind_eq_Some_conv validate_event_def
      dest: event_body_wire.read_valid)
qed (simp_all add: dump_event_def)

interpretation decision_body_wire: contract_model dump_decision_body
  "\<lambda>b. [(''protocol'', PStr PROTOCOL), (''schema_version'', PStr SCHEMA_VERSION),
          (''run_id'', PStr (db_run_id b)), (''manifest_hash'', PStr (db_manifest_hash b)),
          (''request_id'', PStr (db_request_id b)),
          (''request_event_sequence'', PInt (db_request_event_sequence b)),
          (''request_event_hash'', PStr (db_request_event_hash b)), (''action_sha256'', PStr (db_action_sha256 b)),
          (''gateway_key_id'', PStr (db_gateway_key_id b)), (''gateway_instance_id'', PStr (db_gateway_instance_id b)),
          (''decided_at'', PStr (db_decided_at b)), (''decision_monotonic_ns'', PInt (db_decision_monotonic_ns b)),
          (''kill_epoch'', PInt (db_kill_epoch b)), (''verdict'', PStr (verdict_name (db_verdict b))),
          (''reason_code'', PStr (db_reason_code b)), (''matched_rule_id'', opt_str (db_matched_rule_id b)),
          (''hard_violation'', PBool (db_hard_violation b)), (''authorization_id'', opt_str (db_authorization_id b)),
          (''authorization_expires_monotonic_ns'', opt_int (db_authorization_expires_monotonic_ns b)),
          (''authorization_max_uses'', if db_authorization_single_use b then PInt 1 else PNone)]"
  decision_body_of_json "\<lambda>P b. validate_decision_body P b = Inr b"
proof (unfold_locales, goal_cases)
  case (3 P x kvs)
  have "read_decision_body kvs = Some x" by (simp add: read_decision_body_def protocol_fields_def read_fields [OF 3(2)])
  with 3 show ?case unfolding decision_body_of_json_def decision_body_fields_def by (intro of_object_back) simp_all
next
  case (4 P j x)
  then show ?case by (auto simp: decision_body_of_json_def of_object_Inr validate_decision_body_def)
qed (simp_all add: dump_decision_body_def)

interpretation decision_wire: contract_model dump_decision
  "\<lambda>d. [(''body'', dump_decision_body (d_body d)), (''decision_hash'', PStr (d_hash d)),
          (''gateway_signature'', dump_signature (d_signature d))]"
  decision_of_json "\<lambda>P d. validate_decision_body P (d_body d) = Inr (d_body d) \<and> validate_signature (d_signature d) = Inr (d_signature d) \<and> validate_decision P d = Inr d"
proof (unfold_locales, goal_cases)
  case (3 P x kvs)
  have "read_decision P kvs = Some x"
    using 3(1) by (simp add: decision_body_wire.read_nested signature_wire.read_nested read_decision_def read_fields [OF 3(2)])
  with 3 show ?case unfolding decision_of_json_def by (intro of_object_back) simp_all
next
  case (4 P j x)
  then show ?case by (auto simp: decision_of_json_def of_object_Inr read_decision_def read_Some Option.bind_eq_Some_conv validate_decision_def
      dest: decision_body_wire.read_valid signature_wire.read_valid)
qed (simp_all add: dump_decision_def)

interpretation kill_ack_body_wire: contract_model dump_kill_ack_body
  "\<lambda>b. [(''protocol'', PStr PROTOCOL), (''schema_version'', PStr SCHEMA_VERSION),
          (''run_id'', PStr (ka_run_id b)), (''manifest_hash'', PStr (ka_manifest_hash b)),
          (''supervisor_key_id'', PStr (ka_supervisor_key_id b)),
          (''supervisor_instance_id'', PStr (ka_supervisor_instance_id b)),
          (''trigger_event_sequence'', PInt (ka_trigger_event_sequence b)),
          (''trigger_event_hash'', PStr (ka_trigger_event_hash b)),
          (''trigger_monotonic_ns'', PInt (ka_trigger_monotonic_ns b)),
          (''kill_requested_at'', PStr (ka_kill_requested_at b)),
          (''kill_requested_monotonic_ns'', PInt (ka_kill_requested_monotonic_ns b)),
          (''kill_acknowledged_at'', PStr (ka_kill_acknowledged_at b)),
          (''kill_acknowledged_monotonic_ns'', PInt (ka_kill_acknowledged_monotonic_ns b)),
          (''kill_latency_ns'', PInt (ka_kill_latency_ns b)),
          (''termination_mode'', PStr (termination_mode_name (ka_termination_mode b))),
          (''terminated_workload_ids'', str_tuple (ka_terminated_workload_ids b)),
          (''inflight_at_trigger'', PInt (ka_inflight_at_trigger b)),
          (''inflight_cancel_signalled'', PInt (ka_inflight_cancel_signalled b)),
          (''inflight_cancelled'', PInt (ka_inflight_cancelled b)),
          (''network_isolation_confirmed'', PBool (ka_network_isolation_confirmed b)),
          (''isolation_evidence_sha256'', opt_str (ka_isolation_evidence_sha256 b))]"
  kill_ack_body_of_json "\<lambda>P b. validate_kill_ack_body P b = Inr b"
proof (unfold_locales, goal_cases)
  case (3 P x kvs)
  have "read_kill_ack_body kvs = Some x" by (simp add: read_kill_ack_body_def protocol_fields_def read_fields [OF 3(2)])
  with 3 show ?case unfolding kill_ack_body_of_json_def kill_ack_body_fields_def by (intro of_object_back) simp_all
next
  case (4 P j x)
  then show ?case by (auto simp: kill_ack_body_of_json_def of_object_Inr validate_kill_ack_body_def)
qed (simp_all add: dump_kill_ack_body_def)

interpretation kill_ack_wire: contract_model dump_kill_ack
  "\<lambda>k. [(''body'', dump_kill_ack_body (k_body k)), (''acknowledgement_hash'', PStr (k_hash k)),
          (''supervisor_signature'', dump_signature (k_signature k))]"
  kill_ack_of_json "\<lambda>P k. validate_kill_ack_body P (k_body k) = Inr (k_body k) \<and> validate_signature (k_signature k) = Inr (k_signature k) \<and> validate_kill_ack P k = Inr k"
proof (unfold_locales, goal_cases)
  case (3 P x kvs)
  have "read_kill_ack P kvs = Some x"
    using 3(1) by (simp add: kill_ack_body_wire.read_nested signature_wire.read_nested read_kill_ack_def read_fields [OF 3(2)])
  with 3 show ?case unfolding kill_ack_of_json_def by (intro of_object_back) simp_all
next
  case (4 P j x)
  then show ?case by (auto simp: kill_ack_of_json_def of_object_Inr read_kill_ack_def read_Some Option.bind_eq_Some_conv validate_kill_ack_def
      dest: kill_ack_body_wire.read_valid signature_wire.read_valid)
qed (simp_all add: dump_kill_ack_def)

interpretation dispatch_payload_wire: contract_model dump_dispatch_payload
  "\<lambda>p. [(''action_sha256'', PStr (dp_action_sha256 p)), (''authorization_id'', PStr (dp_authorization_id p)),
          (''decision_hash'', PStr (dp_decision_hash p)), (''kill_epoch'', PInt (dp_kill_epoch p))]"
  "\<lambda>_. dispatch_payload_of_json" "\<lambda>_ p. validate_dispatch_payload p = Inr p"
proof (unfold_locales, goal_cases)
  case (3 P x kvs)
  have "read_dispatch_payload kvs = Some x" by (simp add: read_dispatch_payload_def read_fields [OF 3(2)])
  with 3 show ?case unfolding dispatch_payload_of_json_def by (intro of_object_back) simp_all
next
  case (4 P j x)
  then show ?case by (auto simp: dispatch_payload_of_json_def of_object_Inr validate_dispatch_payload_def)
qed (simp_all add: dump_dispatch_payload_def)

interpretation result_payload_wire: contract_model dump_result_payload
  "\<lambda>p. [(''action_sha256'', PStr (rp_action_sha256 p)), (''authorization_id'', PStr (rp_authorization_id p)),
          (''decision_hash'', PStr (rp_decision_hash p)), (''kill_epoch'', PInt (rp_kill_epoch p)),
          (''response_bytes'', PInt (rp_response_bytes p)), (''response_sha256'', PStr (rp_response_sha256 p)),
          (''status_code'', PInt (rp_status_code p))]"
  "\<lambda>_. result_payload_of_json" "\<lambda>_ p. validate_result_payload p = Inr p"
proof (unfold_locales, goal_cases)
  case (3 P x kvs)
  have "read_result_payload kvs = Some x" by (simp add: read_result_payload_def read_fields [OF 3(2)])
  with 3 show ?case unfolding result_payload_of_json_def by (intro of_object_back) simp_all
next
  case (4 P j x)
  then show ?case by (auto simp: result_payload_of_json_def of_object_Inr validate_result_payload_def)
qed (simp_all add: dump_result_payload_def)

end
