(* ===== verification/BCP_Auditor.thy ===== *)
theory BCP_Auditor
  imports BCP_Readers
begin

text \<open>
  The offline auditor of \<^verbatim>\<open>auditor/verify.py\<close> with \<open>iter_canonical_jsonl\<close> of \<^verbatim>\<open>app/evidence.py\<close>. The generators are
  modelled by what they yield and how they end; \<open>verify_stream\<close> consumes them as \<open>Receipt.verify_against\<close> does,
  event by event. A \<open>_RequestTrace\<close> is referenced by its request identifier, which no second trace can have.
\<close>

section \<open>Reading the evidence file\<close>

definition event_of_line :: "prims \<Rightarrow> json_input \<Rightarrow> event result" where
  "event_of_line P line =
     bind_result (case line of InBytes b \<Rightarrow> Inr b | InStr s \<Rightarrow> utf8_encode s) (\<lambda>raw.
       if raw = [] \<or> last raw \<noteq> 10 then Inl (ValueError ''missing canonical newline'')
       else bind_result (model_validate_json P (event_of_json P) (InBytes (butlast raw))) (\<lambda>e.
            bind_result (canonical_json_bytes P (dump_event e)) (\<lambda>b.
              if b \<noteq> butlast raw then Inl (ValueError ''event is not canonical JSON'') else Inr e)))"

fun iter_canonical_jsonl :: "prims \<Rightarrow> json_input list \<Rightarrow> event list \<times> unit result" where
  "iter_canonical_jsonl P [] = ([], Inr ())"
| "iter_canonical_jsonl P (line # lines) =
     (case event_of_line P line of
        Inl x \<Rightarrow> ([], Inl x)
      | Inr e \<Rightarrow> (case iter_canonical_jsonl P lines of (es, outcome) \<Rightarrow> (e # es, outcome)))"

section \<open>The state of the inspection\<close>

record request_trace =
  qt_event :: event
  qt_action_sha256 :: pystr
  qt_decision :: "decision option"
  qt_dispatched :: bool
  qt_completed :: bool
  qt_cancellation_confirmed :: bool

record audit_stats =
  as_events :: int
  as_decisions :: int
  as_allowed :: int
  as_denied :: int
  as_dispatches :: int
  as_results :: int
  as_kill_acks :: int

record audit =
  au_traces :: "(pystr \<times> request_trace) list"
  au_sequences :: "int \<rightharpoonup> pystr"
  au_authorizations :: "pystr set"
  au_hashes :: "int \<rightharpoonup> pystr"
  au_barrier :: "int option"
  au_ack :: "kill_ack option"
  au_stats :: audit_stats

definition init_stats :: audit_stats where
  "init_stats = \<lparr> as_events = 0, as_decisions = 0, as_allowed = 0, as_denied = 0, as_dispatches = 0, as_results = 0, as_kill_acks = 0 \<rparr>"

definition init_audit :: audit where
  "init_audit =
     \<lparr> au_traces = [], au_sequences = (\<lambda>_. None), au_authorizations = {}, au_hashes = (\<lambda>_. None), au_barrier = None,
       au_ack = None, au_stats = init_stats \<rparr>"

definition update_trace :: "pystr \<Rightarrow> (request_trace \<Rightarrow> request_trace) \<Rightarrow> audit \<Rightarrow> audit" where
  "update_trace rid f s = s\<lparr> au_traces := map (\<lambda>(k, t). (k, if k = rid then f t else t)) (au_traces s) \<rparr>"

definition count_stat :: "(audit_stats \<Rightarrow> audit_stats) \<Rightarrow> audit \<Rightarrow> audit" where
  "count_stat f s = s\<lparr> au_stats := f (au_stats s) \<rparr>"

text \<open>\<open>traces.get(event.body.request_id or "")\<close>\<close>

definition event_request :: "event \<Rightarrow> pystr" where
  "event_request e = (case eb_request_id (ev_body e) of None \<Rightarrow> [] | Some r \<Rightarrow> r)"

definition trace_of :: "event \<Rightarrow> audit \<Rightarrow> request_trace option" where
  "trace_of e s = map_of (au_traces s) (event_request e)"

definition payload_of :: "prims \<Rightarrow> (json \<Rightarrow> 'a result) \<Rightarrow> event \<Rightarrow> 'a result" where
  "payload_of P reader e = model_validate_json P reader (InStr (eb_payload_canonical_json (ev_body e)))"

section \<open>One event\<close>

definition inspect_request :: "prims \<Rightarrow> event \<Rightarrow> audit \<Rightarrow> audit result" where
  "inspect_request P e s =
     bind_result (payload_of P request_payload_of_json e) (\<lambda>payload.
     bind_result (action_of_json P (JObj (qp_action payload))) (\<lambda>a.
       if eb_request_id (ev_body e) \<noteq> Some (a_request_id a) then Inl (ValueError ''REQUEST event request_id does not match action'')
       else if map_of (au_traces s) (a_request_id a) \<noteq> None then Inl (ValueError ''duplicate REQUEST request_id'')
       else bind_result (action_digest P a) (\<lambda>digest.
         if digest \<noteq> qp_action_sha256 payload then Inl (ValueError ''REQUEST action digest does not match'')
         else Inr (s\<lparr> au_traces := au_traces s @ [(a_request_id a,
                        \<lparr> qt_event = e, qt_action_sha256 = qp_action_sha256 payload, qt_decision = None, qt_dispatched = False,
                          qt_completed = False, qt_cancellation_confirmed = False \<rparr>)],
                      au_sequences := (au_sequences s)(eb_sequence (ev_body e) \<mapsto> a_request_id a) \<rparr>))))"

definition inspect_decision :: "prims \<Rightarrow> manifest \<Rightarrow> event \<Rightarrow> audit \<Rightarrow> audit result" where
  "inspect_decision P m e s =
     bind_result (payload_of P (decision_of_json P) e) (\<lambda>d.
     bind_result (verify_decision P (mb_gateway_key (m_body m)) d) (\<lambda>_.
       if db_run_id (d_body d) \<noteq> mb_run_id (m_body m) \<or> db_manifest_hash (d_body d) \<noteq> m_hash m
       then Inl (ValueError ''DECISION is bound to another run'')
       else case Option.bind (au_sequences s (db_request_event_sequence (d_body d)))
                   (\<lambda>rid. map_option (Pair rid) (map_of (au_traces s) rid)) of
              None \<Rightarrow> Inl (ValueError ''DECISION references an absent REQUEST'')
            | Some (rid, t) \<Rightarrow>
                if db_request_event_hash (d_body d) \<noteq> ev_hash (qt_event t) \<or>
                   Some (db_request_id (d_body d)) \<noteq> eb_request_id (ev_body (qt_event t)) \<or>
                   eb_request_id (ev_body e) \<noteq> eb_request_id (ev_body (qt_event t)) \<or>
                   db_action_sha256 (d_body d) \<noteq> qt_action_sha256 t
                then Inl (ValueError ''DECISION request binding is invalid'')
                else if qt_decision t \<noteq> None then Inl (ValueError ''REQUEST has multiple DECISION events'')
                else let s1 = update_trace rid (\<lambda>t. t\<lparr> qt_decision := Some d \<rparr>) s;
                         s2 = count_stat (\<lambda>n. n\<lparr> as_decisions := as_decisions n + 1 \<rparr>) s1;
                         s3 = (if db_verdict (d_body d) = ALLOW then count_stat (\<lambda>n. n\<lparr> as_allowed := as_allowed n + 1 \<rparr>) s2
                               else count_stat (\<lambda>n. n\<lparr> as_denied := as_denied n + 1 \<rparr>) s2)
                     in Inr (if db_hard_violation (d_body d) then s3\<lparr> au_barrier := Some (eb_sequence (ev_body e)) \<rparr> else s3)))"

definition inspect_dispatch :: "prims \<Rightarrow> event \<Rightarrow> audit \<Rightarrow> audit result" where
  "inspect_dispatch P e s =
     bind_result (payload_of P dispatch_payload_of_json e) (\<lambda>payload.
       if au_barrier s \<noteq> None then Inl (ValueError ''DISPATCH occurs after a kill barrier'')
       else case Option.bind (trace_of e s) (\<lambda>t. map_option (Pair t) (qt_decision t)) of
              None \<Rightarrow> Inl (ValueError ''DISPATCH has no bound DECISION'')
            | Some (t, d) \<Rightarrow>
                if db_verdict (d_body d) \<noteq> ALLOW then Inl (ValueError ''DISPATCH is bound to a non-ALLOW decision'')
                else if qt_dispatched t then Inl (ValueError ''authorization was dispatched more than once'')
                else if dp_action_sha256 payload \<noteq> qt_action_sha256 t \<or> dp_decision_hash payload \<noteq> d_hash d \<or>
                        Some (dp_authorization_id payload) \<noteq> db_authorization_id (d_body d) \<or>
                        dp_kill_epoch payload \<noteq> db_kill_epoch (d_body d)
                then Inl (ValueError ''DISPATCH capability binding is invalid'')
                else if dp_authorization_id payload \<in> au_authorizations s then Inl (ValueError ''authorization_id was reused'')
                else case db_authorization_expires_monotonic_ns (d_body d) of
                       None \<Rightarrow> Inl (TypeError ''comparison of an integer with None'')
                     | Some expiry \<Rightarrow>
                         if eb_monotonic_ns (ev_body e) > expiry then Inl (ValueError ''DISPATCH used an expired authorization'')
                         else Inr (count_stat (\<lambda>n. n\<lparr> as_dispatches := as_dispatches n + 1 \<rparr>)
                           (update_trace (event_request e) (\<lambda>t. t\<lparr> qt_dispatched := True \<rparr>)
                             (s\<lparr> au_authorizations := insert (dp_authorization_id payload) (au_authorizations s) \<rparr>))))"

definition dispatched_trace :: "event \<Rightarrow> audit \<Rightarrow> (request_trace \<times> decision) option" where
  "dispatched_trace e s =
     Option.bind (trace_of e s) (\<lambda>t. if qt_dispatched t then map_option (Pair t) (qt_decision t) else None)"

definition inspect_result :: "prims \<Rightarrow> event \<Rightarrow> audit \<Rightarrow> audit result" where
  "inspect_result P e s =
     bind_result (payload_of P result_payload_of_json e) (\<lambda>payload.
       case dispatched_trace e s of
         None \<Rightarrow> Inl (ValueError ''RESULT has no bound DISPATCH'')
       | Some (t, d) \<Rightarrow>
           if qt_completed t then Inl (ValueError ''DISPATCH has multiple RESULT events'')
           else if rp_action_sha256 payload \<noteq> qt_action_sha256 t \<or> rp_decision_hash payload \<noteq> d_hash d \<or>
                   Some (rp_authorization_id payload) \<noteq> db_authorization_id (d_body d) \<or>
                   rp_kill_epoch payload \<noteq> db_kill_epoch (d_body d)
           then Inl (ValueError ''RESULT dispatch binding is invalid'')
           else Inr (count_stat (\<lambda>n. n\<lparr> as_results := as_results n + 1 \<rparr>)
             (update_trace (event_request e) (\<lambda>t. t\<lparr> qt_completed := True \<rparr>) s)))"

definition inspect_cancellation :: "prims \<Rightarrow> event \<Rightarrow> audit \<Rightarrow> audit result" where
  "inspect_cancellation P e s =
     bind_result (payload_of P cancellation_payload_of_json e) (\<lambda>payload.
       case dispatched_trace e s of
         None \<Rightarrow> Inl (ValueError ''CANCELLATION has no bound DISPATCH'')
       | Some (t, d) \<Rightarrow>
           if qt_completed t \<or> qt_cancellation_confirmed t
           then Inl (ValueError ''CANCELLATION contradicts a terminal dispatch state'')
           else if cp_action_sha256 payload \<noteq> qt_action_sha256 t \<or> cp_decision_hash payload \<noteq> d_hash d \<or>
                   Some (cp_authorization_id payload) \<noteq> db_authorization_id (d_body d) \<or>
                   cp_kill_epoch payload \<noteq> db_kill_epoch (d_body d)
           then Inl (ValueError ''CANCELLATION dispatch binding is invalid'')
           else Inr (update_trace (event_request e)
             (\<lambda>t. t\<lparr> qt_cancellation_confirmed := (cp_status payload = CONFIRMED) \<rparr>) s))"

definition inspect_violation :: "prims \<Rightarrow> event \<Rightarrow> audit \<Rightarrow> audit result" where
  "inspect_violation P e s =
     bind_result (payload_of P violation_payload_of_json e) (\<lambda>_. Inr (s\<lparr> au_barrier := Some (eb_sequence (ev_body e)) \<rparr>))"

definition inspect_overload :: "prims \<Rightarrow> event \<Rightarrow> audit \<Rightarrow> audit result" where
  "inspect_overload P e s =
     bind_result (payload_of P overload_payload_of_json e) (\<lambda>_. Inr (s\<lparr> au_barrier := Some (eb_sequence (ev_body e)) \<rparr>))"

definition inspect_ack :: "prims \<Rightarrow> manifest \<Rightarrow> receipt \<Rightarrow> event \<Rightarrow> audit \<Rightarrow> audit result" where
  "inspect_ack P m r e s =
     (if au_ack s \<noteq> None then Inl (ValueError ''multiple KILL_ACKNOWLEDGED events'')
      else bind_result (payload_of P (kill_ack_of_json P) e) (\<lambda>k.
           bind_result (verify_kill_ack P (mb_supervisor_key (m_body m)) k) (\<lambda>_.
             if ka_trigger_event_sequence (k_body k) \<ge> eb_sequence (ev_body e)
             then Inl (ValueError ''kill acknowledgement does not follow its trigger'')
             else if au_hashes s (ka_trigger_event_sequence (k_body k)) \<noteq> Some (ka_trigger_event_hash (k_body k))
             then Inl (ValueError ''kill acknowledgement trigger binding is invalid'')
             else if (case rb_kill_acknowledgement (r_body r) of None \<Rightarrow> True | Some q \<Rightarrow> k_hash k \<noteq> k_hash q)
             then Inl (ValueError ''logged kill acknowledgement differs from receipt'')
             else Inr (count_stat (\<lambda>n. n\<lparr> as_kill_acks := as_kill_acks n + 1 \<rparr>) (s\<lparr> au_ack := Some k \<rparr>)))))"

definition inspect_kind :: "prims \<Rightarrow> manifest \<Rightarrow> receipt \<Rightarrow> event \<Rightarrow> audit \<Rightarrow> audit result" where
  "inspect_kind P m r e s =
     (case eb_kind (ev_body e) of
        REQUEST \<Rightarrow> inspect_request P e s
      | DECISION \<Rightarrow> inspect_decision P m e s
      | DISPATCH \<Rightarrow> inspect_dispatch P e s
      | RESULT \<Rightarrow> inspect_result P e s
      | CANCELLATION \<Rightarrow> inspect_cancellation P e s
      | VIOLATION \<Rightarrow> inspect_violation P e s
      | OVERLOAD_SUMMARY \<Rightarrow> inspect_overload P e s
      | KILL_ACKNOWLEDGED \<Rightarrow> inspect_ack P m r e s
      | KILL_REQUESTED \<Rightarrow> Inl (ValueError ''unsupported KILL_REQUESTED event''))"

definition inspect_event :: "prims \<Rightarrow> manifest \<Rightarrow> receipt \<Rightarrow> event \<Rightarrow> audit \<Rightarrow> audit result" where
  "inspect_event P m r e s =
     bind_result (inspect_kind P m r e (s\<lparr> au_hashes := (au_hashes s)(eb_sequence (ev_body e) \<mapsto> ev_hash e) \<rparr>)) (\<lambda>s'.
       Inr (count_stat (\<lambda>n. n\<lparr> as_events := as_events n + 1 \<rparr>) s'))"

section \<open>The whole file\<close>

definition incomplete :: "audit \<Rightarrow> int" where
  "incomplete s =
     int (length (filter (\<lambda>(k, t). qt_dispatched t \<and> \<not> qt_completed t \<and> \<not> qt_cancellation_confirmed t) (au_traces s)))"

definition inspect_end :: "receipt \<Rightarrow> audit \<Rightarrow> unit result" where
  "inspect_end r s =
     (if list_ex (\<lambda>(k, t). qt_decision t = None) (au_traces s) then Inl (ValueError ''REQUEST is missing its DECISION'')
      else if rb_status (r_body r) = COMPLETED \<and> incomplete s \<noteq> 0 then Inl (ValueError ''completed run contains an unfinished DISPATCH'')
      else if incomplete s \<noteq> 0 \<and>
              (case rb_kill_acknowledgement (r_body r) of None \<Rightarrow> True | Some k \<Rightarrow> incomplete s > ka_inflight_at_trigger (k_body k))
      then Inl (ValueError ''unfinished DISPATCH is not explained by containment'')
      else Inr ())"

fun inspect_events :: "prims \<Rightarrow> manifest \<Rightarrow> receipt \<Rightarrow> event list \<Rightarrow> unit result \<Rightarrow> audit \<Rightarrow> event list \<times> audit result" where
  "inspect_events P m r [] ended s = ([], bind_result ended (\<lambda>_. bind_result (inspect_end r s) (\<lambda>_. Inr s)))"
| "inspect_events P m r (e # es) ended s =
     (case inspect_event P m r e s of
        Inl x \<Rightarrow> ([], Inl x)
      | Inr s' \<Rightarrow> (case inspect_events P m r es ended s' of (yielded, outcome) \<Rightarrow> (e # yielded, outcome)))"

record verification_report =
  vr_valid :: bool
  vr_event_count :: int
  vr_decision_count :: int
  vr_dispatch_count :: int
  vr_result_count :: int
  vr_killed :: bool
  vr_witness_checkpoint_hash :: pystr

definition check_counters :: "receipt_body \<Rightarrow> audit_stats \<Rightarrow> unit result" where
  "check_counters b n =
     (if as_events n \<noteq> rb_event_count b then Inl (ValueError ''receipt events counter does not match evidence'')
      else if as_allowed n \<noteq> rb_allowed_request_count b then Inl (ValueError ''receipt allowed counter does not match evidence'')
      else if as_denied n \<noteq> rb_denied_request_count b then Inl (ValueError ''receipt denied counter does not match evidence'')
      else if as_dispatches n \<noteq> rb_dispatched_request_count b then Inl (ValueError ''receipt dispatches counter does not match evidence'')
      else if as_results n \<noteq> rb_completed_request_count b then Inl (ValueError ''receipt results counter does not match evidence'')
      else if rb_kill_acknowledgement b \<noteq> None \<and> as_kill_acks n \<noteq> 1
      then Inl (ValueError ''killed receipt requires one logged kill acknowledgement'')
      else if rb_kill_acknowledgement b = None \<and> as_kill_acks n \<noteq> 0
      then Inl (ValueError ''unexpected kill acknowledgement event'')
      else Inr ())"

definition verify_bundle ::
  "prims \<Rightarrow> manifest \<Rightarrow> receipt \<Rightarrow> json_input list \<Rightarrow> ed_public_key \<Rightarrow> verification_report result" where
  "verify_bundle P m r lines operator_key =
     (if key_id operator_key \<noteq> mb_operator_key_id (m_body m)
      then Inl (ValueError ''operator verification key ID does not match manifest'')
      else bind_result (b64url_decode 32 (key_value operator_key)) (\<lambda>key.
           bind_result (verify_manifest P key m) (\<lambda>_.
           bind_result
             (case iter_canonical_jsonl P lines of (read, ended) \<Rightarrow>
                (case inspect_events P m r read ended init_audit of (events, outcome) \<Rightarrow> verify_stream P r m events outcome)) (\<lambda>s.
           bind_result (check_counters (r_body r) (au_stats s)) (\<lambda>_.
             Inr \<lparr> vr_valid = True, vr_event_count = as_events (au_stats s), vr_decision_count = as_decisions (au_stats s),
                   vr_dispatch_count = as_dispatches (au_stats s), vr_result_count = as_results (au_stats s),
                   vr_killed = (rb_kill_acknowledgement (r_body r) \<noteq> None),
                   vr_witness_checkpoint_hash = c_hash (rb_witness_checkpoint (r_body r)) \<rparr>)))))"

section \<open>What an accepted history looks like\<close>

text \<open>
  The same history without the auditor's state: what a trace holds is a function of the events before, and every event
  is justified by them.
\<close>

definition of_request :: "event_kind \<Rightarrow> pystr \<Rightarrow> event \<Rightarrow> bool" where
  "of_request kind rid e \<longleftrightarrow> eb_kind (ev_body e) = kind \<and> event_request e = rid"

definition decision_in :: "prims \<Rightarrow> event \<Rightarrow> decision option" where
  "decision_in P e = (case payload_of P (decision_of_json P) e of Inl _ \<Rightarrow> None | Inr d \<Rightarrow> Some d)"

definition dispatch_in :: "prims \<Rightarrow> event \<Rightarrow> dispatch_payload option" where
  "dispatch_in P e = (case payload_of P dispatch_payload_of_json e of Inl _ \<Rightarrow> None | Inr p \<Rightarrow> Some p)"

definition confirms :: "prims \<Rightarrow> event \<Rightarrow> bool" where
  "confirms P e = (case payload_of P cancellation_payload_of_json e of Inl _ \<Rightarrow> False | Inr p \<Rightarrow> cp_status p = CONFIRMED)"

definition bars :: "prims \<Rightarrow> event \<Rightarrow> bool" where
  "bars P e \<longleftrightarrow>
     eb_kind (ev_body e) = VIOLATION \<or> eb_kind (ev_body e) = OVERLOAD_SUMMARY \<or>
     eb_kind (ev_body e) = DECISION \<and> (case decision_in P e of None \<Rightarrow> False | Some d \<Rightarrow> db_hard_violation (d_body d))"

definition requested_digest :: "prims \<Rightarrow> event \<Rightarrow> pystr" where
  "requested_digest P e = (case payload_of P request_payload_of_json e of Inl _ \<Rightarrow> [] | Inr p \<Rightarrow> qp_action_sha256 p)"

definition history_trace :: "prims \<Rightarrow> event list \<Rightarrow> pystr \<Rightarrow> request_trace option" where
  "history_trace P past rid =
     map_option (\<lambda>q. \<lparr> qt_event = q, qt_action_sha256 = requested_digest P q,
         qt_decision = Option.bind (find (of_request DECISION rid) past) (decision_in P),
         qt_dispatched = list_ex (of_request DISPATCH rid) past,
         qt_completed = list_ex (of_request RESULT rid) past,
         qt_cancellation_confirmed = list_ex (\<lambda>e. of_request CANCELLATION rid e \<and> confirms P e) past \<rparr>)
       (find (of_request REQUEST rid) past)"

text \<open>An event that quotes the capability of a dispatch.\<close>

definition cites :: "decision \<Rightarrow> pystr \<Rightarrow> pystr \<Rightarrow> pystr \<Rightarrow> int \<Rightarrow> bool" where
  "cites d digest authorization hash epoch \<longleftrightarrow>
     digest = db_action_sha256 (d_body d) \<and> Some authorization = db_authorization_id (d_body d) \<and> hash = d_hash d \<and>
     epoch = db_kill_epoch (d_body d)"

definition justified_request :: "prims \<Rightarrow> event list \<Rightarrow> event \<Rightarrow> bool" where
  "justified_request P past e \<longleftrightarrow>
     (\<exists>(p :: request_payload) a. payload_of P request_payload_of_json e = Inr p \<and> action_of_json P (JObj (qp_action p)) = Inr a \<and>
        eb_request_id (ev_body e) = Some (a_request_id a) \<and> action_digest P a = Inr (qp_action_sha256 p)) \<and>
     \<not> list_ex (of_request REQUEST (event_request e)) past"

definition justified_decision :: "prims \<Rightarrow> manifest \<Rightarrow> event list \<Rightarrow> event \<Rightarrow> bool" where
  "justified_decision P m past e \<longleftrightarrow>
     (\<exists>(d :: decision) q. payload_of P (decision_of_json P) e = Inr d \<and> q \<in> set past \<and> of_request REQUEST (event_request e) q \<and>
        verify_decision P (mb_gateway_key (m_body m)) d = Inr () \<and>
        db_run_id (d_body d) = mb_run_id (m_body m) \<and> db_manifest_hash (d_body d) = m_hash m \<and>
        db_request_event_sequence (d_body d) = eb_sequence (ev_body q) \<and> db_request_event_hash (d_body d) = ev_hash q \<and>
        Some (db_request_id (d_body d)) = eb_request_id (ev_body q) \<and> db_action_sha256 (d_body d) = requested_digest P q) \<and>
     \<not> list_ex (of_request DECISION (event_request e)) past"

definition justified_dispatch :: "prims \<Rightarrow> event list \<Rightarrow> event \<Rightarrow> bool" where
  "justified_dispatch P past e \<longleftrightarrow>
     (\<exists>(p :: dispatch_payload) (d :: decision) k expiry. payload_of P dispatch_payload_of_json e = Inr p \<and>
        k \<in> set past \<and> of_request DECISION (event_request e) k \<and> payload_of P (decision_of_json P) k = Inr d \<and>
        db_verdict (d_body d) = ALLOW \<and>
        cites d (dp_action_sha256 p) (dp_authorization_id p) (dp_decision_hash p) (dp_kill_epoch p) \<and>
        db_authorization_expires_monotonic_ns (d_body d) = Some expiry \<and> eb_monotonic_ns (ev_body e) \<le> expiry \<and>
        (\<forall>(p' :: dispatch_payload) x. x \<in> set past \<and> eb_kind (ev_body x) = DISPATCH \<and> dispatch_in P x = Some p' \<longrightarrow>
           dp_authorization_id p' \<noteq> dp_authorization_id p)) \<and>
     \<not> list_ex (bars P) past \<and> \<not> list_ex (of_request DISPATCH (event_request e)) past"

definition justified_outcome :: "prims \<Rightarrow> event list \<Rightarrow> event \<Rightarrow> (decision \<Rightarrow> bool) \<Rightarrow> bool" where
  "justified_outcome P past e quotes \<longleftrightarrow>
     (\<exists>(d :: decision) k x. k \<in> set past \<and> of_request DECISION (event_request e) k \<and> payload_of P (decision_of_json P) k = Inr d \<and>
        x \<in> set past \<and> of_request DISPATCH (event_request e) x \<and> quotes d) \<and>
     \<not> list_ex (of_request RESULT (event_request e)) past"

definition justified_ack :: "prims \<Rightarrow> manifest \<Rightarrow> receipt \<Rightarrow> event list \<Rightarrow> event \<Rightarrow> bool" where
  "justified_ack P m r past e \<longleftrightarrow>
     (\<exists>(k :: kill_ack) q x. payload_of P (kill_ack_of_json P) e = Inr k \<and> verify_kill_ack P (mb_supervisor_key (m_body m)) k = Inr () \<and>
        x \<in> set past \<and> eb_sequence (ev_body x) = ka_trigger_event_sequence (k_body k) \<and>
        ev_hash x = ka_trigger_event_hash (k_body k) \<and> eb_sequence (ev_body x) < eb_sequence (ev_body e) \<and>
        rb_kill_acknowledgement (r_body r) = Some q \<and> k_hash k = k_hash q) \<and>
     \<not> list_ex (\<lambda>e. eb_kind (ev_body e) = KILL_ACKNOWLEDGED) past"

definition justified :: "prims \<Rightarrow> manifest \<Rightarrow> receipt \<Rightarrow> event list \<Rightarrow> event \<Rightarrow> bool" where
  "justified P m r past e =
     (case eb_kind (ev_body e) of
        REQUEST \<Rightarrow> justified_request P past e
      | DECISION \<Rightarrow> justified_decision P m past e
      | DISPATCH \<Rightarrow> justified_dispatch P past e
      | RESULT \<Rightarrow>
          (case payload_of P result_payload_of_json e of
             Inl _ \<Rightarrow> False
           | Inr p \<Rightarrow> justified_outcome P past e
               (\<lambda>d. cites d (rp_action_sha256 p) (rp_authorization_id p) (rp_decision_hash p) (rp_kill_epoch p)))
      | CANCELLATION \<Rightarrow>
          (case payload_of P cancellation_payload_of_json e of
             Inl _ \<Rightarrow> False
           | Inr p \<Rightarrow> justified_outcome P past e
               (\<lambda>d. cites d (cp_action_sha256 p) (cp_authorization_id p) (cp_decision_hash p) (cp_kill_epoch p)))
      | VIOLATION \<Rightarrow> True
      | OVERLOAD_SUMMARY \<Rightarrow> True
      | KILL_ACKNOWLEDGED \<Rightarrow> justified_ack P m r past e
      | KILL_REQUESTED \<Rightarrow> False)"

end
