(* ===== verification/BCP_Audit_Sound.thy ===== *)
theory BCP_Audit_Sound
  imports BCP_Auditor
begin

text \<open>
  The offline auditor is sound: in the evidence it accepts every event is justified by the events before it. The state of
  the inspection represents the events inspected so far, and every handler keeps that.
\<close>

section \<open>The state represents the history\<close>

definition number_of :: "event_kind \<Rightarrow> event list \<Rightarrow> int" where
  "number_of kind es = int (length (filter (\<lambda>e. eb_kind (ev_body e) = kind) es))"

definition allows :: "prims \<Rightarrow> event \<Rightarrow> bool" where
  "allows P e \<longleftrightarrow> eb_kind (ev_body e) = DECISION \<and> (case decision_in P e of None \<Rightarrow> False | Some d \<Rightarrow> db_verdict (d_body d) = ALLOW)"

definition history_stats :: "prims \<Rightarrow> event list \<Rightarrow> audit_stats" where
  "history_stats P es =
     \<lparr> as_events = int (length es), as_decisions = number_of DECISION es, as_allowed = int (length (filter (allows P) es)),
       as_denied = number_of DECISION es - int (length (filter (allows P) es)), as_dispatches = number_of DISPATCH es,
       as_results = number_of RESULT es, as_kill_acks = number_of KILL_ACKNOWLEDGED es \<rparr>"

definition follows_request :: "event_kind \<Rightarrow> bool" where
  "follows_request kind \<longleftrightarrow> kind \<in> {DECISION, DISPATCH, RESULT, CANCELLATION}"

definition well_read :: "prims \<Rightarrow> event list \<Rightarrow> bool" where
  "well_read P past \<longleftrightarrow>
     (\<forall>x \<in> set past. follows_request (eb_kind (ev_body x)) \<longrightarrow> find (of_request REQUEST (event_request x)) past \<noteq> None) \<and>
     (\<forall>x \<in> set past. eb_kind (ev_body x) = DECISION \<longrightarrow> decision_in P x \<noteq> None) \<and>
     (\<forall>rid t d. history_trace P past rid = Some t \<and> qt_decision t = Some d \<longrightarrow> db_action_sha256 (d_body d) = qt_action_sha256 t)"

definition represents :: "prims \<Rightarrow> event list \<Rightarrow> audit \<Rightarrow> bool" where
  "represents P past s \<longleftrightarrow>
     map_of (au_traces s) = history_trace P past \<and>
     (\<forall>n rid. au_sequences s n = Some rid \<longrightarrow> (\<exists>q. find (of_request REQUEST rid) past = Some q \<and> eb_sequence (ev_body q) = n)) \<and>
     au_authorizations s = {dp_authorization_id p | p x. x \<in> set past \<and> eb_kind (ev_body x) = DISPATCH \<and> dispatch_in P x = Some p} \<and>
     (\<forall>n h. au_hashes s n = Some h \<longrightarrow> (\<exists>x \<in> set past. eb_sequence (ev_body x) = n \<and> ev_hash x = h)) \<and>
     (au_barrier s = None \<longleftrightarrow> \<not> list_ex (bars P) past) \<and>
     (au_ack s = None \<longleftrightarrow> \<not> list_ex (\<lambda>e. eb_kind (ev_body e) = KILL_ACKNOWLEDGED) past) \<and>
     au_stats s = history_stats P past"

lemma case_option_id [simp]: "(case x of None \<Rightarrow> None | Some y \<Rightarrow> Some y) = x"
  by (cases x) simp_all

lemma find_snoc: "find p (xs @ [x]) = (case find p xs of None \<Rightarrow> if p x then Some x else None | Some y \<Rightarrow> Some y)"
  by (induction xs) simp_all

lemma find_snoc_not: "\<not> p x \<Longrightarrow> find p (xs @ [x]) = find p xs"
  by (simp add: find_snoc option.case_eq_if)

lemma find_None_ex: "find p xs = None \<longleftrightarrow> \<not> list_ex p xs"
  by (induction xs) simp_all

lemma find_Some: "find p xs = Some x \<Longrightarrow> x \<in> set xs \<and> p x"
  by (induction xs) (auto split: if_splits)

lemma map_of_update_trace:
  "map_of (au_traces (update_trace rid f s)) = (map_of (au_traces s))(rid := map_option f (map_of (au_traces s) rid))"
proof
  fix k
  have "map_of (map (\<lambda>(k, t). (k, if k = rid then f t else t)) xs) k = (if k = rid then map_option f (map_of xs rid) else map_of xs k)" for xs
    by (induction xs) auto
  then show "map_of (au_traces (update_trace rid f s)) k = ((map_of (au_traces s))(rid := map_option f (map_of (au_traces s) rid))) k"
    by (simp add: update_trace_def)
qed

lemma update_trace_rest [simp]:
  "au_sequences (update_trace rid f s) = au_sequences s" "au_authorizations (update_trace rid f s) = au_authorizations s"
  "au_hashes (update_trace rid f s) = au_hashes s" "au_barrier (update_trace rid f s) = au_barrier s"
  "au_ack (update_trace rid f s) = au_ack s" "au_stats (update_trace rid f s) = au_stats s"
  by (simp_all add: update_trace_def)

lemma count_stat_rest [simp]:
  "au_traces (count_stat g s) = au_traces s" "au_sequences (count_stat g s) = au_sequences s"
  "au_authorizations (count_stat g s) = au_authorizations s" "au_hashes (count_stat g s) = au_hashes s"
  "au_barrier (count_stat g s) = au_barrier s" "au_ack (count_stat g s) = au_ack s" "au_stats (count_stat g s) = g (au_stats s)"
  by (simp_all add: count_stat_def)

lemma number_of_simps [simp]:
  "number_of kind [] = 0" "number_of kind (es @ [e]) = number_of kind es + (if eb_kind (ev_body e) = kind then 1 else 0)"
  by (simp_all add: number_of_def)

lemma history_trace_empty: "history_trace P [] rid = None"
  by (simp add: history_trace_def)

lemma represents_init: "represents P [] init_audit"
  by (auto simp: represents_def init_audit_def init_stats_def history_stats_def history_trace_empty)

lemma well_read_empty: "well_read P []"
  by (simp add: well_read_def history_trace_def)

section \<open>One more event\<close>

lemma history_trace_other:
  assumes "event_request e \<noteq> rid \<or> eb_kind (ev_body e) \<noteq> REQUEST \<and> \<not> follows_request (eb_kind (ev_body e))"
  shows "history_trace P (past @ [e]) rid = history_trace P past rid"
proof -
  have "\<not> of_request kind rid e" if "kind = REQUEST \<or> follows_request kind" for kind
    using assms that by (auto simp: of_request_def)
  then show ?thesis by (simp add: history_trace_def find_snoc follows_request_def option.case_eq_if)
qed

lemma history_trace_quiet:
  "eb_kind (ev_body e) \<noteq> REQUEST \<Longrightarrow> \<not> follows_request (eb_kind (ev_body e)) \<Longrightarrow>
     history_trace P (past @ [e]) = history_trace P past"
  by (simp add: fun_eq_iff history_trace_other)

lemma history_trace_extend:
  assumes "history_trace P (past @ [e]) (event_request e) = Some t"
  shows "history_trace P (past @ [e]) = (history_trace P past)(event_request e \<mapsto> t)"
proof
  fix rid
  show "history_trace P (past @ [e]) rid = ((history_trace P past)(event_request e \<mapsto> t)) rid"
    using assms history_trace_other [of e rid P past] by (cases "rid = event_request e") auto
qed

lemma no_decision_yet:
  assumes "history_trace P past rid = Some t" "qt_decision t = None" "well_read P past"
  shows "find (of_request DECISION rid) past = None"
proof (rule ccontr)
  assume "find (of_request DECISION rid) past \<noteq> None"
  then obtain k where k: "find (of_request DECISION rid) past = Some k" by auto
  with find_Some [OF k] assms(3) have "decision_in P k \<noteq> None" by (auto simp: well_read_def of_request_def)
  with k assms(1,2) show False by (auto simp: history_trace_def)
qed

lemma history_trace_decision:
  assumes "history_trace P past (event_request e) = Some t" "qt_decision t = None" "eb_kind (ev_body e) = DECISION" "well_read P past"
  shows "history_trace P (past @ [e]) = (history_trace P past)(event_request e \<mapsto> t\<lparr> qt_decision := decision_in P e \<rparr>)"
proof (rule history_trace_extend)
  have none: "find (of_request DECISION (event_request e)) past = None" by (rule no_decision_yet [OF assms(1,2,4)])
  then show "history_trace P (past @ [e]) (event_request e) = Some (t\<lparr> qt_decision := decision_in P e \<rparr>)"
    using assms(1,3) by (auto simp: history_trace_def find_snoc of_request_def)
qed

lemma history_trace_later:
  assumes "history_trace P past (event_request e) = Some t"
  shows "eb_kind (ev_body e) = DISPATCH \<Longrightarrow>
      history_trace P (past @ [e]) = (history_trace P past)(event_request e \<mapsto> t\<lparr> qt_dispatched := True \<rparr>)"
    and "eb_kind (ev_body e) = RESULT \<Longrightarrow>
      history_trace P (past @ [e]) = (history_trace P past)(event_request e \<mapsto> t\<lparr> qt_completed := True \<rparr>)"
    and "eb_kind (ev_body e) = CANCELLATION \<Longrightarrow> \<not> qt_cancellation_confirmed t \<Longrightarrow>
      history_trace P (past @ [e]) = (history_trace P past)(event_request e \<mapsto> t\<lparr> qt_cancellation_confirmed := confirms P e \<rparr>)"
proof -
  assume "eb_kind (ev_body e) = DISPATCH"
  with assms show "history_trace P (past @ [e]) = (history_trace P past)(event_request e \<mapsto> t\<lparr> qt_dispatched := True \<rparr>)"
    by (intro history_trace_extend) (auto simp: history_trace_def find_snoc_not find_snoc of_request_def)
next
  assume "eb_kind (ev_body e) = RESULT"
  with assms show "history_trace P (past @ [e]) = (history_trace P past)(event_request e \<mapsto> t\<lparr> qt_completed := True \<rparr>)"
    by (intro history_trace_extend) (auto simp: history_trace_def find_snoc_not find_snoc of_request_def)
next
  assume "eb_kind (ev_body e) = CANCELLATION" "\<not> qt_cancellation_confirmed t"
  with assms show "history_trace P (past @ [e]) = (history_trace P past)(event_request e \<mapsto> t\<lparr> qt_cancellation_confirmed := confirms P e \<rparr>)"
    by (intro history_trace_extend) (auto simp: history_trace_def find_snoc_not find_snoc of_request_def)
qed

lemma history_trace_request:
  assumes "history_trace P past (event_request e) = None" "eb_kind (ev_body e) = REQUEST" "well_read P past"
  shows "history_trace P (past @ [e]) = (history_trace P past)(event_request e \<mapsto>
    \<lparr> qt_event = e, qt_action_sha256 = requested_digest P e, qt_decision = None, qt_dispatched = False, qt_completed = False,
      qt_cancellation_confirmed = False \<rparr>)"
proof (rule history_trace_extend)
  have new: "find (of_request REQUEST (event_request e)) past = None" using assms(1) by (simp add: history_trace_def)
  then have "\<not> list_ex (of_request kind (event_request e)) past" if "follows_request kind" for kind
    using assms(3) that by (auto simp: well_read_def list_ex_iff of_request_def)
  then have "find (of_request DECISION (event_request e)) past = None" "\<not> list_ex (of_request DISPATCH (event_request e)) past"
    "\<not> list_ex (of_request RESULT (event_request e)) past" "\<not> list_ex (of_request CANCELLATION (event_request e)) past"
    by (simp_all add: find_None_ex follows_request_def)
  then show "history_trace P (past @ [e]) (event_request e) =
    Some \<lparr> qt_event = e, qt_action_sha256 = requested_digest P e, qt_decision = None, qt_dispatched = False, qt_completed = False,
      qt_cancellation_confirmed = False \<rparr>"
    using new assms(2) by (auto simp: history_trace_def find_snoc of_request_def list_ex_iff)
qed

lemma represents_sequence:
  "represents P past s \<Longrightarrow> au_sequences s n = Some rid \<Longrightarrow>
     \<exists>q. find (of_request REQUEST rid) past = Some q \<and> eb_sequence (ev_body q) = n"
  by (simp add: represents_def)

lemma represents_authorization:
  "represents P past s \<Longrightarrow> x \<in> set past \<Longrightarrow> eb_kind (ev_body x) = DISPATCH \<Longrightarrow> dispatch_in P x = Some p \<Longrightarrow>
     dp_authorization_id p \<in> au_authorizations s"
  by (auto simp: represents_def)

lemma represents_hash:
  "represents P past s \<Longrightarrow> au_hashes s n = Some h \<Longrightarrow> \<exists>x \<in> set past. eb_sequence (ev_body x) = n \<and> ev_hash x = h"
  by (simp add: represents_def)

lemma represents_snoc:
  assumes "represents P past s"
    and "map_of (au_traces s') = history_trace P (past @ [e])"
    and "\<And>n rid. au_sequences s' n = Some rid \<Longrightarrow> au_sequences s n = Some rid \<or>
      n = eb_sequence (ev_body e) \<and> of_request REQUEST rid e \<and> find (of_request REQUEST rid) past = None"
    and "au_authorizations s' = au_authorizations s \<union>
      (if eb_kind (ev_body e) = DISPATCH then set_option (map_option dp_authorization_id (dispatch_in P e)) else {})"
    and "au_hashes s' = (au_hashes s)(eb_sequence (ev_body e) \<mapsto> ev_hash e)"
    and "au_barrier s' = None \<longleftrightarrow> au_barrier s = None \<and> \<not> bars P e"
    and "au_ack s' = None \<longleftrightarrow> au_ack s = None \<and> eb_kind (ev_body e) \<noteq> KILL_ACKNOWLEDGED"
    and "au_stats s' = history_stats P (past @ [e])"
  shows "represents P (past @ [e]) s'"
proof -
  have "\<exists>q. find (of_request REQUEST rid) (past @ [e]) = Some q \<and> eb_sequence (ev_body q) = n"
    if "au_sequences s' n = Some rid" for n rid
    using assms(3) [OF that] represents_sequence [OF assms(1), of n rid] by (auto simp: find_snoc)
  moreover have "\<exists>x \<in> set (past @ [e]). eb_sequence (ev_body x) = n \<and> ev_hash x = h" if "au_hashes s' n = Some h" for n h
    using that assms(1,5) by (auto simp: represents_def split: if_splits)
  moreover have "au_authorizations s' =
      {dp_authorization_id p | p x. x \<in> set (past @ [e]) \<and> eb_kind (ev_body x) = DISPATCH \<and> dispatch_in P x = Some p}"
    using assms(1,4) by (auto simp: represents_def elem_set)
  ultimately show ?thesis using assms by (simp add: represents_def)
qed

lemma represents_traces: "represents P past s \<Longrightarrow> map_of (au_traces s) rid = history_trace P past rid"
  by (simp add: represents_def)

text \<open>The start of every handler: the hash of the event is noted.\<close>

abbreviation noted :: "event \<Rightarrow> audit \<Rightarrow> audit" where
  "noted e s \<equiv> s\<lparr> au_hashes := (au_hashes s)(eb_sequence (ev_body e) \<mapsto> ev_hash e) \<rparr>"

abbreviation counted :: "audit \<Rightarrow> audit" where
  "counted s \<equiv> count_stat (\<lambda>n. n\<lparr> as_events := as_events n + 1 \<rparr>) s"

lemma history_stats_snoc:
  "history_stats P (past @ [e]) = (let n = history_stats P past; k = eb_kind (ev_body e) in
     \<lparr> as_events = as_events n + 1, as_decisions = as_decisions n + (if k = DECISION then 1 else 0),
       as_allowed = as_allowed n + (if allows P e then 1 else 0),
       as_denied = as_denied n + (if k = DECISION \<and> \<not> allows P e then 1 else 0),
       as_dispatches = as_dispatches n + (if k = DISPATCH then 1 else 0),
       as_results = as_results n + (if k = RESULT then 1 else 0),
       as_kill_acks = as_kill_acks n + (if k = KILL_ACKNOWLEDGED then 1 else 0) \<rparr>)"
  by (auto simp: history_stats_def Let_def allows_def)

lemma request_keeps:
  assumes "represents P past s" "well_read P past" "eb_kind (ev_body e) = REQUEST" "inspect_request P e (noted e s) = Inr s'"
  shows "justified_request P past e" "represents P (past @ [e]) (counted s')"
proof -
  obtain p a where p: "payload_of P request_payload_of_json e = Inr p" "action_of_json P (JObj (qp_action p)) = Inr a"
    "eb_request_id (ev_body e) = Some (a_request_id a)" "action_digest P a = Inr (qp_action_sha256 p)"
    and new: "map_of (au_traces s) (a_request_id a) = None"
    and s': "s' = (noted e s)\<lparr> au_traces := au_traces s @ [(a_request_id a,
        \<lparr> qt_event = e, qt_action_sha256 = qp_action_sha256 p, qt_decision = None, qt_dispatched = False,
          qt_completed = False, qt_cancellation_confirmed = False \<rparr>)],
        au_sequences := (au_sequences s)(eb_sequence (ev_body e) \<mapsto> a_request_id a) \<rparr>"
    using assms(4) by (auto simp: inspect_request_def split: if_splits)
  have rid: "event_request e = a_request_id a" by (simp add: event_request_def p(3))
  with new assms(1) have none: "history_trace P past (event_request e) = None" by (simp add: represents_traces)
  then have fresh: "find (of_request REQUEST (event_request e)) past = None" by (simp add: history_trace_def)
  show "justified_request P past e"
    unfolding justified_request_def using p fresh by (auto simp: find_None_ex)
  have digest: "requested_digest P e = qp_action_sha256 p" by (simp add: requested_digest_def p(1))
  show "represents P (past @ [e]) (counted s')"
  proof (rule represents_snoc [OF assms(1)])
    show "map_of (au_traces (counted s')) = history_trace P (past @ [e])"
      unfolding history_trace_request [OF none assms(3,2)] using assms(1) none
      by (auto simp: s' rid digest map_add_def fun_eq_iff represents_traces split: option.splits)
  qed (use assms(1,3) fresh in \<open>auto simp: s' rid of_request_def bars_def history_stats_snoc represents_def Let_def allows_def
      split: if_splits\<close>)
qed

text \<open>What the trace of a request says about the history.\<close>

lemma history_trace_event:
  assumes "history_trace P past rid = Some t"
  shows "qt_event t \<in> set past" "of_request REQUEST rid (qt_event t)" "qt_action_sha256 t = requested_digest P (qt_event t)"
    "find (of_request REQUEST rid) past = Some (qt_event t)"
  using assms find_Some [of "of_request REQUEST rid" past] by (auto simp: history_trace_def)

lemma history_trace_decided:
  assumes "history_trace P past rid = Some t" "qt_decision t = Some d"
  obtains k where "k \<in> set past" "of_request DECISION rid k" "payload_of P (decision_of_json P) k = Inr d"
proof -
  obtain k where "find (of_request DECISION rid) past = Some k" "decision_in P k = Some d"
    using assms by (auto simp: history_trace_def Option.bind_eq_Some_conv)
  then show ?thesis using that [of k] find_Some [of "of_request DECISION rid" past k]
    by (auto simp: decision_in_def split: sum.splits)
qed

lemma decision_keeps:
  assumes "represents P past s" "well_read P past" "eb_kind (ev_body e) = DECISION" "inspect_decision P m e (noted e s) = Inr s'"
  shows "justified_decision P m past e" "represents P (past @ [e]) (counted s')"
    "\<And>t d. history_trace P (past @ [e]) (event_request e) = Some t \<Longrightarrow> qt_decision t = Some d \<Longrightarrow>
      db_action_sha256 (d_body d) = qt_action_sha256 t"
proof -
  obtain d rid t where d: "payload_of P (decision_of_json P) e = Inr d" "verify_decision P (mb_gateway_key (m_body m)) d = Inr ()"
    "db_run_id (d_body d) = mb_run_id (m_body m)" "db_manifest_hash (d_body d) = m_hash m"
    and t: "au_sequences s (db_request_event_sequence (d_body d)) = Some rid" "map_of (au_traces s) rid = Some t"
    and bound: "db_request_event_hash (d_body d) = ev_hash (qt_event t)"
      "Some (db_request_id (d_body d)) = eb_request_id (ev_body (qt_event t))"
      "eb_request_id (ev_body e) = eb_request_id (ev_body (qt_event t))" "db_action_sha256 (d_body d) = qt_action_sha256 t"
    and undecided: "qt_decision t = None"
    and s': "s' = (let s1 = update_trace rid (\<lambda>t. t\<lparr> qt_decision := Some d \<rparr>) (noted e s);
                         s2 = count_stat (\<lambda>n. n\<lparr> as_decisions := as_decisions n + 1 \<rparr>) s1;
                         s3 = (if db_verdict (d_body d) = ALLOW then count_stat (\<lambda>n. n\<lparr> as_allowed := as_allowed n + 1 \<rparr>) s2
                               else count_stat (\<lambda>n. n\<lparr> as_denied := as_denied n + 1 \<rparr>) s2)
                     in if db_hard_violation (d_body d) then s3\<lparr> au_barrier := Some (eb_sequence (ev_body e)) \<rparr> else s3)"
    using assms(4) by (auto simp: inspect_decision_def Option.bind_eq_Some_conv Let_def split: if_splits option.splits)
  have ht: "history_trace P past rid = Some t" using t(2) assms(1) by (simp add: represents_traces)
  note q = history_trace_event [OF ht]
  have rid: "event_request e = rid" using q(2) bound(3) by (simp add: of_request_def event_request_def)
  have sq: "eb_sequence (ev_body (qt_event t)) = db_request_event_sequence (d_body d)"
    using represents_sequence [OF assms(1) t(1)] q(4) by auto
  have din: "decision_in P e = Some d" by (simp add: decision_in_def d(1))
  note snoc = history_trace_decision [OF ht [folded rid] undecided assms(3,2), unfolded din]
  have "\<not> list_ex (of_request DECISION (event_request e)) past"
    using no_decision_yet [OF ht undecided assms(2)] by (simp add: rid find_None_ex)
  then show "justified_decision P m past e" unfolding justified_decision_def using d q bound sq [symmetric] rid by auto
  show "db_action_sha256 (d_body d') = qt_action_sha256 t'"
    if "history_trace P (past @ [e]) (event_request e) = Some t'" "qt_decision t' = Some d'" for t' d'
    using that bound(4) by (auto simp: snoc)
  show "represents P (past @ [e]) (counted s')"
  proof (rule represents_snoc [OF assms(1)])
    show "map_of (au_traces (counted s')) = history_trace P (past @ [e])"
      unfolding snoc using t(2) by (auto simp: s' rid Let_def map_of_update_trace represents_traces [OF assms(1)] fun_eq_iff)
  qed (use assms(1,3) din in \<open>auto simp: s' of_request_def bars_def history_stats_snoc represents_def Let_def allows_def
      split: if_splits\<close>)
qed

lemma dispatch_keeps:
  assumes "represents P past s" "well_read P past" "eb_kind (ev_body e) = DISPATCH" "inspect_dispatch P e (noted e s) = Inr s'"
  shows "justified_dispatch P past e" "represents P (past @ [e]) (counted s')"
    "history_trace P past (event_request e) \<noteq> None"
    "\<And>t d. history_trace P (past @ [e]) (event_request e) = Some t \<Longrightarrow> qt_decision t = Some d \<Longrightarrow>
      db_action_sha256 (d_body d) = qt_action_sha256 t"
proof -
  obtain p t d expiry where p: "payload_of P dispatch_payload_of_json e = Inr p" and unbarred: "au_barrier s = None"
    and t: "map_of (au_traces s) (event_request e) = Some t" "qt_decision t = Some d" "\<not> qt_dispatched t"
    and d: "db_verdict (d_body d) = ALLOW" "dp_action_sha256 p = qt_action_sha256 t" "dp_decision_hash p = d_hash d"
      "Some (dp_authorization_id p) = db_authorization_id (d_body d)" "dp_kill_epoch p = db_kill_epoch (d_body d)"
      "dp_authorization_id p \<notin> au_authorizations s"
      "db_authorization_expires_monotonic_ns (d_body d) = Some expiry" "eb_monotonic_ns (ev_body e) \<le> expiry"
    and s': "s' = count_stat (\<lambda>n. n\<lparr> as_dispatches := as_dispatches n + 1 \<rparr>)
                           (update_trace (event_request e) (\<lambda>t. t\<lparr> qt_dispatched := True \<rparr>)
                             ((noted e s)\<lparr> au_authorizations := insert (dp_authorization_id p) (au_authorizations s) \<rparr>))"
    using assms(4) by (auto simp: inspect_dispatch_def trace_of_def Option.bind_eq_Some_conv not_less split: if_splits option.splits)
  have ht: "history_trace P past (event_request e) = Some t" using t(1) assms(1) by (simp add: represents_traces)
  then show "history_trace P past (event_request e) \<noteq> None" by simp
  have sha: "db_action_sha256 (d_body d) = qt_action_sha256 t" using assms(2) ht t(2) unfolding well_read_def by blast
  obtain k where k: "k \<in> set past" "of_request DECISION (event_request e) k" "payload_of P (decision_of_json P) k = Inr d"
    using history_trace_decided [OF ht t(2)] .
  have din: "dispatch_in P e = Some p" by (simp add: dispatch_in_def p)
  have fresh: "dp_authorization_id p' \<noteq> dp_authorization_id p"
    if "x \<in> set past" "eb_kind (ev_body x) = DISPATCH" "dispatch_in P x = Some p'" for x p'
    using d(6) represents_authorization [OF assms(1) that] by auto
  have "\<not> list_ex (bars P) past" "\<not> list_ex (of_request DISPATCH (event_request e)) past"
    using unbarred assms(1) t(3) ht by (auto simp: represents_def history_trace_def)
  moreover have "cites d (dp_action_sha256 p) (dp_authorization_id p) (dp_decision_hash p) (dp_kill_epoch p)"
    using d sha by (simp add: cites_def)
  ultimately show "justified_dispatch P past e" unfolding justified_dispatch_def using p k d fresh by blast
  note snoc = history_trace_later(1) [OF ht assms(3)]
  show "db_action_sha256 (d_body d') = qt_action_sha256 t'"
    if "history_trace P (past @ [e]) (event_request e) = Some t'" "qt_decision t' = Some d'" for t' d'
    using that t(2) sha by (auto simp: snoc)
  show "represents P (past @ [e]) (counted s')"
  proof (rule represents_snoc [OF assms(1)])
    show "map_of (au_traces (counted s')) = history_trace P (past @ [e])"
      unfolding snoc using t(1) by (auto simp: s' map_of_update_trace represents_traces [OF assms(1)] fun_eq_iff)
  qed (use assms(1,3) din in \<open>auto simp: s' of_request_def bars_def history_stats_snoc represents_def Let_def allows_def\<close>)
qed

text \<open>RESULT and CANCELLATION.\<close>

lemma dispatched_trace_history:
  assumes "dispatched_trace e s = Some (t, d)" "represents P past s" "well_read P past"
  shows "history_trace P past (event_request e) = Some t" "qt_decision t = Some d" "qt_dispatched t"
    "db_action_sha256 (d_body d) = qt_action_sha256 t"
proof -
  show ht: "history_trace P past (event_request e) = Some t" and d: "qt_decision t = Some d" and "qt_dispatched t"
    using assms(1,2) by (auto simp: dispatched_trace_def trace_of_def represents_def Option.bind_eq_Some_conv split: if_splits)
  then show "db_action_sha256 (d_body d) = qt_action_sha256 t" using assms(3) unfolding well_read_def by blast
qed

lemma outcome_justified:
  assumes "dispatched_trace e s = Some (t, d)" "represents P past s" "well_read P past" "\<not> qt_completed t" "quotes d"
  shows "justified_outcome P past e quotes"
proof -
  note h = dispatched_trace_history [OF assms(1-3)]
  obtain k where k: "k \<in> set past" "of_request DECISION (event_request e) k" "payload_of P (decision_of_json P) k = Inr d"
    using history_trace_decided [OF h(1,2)] .
  have "list_ex (of_request DISPATCH (event_request e)) past" "\<not> list_ex (of_request RESULT (event_request e)) past"
    using h(1,3) assms(4) by (auto simp: history_trace_def)
  then show ?thesis unfolding justified_outcome_def using k assms(5) by (auto simp: list_ex_iff)
qed

lemma result_keeps:
  assumes "represents P past s" "well_read P past" "eb_kind (ev_body e) = RESULT" "inspect_result P e (noted e s) = Inr s'"
  shows "\<exists>p. payload_of P result_payload_of_json e = Inr p \<and> justified_outcome P past e
      (\<lambda>d. cites d (rp_action_sha256 p) (rp_authorization_id p) (rp_decision_hash p) (rp_kill_epoch p))"
    "represents P (past @ [e]) (counted s')" "history_trace P past (event_request e) \<noteq> None"
    "\<And>t d. history_trace P (past @ [e]) (event_request e) = Some t \<Longrightarrow> qt_decision t = Some d \<Longrightarrow>
      db_action_sha256 (d_body d) = qt_action_sha256 t"
proof -
  obtain p t d where p: "payload_of P result_payload_of_json e = Inr p"
    and dt: "dispatched_trace e s = Some (t, d)" and c: "\<not> qt_completed t"
    and g: "rp_action_sha256 p = qt_action_sha256 t" "rp_decision_hash p = d_hash d"
      "Some (rp_authorization_id p) = db_authorization_id (d_body d)" "rp_kill_epoch p = db_kill_epoch (d_body d)"
    and s': "s' = count_stat (\<lambda>n. n\<lparr> as_results := as_results n + 1 \<rparr>)
             (update_trace (event_request e) (\<lambda>t. t\<lparr> qt_completed := True \<rparr>) (noted e s))"
    using assms(4) by (auto simp: inspect_result_def dispatched_trace_def trace_of_def split: if_splits option.splits)
  note h = dispatched_trace_history [OF dt assms(1,2)]
  show "history_trace P past (event_request e) \<noteq> None" using h(1) by simp
  have "justified_outcome P past e
      (\<lambda>d. cites d (rp_action_sha256 p) (rp_authorization_id p) (rp_decision_hash p) (rp_kill_epoch p))"
    by (rule outcome_justified [OF dt assms(1,2) c]) (simp add: cites_def g h(4))
  with p show "\<exists>p. payload_of P result_payload_of_json e = Inr p \<and> justified_outcome P past e
      (\<lambda>d. cites d (rp_action_sha256 p) (rp_authorization_id p) (rp_decision_hash p) (rp_kill_epoch p))" by blast
  note snoc = history_trace_later(2) [OF h(1) assms(3)]
  show "db_action_sha256 (d_body d') = qt_action_sha256 t'"
    if "history_trace P (past @ [e]) (event_request e) = Some t'" "qt_decision t' = Some d'" for t' d'
    using that h by (auto simp: snoc)
  show "represents P (past @ [e]) (counted s')"
  proof (rule represents_snoc [OF assms(1)])
    show "map_of (au_traces (counted s')) = history_trace P (past @ [e])"
      unfolding snoc using h(1) by (auto simp: s' map_of_update_trace represents_traces [OF assms(1)] fun_eq_iff)
  qed (use assms(1,3) in \<open>auto simp: s' of_request_def bars_def history_stats_snoc represents_def Let_def allows_def\<close>)
qed

lemma cancellation_keeps:
  assumes "represents P past s" "well_read P past" "eb_kind (ev_body e) = CANCELLATION"
    "inspect_cancellation P e (noted e s) = Inr s'"
  shows "\<exists>p. payload_of P cancellation_payload_of_json e = Inr p \<and> justified_outcome P past e
      (\<lambda>d. cites d (cp_action_sha256 p) (cp_authorization_id p) (cp_decision_hash p) (cp_kill_epoch p))"
    "represents P (past @ [e]) (counted s')" "history_trace P past (event_request e) \<noteq> None"
    "\<And>t d. history_trace P (past @ [e]) (event_request e) = Some t \<Longrightarrow> qt_decision t = Some d \<Longrightarrow>
      db_action_sha256 (d_body d) = qt_action_sha256 t"
proof -
  obtain p t d where p: "payload_of P cancellation_payload_of_json e = Inr p"
    and dt: "dispatched_trace e s = Some (t, d)" and c: "\<not> qt_completed t" "\<not> qt_cancellation_confirmed t"
    and g: "cp_action_sha256 p = qt_action_sha256 t" "cp_decision_hash p = d_hash d"
      "Some (cp_authorization_id p) = db_authorization_id (d_body d)" "cp_kill_epoch p = db_kill_epoch (d_body d)"
    and s': "s' = update_trace (event_request e) (\<lambda>t. t\<lparr> qt_cancellation_confirmed := (cp_status p = CONFIRMED) \<rparr>) (noted e s)"
    using assms(4) by (auto simp: inspect_cancellation_def dispatched_trace_def trace_of_def split: if_splits option.splits)
  note h = dispatched_trace_history [OF dt assms(1,2)]
  show "history_trace P past (event_request e) \<noteq> None" using h(1) by simp
  have "justified_outcome P past e
      (\<lambda>d. cites d (cp_action_sha256 p) (cp_authorization_id p) (cp_decision_hash p) (cp_kill_epoch p))"
    by (rule outcome_justified [OF dt assms(1,2) c(1)]) (simp add: cites_def g h(4))
  with p show "\<exists>p. payload_of P cancellation_payload_of_json e = Inr p \<and> justified_outcome P past e
      (\<lambda>d. cites d (cp_action_sha256 p) (cp_authorization_id p) (cp_decision_hash p) (cp_kill_epoch p))" by blast
  have cf: "confirms P e = (cp_status p = CONFIRMED)" by (simp add: confirms_def p)
  note snoc = history_trace_later(3) [OF h(1) assms(3) c(2), unfolded cf]
  show "db_action_sha256 (d_body d') = qt_action_sha256 t'"
    if "history_trace P (past @ [e]) (event_request e) = Some t'" "qt_decision t' = Some d'" for t' d'
    using that h by (auto simp: snoc)
  show "represents P (past @ [e]) (counted s')"
  proof (rule represents_snoc [OF assms(1)])
    show "map_of (au_traces (counted s')) = history_trace P (past @ [e])"
      unfolding snoc using h(1) by (auto simp: s' map_of_update_trace represents_traces [OF assms(1)] fun_eq_iff)
  qed (use assms(1,3) in \<open>auto simp: s' of_request_def bars_def history_stats_snoc represents_def Let_def allows_def\<close>)
qed

lemma barrier_keeps:
  assumes "represents P past s" "eb_kind (ev_body e) \<in> {VIOLATION, OVERLOAD_SUMMARY}"
    "s' = (noted e s)\<lparr> au_barrier := Some (eb_sequence (ev_body e)) \<rparr>"
  shows "represents P (past @ [e]) (counted s')"
proof (rule represents_snoc [OF assms(1)])
  have "history_trace P (past @ [e]) = history_trace P past"
    using assms(2) by (intro history_trace_quiet) (auto simp: follows_request_def)
  with assms(1,3) show "map_of (au_traces (counted s')) = history_trace P (past @ [e])" by (simp add: represents_def)
qed (use assms in \<open>auto simp: bars_def history_stats_snoc represents_def Let_def allows_def\<close>)

lemma ack_keeps:
  assumes "represents P past s" "eb_kind (ev_body e) = KILL_ACKNOWLEDGED" "inspect_ack P m r e (noted e s) = Inr s'"
  shows "justified_ack P m r past e" "represents P (past @ [e]) (counted s')"
proof -
  obtain k q where new: "au_ack s = None" and k: "payload_of P (kill_ack_of_json P) e = Inr k"
      "verify_kill_ack P (mb_supervisor_key (m_body m)) k = Inr ()"
      "ka_trigger_event_sequence (k_body k) < eb_sequence (ev_body e)"
      "rb_kill_acknowledgement (r_body r) = Some q" "k_hash k = k_hash q"
    and trigger: "au_hashes (noted e s) (ka_trigger_event_sequence (k_body k)) = Some (ka_trigger_event_hash (k_body k))"
    and s': "s' = count_stat (\<lambda>n. n\<lparr> as_kill_acks := as_kill_acks n + 1 \<rparr>) ((noted e s)\<lparr> au_ack := Some k \<rparr>)"
    using assms(3) by (auto simp: inspect_ack_def not_le split: if_splits option.splits)
  from trigger k(3) have h: "au_hashes s (ka_trigger_event_sequence (k_body k)) = Some (ka_trigger_event_hash (k_body k))"
    by simp
  obtain x where x: "x \<in> set past" "eb_sequence (ev_body x) = ka_trigger_event_sequence (k_body k)"
    "ev_hash x = ka_trigger_event_hash (k_body k)" using represents_hash [OF assms(1) h] by auto
  moreover have "\<not> list_ex (\<lambda>e. eb_kind (ev_body e) = KILL_ACKNOWLEDGED) past" using new assms(1) by (simp add: represents_def)
  ultimately show "justified_ack P m r past e" unfolding justified_ack_def using k by auto
  show "represents P (past @ [e]) (counted s')"
  proof (rule represents_snoc [OF assms(1)])
    have "history_trace P (past @ [e]) = history_trace P past"
      using assms(2) by (intro history_trace_quiet) (auto simp: follows_request_def)
    with assms(1) show "map_of (au_traces (counted s')) = history_trace P (past @ [e])" by (simp add: s' represents_def)
  qed (use assms(1,2) in \<open>auto simp: s' bars_def history_stats_snoc represents_def Let_def allows_def\<close>)
qed

lemma well_read_snoc:
  assumes "well_read P past"
    and "follows_request (eb_kind (ev_body e)) \<Longrightarrow> history_trace P past (event_request e) \<noteq> None"
    and "eb_kind (ev_body e) = DECISION \<Longrightarrow> decision_in P e \<noteq> None"
    and "\<And>t d. history_trace P (past @ [e]) (event_request e) = Some t \<Longrightarrow> qt_decision t = Some d \<Longrightarrow>
      db_action_sha256 (d_body d) = qt_action_sha256 t"
  shows "well_read P (past @ [e])"
proof -
  have "find (of_request REQUEST (event_request x)) (past @ [e]) \<noteq> None"
    if "x \<in> set (past @ [e])" "follows_request (eb_kind (ev_body x))" for x
  proof -
    have "find (of_request REQUEST (event_request x)) past \<noteq> None"
      using that assms(1,2) by (auto simp: well_read_def history_trace_def)
    then show ?thesis by (auto simp: find_snoc)
  qed
  moreover have "db_action_sha256 (d_body d) = qt_action_sha256 t"
    if "history_trace P (past @ [e]) rid = Some t" "qt_decision t = Some d" for rid t d
    using that assms(1,4) history_trace_other [of e rid P past] unfolding well_read_def by (cases "event_request e = rid") auto
  ultimately show ?thesis using assms(1,3) unfolding well_read_def by auto
qed

lemma step_keeps:
  assumes "represents P past s" "well_read P past" "inspect_event P m r e s = Inr s'"
  shows "justified P m r past e" "represents P (past @ [e]) s'" "well_read P (past @ [e])"
proof -
  obtain s1 where s1: "inspect_kind P m r e (noted e s) = Inr s1" "s' = counted s1"
    using assms(3) by (auto simp: inspect_event_def)
  have quiet: "well_read P (past @ [e])" if "eb_kind (ev_body e) \<noteq> REQUEST" "\<not> follows_request (eb_kind (ev_body e))"
  proof (rule well_read_snoc [OF assms(2)])
    show "db_action_sha256 (d_body d) = qt_action_sha256 t"
      if "history_trace P (past @ [e]) (event_request e) = Some t" "qt_decision t = Some d" for t d
      using that history_trace_quiet [OF \<open>eb_kind (ev_body e) \<noteq> REQUEST\<close> \<open>\<not> follows_request (eb_kind (ev_body e))\<close>] assms(2)
      unfolding well_read_def by auto
  qed (use that in \<open>simp_all add: follows_request_def\<close>)
  have "justified P m r past e \<and> represents P (past @ [e]) s' \<and> well_read P (past @ [e])"
  proof (cases "eb_kind (ev_body e)")
    case REQUEST
    with s1 have "inspect_request P e (noted e s) = Inr s1" by (simp add: inspect_kind_def)
    note k = request_keeps [OF assms(1,2) REQUEST this]
    have "history_trace P past (event_request e) = None"
      using k(1) by (simp add: justified_request_def history_trace_def find_None_ex)
    note snoc = history_trace_request [OF this REQUEST assms(2)]
    have "well_read P (past @ [e])" by (rule well_read_snoc [OF assms(2)]) (auto simp: REQUEST follows_request_def snoc)
    with k s1(2) show ?thesis by (simp add: justified_def REQUEST)
  next
    case DECISION
    with s1 have "inspect_decision P m e (noted e s) = Inr s1" by (simp add: inspect_kind_def)
    note k = decision_keeps [OF assms(1,2) DECISION this]
    obtain q where q: "q \<in> set past" "of_request REQUEST (event_request e) q" and d: "decision_in P e \<noteq> None"
      using k(1) by (auto simp: justified_decision_def decision_in_def)
    then have "find (of_request REQUEST (event_request e)) past \<noteq> None" unfolding find_None_ex by (auto simp: list_ex_iff)
    then have "well_read P (past @ [e])" by (intro well_read_snoc [OF assms(2)] k(3)) (use d in \<open>auto simp: history_trace_def\<close>)
    with k s1(2) show ?thesis by (simp add: justified_def DECISION)
  next
    case DISPATCH
    with s1 have "inspect_dispatch P e (noted e s) = Inr s1" by (simp add: inspect_kind_def)
    note k = dispatch_keeps [OF assms(1,2) DISPATCH this]
    have "well_read P (past @ [e])" by (intro well_read_snoc [OF assms(2)] k(3,4)) (simp_all add: DISPATCH)
    with k s1(2) show ?thesis by (simp add: justified_def DISPATCH)
  next
    case RESULT
    with s1 have "inspect_result P e (noted e s) = Inr s1" by (simp add: inspect_kind_def)
    note k = result_keeps [OF assms(1,2) RESULT this]
    have "well_read P (past @ [e])" by (intro well_read_snoc [OF assms(2)] k(3,4)) (simp_all add: RESULT)
    with k s1(2) show ?thesis by (auto simp: justified_def RESULT)
  next
    case CANCELLATION
    with s1 have "inspect_cancellation P e (noted e s) = Inr s1" by (simp add: inspect_kind_def)
    note k = cancellation_keeps [OF assms(1,2) CANCELLATION this]
    have "well_read P (past @ [e])" by (intro well_read_snoc [OF assms(2)] k(3,4)) (simp_all add: CANCELLATION)
    with k s1(2) show ?thesis by (auto simp: justified_def CANCELLATION)
  next
    case VIOLATION
    with s1 barrier_keeps [OF assms(1), of e s1] quiet show ?thesis
      by (auto simp: justified_def inspect_kind_def inspect_violation_def follows_request_def)
  next
    case OVERLOAD_SUMMARY
    with s1 barrier_keeps [OF assms(1), of e s1] quiet show ?thesis
      by (auto simp: justified_def inspect_kind_def inspect_overload_def follows_request_def)
  next
    case KILL_ACKNOWLEDGED
    with s1 have "inspect_ack P m r e (noted e s) = Inr s1" by (simp add: inspect_kind_def)
    with ack_keeps [OF assms(1) KILL_ACKNOWLEDGED this] s1(2) quiet show ?thesis
      by (simp add: justified_def KILL_ACKNOWLEDGED follows_request_def)
  next
    case KILL_REQUESTED
    with s1 show ?thesis by (simp add: inspect_kind_def)
  qed
  then show "justified P m r past e" "represents P (past @ [e]) s'" "well_read P (past @ [e])" by simp_all
qed

section \<open>The whole file\<close>

fun justified_run :: "prims \<Rightarrow> manifest \<Rightarrow> receipt \<Rightarrow> event list \<Rightarrow> event list \<Rightarrow> bool" where
  "justified_run P m r past [] = True"
| "justified_run P m r past (e # es) \<longleftrightarrow> justified P m r past e \<and> justified_run P m r (past @ [e]) es"

lemma justified_run_at: "justified_run P m r past (es @ e # later) \<Longrightarrow> justified P m r (past @ es) e"
  by (induction es arbitrary: past) fastforce+

lemma inspect_events_sound:
  assumes "inspect_events P m r es ended s = (yielded, Inr s')" "represents P past s" "well_read P past"
  shows "yielded = es" "ended = Inr ()" "inspect_end r s' = Inr ()" "justified_run P m r past es" "represents P (past @ es) s'"
proof -
  have "yielded = es \<and> ended = Inr () \<and> inspect_end r s' = Inr () \<and> justified_run P m r past es \<and> represents P (past @ es) s'"
    using assms
  proof (induction es arbitrary: past s yielded)
    case Nil
    then show ?case by auto
  next
    case (Cons e es)
    then obtain s1 ys where s1: "inspect_event P m r e s = Inr s1" "inspect_events P m r es ended s1 = (ys, Inr s')" "yielded = e # ys"
      by (auto split: sum.splits prod.splits)
    note k = step_keeps [OF Cons.prems(2,3) s1(1)]
    from Cons.IH [OF s1(2) k(2,3)] k(1) s1(3) show ?case by simp
  qed
  then show "yielded = es" "ended = Inr ()" "inspect_end r s' = Inr ()" "justified_run P m r past es" "represents P (past @ es) s'"
    by simp_all
qed

lemma verify_bundle_sound:
  assumes "verify_bundle P m r lines key = Inr report"
  obtains kb es s where "key_id key = mb_operator_key_id (m_body m)" "b64url_decode 32 (key_value key) = Inr kb"
    "verify_manifest P kb m = Inr ()" "iter_canonical_jsonl P lines = (es, Inr ())" "verify_against P r m es = Inr ()"
    "justified_run P m r [] es" "represents P es s" "inspect_end r s = Inr ()"
    "check_counters (r_body r) (history_stats P es) = Inr ()"
    "report = \<lparr> vr_valid = True, vr_event_count = int (length es), vr_decision_count = number_of DECISION es,
        vr_dispatch_count = number_of DISPATCH es, vr_result_count = number_of RESULT es,
        vr_killed = (rb_kill_acknowledgement (r_body r) \<noteq> None),
        vr_witness_checkpoint_hash = c_hash (rb_witness_checkpoint (r_body r)) \<rparr>"
proof -
  obtain es ended where it: "iter_canonical_jsonl P lines = (es, ended)" by (cases "iter_canonical_jsonl P lines")
  obtain ys outcome where ie: "inspect_events P m r es ended init_audit = (ys, outcome)"
    by (cases "inspect_events P m r es ended init_audit")
  obtain kb s where kb: "key_id key = mb_operator_key_id (m_body m)" "b64url_decode 32 (key_value key) = Inr kb"
    "verify_manifest P kb m = Inr ()" and st: "verify_stream P r m ys outcome = Inr s"
    and c: "check_counters (r_body r) (au_stats s) = Inr ()"
    and report: "report = \<lparr> vr_valid = True, vr_event_count = as_events (au_stats s), vr_decision_count = as_decisions (au_stats s),
        vr_dispatch_count = as_dispatches (au_stats s), vr_result_count = as_results (au_stats s),
        vr_killed = (rb_kill_acknowledgement (r_body r) \<noteq> None),
        vr_witness_checkpoint_hash = c_hash (rb_witness_checkpoint (r_body r)) \<rparr>"
    using assms by (auto simp: verify_bundle_def it ie split: if_splits)
  from st have out: "outcome = Inr s" and va: "verify_against P r m ys = Inr ()"
    by (auto simp: verify_stream_def verify_against_def)
  note i = inspect_events_sound [OF ie [unfolded out] represents_init well_read_empty, simplified]
  have "au_stats s = history_stats P es" using i(5) by (simp add: represents_def)
  then show ?thesis using that [OF kb] it va i c report by (simp add: history_stats_def)
qed

end
