(* ===== verification/BCP_Audit_File.thy ===== *)
theory BCP_Audit_File
  imports BCP_Audit_Sound
begin

text \<open>
  The evidence file: what the ledger writes is read back event by event, and a receipt pins the bytes of the file.
\<close>

section \<open>Lines\<close>

text \<open>Iterating over a file opened in binary mode: each line keeps its newline, the last one may lack it.\<close>

fun file_lines :: "bytes \<Rightarrow> bytes list" where
  "file_lines [] = []"
| "file_lines (c # b) =
     (if c = 10 then [c] # file_lines b
      else case file_lines b of [] \<Rightarrow> [[c]] | l # ls \<Rightarrow> (c # l) # ls)"

lemma concat_file_lines: "concat (file_lines b) = b"
  by (induction b) (auto split: list.splits)

lemma file_lines_cons: "10 \<notin> set l \<Longrightarrow> file_lines (l @ 10 # rest) = (l @ [10]) # file_lines rest"
  by (induction l) auto

section \<open>A canonical line has no newline inside\<close>

lemma escape_no_newline: "10 \<notin> set (escape_char c)"
  by (auto simp: escape_char_def hex_digit_def)

lemma dumps_no_newline:
  "10 \<notin> set (dumps j)" "10 \<notin> set (dumps_items js)" "10 \<notin> set (dumps_pairs kvs)"
proof (induction j and js and kvs rule: dumps_dumps_items_dumps_pairs.induct)
  case (3 i)
  have "10 \<notin> set (dec_digits n)" for n using dec_digits_range [of 10 n] by auto
  then show ?case by (simp add: int_repr_def)
qed (use escape_no_newline in \<open>auto simp: dumps_str_def lit_def\<close>)

lemma utf8_no_newline: "c \<noteq> 10 \<Longrightarrow> scalar_value c \<Longrightarrow> 10 \<notin> set (utf8_char c)"
  by (auto simp: utf8_char_def scalar_value_def)

lemma canonical_bytes_no_newline:
  assumes "canonical_json_bytes P v = Inr b"
  shows "10 \<notin> set b"
proof -
  from assms obtain t where t: "canonical_text P v = Inr t" "b = concat (map utf8_char t)"
    by (auto simp: canonical_json_bytes_Inr)
  have "10 \<notin> set t" using t(1) dumps_no_newline(1) by (auto simp: canonical_text_def)
  moreover have "scalar_value c" if "c \<in> set t" for c using canonical_text_scalar [OF t(1)] that by blast
  ultimately have "10 \<notin> set (utf8_char c)" if "c \<in> set t" for c using utf8_no_newline [of c] that by auto
  then show ?thesis by (auto simp: t(2))
qed

section \<open>Reading the file\<close>

text \<open>A valid event and its line.\<close>

lemma line_read_back:
  assumes "validate_event_body P (ev_body e) = Inr (ev_body e)" "validate_event P e = Inr e" "encode_event P e = Inr line"
  shows "event_of_line P (InBytes line) = Inr e" "\<exists>l. line = l @ [10] \<and> 10 \<notin> set l"
proof -
  obtain b where b: "canonical_json_bytes P (dump_event e) = Inr b" "line = b @ [10]" using assms(3) by (auto simp: encode_event_def)
  show "\<exists>l. line = l @ [10] \<and> 10 \<notin> set l" using b canonical_bytes_no_newline [OF b(1)] by blast
  have "model_validate_json P (event_of_json P) (InBytes b) = Inr e" using event_wire.wire_roundtrip [OF _ b(1)] assms(1,2) by simp
  with b show "event_of_line P (InBytes line) = Inr e" by (simp add: event_of_line_def)
qed

lemma line_Inr:
  assumes "event_of_line P (InBytes line) = Inr e"
  shows "encode_event P e = Inr line" "validate_event_body P (ev_body e) = Inr (ev_body e)" "validate_event P e = Inr e"
proof -
  from assms have l: "line \<noteq> []" "last line = 10" "model_validate_json P (event_of_json P) (InBytes (butlast line)) = Inr e"
    "canonical_json_bytes P (dump_event e) = Inr (butlast line)" by (auto simp: event_of_line_def split: if_splits)
  then show "encode_event P e = Inr line" using append_butlast_last_id [OF l(1)] by (simp add: encode_event_def)
  show "validate_event_body P (ev_body e) = Inr (ev_body e)" "validate_event P e = Inr e"
    using event_wire.reads_valid [OF l(3)] by simp_all
qed

lemma iter_bytes:
  "iter_canonical_jsonl P (map InBytes ls) = (es, Inr ()) \<Longrightarrow> canonical_jsonl_bytes P es = Inr (concat ls)"
proof (induction ls arbitrary: es)
  case (Cons l ls)
  then obtain e es' where e: "event_of_line P (InBytes l) = Inr e" "iter_canonical_jsonl P (map InBytes ls) = (es', Inr ())" "es = e # es'"
    by (auto split: sum.splits prod.splits)
  with Cons.IH [OF e(2)] line_Inr(1) [OF e(1)] show ?case by simp
qed simp

lemma file_read_back:
  assumes "list_all (\<lambda>e. validate_event_body P (ev_body e) = Inr (ev_body e) \<and> validate_event P e = Inr e) es"
    "canonical_jsonl_bytes P es = Inr b"
  shows "iter_canonical_jsonl P (map InBytes (file_lines b)) = (es, Inr ())"
  using assms
proof (induction es arbitrary: b)
  case (Cons e es)
  then obtain line rest where b: "encode_event P e = Inr line" "canonical_jsonl_bytes P es = Inr rest" "b = line @ rest" by auto
  have v: "validate_event_body P (ev_body e) = Inr (ev_body e)" "validate_event P e = Inr e" using Cons.prems(1) by simp_all
  obtain l where l: "line = l @ [10]" "10 \<notin> set l" using line_read_back(2) [OF v b(1)] by blast
  have "file_lines b = line # file_lines rest" using file_lines_cons [OF l(2)] by (simp add: b(3) l(1))
  with Cons.IH [OF _ b(2)] Cons.prems(1) line_read_back(1) [OF v b(1)] show ?case by simp
qed simp

lemma chain_valid:
  "chain P m es \<Longrightarrow> list_all (\<lambda>e. validate_event_body P (ev_body e) = Inr (ev_body e) \<and> validate_event P e = Inr e) es"
  by (induction rule: chain.induct) (auto simp: links_def)

text \<open>
  C32. The evidence file round-trips. For a chain of events, a file is what \<open>canonical_jsonl_bytes\<close> writes for them
  exactly when the auditor's reader, over the lines of the file, returns exactly these events and no error.
\<close>

theorem evidence_file_roundtrip:
  assumes "chain P m es"
  shows "canonical_jsonl_bytes P es = Inr b \<longleftrightarrow> iter_canonical_jsonl P (map InBytes (file_lines b)) = (es, Inr ())"
  using file_read_back [OF chain_valid [OF assms]] iter_bytes [of P "file_lines b" es] by (auto simp: concat_file_lines)

text \<open>What the loop of \<open>verify_against\<close> has digested.\<close>

lemma verify_events_text:
  "verify_events P b prev cnt trig so_far es = Inr (prev', cnt', trig', read') \<Longrightarrow>
     \<exists>t. canonical_jsonl_bytes P es = Inr t \<and> read' = so_far @ t"
proof (induction es arbitrary: prev cnt trig so_far)
  case (Cons e es)
  then obtain line prev1 cnt1 trig1 where "canonical_json_bytes P (dump_event e) = Inr line"
    "verify_events P b prev1 cnt1 trig1 (so_far @ line @ [10]) es = Inr (prev', cnt', trig', read')"
    by (auto split: if_splits)
  with Cons.IH [OF this(2)] show ?case by (auto simp: encode_event_def)
qed simp

lemma verified_digest:
  assumes "verify_against P r m es = Inr ()"
  obtains t where "canonical_jsonl_bytes P es = Inr t" "sha256_hex P t = rb_evidence_file_sha256 (r_body r)"
proof -
  from assms obtain prev cnt trig rd where v: "verify_events P (r_body r) None 0 None [] es = Inr (prev, cnt, trig, rd)"
    "sha256_hex P rd = rb_evidence_file_sha256 (r_body r)"
    by (auto simp: verify_against_def verify_stream_def verify_prefix_def verify_end_def split: if_splits)
  from verify_events_text [OF v(1)] v(2) that show ?thesis by auto
qed

definition collision :: "prims \<Rightarrow> bytes \<Rightarrow> bytes \<Rightarrow> bool" where
  "collision P x y \<longleftrightarrow> x \<noteq> y \<and> sha256_hex P x = sha256_hex P y"

text \<open>
  C15. Evidence is tamper-evident: two files that the auditor accepts with the same receipt are the same bytes, or they
  are a collision of SHA-256.
\<close>

theorem evidence_tamper_evident:
  assumes "verify_bundle P m r (map InBytes (file_lines b)) key = Inr report"
    "verify_bundle P m' r (map InBytes (file_lines b')) key' = Inr report'"
  shows "b = b' \<or> collision P b b'"
proof -
  have digest: "sha256_hex P c = rb_evidence_file_sha256 (r_body r)"
    if ok: "verify_bundle P n r (map InBytes (file_lines c)) k = Inr rep" for c n k rep
  proof (rule verify_bundle_sound [OF ok])
    fix es assume "iter_canonical_jsonl P (map InBytes (file_lines c)) = (es, Inr ())" "verify_against P r n es = Inr ()"
    then show ?thesis using verified_digest [of P r n es] iter_bytes [of P "file_lines c" es] by (auto simp: concat_file_lines)
  qed
  show ?thesis using digest [OF assms(1)] digest [OF assms(2)] by (auto simp: collision_def)
qed

end
