(* ===== verification/BCP_Audited.thy ===== *)
theory BCP_Audited
  imports BCP_Audit_File BCP_Serve
begin

text \<open>
  Runtime and auditor together: the offline auditor accepts the evidence and the receipt of a run in which every request
  was permitted and served, and what it accepts is a history in which every dispatch can be traced back.
\<close>

section \<open>Payloads of the runtime are read back\<close>

context contract_model
begin

lemma payload_back:
  "canonical_json P (dump x) = Inr (eb_payload_canonical_json (ev_body e)) \<Longrightarrow> valid P x \<Longrightarrow> payload_of P (of_json P) e = Inr x"
  by (simp add: payload_of_def text_roundtrip)

end

interpretation action_wire: contract_model dump_action
  "\<lambda>a. [(''request_id'', PStr (a_request_id a)), (''method'', PStr (method_name (a_method a))),
        (''scheme'', PStr (lit ''https'')), (''host'', PStr (a_host a)), (''port'', PInt (a_port a)),
        (''path'', PStr (a_path a)), (''resolved_ip'', PStr (a_resolved_ip a)),
        (''tls_spki_sha256'', PStr (a_tls_spki_sha256 a)),
        (''body_canonical_json'', PStr (a_body_canonical_json a)), (''body_sha256'', PStr (a_body_sha256 a)),
        (''body_bytes'', PInt (a_body_bytes a)), (''credential_id'', opt_str (a_credential_id a)),
        (''redirects'', PBool False)]"
  action_of_json "\<lambda>P a. validate_action P a = Inr a"
proof (unfold_locales, goal_cases)
  case (3 P x kvs)
  have "read_action kvs = Some x" by (simp add: read_action_def read_fields [OF 3(2)] read_method read_opt_str)
  moreover have "closed_object kvs action_fields" unfolding closed_iff 3(3) by (simp add: action_fields_def)
  ultimately show ?case using 3(1) by (simp add: action_of_json_def)
next
  case (4 P j x)
  then show ?case by (auto simp: action_of_json_def bad_shape_def validate_action_def split: json.splits option.splits if_splits)
qed (simp_all add: dump_action_def)

lemma request_back:
  assumes "canonical_json P (BCP_Gateway.request_payload a digest) = Inr (eb_payload_canonical_json (ev_body e))"
    "validate_action P a = Inr a" "sha256_hex_text digest"
  obtains p where "payload_of P request_payload_of_json e = Inr p" "qp_action_sha256 p = digest"
    "action_of_json P (JObj (qp_action p)) = Inr a"
proof -
  let ?fs = "[(''action'', dump_action a), (''action_sha256'', PStr digest)]"
  have ob: "BCP_Gateway.request_payload a digest = obj ?fs" by (simp add: BCP_Gateway.request_payload_def)
  obtain j where j: "obj ?fs = py_of_json j" "parse_canonical_json P (InStr (eb_payload_canonical_json (ev_body e))) = Inr (order_for_jcs j)"
    using canonical_json_parse [OF assms(1) [unfolded ob]] by metis
  then have "j = json_of_py (obj ?fs)" by simp
  moreover obtain kvs where kvs: "order_for_jcs (json_of_py (obj ?fs)) = JObj kvs" "map_of kvs = dumped ?fs"
    "fst ` set kvs = (lit \<circ> fst) ` set ?fs" by (rule ordered_obj [of ?fs]) simp_all
  ultimately have parse: "parse_canonical_json P (InStr (eb_payload_canonical_json (ev_body e))) = Inr (JObj kvs)" using j(2) by simp
  have nested: "action_of_json P (order_for_jcs (json_of_py (dump_action a))) = Inr a" using action_wire.nested assms(2) by simp
  then obtain akvs where akvs: "order_for_jcs (json_of_py (dump_action a)) = JObj akvs"
    by (auto simp: action_of_json_def bad_shape_def split: json.splits)
  have "read_request_payload kvs = Some \<lparr> qp_action = akvs, qp_action_sha256 = digest \<rparr>"
    by (simp add: read_request_payload_def read_fields [OF kvs(2)] akvs read_object_def)
  moreover have "closed_object kvs [''action'', ''action_sha256'']" unfolding closed_iff kvs(3) by simp
  ultimately have "payload_of P request_payload_of_json e = Inr \<lparr> qp_action = akvs, qp_action_sha256 = digest \<rparr>"
    using assms(3)
    by (simp add: payload_of_def model_validate_json_def parse request_payload_of_json_def of_object_def validate_request_payload_def)
  then show ?thesis using that [of "\<lparr> qp_action = akvs, qp_action_sha256 = digest \<rparr>"] nested akvs by simp
qed

section \<open>The inspection of a served request\<close>

fun inspect_all :: "prims \<Rightarrow> manifest \<Rightarrow> BCP_Records.receipt \<Rightarrow> event list \<Rightarrow> audit \<Rightarrow> audit result" where
  "inspect_all P m r [] s = Inr s"
| "inspect_all P m r (e # es) s = bind_result (inspect_event P m r e s) (inspect_all P m r es)"

lemma inspect_all_append:
  "inspect_all P m r (xs @ ys) s = bind_result (inspect_all P m r xs s) (inspect_all P m r ys)"
proof (induction xs arbitrary: s)
  case (Cons x xs)
  then show ?case by (cases "inspect_event P m r x s") simp_all
qed simp

lemma inspect_all_events:
  "inspect_all P m r es s = Inr s' \<Longrightarrow> inspect_end r s' = Inr () \<Longrightarrow> inspect_events P m r es (Inr ()) s = (es, Inr s')"
  by (induction es arbitrary: s) (auto split: sum.splits)

lemma inspect_all_represents:
  assumes "inspect_all P m r es s = Inr s'" "represents P past s" "well_read P past"
  shows "represents P (past @ es) s' \<and> well_read P (past @ es)"
  using assms
proof (induction es arbitrary: past s)
  case (Cons e es)
  then obtain s1 where s1: "inspect_event P m r e s = Inr s1" "inspect_all P m r es s1 = Inr s'" by auto
  from Cons.IH [OF s1(2) step_keeps(2,3) [OF Cons.prems(2,3) s1(1)]] show ?case by simp
qed simp

text \<open>A new trace stands at the end of the list and is updated there.\<close>

lemma update_last:
  "map_of xs rid = None \<Longrightarrow> map (\<lambda>(k, t). (k, if k = rid then f t else t)) xs = xs"
  by (force simp: map_of_eq_None_iff intro!: map_idI)

lemma lookup_last: "m k = None \<Longrightarrow> ([k \<mapsto> t] ++ m) k = Some t"
  by (simp add: map_add_def)

definition request_done :: "event \<Rightarrow> decision \<Rightarrow> request_trace" where
  "request_done e d =
     \<lparr> qt_event = e, qt_action_sha256 = db_action_sha256 (d_body d), qt_decision = Some d, qt_dispatched = True,
       qt_completed = True, qt_cancellation_confirmed = False \<rparr>"

definition serve_stats :: "audit_stats \<Rightarrow> audit_stats" where
  "serve_stats n = n\<lparr> as_events := as_events n + 4, as_decisions := as_decisions n + 1, as_allowed := as_allowed n + 1,
     as_dispatches := as_dispatches n + 1, as_results := as_results n + 1 \<rparr>"

text \<open>Four events that the auditor reads as one served request.\<close>

definition served_events ::
  "prims \<Rightarrow> manifest \<Rightarrow> action \<Rightarrow> decision \<Rightarrow> pystr \<Rightarrow> event \<Rightarrow> event \<Rightarrow> event \<Rightarrow> event \<Rightarrow> bool" where
  "served_events P m a d aid e1 e2 e3 e4 \<longleftrightarrow>
     map (\<lambda>e. eb_kind (ev_body e)) [e1, e2, e3, e4] = [REQUEST, DECISION, DISPATCH, RESULT] \<and>
     (\<forall>e \<in> {e1, e2, e3, e4}. eb_request_id (ev_body e) = Some (a_request_id a)) \<and>
     action_digest P a = Inr (db_action_sha256 (d_body d)) \<and>
     (\<exists>p. payload_of P request_payload_of_json e1 = Inr p \<and> qp_action_sha256 p = db_action_sha256 (d_body d) \<and>
        action_of_json P (JObj (qp_action p)) = Inr a) \<and>
     payload_of P (decision_of_json P) e2 = Inr d \<and> verify_decision P (mb_gateway_key (m_body m)) d = Inr () \<and>
     db_run_id (d_body d) = mb_run_id (m_body m) \<and> db_manifest_hash (d_body d) = m_hash m \<and>
     db_request_id (d_body d) = a_request_id a \<and> db_request_event_sequence (d_body d) = eb_sequence (ev_body e1) \<and>
     db_request_event_hash (d_body d) = ev_hash e1 \<and> db_verdict (d_body d) = ALLOW \<and> \<not> db_hard_violation (d_body d) \<and>
     db_authorization_id (d_body d) = Some aid \<and>
     opt_all (\<lambda>limit. eb_monotonic_ns (ev_body e3) \<le> limit) (db_authorization_expires_monotonic_ns (d_body d)) \<and>
     db_authorization_expires_monotonic_ns (d_body d) \<noteq> None \<and>
     payload_of P dispatch_payload_of_json e3 = Inr \<lparr> dp_action_sha256 = db_action_sha256 (d_body d), dp_authorization_id = aid,
       dp_decision_hash = d_hash d, dp_kill_epoch = db_kill_epoch (d_body d) \<rparr> \<and>
     (\<exists>n h c. payload_of P result_payload_of_json e4 = Inr \<lparr> rp_action_sha256 = db_action_sha256 (d_body d), rp_authorization_id = aid,
       rp_decision_hash = d_hash d, rp_kill_epoch = db_kill_epoch (d_body d), rp_response_bytes = n, rp_response_sha256 = h,
       rp_status_code = c \<rparr>)"

lemma serve_events:
  assumes rq: "requested P C a rule epoch t es aid e1 e2 d" and g: "grants P C a rule e1 epoch ns aid d"
    and dd: "dispatched P C a tr (ns + cf_authorization_ttl_ns C) (es @ [e1, e2]) d e3 e4"
    and a: "validate_action P a = Inr a" and dv: "deliverable P C E a rule secret tr"
  shows "served_events P (cf_manifest C) a d aid e1 e2 e3 e4"
proof -
  note f = grants_fields [OF g]
  obtain u u' v' where e: "event_of P REQUEST (BCP_Gateway.request_payload a (db_action_sha256 (d_body d))) (Some (a_request_id a)) t e1"
      "event_of P DECISION (dump_decision d) (Some (a_request_id a)) u e2"
    and e': "u' \<le> ns + cf_authorization_ttl_ns C"
      "event_of P DISPATCH (BCP_World.dispatch_payload (db_action_sha256 (d_body d)) d) (Some (a_request_id a)) u' e3"
      "event_of P RESULT (BCP_Executor.result_payload (db_action_sha256 (d_body d)) d tr) (Some (a_request_id a)) v' e4"
    using rq dd f(6) by (auto simp: requested_def dispatched_def)
  obtain p where p: "payload_of P request_payload_of_json e1 = Inr p" "qp_action_sha256 p = db_action_sha256 (d_body d)"
      "action_of_json P (JObj (qp_action p)) = Inr a"
    using request_back [OF _ a f(1), of e1] e(1) by (auto simp: event_of_def)
  moreover have "payload_of P (decision_of_json P) e2 = Inr d"
    by (rule decision_wire.payload_back) (use e(2) g in \<open>simp_all add: event_of_def grants_def\<close>)
  moreover have "payload_of P dispatch_payload_of_json e3 = Inr \<lparr> dp_action_sha256 = db_action_sha256 (d_body d),
      dp_authorization_id = aid, dp_decision_hash = d_hash d, dp_kill_epoch = db_kill_epoch (d_body d) \<rparr>"
    by (rule dispatch_payload_wire.payload_back)
      (use e'(2) g f in \<open>simp_all add: event_of_def grants_def BCP_World.dispatch_payload_def dump_dispatch_payload_def
        validate_dispatch_payload_def opt_str_def\<close>)
  moreover have "payload_of P result_payload_of_json e4 = Inr \<lparr> rp_action_sha256 = db_action_sha256 (d_body d), rp_authorization_id = aid,
      rp_decision_hash = d_hash d, rp_kill_epoch = db_kill_epoch (d_body d), rp_response_bytes = tr_response_bytes tr,
      rp_response_sha256 = tr_response_sha256 tr, rp_status_code = tr_status_code tr \<rparr>"
    by (rule result_payload_wire.payload_back)
      (use e'(3) g f dv in \<open>simp_all add: event_of_def grants_def BCP_Executor.result_payload_def dump_result_payload_def
        validate_result_payload_def opt_str_def deliverable_def\<close>)
  ultimately show ?thesis unfolding served_events_def
    using e e' f(6) g by (simp add: event_of_def grants_def decision_bound_def)
qed

lemma inspect_served:
  assumes ev: "served_events P m a d aid e1 e2 e3 e4"
    and s: "map_of (au_traces s) (a_request_id a) = None" "au_barrier s = None" "aid \<notin> au_authorizations s"
  shows "\<exists>s'. (\<forall>r. inspect_all P m r [e1, e2, e3, e4] s = Inr s') \<and>
    au_traces s' = au_traces s @ [(a_request_id a, request_done e1 d)] \<and> au_barrier s' = None \<and>
    au_authorizations s' = insert aid (au_authorizations s) \<and> au_stats s' = serve_stats (au_stats s)"
proof -
  let ?rid = "a_request_id a"
  from ev have k: "eb_kind (ev_body e1) = REQUEST" "eb_kind (ev_body e2) = DECISION" "eb_kind (ev_body e3) = DISPATCH" "eb_kind (ev_body e4) = RESULT"
    and rid: "eb_request_id (ev_body e1) = Some ?rid" "eb_request_id (ev_body e2) = Some ?rid"
      "eb_request_id (ev_body e3) = Some ?rid" "eb_request_id (ev_body e4) = Some ?rid"
    by (simp_all add: served_events_def)
  have er: "event_request e3 = ?rid" "event_request e4 = ?rid" by (simp_all add: event_request_def rid)
  obtain p where p: "payload_of P request_payload_of_json e1 = Inr p" "qp_action_sha256 p = db_action_sha256 (d_body d)"
      "action_of_json P (JObj (qp_action p)) = Inr a" "action_digest P a = Inr (db_action_sha256 (d_body d))"
    using ev by (auto simp: served_events_def)
  obtain n h c limit where y: "payload_of P result_payload_of_json e4 = Inr \<lparr> rp_action_sha256 = db_action_sha256 (d_body d),
       rp_authorization_id = aid, rp_decision_hash = d_hash d, rp_kill_epoch = db_kill_epoch (d_body d), rp_response_bytes = n,
       rp_response_sha256 = h, rp_status_code = c \<rparr>"
    and limit: "db_authorization_expires_monotonic_ns (d_body d) = Some limit" "eb_monotonic_ns (ev_body e3) \<le> limit"
    using ev by (auto simp: served_events_def)
  define t where "t = \<lparr> qt_event = e1, qt_action_sha256 = db_action_sha256 (d_body d), qt_decision = None, qt_dispatched = False,
    qt_completed = False, qt_cancellation_confirmed = False \<rparr>"
  let ?q = "(au_sequences s)(eb_sequence (ev_body e1) \<mapsto> ?rid)"
  define s1 where "s1 = counted ((noted e1 s)\<lparr> au_traces := au_traces s @ [(?rid, t)], au_sequences := ?q \<rparr>)"
  have i1: "inspect_event P m r e1 s = Inr s1" for r
    using p s(1) by (simp add: inspect_event_def inspect_kind_def k(1) inspect_request_def rid s1_def t_def)
  define s2 where "s2 = counted (count_stat (\<lambda>n. n\<lparr> as_allowed := as_allowed n + 1 \<rparr>) (count_stat (\<lambda>n. n\<lparr> as_decisions := as_decisions n + 1 \<rparr>)
    ((noted e2 s1)\<lparr> au_traces := au_traces s @ [(?rid, t\<lparr> qt_decision := Some d \<rparr>)] \<rparr>)))"
  have i2: "inspect_event P m r e2 s1 = Inr s2" for r
    using ev s(1) by (simp add: inspect_event_def inspect_kind_def k(2) inspect_decision_def rid s1_def s2_def t_def served_events_def
        update_trace_def update_last lookup_last Let_def)
  define s3 where "s3 = counted (count_stat (\<lambda>n. n\<lparr> as_dispatches := as_dispatches n + 1 \<rparr>)
    ((noted e3 s2)\<lparr> au_authorizations := insert aid (au_authorizations s),
       au_traces := au_traces s @ [(?rid, t\<lparr> qt_decision := Some d, qt_dispatched := True \<rparr>)] \<rparr>))"
  have i3: "inspect_event P m r e3 s2 = Inr s3" for r
    using ev s limit by (simp add: inspect_event_def inspect_kind_def k(3) inspect_dispatch_def trace_of_def er s1_def s2_def s3_def t_def
        served_events_def update_trace_def update_last lookup_last)
  define s4 where "s4 = counted (count_stat (\<lambda>n. n\<lparr> as_results := as_results n + 1 \<rparr>)
    ((noted e4 s3)\<lparr> au_traces := au_traces s @ [(?rid, t\<lparr> qt_decision := Some d, qt_dispatched := True, qt_completed := True \<rparr>)] \<rparr>))"
  have i4: "inspect_event P m r e4 s3 = Inr s4" for r
    using ev s y by (simp add: inspect_event_def inspect_kind_def k(4) inspect_result_def dispatched_trace_def trace_of_def er
        s1_def s2_def s3_def s4_def t_def served_events_def update_trace_def update_last lookup_last)
  have "inspect_all P m r [e1, e2, e3, e4] s = Inr s4" for r by (simp add: i1 i2 i3 i4)
  then show ?thesis using s(2)
    by (intro exI [of _ s4]) (simp add: s1_def s2_def s3_def s4_def t_def request_done_def serve_stats_def count_stat_def)
qed

section \<open>A run of served requests\<close>

text \<open>One permitted request after the other, each with a request identifier of its own, is submitted and dispatched.\<close>

inductive served_run :: "prims \<Rightarrow> config \<Rightarrow> env \<Rightarrow> world \<Rightarrow> world \<Rightarrow> bool" for P C E w0 where
  served_none: "served_run P C E w0 w0"
| served_one: "served_run P C E w0 w \<Longrightarrow> servable P C E n raw a rule secret t w \<Longrightarrow>
    \<not> list_ex (of_request REQUEST (a_request_id a)) (ld_events (w_ledger w)) \<Longrightarrow>
    submit_raw P C E raw w =
      (Inr \<lparr> gr_accepted = True, gr_reason_code = lit ''policy.allowed'', gr_action = Some a, gr_decision = Some d \<rparr>, w1) \<Longrightarrow>
    dispatch P C E a d (e_mono E k) w1 = (Inr t, w2) \<Longrightarrow> served_run P C E w0 w2"

lemma served_state_effect:
  assumes "rs_inv s" "fst (admit sz now s) = Inr ADMITTED" "aid \<notin> rs_consumed s" "\<not> budget_blocked reserve s" "0 \<le> egress" "egress \<le> reserve"
    and s': "s' = served_state aid reserve egress ((snd (admit sz now s))\<lparr> rs_allowed := rs_allowed (snd (admit sz now s)) + 1 \<rparr>)"
  shows "rs_inv s'" "rs_allowed s' = rs_allowed s + 1" "rs_denied s' = rs_denied s" "rs_admitted s' = rs_admitted s + 1"
    "rs_dispatched s' = rs_dispatched s + 1" "rs_completed s' = rs_completed s + 1" "rs_consumed s' = insert aid (rs_consumed s)"
    "rs_phase s' = PhRunning"
proof -
  let ?a = "(snd (admit sz now s))\<lparr> rs_allowed := rs_allowed (snd (admit sz now s)) + 1 \<rparr>"
  have "admit sz now s = (Inr ADMITTED, snd (admit sz now s))" using assms(2) by (metis prod.collapse)
  note ad = admit_admitted [OF this]
  have "rs_inv ?a" using assms(1) admit_effect eff_allow rs_inv_effect by blast
  moreover have "rs_effect ?a (reserve_dispatch aid reserve ?a)"
    using ad assms(3,4) by (intro eff_begin) (simp_all add: budget_blocked_def)
  ultimately have "rs_inv (reserve_dispatch aid reserve ?a)" by (blast intro: rs_inv_effect)
  moreover have "rs_effect (reserve_dispatch aid reserve ?a) s'"
    unfolding s' served_state_def by (rule eff_finish) (simp_all add: reserve_dispatch_def assms)
  ultimately show "rs_inv s'" by (blast intro: rs_inv_effect)
  show "rs_allowed s' = rs_allowed s + 1" "rs_denied s' = rs_denied s" "rs_admitted s' = rs_admitted s + 1"
    "rs_dispatched s' = rs_dispatched s + 1" "rs_completed s' = rs_completed s + 1" "rs_consumed s' = insert aid (rs_consumed s)"
    "rs_phase s' = PhRunning"
    using assms(2) by (auto simp: s' served_state_def complete_dispatch_def reserve_dispatch_def admit_def Let_def roll_window_def
        split: if_splits option.splits)
qed

text \<open>What the evidence of such a run looks like to the auditor at any time.\<close>

definition audit_ready :: "prims \<Rightarrow> config \<Rightarrow> world \<Rightarrow> audit \<Rightarrow> bool" where
  "audit_ready P C w s \<longleftrightarrow>
     (\<forall>r. inspect_all P (cf_manifest C) r (ld_events (w_ledger w)) init_audit = Inr s) \<and>
     (\<forall>(k, t) \<in> set (au_traces s). qt_decision t \<noteq> None \<and> qt_completed t) \<and>
     au_barrier s = None \<and> au_authorizations s \<subseteq> rs_consumed (w_state w) \<and>
     as_events (au_stats s) = int (length (ld_events (w_ledger w))) \<and> as_allowed (au_stats s) = rs_allowed (w_state w) \<and>
     as_denied (au_stats s) = rs_denied (w_state w) \<and> as_dispatches (au_stats s) = rs_dispatched (w_state w) \<and>
     as_results (au_stats s) = rs_completed (w_state w) \<and> as_kill_acks (au_stats s) = 0"

definition run_ready :: "prims \<Rightarrow> config \<Rightarrow> world \<Rightarrow> world \<Rightarrow> bool" where
  "run_ready P C w0 w \<longleftrightarrow>
     (\<exists>s. audit_ready P C w s) \<and> recorded P (cf_manifest C) (w_mirror w) (ld_events (w_ledger w)) \<and>
     (ld_events (w_ledger w) = [] \<longrightarrow> mi_first_hash (w_mirror w) = None) \<and>
     rs_inv (w_state w) \<and> rs_phase (w_state w) = PhRunning \<and>
     rs_allowed (w_state w) + rs_denied (w_state w) \<le> rs_admitted (w_state w) \<and> rs_dispatched (w_state w) \<le> rs_allowed (w_state w) \<and>
     w_supervisor w = w_supervisor w0 \<and> w_witness w = w_witness w0"

lemma served_ready:
  assumes run: "run_ready P C w0 w" and sv: "servable P C E n raw a rule secret t w"
    and new: "\<not> list_ex (of_request REQUEST (a_request_id a)) (ld_events (w_ledger w))"
    and sub: "submit_raw P C E raw w =
      (Inr \<lparr> gr_accepted = True, gr_reason_code = lit ''policy.allowed'', gr_action = Some a, gr_decision = Some d \<rparr>, w1)"
    and dis: "dispatch P C E a d (e_mono E k) w1 = (Inr t, w2)"
  shows "run_ready P C w0 w2"
proof -
  obtain s where s: "audit_ready P C w s" using run by (auto simp: run_ready_def)
  obtain d' w1' w2' e1 e2 e3 e4 aid ns where q:
    "submit_raw P C E raw w =
      (Inr \<lparr> gr_accepted = True, gr_reason_code = lit ''policy.allowed'', gr_action = Some a, gr_decision = Some d' \<rparr>, w1')"
    "dispatch P C E a d' (e_mono E k) w1' = (Inr t, w2')" and h:
    "accepted_in P C E a rule (Suc (Suc n)) e1 e2 d' aid (int (length raw)) (e_mono E (w_ticks w)) w w1'"
    "grants P C a rule e1 (rs_kill_epoch (w_state w)) ns aid d'"
    "ld_events (w_ledger w2') = ld_events (w_ledger w) @ [e1, e2, e3, e4]" "same_parameters (w_ledger w) (w_ledger w2')"
    "dispatched P C a t (ns + cf_authorization_ttl_ns C) (ld_events (w_ledger w) @ [e1, e2]) d' e3 e4" "room P E n w2'"
    "w_state w2' = served_state aid (max_response_bytes rule) (tr_response_bytes t) (w_state w1')"
    "w_supervisor w2' = w_supervisor w" "w_witness w2' = w_witness w" "aid \<notin> rs_consumed (w_state w)"
    using serve_run [OF sv, of k] by blast
  have "d' = d" "w1' = w1" using q(1) sub by simp_all
  moreover from this have "w2' = w2" using q(2) dis by simp
  ultimately have eq: "d' = d" "w1' = w1" "w2' = w2" by simp_all
  note h = h [unfolded eq]
  from h(1) have st: "w_state w1 = (snd (admit (int (length raw)) (e_mono E (w_ticks w)) (w_state w)))
      \<lparr> rs_allowed := rs_allowed (snd (admit (int (length raw)) (e_mono E (w_ticks w)) (w_state w))) + 1 \<rparr>"
    and rq: "requested P C a rule (rs_kill_epoch (w_state w)) (e_mono E (w_ticks w)) (ld_events (w_ledger w)) aid e1 e2 d"
    by (simp_all add: accepted_in_def)
  have a: "validate_action P a = Inr a" "deliverable P C E a rule secret t" "fst (admit (int (length raw)) (e_mono E (w_ticks w)) (w_state w)) = Inr ADMITTED"
    "\<not> budget_blocked (max_response_bytes rule) (w_state w)" "ld_manifest (w_ledger w) = cf_manifest C"
    using sv by (simp_all add: servable_def acceptable_def admissible_def)
  have se: "rs_inv (w_state w2)" "rs_allowed (w_state w2) = rs_allowed (w_state w) + 1" "rs_denied (w_state w2) = rs_denied (w_state w)"
    "rs_admitted (w_state w2) = rs_admitted (w_state w) + 1" "rs_dispatched (w_state w2) = rs_dispatched (w_state w) + 1"
    "rs_completed (w_state w2) = rs_completed (w_state w) + 1" "rs_consumed (w_state w2) = insert aid (rs_consumed (w_state w))"
    "rs_phase (w_state w2) = PhRunning"
    using served_state_effect [OF _ a(3) h(10) a(4) _ _ h(7) [unfolded st]] a(2) run by (simp_all add: deliverable_def run_ready_def)
  have ins: "inspect_all P (cf_manifest C) r (ld_events (w_ledger w)) init_audit = Inr s" for r using s by (simp add: audit_ready_def)
  have "represents P (ld_events (w_ledger w)) s" using inspect_all_represents [OF ins represents_init well_read_empty] by simp
  with new have "map_of (au_traces s) (a_request_id a) = None" by (simp add: represents_traces history_trace_def find_None_ex)
  moreover have "au_barrier s = None" "aid \<notin> au_authorizations s" using s h(10) by (auto simp: audit_ready_def)
  ultimately obtain s' where s': "\<And>r. inspect_all P (cf_manifest C) r [e1, e2, e3, e4] s = Inr s'"
    "au_traces s' = au_traces s @ [(a_request_id a, request_done e1 d)]" "au_barrier s' = None"
    "au_authorizations s' = insert aid (au_authorizations s)" "au_stats s' = serve_stats (au_stats s)"
    using inspect_served [OF serve_events [OF rq h(2,5) a(1,2)]] by blast
  have "inspect_all P (cf_manifest C) r (ld_events (w_ledger w2)) init_audit = Inr s'" for r
    using s'(1) by (simp only: h(3) inspect_all_append ins bind_result.simps)
  with s s' se h(3) have "audit_ready P C w2 s'" by (auto simp: audit_ready_def request_done_def serve_stats_def)
  moreover have "recorded P (cf_manifest C) (w_mirror w2) (ld_events (w_ledger w2))"
    using h(4,6) a(5) by (simp add: room_def same_parameters_def)
  ultimately show ?thesis using run se h(3,8,9) unfolding run_ready_def by auto
qed

text \<open>The start of a run.\<close>

definition fresh_run :: "prims \<Rightarrow> config \<Rightarrow> env \<Rightarrow> world \<Rightarrow> bool" where
  "fresh_run P C E w \<longleftrightarrow>
     issuable P C E [] w \<and> ld_events (w_ledger w) = [] \<and>
     (\<exists>k. w_state w = init_state k) \<and> sv_kill_acknowledgement (w_supervisor w) = None \<and> \<not> sv_emergency_failure (w_supervisor w)"

lemma served_run_ready: "served_run P C E w0 w \<Longrightarrow> fresh_run P C E w0 \<Longrightarrow> run_ready P C w0 w"
proof (induction rule: served_run.induct)
  case served_none
  then have "audit_ready P C w0 init_audit"
    by (auto simp: fresh_run_def audit_ready_def init_audit_def init_stats_def init_state_def)
  then show ?case using served_none
    by (auto simp: fresh_run_def run_ready_def issuable_def init_state_def)
next
  case (served_one w n raw a rule secret t d w1 k w2)
  from served_ready [OF served_one.IH [OF served_one.prems] served_one.hyps(2-5)] show ?case .
qed

lemma audit_accepts:
  assumes "fresh_run P C E w0" "served_run P C E w0 w"
    "rs_observed (w_state w) \<le> MAX_SAFE_INTEGER" "rs_egress_bytes (w_state w) \<le> MAX_SAFE_INTEGER"
    "key_id okey = mb_operator_key_id (m_body (cf_manifest C))" "b64url_decode 32 (key_value okey) = Inr kb"
    "verify_manifest P kb (cf_manifest C) = Inr ()"
  shows "\<exists>r w' b report. complete P C E w = (Inr r, w') \<and> rb_status (r_body r) = COMPLETED \<and>
    canonical_jsonl_bytes P (ld_events (w_ledger w')) = Inr b \<and>
    verify_bundle P (cf_manifest C) r (map InBytes (file_lines b)) okey = Inr report \<and> vr_valid report \<and>
    vr_dispatch_count report = rs_dispatched (w_state w) \<and> vr_result_count report = rs_completed (w_state w) \<and> \<not> vr_killed report \<and>
    sound_receipt P r"
proof -
  let ?es = "ld_events (w_ledger w)"
  from served_run_ready [OF assms(2,1)] obtain s where s: "audit_ready P C w s"
    and w: "recorded P (cf_manifest C) (w_mirror w) ?es" "?es = [] \<longrightarrow> mi_first_hash (w_mirror w) = None" "rs_inv (w_state w)"
      "rs_phase (w_state w) = PhRunning" "w_supervisor w = w_supervisor w0" "w_witness w = w_witness w0"
      "rs_allowed (w_state w) + rs_denied (w_state w) \<le> rs_admitted (w_state w)" "rs_dispatched (w_state w) \<le> rs_allowed (w_state w)"
    by (auto simp: run_ready_def)
  have i: "issuable P C E ?es w" using assms(1,3,4) w by (simp add: fresh_run_def issuable_def counters_fit_def)
  have sup: "sv_kill_acknowledgement (w_supervisor w) = None" "\<not> sv_emergency_failure (w_supervisor w)"
    using assms(1) w(5) by (simp_all add: fresh_run_def)
  obtain r w' where r: "complete P C E w = (Inr r, w')" "rb_status (r_body r) = COMPLETED" "rb_kill_acknowledgement (r_body r) = None"
      "receipt_of C (w_state w) r" "ld_events (w_ledger w') = ?es" "rb_event_count (r_body r) = int (length ?es)"
      "verify_against P r (cf_manifest C) ?es = Inr ()" "sound_receipt P r"
    using complete_total [OF i w(4) sup] by blast
  obtain b where b: "canonical_jsonl_bytes P ?es = Inr b" using w(1) by (auto simp: recorded_def mirror_of_def)
  have read: "iter_canonical_jsonl P (map InBytes (file_lines b)) = (?es, Inr ())"
    using file_read_back [OF chain_valid [of P "cf_manifest C"] b] w(1) by (simp add: recorded_def)
  have ins: "inspect_all P (cf_manifest C) r ?es init_audit = Inr s" using s by (simp add: audit_ready_def)
  have "incomplete s = 0" using s by (auto simp: incomplete_def audit_ready_def filter_empty_conv)
  then have "inspect_end r s = Inr ()" using s by (auto simp: inspect_end_def audit_ready_def list_ex_iff)
  then have "inspect_events P (cf_manifest C) r ?es (Inr ()) init_audit = (?es, Inr s)" using ins by (rule inspect_all_events [rotated])
  moreover have "verify_stream P r (cf_manifest C) ?es (Inr s) = Inr s"
    using r(7) by (auto simp: verify_against_def verify_stream_def)
  moreover have "check_counters (r_body r) (au_stats s) = Inr ()"
    using s r(3,4,6) by (simp add: check_counters_def audit_ready_def receipt_of_def)
  ultimately have "verify_bundle P (cf_manifest C) r (map InBytes (file_lines b)) okey =
      Inr \<lparr> vr_valid = True, vr_event_count = as_events (au_stats s), vr_decision_count = as_decisions (au_stats s),
        vr_dispatch_count = as_dispatches (au_stats s), vr_result_count = as_results (au_stats s), vr_killed = False,
        vr_witness_checkpoint_hash = c_hash (rb_witness_checkpoint (r_body r)) \<rparr>"
    using assms(5-7) r(3) by (simp add: verify_bundle_def read)
  with r(1,2,5,8) b s show ?thesis by (simp add: audit_ready_def)
qed

lemma one_served:
  assumes "servable P C E n raw a rule secret t w0" "w_state w0 = init_state k" "ld_events (w_ledger w0) = []"
  shows "\<exists>w. served_run P C E w0 w \<and> rs_observed (w_state w) = 1 \<and> rs_egress_bytes (w_state w) = tr_response_bytes t \<and>
    rs_dispatched (w_state w) = 1 \<and> rs_completed (w_state w) = 1"
proof -
  obtain d w1 w2 e1 e2 aid where s:
    "submit_raw P C E raw w0 = (Inr \<lparr> gr_accepted = True, gr_reason_code = lit ''policy.allowed'', gr_action = Some a, gr_decision = Some d \<rparr>, w1)"
    "accepted_in P C E a rule (Suc (Suc n)) e1 e2 d aid (int (length raw)) (e_mono E (w_ticks w0)) w0 w1"
    "dispatch P C E a d (e_mono E 0) w1 = (Inr t, w2)" "w_state w2 = served_state aid (max_response_bytes rule) (tr_response_bytes t) (w_state w1)"
    using serve_run [OF assms(1), of 0] by blast
  have "served_run P C E w0 w2" by (rule served_one [OF served_none assms(1) _ s(1,3)]) (simp add: assms(3))
  moreover have "fst (admit (int (length raw)) (e_mono E (w_ticks w0)) (w_state w0)) = Inr ADMITTED"
    using assms(1) by (simp add: servable_def admissible_def)
  then have "rs_observed (w_state w2) = 1 \<and> rs_egress_bytes (w_state w2) = tr_response_bytes t \<and> rs_dispatched (w_state w2) = 1 \<and> rs_completed (w_state w2) = 1"
    using s(2,4) assms(2) by (auto simp: accepted_in_def served_state_def complete_dispatch_def reserve_dispatch_def admit_def Let_def
        roll_window_def init_state_def split: if_splits option.splits)
  ultimately show ?thesis by blast
qed

section \<open>A sample run\<close>

definition operator_key :: ed_public_key where
  "operator_key = sample_key ''operator'' 4"

lemma sample_operator:
  "key_id operator_key = mb_operator_key_id (m_body (cf_manifest sample_config))"
  "b64url_decode 32 (key_value operator_key) = Inr (replicate 32 4)"
  "verify_manifest sample_prims (replicate 32 4) (cf_manifest sample_config) = Inr ()"
  by code_simp+

lemma sample_fresh: "fresh_run sample_prims sample_config still_env sample_world"
  using sample_issuable by (auto simp: fresh_run_def sample_ledger_def init_supervisor_def)

lemma sample_served_run:
  "\<exists>w. served_run sample_prims sample_config still_env sample_world w \<and> rs_observed (w_state w) = 1 \<and> rs_egress_bytes (w_state w) = 11 \<and>
     rs_dispatched (w_state w) = 1 \<and> rs_completed (w_state w) = 1"
  using one_served [OF sample_servable] by (simp add: sample_ledger_def sample_response_def)

lemma sample_audited:
  "\<exists>r b report. verify_bundle sample_prims sample_manifest r (map InBytes (file_lines b)) operator_key = Inr report \<and>
     vr_dispatch_count report = 1 \<and> vr_result_count report = 1"
proof -
  obtain w where w: "served_run sample_prims sample_config still_env sample_world w" "rs_observed (w_state w) = 1"
    "rs_egress_bytes (w_state w) = 11" "rs_dispatched (w_state w) = 1" "rs_completed (w_state w) = 1" using sample_served_run by blast
  from audit_accepts [OF sample_fresh w(1) _ _ sample_operator] w show ?thesis
    by (auto simp: MAX_SAFE_INTEGER_def sample_config_def)
qed

section \<open>What the auditor accepts\<close>

text \<open>
  The trace of a dispatch through the history before it: a request with a valid action, then the gateway's signed decision
  that allows exactly this action, whose capability the dispatch uses in time, for the first time, and before any barrier.
\<close>

definition traces_back :: "prims \<Rightarrow> manifest \<Rightarrow> event list \<Rightarrow> event \<Rightarrow> bool" where
  "traces_back P m past e \<longleftrightarrow>
     (\<exists>before q between k after (rp :: BCP_Readers.request_payload) a (d :: decision) (p :: dispatch_payload) expiry.
        past = before @ q # between @ k # after \<and>
        of_request REQUEST (event_request e) q \<and> payload_of P request_payload_of_json q = Inr rp \<and>
        action_of_json P (JObj (qp_action rp)) = Inr a \<and> action_digest P a = Inr (db_action_sha256 (d_body d)) \<and>
        of_request DECISION (event_request e) k \<and> payload_of P (decision_of_json P) k = Inr d \<and>
        verify_decision P (mb_gateway_key (m_body m)) d = Inr () \<and> db_verdict (d_body d) = ALLOW \<and>
        db_run_id (d_body d) = mb_run_id (m_body m) \<and> db_manifest_hash (d_body d) = m_hash m \<and>
        db_request_event_hash (d_body d) = ev_hash q \<and>
        payload_of P dispatch_payload_of_json e = Inr p \<and>
        cites d (dp_action_sha256 p) (dp_authorization_id p) (dp_decision_hash p) (dp_kill_epoch p) \<and>
        db_authorization_expires_monotonic_ns (d_body d) = Some expiry \<and> eb_monotonic_ns (ev_body e) \<le> expiry \<and>
        (\<forall>(p' :: dispatch_payload) x. x \<in> set past \<and> eb_kind (ev_body x) = DISPATCH \<and> dispatch_in P x = Some p' \<longrightarrow>
           dp_authorization_id p' \<noteq> dp_authorization_id p)) \<and>
     \<not> list_ex (bars P) past \<and> \<not> list_ex (of_request DISPATCH (event_request e)) past"

lemma audited_trace:
  assumes "verify_bundle P m r lines key = Inr report"
    "iter_canonical_jsonl P lines = (past @ e # later, Inr ())" "eb_kind (ev_body e) = DISPATCH"
  shows "traces_back P m past e"
proof -
  have run: "justified_run P m r [] (past @ e # later)"
    by (rule verify_bundle_sound [OF assms(1)]) (use assms(2) in auto)
  then have dj: "justified_dispatch P past e" using justified_run_at [OF run] assms(3) by (simp add: justified_def)
  obtain p d k expiry where p: "payload_of P dispatch_payload_of_json e = Inr p" "k \<in> set past"
      "of_request DECISION (event_request e) k" "payload_of P (decision_of_json P) k = Inr d" "db_verdict (d_body d) = ALLOW"
      "cites d (dp_action_sha256 p) (dp_authorization_id p) (dp_decision_hash p) (dp_kill_epoch p)"
      "db_authorization_expires_monotonic_ns (d_body d) = Some expiry" "eb_monotonic_ns (ev_body e) \<le> expiry"
    and fresh: "\<forall>(p' :: dispatch_payload) x. x \<in> set past \<and> eb_kind (ev_body x) = DISPATCH \<and> dispatch_in P x = Some p' \<longrightarrow>
      dp_authorization_id p' \<noteq> dp_authorization_id p"
    using dj unfolding justified_dispatch_def by (elim exE conjE)
  obtain u v where uv: "past = u @ k # v" using split_list [OF p(2)] by blast
  have "justified_decision P m u k"
    using justified_run_at [of P m r "[]" u k "v @ e # later"] run p(3) by (simp add: uv justified_def of_request_def)
  then obtain d' q where q: "payload_of P (decision_of_json P) k = Inr d'" "q \<in> set u" "of_request REQUEST (event_request k) q"
      "verify_decision P (mb_gateway_key (m_body m)) d' = Inr ()"
      "db_run_id (d_body d') = mb_run_id (m_body m)" "db_manifest_hash (d_body d') = m_hash m" "db_request_event_hash (d_body d') = ev_hash q"
      "db_action_sha256 (d_body d') = requested_digest P q"
    unfolding justified_decision_def by (elim exE conjE)
  have same: "d' = d" "event_request k = event_request e" using q(1) p(3,4) by (simp_all add: of_request_def)
  obtain u1 u2 where u: "u = u1 @ q # u2" using split_list [OF q(2)] by blast
  have "justified_request P u1 q"
    using justified_run_at [of P m r "[]" u1 q "u2 @ k # v @ e # later"] run q(3) by (simp add: uv u justified_def of_request_def)
  then obtain rp a where a: "payload_of P request_payload_of_json q = Inr rp" "action_of_json P (JObj (qp_action rp)) = Inr a"
      "action_digest P a = Inr (qp_action_sha256 rp)" unfolding justified_request_def by (elim exE conjE)
  have digest: "action_digest P a = Inr (db_action_sha256 (d_body d))" using a q(8) same(1) by (simp add: requested_digest_def)
  have past: "past = u1 @ q # u2 @ k # v" by (simp add: uv u)
  note q = q [unfolded same]
  have "\<not> list_ex (bars P) past" "\<not> list_ex (of_request DISPATCH (event_request e)) past"
    using dj by (simp_all add: justified_dispatch_def)
  then show ?thesis unfolding traces_back_def using past q(3-7) a(1,2) digest p(1) p(3-8) fresh by blast
qed

text \<open>
  C5. Every dispatch in accepted evidence traces back: when \<open>verify_bundle\<close> accepts, each DISPATCH event of the evidence
  follows a REQUEST event with a valid action and a DECISION event with a decision that the gateway's key signed for this
  run, for that request and for the digest of that action, with the verdict ALLOW; the dispatch uses the authorization of
  that decision, not after its expiry; no dispatch before it used the same authorization or request; and no violation,
  overload or hard-violation decision is recorded before it.
\<close>

theorem audited_dispatch_traces_back:
  assumes "verify_bundle P m r lines key = Inr report"
    "iter_canonical_jsonl P lines = (past @ e # later, Inr ())" "eb_kind (ev_body e) = DISPATCH"
  shows "traces_back P m past e"
  by (rule audited_trace [OF assms])

text \<open>The loop of \<open>verify_against\<close> only passes a chain.\<close>

lemma verify_events_chains:
  assumes "verify_events P b (last_of past) (int (length past)) trig so_far es = Inr z" "chain P m past"
    "list_all (\<lambda>e. validate_event_body P (ev_body e) = Inr (ev_body e) \<and> validate_event P e = Inr e) es"
    "rb_run_id b = mb_run_id (m_body m)" "rb_manifest_hash b = m_hash m"
  shows "chain P m (past @ es)"
  using assms
proof (induction es arbitrary: past trig so_far)
  case (Cons e es)
  from Cons.prems(1) obtain line trig' where v: "canonical_json_bytes P (dump_event e) = Inr line"
      "verify_events P b (last_of (past @ [e])) (int (length (past @ [e]))) trig' (so_far @ line @ [10]) es = Inr z"
    and c: "eb_run_id (ev_body e) = rb_run_id b" "eb_manifest_hash (ev_body e) = rb_manifest_hash b"
      "past = [] \<Longrightarrow> eb_sequence (ev_body e) = 0 \<and> eb_previous_event_hash (ev_body e) = GENESIS_HASH"
      "past \<noteq> [] \<Longrightarrow> follows e (last past)"
    by (auto simp: add.commute split: if_splits)
  have "eb_sequence (ev_body e) = int (length past) \<and> eb_previous_event_hash (ev_body e) = previous_hash past"
  proof (cases past rule: rev_cases)
    case (snoc xs x)
    then have "links P m xs x" using Cons.prems(2) by (auto elim: chain_snocE)
    with c(4) snoc show ?thesis by (auto simp: follows_def links_def previous_hash_def)
  qed (use c(3) in \<open>simp add: previous_hash_def\<close>)
  then have "links P m past e" using c(1,2) Cons.prems(3-5) by (simp add: links_def)
  with Cons.IH [OF v(2) chain_snoc [OF Cons.prems(2)]] Cons.prems(3-5) show ?case by simp
qed simp

lemma accepted_chain:
  assumes "iter_canonical_jsonl P (map InBytes ls) = (es, Inr ())" "verify_against P r m es = Inr ()"
  shows "chain P m es"
proof -
  obtain z where "verify_events P (r_body r) None 0 None [] es = Inr z" "rb_run_id (r_body r) = mb_run_id (m_body m)"
    "rb_manifest_hash (r_body r) = m_hash m"
    using assms(2) by (auto simp: verify_against_def verify_stream_def verify_prefix_def split: if_splits)
  moreover have "list_all (\<lambda>e. validate_event_body P (ev_body e) = Inr (ev_body e) \<and> validate_event P e = Inr e) es"
    using assms(1)
  proof (induction ls arbitrary: es)
    case (Cons l ls)
    then show ?case by (auto split: sum.splits prod.splits dest: line_Inr)
  qed simp
  ultimately show ?thesis using verify_events_chains [of P "r_body r" "[]" None "[]" es z m] chain_Nil by simp
qed

text \<open>
  C29. An accepted receipt describes its evidence: the events of the file are a hash chain of the manifest's run from
  sequence number zero; the receipt counts exactly the events, the DISPATCH and RESULT events, and the decisions that allow
  or refuse; there is exactly one KILL_ACKNOWLEDGED event when the receipt carries an acknowledgement and none otherwise;
  and the report repeats the counts.
\<close>

theorem audited_receipt_describes_evidence:
  assumes "verify_bundle P m r (map InBytes ls) key = Inr report"
  shows "\<exists>es. iter_canonical_jsonl P (map InBytes ls) = (es, Inr ()) \<and> chain P m es \<and> rb_event_count (r_body r) = int (length es) \<and>
    rb_dispatched_request_count (r_body r) = number_of DISPATCH es \<and> rb_completed_request_count (r_body r) = number_of RESULT es \<and>
    rb_allowed_request_count (r_body r) = int (length (filter (allows P) es)) \<and>
    rb_allowed_request_count (r_body r) + rb_denied_request_count (r_body r) = number_of DECISION es \<and>
    number_of KILL_ACKNOWLEDGED es = (if rb_kill_acknowledgement (r_body r) = None then 0 else 1) \<and>
    vr_event_count report = rb_event_count (r_body r) \<and> vr_dispatch_count report = rb_dispatched_request_count (r_body r)"
  by (rule verify_bundle_sound [OF assms]) (auto simp: check_counters_def history_stats_def accepted_chain split: if_splits)

text \<open>A signature in the form of its class, by the key that the signed body names.\<close>

definition signed_as :: "pystr \<Rightarrow> ed_signature \<Rightarrow> bool" where
  "signed_as kid s \<longleftrightarrow> sig_key_id s = kid \<and> opaque_id (sig_key_id s) \<and> is_ok (b64url_decode 64 (sig_value s))"

text \<open>
  C33. What the auditor reads is well-formed. Every event that the reader yields, even from a file it gives up on later, has
  a valid body, a canonical payload with the digest the body states, and the hash of that body; and every decision and every
  acknowledgement read from a payload has a valid body, the hash of that body, and a well-formed signature that names the
  key its body names.
\<close>

theorem audited_records_valid:
  assumes "iter_canonical_jsonl P lines = (es, ended)" "e \<in> set es"
  shows "validate_event_body P (ev_body e) = Inr (ev_body e) \<and> sha256_hex_text (ev_hash e) \<and>
    domain_hash P ''EVENT-HASH'' (dump_event_body (ev_body e)) = Inr (ev_hash e) \<and>
    is_ok (canonicalize_json_text P (eb_payload_canonical_json (ev_body e))) \<and>
    payload_sha256 P (eb_payload_canonical_json (ev_body e)) = Inr (eb_payload_sha256 (ev_body e)) \<and>
    opt_all (\<lambda>d. validate_decision_body P (d_body d) = Inr (d_body d) \<and> sha256_hex_text (d_hash d) \<and>
      domain_hash P ''DECISION-HASH'' (dump_decision_body (d_body d)) = Inr (d_hash d) \<and>
      signed_as (db_gateway_key_id (d_body d)) (d_signature d)) (decision_in P e) \<and>
    (case payload_of P (kill_ack_of_json P) e of
       Inl _ \<Rightarrow> True
     | Inr k \<Rightarrow> validate_kill_ack_body P (k_body k) = Inr (k_body k) \<and> sha256_hex_text (k_hash k) \<and>
         domain_hash P ''KILL-ACK-HASH'' (dump_kill_ack_body (k_body k)) = Inr (k_hash k) \<and>
         signed_as (ka_supervisor_key_id (k_body k)) (k_signature k))"
proof -
  have line: "validate_event_body P (ev_body e) = Inr (ev_body e) \<and> validate_event P e = Inr e" if "event_of_line P l = Inr e" for l e
    using that event_wire.reads_valid by (fastforce simp: event_of_line_def split: if_splits)
  have ev: "validate_event_body P (ev_body e) = Inr (ev_body e) \<and> validate_event P e = Inr e"
    using assms
  proof (induction lines arbitrary: es)
    case (Cons l ls)
    then show ?case using line [of l] by (auto split: sum.splits prod.splits)
  qed simp
  then have "is_ok (canonicalize_json_text P (eb_payload_canonical_json (ev_body e))) \<and>
      payload_sha256 P (eb_payload_canonical_json (ev_body e)) = Inr (eb_payload_sha256 (ev_body e))"
    by (simp add: validate_event_body_def)
  moreover have "validate_decision_body P (d_body d) = Inr (d_body d) \<and> validate_signature (d_signature d) = Inr (d_signature d) \<and>
      validate_decision P d = Inr d" if "decision_in P e = Some d" for d
    using that decision_wire.reads_valid by (auto simp: decision_in_def payload_of_def split: sum.splits)
  moreover have "validate_kill_ack_body P (k_body k) = Inr (k_body k) \<and> validate_signature (k_signature k) = Inr (k_signature k) \<and>
      validate_kill_ack P k = Inr k" if "payload_of P (kill_ack_of_json P) e = Inr k" for k
    using that kill_ack_wire.reads_valid by (auto simp: payload_of_def)
  ultimately show ?thesis using ev
    by (cases "decision_in P e"; cases "payload_of P (kill_ack_of_json P) e")
      (auto simp: validate_event_def validate_decision_def validate_kill_ack_def validate_signature_def signed_as_def)
qed

section \<open>A receipt requested too early\<close>

text \<open>
  C35. A receipt requested too early cannot be mended. Between the kill mark and the commit of the acknowledgement no
  acknowledgement is recorded yet; another thread's \<open>receipt\<close> can fall there, because the two operations hold different
  locks. It seals the ledger with the events it has: before the acknowledgement is stored the request raises, afterwards it
  may return a KILLED receipt, but then \<open>verify_bundle\<close> refuses that receipt with the evidence of the ledger, for every
  manifest and key. In both cases the commit of the acknowledgement raises, whatever the environment does.
\<close>

theorem premature_receipt_blocks_acknowledgement:
  assumes "calm E" "rs_phase (w_state w) = PhKilled" "\<not> sv_emergency_failure (w_supervisor w)" "sv_receipt (w_supervisor w) = None"
    "number_of KILL_ACKNOWLEDGED (ld_events (w_ledger w)) = 0" "status = None \<or> status = Some KILLED" "fair_env P E'"
  shows "\<exists>res w'. BCP_Supervisor.receipt P C E status w = (res, w') \<and> ld_sealed (w_ledger w') \<and>
    ld_events (w_ledger w') = ld_events (w_ledger w) \<and>
    (sv_kill_acknowledgement (w_supervisor w) = None \<longrightarrow> (\<exists>x. res = Inl x)) \<and>
    (\<forall>r lines m key. res = Inr r \<and> iter_canonical_jsonl P lines = (ld_events (w_ledger w'), Inr ()) \<longrightarrow>
       (\<exists>x. verify_bundle P m r lines key = Inl x)) \<and>
    (\<forall>payload t. \<exists>y. fst (commit P E' KILL_ACKNOWLEDGED payload None t w') = Inl y) \<and>
    (\<forall>k t. \<exists>y. fst (record_ack P E' k t w') = Inl y)"
proof -
  obtain res w' where r: "BCP_Supervisor.receipt P C E status w = (res, w')" "ld_sealed (w_ledger w')"
    "ld_events (w_ledger w') = ld_events (w_ledger w)"
    "\<And>r. res = Inr r \<Longrightarrow> rb_kill_acknowledgement (r_body r) \<noteq> None" "\<And>r. res = Inr r \<Longrightarrow> sv_kill_acknowledgement (w_supervisor w) \<noteq> None"
    using killed_receipt_seals [OF assms(1-4,6), of P C] by auto
  have "\<exists>x. verify_bundle P m r lines key = Inl x"
    if "res = Inr r" "iter_canonical_jsonl P lines = (ld_events (w_ledger w'), Inr ())" for r lines m key
  proof (cases "verify_bundle P m r lines key")
    case (Inr report)
    have "check_counters (r_body r) (history_stats P (ld_events (w_ledger w))) = Inr ()"
      by (rule verify_bundle_sound [OF Inr]) (use that(2) r(3) in auto)
    with assms(5) r(4) [OF that(1)] show ?thesis by (auto simp: check_counters_def history_stats_def split: if_splits)
  qed simp
  moreover have "\<exists>x. res = Inl x" if "sv_kill_acknowledgement (w_supervisor w) = None" using r(5) that by (cases res) auto
  ultimately show ?thesis using r(1-3) sealed_commit_raises [OF assms(7) r(2)] sealed_ack_raises [OF assms(7) r(2)]
    by (intro exI [of _ res] exI [of _ w'] conjI) auto
qed

section \<open>A request identifier that is used twice\<close>

text \<open>Two REQUEST events with one identifier make evidence unacceptable for every manifest, receipt and key.\<close>

lemma repeated_request_raises:
  assumes "iter_canonical_jsonl P lines = (xs @ q # ys @ q' # zs, Inr ())" "of_request REQUEST rid q" "of_request REQUEST rid q'"
  shows "\<exists>x. verify_bundle P m r lines key = Inl x"
proof (cases "verify_bundle P m r lines key")
  case (Inr report)
  have "justified_run P m r [] ((xs @ q # ys) @ q' # zs)" by (rule verify_bundle_sound [OF Inr]) (use assms(1) in auto)
  from justified_run_at [OF this] assms(2,3) show ?thesis
    by (auto simp: justified_def justified_request_def of_request_def)
qed simp

text \<open>
  C38. The gateway serves a repeated request identifier, and the evidence is lost for the auditor. When the ledger already
  holds a REQUEST event with the identifier of a permitted request, \<open>submit_raw\<close> accepts the request like a new one and
  \<open>dispatch\<close> sends it; the evidence file of the ledger is still read without an error, but \<open>verify_bundle\<close> raises on it for
  every manifest, receipt and key, and on every evidence file that continues it.
\<close>

theorem duplicate_request_rejected:
  assumes "servable P C E n raw a rule secret t w" "q \<in> set (ld_events (w_ledger w))" "of_request REQUEST (a_request_id a) q"
  shows "\<exists>d w1 w2 b. submit_raw P C E raw w =
      (Inr \<lparr> gr_accepted = True, gr_reason_code = lit ''policy.allowed'', gr_action = Some a, gr_decision = Some d \<rparr>, w1) \<and>
    dispatch P C E a d (e_mono E k) w1 = (Inr t, w2) \<and> canonical_jsonl_bytes P (ld_events (w_ledger w2)) = Inr b \<and>
    iter_canonical_jsonl P (map InBytes (file_lines b)) = (ld_events (w_ledger w2), Inr ()) \<and>
    (\<forall>lines later m r key. iter_canonical_jsonl P lines = (ld_events (w_ledger w2) @ later, Inr ()) \<longrightarrow>
       (\<exists>x. verify_bundle P m r lines key = Inl x))"
proof -
  obtain d w1 w2 e1 e2 e3 e4 aid where s: "submit_raw P C E raw w =
      (Inr \<lparr> gr_accepted = True, gr_reason_code = lit ''policy.allowed'', gr_action = Some a, gr_decision = Some d \<rparr>, w1)"
    "accepted_in P C E a rule (Suc (Suc n)) e1 e2 d aid (int (length raw)) (e_mono E (w_ticks w)) w w1"
    "dispatch P C E a d (e_mono E k) w1 = (Inr t, w2)" "ld_events (w_ledger w2) = ld_events (w_ledger w) @ [e1, e2, e3, e4]"
    "room P E n w2" using serve_run [OF assms(1), of k] by blast
  have rec: "recorded P (ld_manifest (w_ledger w2)) (w_mirror w2) (ld_events (w_ledger w2))" using s(5) by (simp add: room_def)
  then obtain b where b: "canonical_jsonl_bytes P (ld_events (w_ledger w2)) = Inr b" by (auto simp: recorded_def mirror_of_def)
  have read: "iter_canonical_jsonl P (map InBytes (file_lines b)) = (ld_events (w_ledger w2), Inr ())"
    using file_read_back [OF chain_valid b] rec by (auto simp: recorded_def)
  have e1: "of_request REQUEST (a_request_id a) e1"
    using s(2) by (auto simp: accepted_in_def requested_def event_of_def of_request_def event_request_def)
  obtain xs ys where "ld_events (w_ledger w) = xs @ q # ys" using split_list [OF assms(2)] by blast
  then have "ld_events (w_ledger w2) @ later = xs @ q # ys @ e1 # [e2, e3, e4] @ later" for later using s(4) by simp
  then show ?thesis using s(1,3) b read repeated_request_raises [OF _ assms(3) e1] by metis
qed

text \<open>The same request again, as far as the runtime is concerned.\<close>

lemma served_again:
  assumes sv: "servable P C E (n + 4) raw a rule secret t w" and tokens: "\<And>i. w_ticks w + 9 < i \<Longrightarrow> e_token E i \<noteq> e_token E (w_ticks w + 9)"
    and pol: "\<And>i. permitted (count_use a rule (w_policy w)) a (strftime_utc (e_wall E i)) rule"
    and adm: "\<And>aid s i. s = served_state aid (max_response_bytes rule) (tr_response_bytes t)
        ((snd (admit (int (length raw)) (e_mono E (w_ticks w)) (w_state w)))
          \<lparr> rs_allowed := rs_allowed (snd (admit (int (length raw)) (e_mono E (w_ticks w)) (w_state w))) + 1 \<rparr>) \<Longrightarrow>
      fst (admit (int (length raw)) (e_mono E i) s) = Inr ADMITTED \<and> \<not> budget_blocked (max_response_bytes rule) s"
  shows "\<exists>d w1 w2 q. submit_raw P C E raw w =
      (Inr \<lparr> gr_accepted = True, gr_reason_code = lit ''policy.allowed'', gr_action = Some a, gr_decision = Some d \<rparr>, w1) \<and>
    dispatch P C E a d (e_mono E k) w1 = (Inr t, w2) \<and> servable P C E n raw a rule secret t w2 \<and>
    q \<in> set (ld_events (w_ledger w2)) \<and> of_request REQUEST (a_request_id a) q"
proof -
  obtain d w1 w2 e1 e2 e3 e4 aid where s: "submit_raw P C E raw w =
      (Inr \<lparr> gr_accepted = True, gr_reason_code = lit ''policy.allowed'', gr_action = Some a, gr_decision = Some d \<rparr>, w1)"
    "accepted_in P C E a rule (Suc (Suc (n + 4))) e1 e2 d aid (int (length raw)) (e_mono E (w_ticks w)) w w1"
    "dispatch P C E a d (e_mono E k) w1 = (Inr t, w2)" "ld_events (w_ledger w2) = ld_events (w_ledger w) @ [e1, e2, e3, e4]"
    "same_parameters (w_ledger w) (w_ledger w2)" "room P E (n + 4) w2"
    "w_state w2 = served_state aid (max_response_bytes rule) (tr_response_bytes t) (w_state w1)" "w_supervisor w2 = w_supervisor w"
    "rg_events (w_registry w2) = rg_events (w_registry w)" "w_policy w2 = count_use a rule (w_policy w)"
    "aid = lit ''auth:'' @ e_token E (w_ticks w + 9)" "w_ticks w + 9 < w_ticks w2"
    using serve_run [OF sv, of k] by blast
  let ?s = "snd (admit (int (length raw)) (e_mono E (w_ticks w)) (w_state w))"
  from s(2,7) have st: "w_state w2 = served_state aid (max_response_bytes rule) (tr_response_bytes t) (?s\<lparr> rs_allowed := rs_allowed ?s + 1 \<rparr>)"
    by (simp add: accepted_in_def)
  from sv have h: "acceptable P C E a rule w" "admissible C E raw w" "ld_manifest (w_ledger w) = cf_manifest C"
    "from_wire P (InBytes raw) = Inr a" "deliverable P C E a rule secret t" "\<And>i j. e_mono E j \<le> e_mono E i + cf_authorization_ttl_ns C"
    and fresh: "\<And>j. w_ticks w \<le> j \<Longrightarrow> lit ''auth:'' @ e_token E j \<notin> rs_consumed (w_state w) \<and>
        map_of (rg_events (w_registry w)) (lit ''auth:'' @ e_token E j) = None"
    by (simp_all add: servable_def)
  have "admit (int (length raw)) (e_mono E (w_ticks w)) (w_state w) = (Inr ADMITTED, ?s)"
    using h(2) unfolding admissible_def by (metis prod.collapse)
  note ad = admit_admitted [OF this]
  have "rs_kill_epoch (w_state w2) = rs_kill_epoch (w_state w)" and used: "rs_consumed (w_state w2) = insert aid (rs_consumed (w_state w))"
    using ad(2,3) by (simp_all add: st served_state_def complete_dispatch_def reserve_dispatch_def)
  moreover from h(1) have "engine_of P C (w_policy w)" by (simp add: acceptable_def)
  then have "engine_of P C (w_policy w2)" unfolding s(10) engine_of_def policy_wf_def count_use_fields .
  ultimately have "acceptable P C E a rule w2" using h(1) pol by (simp add: acceptable_def s(10))
  moreover have "lit ''auth:'' @ e_token E i \<notin> rs_consumed (w_state w2) \<and>
      map_of (rg_events (w_registry w2)) (lit ''auth:'' @ e_token E i) = None" if "w_ticks w2 \<le> i" for i
    using fresh [of i] tokens [of i] s(9,11,12) used that by auto
  moreover have "admissible C E raw w2" "\<not> budget_blocked (max_response_bytes rule) (w_state w2)"
    using adm [OF st] h(2) s(8) by (simp_all add: admissible_def)
  moreover have "ld_manifest (w_ledger w2) = cf_manifest C" using h(3) s(5) by (simp add: same_parameters_def)
  ultimately have "servable P C E n raw a rule secret t w2" using s(6) h(4-6) by (simp add: servable_def)
  moreover have "of_request REQUEST (a_request_id a) e1"
    using s(2) by (auto simp: accepted_in_def requested_def event_of_def of_request_def event_request_def)
  moreover have "e1 \<in> set (ld_events (w_ledger w2))" using s(4) by simp
  ultimately show ?thesis using s(1,3) by blast
qed

section \<open>Witnesses\<close>

lemma sample_evidence_read:
  "\<exists>r b report past e later. verify_bundle sample_prims sample_manifest r (map InBytes (file_lines b)) operator_key = Inr report \<and>
     iter_canonical_jsonl sample_prims (map InBytes (file_lines b)) = (past @ e # later, Inr ()) \<and> eb_kind (ev_body e) = DISPATCH"
proof -
  obtain r b report where v: "verify_bundle sample_prims sample_manifest r (map InBytes (file_lines b)) operator_key = Inr report"
    "vr_dispatch_count report = 1" using sample_audited by blast
  obtain es where es: "iter_canonical_jsonl sample_prims (map InBytes (file_lines b)) = (es, Inr ())" "number_of DISPATCH es = 1"
    by (rule verify_bundle_sound [OF v(1)]) (use v(2) in auto)
  have "filter (\<lambda>e. eb_kind (ev_body e) = DISPATCH) es \<noteq> []" using es(2) by (auto simp: number_of_def)
  then obtain e where "e \<in> set es" "eb_kind (ev_body e) = DISPATCH" by (auto simp: filter_empty_conv)
  then obtain past later where "es = past @ e # later" using split_list [of e es] by blast
  with es(1) v(1) \<open>eb_kind (ev_body e) = DISPATCH\<close> show ?thesis by blast
qed

theorem evidence_file_roundtrip_witness:
  "\<exists>w b. served_run sample_prims sample_config still_env sample_world w \<and> rs_dispatched (w_state w) = 1 \<and>
     canonical_jsonl_bytes sample_prims (ld_events (w_ledger w)) = Inr b \<and>
     iter_canonical_jsonl sample_prims (map InBytes (file_lines b)) = (ld_events (w_ledger w), Inr ())"
proof -
  obtain w where w: "served_run sample_prims sample_config still_env sample_world w" "rs_dispatched (w_state w) = 1"
    using sample_served_run by blast
  have c: "chain sample_prims (cf_manifest sample_config) (ld_events (w_ledger w))"
    and "\<exists>b. canonical_jsonl_bytes sample_prims (ld_events (w_ledger w)) = Inr b"
    using served_run_ready [OF w(1) sample_fresh] by (auto simp: run_ready_def recorded_def mirror_of_def)
  then obtain b where "canonical_jsonl_bytes sample_prims (ld_events (w_ledger w)) = Inr b" by blast
  with evidence_file_roundtrip [OF c, of b] w show ?thesis by blast
qed

theorem evidence_tamper_evident_witness:
  "\<exists>r b report. verify_bundle sample_prims sample_manifest r (map InBytes (file_lines b)) operator_key = Inr report \<and>
     vr_dispatch_count report = 1 \<and> (b = b \<or> collision sample_prims b b)"
proof -
  obtain r b report where v: "verify_bundle sample_prims sample_manifest r (map InBytes (file_lines b)) operator_key = Inr report"
    "vr_dispatch_count report = 1" using sample_audited by blast
  from evidence_tamper_evident [OF v(1) v(1)] v show ?thesis by blast
qed

theorem audited_dispatch_traces_back_witness:
  "\<exists>r b report past e later. verify_bundle sample_prims sample_manifest r (map InBytes (file_lines b)) operator_key = Inr report \<and>
     iter_canonical_jsonl sample_prims (map InBytes (file_lines b)) = (past @ e # later, Inr ()) \<and> eb_kind (ev_body e) = DISPATCH \<and>
     traces_back sample_prims sample_manifest past e"
  using sample_evidence_read audited_dispatch_traces_back by blast

theorem audited_receipt_describes_evidence_witness:
  "\<exists>r b report es. verify_bundle sample_prims sample_manifest r (map InBytes (file_lines b)) operator_key = Inr report \<and>
     iter_canonical_jsonl sample_prims (map InBytes (file_lines b)) = (es, Inr ()) \<and> chain sample_prims sample_manifest es \<and>
     number_of DISPATCH es = 1"
proof -
  obtain r b report where v: "verify_bundle sample_prims sample_manifest r (map InBytes (file_lines b)) operator_key = Inr report"
    "vr_dispatch_count report = 1" using sample_audited by blast
  from audited_receipt_describes_evidence [OF v(1)] v show ?thesis by fastforce
qed

theorem audited_records_valid_witness:
  "\<exists>b es e. iter_canonical_jsonl sample_prims (map InBytes (file_lines b)) = (es, Inr ()) \<and> e \<in> set es \<and>
     domain_hash sample_prims ''EVENT-HASH'' (dump_event_body (ev_body e)) = Inr (ev_hash e)"
proof -
  obtain b past e later where v: "iter_canonical_jsonl sample_prims (map InBytes (file_lines b)) = (past @ e # later, Inr ())"
    using sample_evidence_read by blast
  have "e \<in> set (past @ e # later)" by simp
  from audited_records_valid [OF v this] v this show ?thesis by blast
qed

text \<open>The sample run killed after its violation, at the moment at which the acknowledgement is stored and not yet recorded.\<close>

definition acknowledging_world :: "kill_ack \<Rightarrow> world" where
  "acknowledging_world k =
     triggered_world\<lparr> w_state := killed_state (w_state triggered_world),
       w_supervisor := (w_supervisor triggered_world)\<lparr> sv_kill_acknowledgement := Some k \<rparr> \<rparr>"

lemma acknowledging_receipt:
  "\<exists>k r w'. BCP_Supervisor.receipt sample_prims sample_config still_env None (acknowledging_world k) = (Inr r, w') \<and>
     rb_status (r_body r) = KILLED"
proof -
  let ?w = triggered_world
  obtain k :: kill_ack and w1 :: world where k: "\<forall>j \<ge> w_ticks w1. ack_fits sample_prims sample_config still_env (ld_events (w_ledger w1)) j k"
    using contain_total [OF triggered_containable] by (elim exE conjE) (rule that)
  let ?v = "acknowledging_world k"
  have fits: "ack_fits sample_prims sample_config still_env es j k" for es j
    using k [rule_format, of "w_ticks w1"] by (simp add: ack_fits_def still_env_def)
  have c: "issuable sample_prims sample_config still_env (ld_events (w_ledger ?w)) ?w"
    "rs_phase (w_state ?w) = PhRunning \<or> rs_phase (w_state ?w) = PhKilling" "\<not> sv_emergency_failure (w_supervisor ?w)"
    using triggered_containable unfolding containable_def by blast+
  note ks = killed_state_props [OF c(2)]
  have i: "issuable sample_prims sample_config still_env (ld_events (w_ledger ?w)) ?v"
    using c(1) ks(3,4) by (simp add: issuable_def acknowledging_world_def clocks_sound_def)
  have "derive_status (rs_phase (w_state ?v)) (sv_emergency_failure (w_supervisor ?v)) = Inr KILLED"
    using ks(2) c(3) by (simp add: derive_status_def acknowledging_world_def)
  from receipt_total [OF i this _ _ disjI1 [OF refl]] fits show ?thesis
    by (auto simp: acknowledging_world_def issued_def)
qed

theorem premature_receipt_blocks_acknowledgement_witness:
  "(\<exists>x w'. BCP_Supervisor.receipt sample_prims sample_config still_env None
      (sample_world\<lparr> w_state := killed_state (init_state sample_criteria) \<rparr>) = (Inl x, w') \<and> ld_sealed (w_ledger w')) \<and>
   (\<exists>k r w'. BCP_Supervisor.receipt sample_prims sample_config still_env None (acknowledging_world k) = (Inr r, w') \<and>
      rb_status (r_body r) = KILLED \<and> ld_sealed (w_ledger w') \<and>
      (\<forall>t. \<exists>y. fst (commit sample_prims still_env KILL_ACKNOWLEDGED (dump_kill_ack k) None t w') = Inl y) \<and>
      (\<exists>b x. canonical_jsonl_bytes sample_prims (ld_events (w_ledger w')) = Inr b \<and>
         verify_bundle sample_prims sample_manifest r (map InBytes (file_lines b)) operator_key = Inl x))"
proof (rule conjI)
  have "rs_phase (init_state sample_criteria) = PhRunning" by (simp add: init_state_def)
  then show "\<exists>x w'. BCP_Supervisor.receipt sample_prims sample_config still_env None
      (sample_world\<lparr> w_state := killed_state (init_state sample_criteria) \<rparr>) = (Inl x, w') \<and> ld_sealed (w_ledger w')"
    using premature_receipt_blocks_acknowledgement [OF still_calm _ _ _ _ disjI1 [OF refl] still_fair,
      of "sample_world\<lparr> w_state := killed_state (init_state sample_criteria) \<rparr>" sample_config]
    by (auto simp: init_supervisor_def killed_state_props sample_ledger_def number_of_def)
next
  obtain k r w' where r: "BCP_Supervisor.receipt sample_prims sample_config still_env None (acknowledging_world k) = (Inr r, w')"
    "rb_status (r_body r) = KILLED" using acknowledging_receipt by blast
  let ?v = "acknowledging_world k" and ?es = "ld_events (w_ledger triggered_world)"
  have "rs_phase (w_state ?v) = PhKilled" "\<not> sv_emergency_failure (w_supervisor ?v)" "sv_receipt (w_supervisor ?v) = None"
    "number_of KILL_ACKNOWLEDGED (ld_events (w_ledger ?v)) = 0"
    using triggered_containable triggered_events killed_state_props(2) [of "w_state triggered_world"]
    by (auto simp: containable_def issuable_def acknowledging_world_def number_of_def)
  from premature_receipt_blocks_acknowledgement [OF still_calm this disjI1 [OF refl] still_fair, of sample_config] r(1)
  have p: "ld_sealed (w_ledger w')" "ld_events (w_ledger w') = ?es"
    "\<And>t. \<exists>y. fst (commit sample_prims still_env KILL_ACKNOWLEDGED (dump_kill_ack k) None t w') = Inl y"
    "\<And>lines m key. iter_canonical_jsonl sample_prims lines = (?es, Inr ()) \<Longrightarrow> \<exists>x. verify_bundle sample_prims m r lines key = Inl x"
    by (auto simp: acknowledging_world_def)
  have rec: "recorded sample_prims sample_manifest (w_mirror triggered_world) ?es"
    using triggered_containable by (simp add: containable_def issuable_def sample_config_def)
  then obtain b where b: "canonical_jsonl_bytes sample_prims ?es = Inr b" by (auto simp: recorded_def mirror_of_def)
  have "chain sample_prims sample_manifest ?es" using rec by (simp add: recorded_def)
  from p(4) [OF file_read_back [OF chain_valid [OF this] b]] obtain x where
    "verify_bundle sample_prims sample_manifest r (map InBytes (file_lines b)) operator_key = Inl x" by blast
  with r p b show "\<exists>k r w'. BCP_Supervisor.receipt sample_prims sample_config still_env None (acknowledging_world k) = (Inr r, w') \<and>
      rb_status (r_body r) = KILLED \<and> ld_sealed (w_ledger w') \<and>
      (\<forall>t. \<exists>y. fst (commit sample_prims still_env KILL_ACKNOWLEDGED (dump_kill_ack k) None t w') = Inl y) \<and>
      (\<exists>b x. canonical_jsonl_bytes sample_prims (ld_events (w_ledger w')) = Inr b \<and>
         verify_bundle sample_prims sample_manifest r (map InBytes (file_lines b)) operator_key = Inl x)"
    by (intro exI [of _ k] exI [of _ r] exI [of _ w'] conjI) auto
qed

end
