(* ===== verification/BCP_Factory.thy ===== *)
theory BCP_Factory
  imports BCP_Adapter BCP_Audited
begin

text \<open>
  The reference factory of \<^verbatim>\<open>app/factory.py\<close>: \<open>build_reference_runtime\<close> from the time, the four private keys,
  the limits and the clock readings of the supervisor to the configuration and the world of a new runtime, with the
  constructors of the supervisor, the gateway and the executor. Times are in UTC, as the default and all callers
  have them. Key generation is outside; the keys are an argument. The transport and the isolation backend that the factory
  passes to the executor and the supervisor are answers of the environment in this model (\<open>reference_callbacks\<close>).
\<close>

section \<open>Times\<close>

definition minus_second :: "datetime \<Rightarrow> datetime result" where
  "minus_second d =
     (if 0 < dt_second d then Inr (d\<lparr> dt_second := dt_second d - 1 \<rparr>)
      else if 0 < dt_minute d then Inr (d\<lparr> dt_minute := dt_minute d - 1, dt_second := 59 \<rparr>)
      else if 0 < dt_hour d then Inr (d\<lparr> dt_hour := dt_hour d - 1, dt_minute := 59, dt_second := 59 \<rparr>)
      else if 1 < dt_day d then Inr (d\<lparr> dt_day := dt_day d - 1, dt_hour := 23, dt_minute := 59, dt_second := 59 \<rparr>)
      else if 1 < dt_month d
      then Inr (d\<lparr> dt_month := dt_month d - 1, dt_day := days_in_month (dt_year d) (dt_month d - 1),
                   dt_hour := 23, dt_minute := 59, dt_second := 59 \<rparr>)
      else if 1 < dt_year d
      then Inr (d\<lparr> dt_year := dt_year d - 1, dt_month := 12, dt_day := 31, dt_hour := 23, dt_minute := 59, dt_second := 59 \<rparr>)
      else Inl (OverflowError ''date value out of range''))"

definition plus_hour :: "datetime \<Rightarrow> datetime result" where
  "plus_hour d =
     (if dt_hour d < 23 then Inr (d\<lparr> dt_hour := dt_hour d + 1 \<rparr>)
      else if dt_day d < days_in_month (dt_year d) (dt_month d) then Inr (d\<lparr> dt_day := dt_day d + 1, dt_hour := 0 \<rparr>)
      else if dt_month d < 12 then Inr (d\<lparr> dt_month := dt_month d + 1, dt_day := 1, dt_hour := 0 \<rparr>)
      else if dt_year d < 9999 then Inr (d\<lparr> dt_year := dt_year d + 1, dt_month := 1, dt_day := 1, dt_hour := 0 \<rparr>)
      else Inl (OverflowError ''date value out of range''))"

section \<open>Keys and limits\<close>

record key_bundle =
  kb_operator :: bytes
  kb_gateway :: bytes
  kb_supervisor :: bytes
  kb_witness :: bytes

definition public_of :: "prims \<Rightarrow> bytes \<Rightarrow> string \<Rightarrow> ed_public_key result" where
  "public_of P key kid = public_key_from_bytes (lit kid) (p_public P key)"

definition demo_spki_pin :: pystr where
  "demo_spki_pin = b64url_encode (replicate 32 80)"

text \<open>The keyword arguments of \<open>build_reference_runtime\<close> and their defaults.\<close>

record runtime_limits =
  rl_max_requests_per_window :: int
  rl_max_admitted_requests :: int
  rl_max_total_events :: int
  rl_max_runtime_ms :: int
  rl_max_queued_events :: int
  rl_max_total_egress_bytes :: int

definition default_limits :: runtime_limits where
  "default_limits =
     \<lparr> rl_max_requests_per_window = 128, rl_max_admitted_requests = 10000, rl_max_total_events = 40000,
       rl_max_runtime_ms = 3600000, rl_max_queued_events = 1024, rl_max_total_egress_bytes = 8388608 \<rparr>"

section \<open>The manifest\<close>

definition package_rule :: "runtime_limits \<Rightarrow> egress_rule" where
  "package_rule L =
     \<lparr> rule_id = lit ''package-read'', rule_host = lit ''packages.example.test'', rule_port = 443, rule_methods = [POST],
       path_prefixes = [lit ''/v1/packages''], resolved_ip_cidrs = [lit ''203.0.113.0/24''],
       rule_tls_spki_sha256 = [demo_spki_pin], max_requests = rl_max_admitted_requests L,
       max_request_bytes = 65536, max_response_bytes = 1048576 \<rparr>"

definition runtime_criteria :: "runtime_limits \<Rightarrow> kill_criteria" where
  "runtime_criteria L =
     \<lparr> deny_is_kill = True, max_runtime_ms = rl_max_runtime_ms L, max_total_events = rl_max_total_events L,
       max_admitted_requests = rl_max_admitted_requests L, max_inflight_requests = 64,
       max_requests_per_window = rl_max_requests_per_window L, rate_window_ms = 1000,
       max_queued_events = rl_max_queued_events L, max_event_payload_bytes = 262144,
       max_total_egress_bytes = rl_max_total_egress_bytes L, supervisor_kill_latency_sla_ms = 1000 \<rparr>"

definition canary_grant :: "pystr \<Rightarrow> credential_grant" where
  "canary_grant expires =
     \<lparr> credential_id = lit ''credential:canary'', broker_ref = lit ''broker:canary'', audience = lit ''packages.example.test'',
       allowed_rule_ids = [lit ''package-read''], scopes = [lit ''tripwire''], grant_expires_at = expires, max_uses = 1,
       is_canary = True \<rparr>"

definition package_grant :: "runtime_limits \<Rightarrow> pystr \<Rightarrow> credential_grant" where
  "package_grant L expires =
     \<lparr> credential_id = lit ''credential:package-read'', broker_ref = lit ''broker:package-read'',
       audience = lit ''packages.example.test'', allowed_rule_ids = [lit ''package-read''], scopes = [lit ''packages:read''],
       grant_expires_at = expires, max_uses = rl_max_admitted_requests L, is_canary = False \<rparr>"

definition runtime_manifest :: "prims \<Rightarrow> datetime \<Rightarrow> key_bundle \<Rightarrow> runtime_limits \<Rightarrow> manifest result" where
  "runtime_manifest P now keys L =
     bind_result (minus_second now) (\<lambda>issued.
     bind_result (plus_hour now) (\<lambda>expires.
     bind_result (validate_egress_rule P (package_rule L)) (\<lambda>rule.
     bind_result (validate_kill_criteria (runtime_criteria L)) (\<lambda>criteria.
     bind_result (format_utc_timestamp issued) (\<lambda>issued_at.
     bind_result (format_utc_timestamp expires) (\<lambda>expires_at.
     bind_result (public_of P (kb_gateway keys) ''gateway:demo'') (\<lambda>gateway_key.
     bind_result (public_of P (kb_supervisor keys) ''supervisor:demo'') (\<lambda>supervisor_key.
     bind_result (public_of P (kb_witness keys) ''witness:demo'') (\<lambda>witness_key.
     bind_result (validate_credential_grant P (canary_grant expires_at)) (\<lambda>canary.
     bind_result (validate_credential_grant P (package_grant L expires_at)) (\<lambda>grant.
     bind_result (validate_manifest_body P
       \<lparr> mb_manifest_id = lit ''manifest:demo'', mb_run_id = lit ''run:demo'', mb_issued_at = issued_at,
         mb_not_before = issued_at, mb_expires_at = expires_at, mb_operator_key_id = lit ''operator:demo'',
         mb_gateway_key = gateway_key, mb_supervisor_key = supervisor_key, mb_witness_key = witness_key,
         mb_allowed_egress = [rule], mb_credentials = [canary, grant], mb_second_hops = [], mb_kill_criteria = criteria \<rparr>) (\<lambda>body.
       sign_manifest P body (kb_operator keys)))))))))))))"

section \<open>The runtime\<close>

text \<open>
  The isolation backend and the transport of the demonstration. \<open>isolate\<close> is an operation on the list
  \<^verbatim>\<open>isolated_workloads\<close>.
\<close>

definition reference_isolate :: "(pystr list, isolation_result) op" where
  "reference_isolate isolated_workloads =
     (Inr \<lparr> iso_termination_mode = SIMULATED, iso_terminated_workload_ids = [], iso_inflight_cancelled = 0,
            iso_network_isolation_confirmed = False, iso_isolation_evidence_sha256 = None \<rparr>,
      isolated_workloads @ [lit ''simulation:demo''])"

definition package_secret :: bytes where
  "package_secret = lit ''demo-package-secret''"

definition reference_transport :: "prims \<Rightarrow> bool \<Rightarrow> action \<Rightarrow> bytes option \<Rightarrow> int \<Rightarrow> transport_result result" where
  "reference_transport P cancelled a secret bound =
     (let response = lit ''{'' @ [34] @ lit ''ok'' @ [34] @ lit '':true}'' in
      if cancelled then Inl (PermissionError ''transport cancelled before side effect'')
      else if int (length response) > bound then Inl (RuntimeError ''response bound exceeded'')
      else if (case a_credential_id a of None \<Rightarrow> False | Some c \<Rightarrow> c \<noteq> []) \<and> secret \<noteq> Some package_secret
      then Inl (PermissionError ''executor did not receive brokered credential'')
      else Inr \<lparr> tr_status_code = 200, tr_response_bytes = int (length response), tr_response_sha256 = sha256_hex P response \<rparr>)"

text \<open>
  The two callbacks reach the components through the environment, which answers the calls of \<^verbatim>\<open>isolate\<close> and
  \<^verbatim>\<open>transport\<close>: this is an environment with the callbacks of the factory. The answer of \<open>isolate\<close> does not depend on
  the list, and the list has an entry for each of the calls that the world counts.
\<close>

definition reference_callbacks :: "prims \<Rightarrow> action \<Rightarrow> bytes option \<Rightarrow> int \<Rightarrow> env \<Rightarrow> env" where
  "reference_callbacks P a secret bound E =
     E\<lparr> e_isolate := \<lambda>_. fst (reference_isolate []), e_transport := \<lambda>_. reference_transport P False a secret bound \<rparr>"

lemma reference_isolations:
  "fst (reference_isolate ws) = fst (reference_isolate [])"
  "((\<lambda>ws. snd (reference_isolate ws)) ^^ n) [] = replicate n (lit ''simulation:demo'')"
  by (simp add: reference_isolate_def, induction n) (simp_all add: reference_isolate_def replicate_append_same)

definition build_reference_runtime ::
  "prims \<Rightarrow> datetime \<Rightarrow> key_bundle \<Rightarrow> runtime_limits \<Rightarrow> datetime \<Rightarrow> int \<Rightarrow> (config \<times> world) result" where
  "build_reference_runtime P now keys L started_at started_ns =
     bind_result (runtime_manifest P now keys L) (\<lambda>m.
     bind_result (init_ledger m (lit ''gateway-instance:demo'') (rl_max_total_events L)
       (Some (max_queued_events (mb_kill_criteria (m_body m)))) None) (\<lambda>ledger.
       Inr (\<lparr> cf_manifest = m, cf_supervisor_private_key = kb_supervisor keys,
              cf_supervisor_instance_id = lit ''supervisor-instance:demo'', cf_gateway_private_key = kb_gateway keys,
              cf_gateway_instance_id = lit ''gateway-instance:demo'', cf_authorization_ttl_ns = 1000000000,
              cf_secrets = [lit ''broker:package-read'' \<mapsto> package_secret,
                            lit ''broker:canary'' \<mapsto> lit ''never-release-canary''] \<rparr>,
            \<lparr> w_state = init_state (mb_kill_criteria (m_body m)), w_ledger = ledger, w_mirror = init_mirror m,
              w_witness = \<lparr> wt_key = kb_witness keys, wt_key_id = key_id (mb_witness_key (m_body m)), wt_roots = (\<lambda>_. None) \<rparr>,
              w_policy = init_policy m, w_registry = init_registry,
              w_supervisor = init_supervisor started_at started_ns, w_overload_event = None, w_sent = [],
              w_isolations = 0, w_ticks = 0 \<rparr>)))"

section \<open>Issued and expires\<close>

lemma month_days: "28 \<le> days_in_month y m \<and> days_in_month y m \<le> 31"
  by (simp add: days_in_month_def)

lemma minus_second_ok:
  assumes "good_time d" "1001 \<le> dt_year d"
  shows "\<exists>e. minus_second d = Inr e \<and> good_time e \<and> instant e < instant d"
proof -
  have r: "1 \<le> dt_month d" "dt_month d \<le> 12" "1 \<le> dt_day d" "dt_day d \<le> days_in_month (dt_year d) (dt_month d)" "dt_day d \<le> 31"
    "0 \<le> dt_hour d" "dt_hour d \<le> 23" "0 \<le> dt_minute d" "dt_minute d \<le> 59" "0 \<le> dt_second d" "dt_second d \<le> 59"
    "0 \<le> dt_micro d" "dt_micro d \<le> 999999" "dt_year d \<le> 9999" "dt_aware d"
    using assms month_days [of "dt_year d" "dt_month d"] by (auto simp: good_time_def real_time_def)
  show ?thesis
    using assms(2) r month_days [of "dt_year d" "dt_month d - 1"]
    by (auto simp: minus_second_def good_time_def real_time_def instant_def days_in_month_def [of _ 12])
qed

lemma plus_hour_ok:
  assumes "good_time d" "dt_year d \<le> 9998"
  shows "\<exists>e. plus_hour d = Inr e \<and> good_time e \<and> instant d < instant e"
proof -
  have r: "1 \<le> dt_month d" "dt_month d \<le> 12" "1 \<le> dt_day d" "dt_day d \<le> days_in_month (dt_year d) (dt_month d)" "dt_day d \<le> 31"
    "0 \<le> dt_hour d" "dt_hour d \<le> 23" "0 \<le> dt_minute d" "dt_minute d \<le> 59" "0 \<le> dt_second d" "dt_second d \<le> 59"
    "0 \<le> dt_micro d" "dt_micro d \<le> 999999" "1000 \<le> dt_year d" "dt_aware d"
    using assms month_days [of "dt_year d" "dt_month d"] by (auto simp: good_time_def real_time_def)
  show ?thesis
    using assms(2) r month_days [of "dt_year d" "dt_month d + 1"] month_days [of "dt_year d + 1" 1]
    by (auto simp: plus_hour_def good_time_def real_time_def instant_def)
qed

lemma good_time_order:
  assumes "good_time d" "good_time e"
  shows "strftime_utc d < strftime_utc e \<longleftrightarrow> instant d < instant e"
proof -
  from assms have g: "real_time d" "1000 \<le> dt_year d" "dt_aware d" "real_time e" "1000 \<le> dt_year e" "dt_aware e"
    by (simp_all add: good_time_def)
  from timestamp_less_iff [OF strftime_shape(1) [OF g(1,2)] strftime_shape(1) [OF g(4,5)]]
  show ?thesis unfolding strftime_shape(2) [OF g(1-3)] strftime_shape(2) [OF g(4-6)] .
qed

section \<open>The literals of the manifest are valid\<close>

text \<open>\<open>str.lower\<close> leaves lower-case ASCII text alone.\<close>

definition lower_fixes_ascii :: "prims \<Rightarrow> bool" where
  "lower_fixes_ascii P \<longleftrightarrow> (\<forall>s. list_all (\<lambda>c. 0 \<le> c \<and> c < 128 \<and> \<not> (65 \<le> c \<and> c \<le> 90)) s \<longrightarrow> p_lower P s = s)"

definition prims_ok :: "prims \<Rightarrow> bool" where
  "prims_ok P \<longleftrightarrow> nfc_fixes_ascii P \<and> lower_fixes_ascii P \<and> digest_ok P \<and> signature_ok P"

lemma require_nfc_lit:
  assumes "nfc_fixes_ascii P" "list_all (\<lambda>c. \<not> digit7 c) s" "length s \<le> 128"
  shows "require_nfc P (lit s) = Inr (lit s)"
proof -
  have "ascii (lit s)" using short_lit [OF assms(2,3)] by (simp add: short_text_def)
  then have "str_ok P (lit s)" using assms(1) by (simp add: ascii_str_ok)
  then show ?thesis by (auto simp: str_ok_def require_nfc_def scalar_value_def)
qed

lemma host_literal: "prims_ok P \<Longrightarrow> is_ok (canonical_host P (lit ''packages.example.test''))"
proof -
  assume P: "prims_ok P"
  have "list_all (\<lambda>c. 0 \<le> c \<and> c < 128 \<and> \<not> (65 \<le> c \<and> c \<le> 90)) (lit ''packages.example.test'')" by code_simp
  then have "p_lower P (lit ''packages.example.test'') = lit ''packages.example.test''"
    using P unfolding prims_ok_def lower_fixes_ascii_def by blast
  moreover have "require_nfc P (lit ''packages.example.test'') = Inr (lit ''packages.example.test'')"
    by (rule require_nfc_lit) (use P in \<open>simp_all add: prims_ok_def\<close>)
  moreover have "last (lit ''packages.example.test'') \<noteq> 46" "42 \<notin> set (lit ''packages.example.test'')"
    "ip_address (lit ''packages.example.test'') = None" "list_all dns_label (split_on 46 (lit ''packages.example.test''))"
    by code_simp+
  ultimately show ?thesis by (simp add: canonical_host_def is_ok_iff)
qed

lemma path_literal: "prims_ok P \<Longrightarrow> is_ok (canonical_path_prefix P (lit ''/v1/packages''))"
proof -
  assume P: "prims_ok P"
  have "require_nfc P (lit ''/v1/packages'') = Inr (lit ''/v1/packages'')"
    by (rule require_nfc_lit) (use P in \<open>simp_all add: prims_ok_def\<close>)
  moreover have "str_startswith (lit ''/v1/packages'') [47]" "63 \<notin> set (lit ''/v1/packages'')" "35 \<notin> set (lit ''/v1/packages'')"
    "92 \<notin> set (lit ''/v1/packages'')" "37 \<notin> set (lit ''/v1/packages'')" "\<not> contains [47, 47] (lit ''/v1/packages'')"
    "\<not> list_ex dot_segment (split_on 47 (lit ''/v1/packages''))" "posix_path_str (lit ''/v1/packages'') = rstrip 47 (lit ''/v1/packages'')"
    by code_simp+
  ultimately show ?thesis by (simp add: canonical_path_prefix_def is_ok_iff)
qed

lemma cidr_literal: "prims_ok P \<Longrightarrow> is_ok (canonical_cidr P (lit ''203.0.113.0/24''))"
proof -
  assume P: "prims_ok P"
  have "require_nfc P (lit ''203.0.113.0/24'') = Inr (lit ''203.0.113.0/24'')"
    by (rule require_nfc_lit) (use P in \<open>simp_all add: prims_ok_def\<close>)
  moreover have "(case ip_network (lit ''203.0.113.0/24'') of None \<Rightarrow> False | Some n \<Rightarrow> with_prefixlen n = lit ''203.0.113.0/24'')"
    by code_simp
  ultimately show ?thesis by (auto simp: canonical_cidr_def is_ok_iff split: option.splits)
qed


section \<open>The manifest can be signed\<close>

definition key_ok :: "bytes \<Rightarrow> bool" where
  "key_ok sk \<longleftrightarrow> length sk = 32 \<and> list_all is_byte sk"

definition keys_ok :: "key_bundle \<Rightarrow> bool" where
  "keys_ok K \<longleftrightarrow> key_ok (kb_operator K) \<and> key_ok (kb_gateway K) \<and> key_ok (kb_supervisor K) \<and> key_ok (kb_witness K)"

text \<open>Limits the models accept: at least 64 requests, and windows and queues within the totals.\<close>

definition limits_ok :: "runtime_limits \<Rightarrow> bool" where
  "limits_ok L \<longleftrightarrow>
     safe_pos (rl_max_requests_per_window L) \<and> safe_pos (rl_max_admitted_requests L) \<and> safe_pos (rl_max_total_events L) \<and>
     safe_pos (rl_max_runtime_ms L) \<and> safe_pos (rl_max_queued_events L) \<and> safe_pos (rl_max_total_egress_bytes L) \<and>
     rl_max_requests_per_window L \<le> rl_max_admitted_requests L \<and> 64 \<le> rl_max_admitted_requests L \<and>
     rl_max_queued_events L \<le> rl_max_total_events L"

lemma pin_valid: "is_ok (b64url_decode 32 demo_spki_pin)"
proof -
  have "b64url_decode 32 demo_spki_pin = Inr (replicate 32 80)" unfolding demo_spki_pin_def
    using b64url_decode_encode [of "replicate 32 80"] by (simp add: is_byte_def list_all_iff)
  then show ?thesis by simp
qed

lemma rule_valid: "prims_ok P \<Longrightarrow> limits_ok L \<Longrightarrow> validate_egress_rule P (package_rule L) = Inr (package_rule L)"
proof -
  assume P: "prims_ok P" and L: "limits_ok L"
  have "opaque_id (lit ''package-read'')" "port_number 443" "safe_pos 65536" "safe_pos 1048576" by code_simp+
  then show ?thesis using host_literal [OF P] path_literal [OF P] cidr_literal [OF P] pin_valid L
    by (simp add: validate_egress_rule_def package_rule_def limits_ok_def)
qed

lemma criteria_valid: "limits_ok L \<Longrightarrow> validate_kill_criteria (runtime_criteria L) = Inr (runtime_criteria L)"
proof -
  assume L: "limits_ok L"
  have "safe_pos 64" "safe_pos 1000" "safe_pos 262144" "262144 \<le> MAX_EVENT_PAYLOAD_BYTES" by code_simp+
  with L show ?thesis by (simp add: validate_kill_criteria_def runtime_criteria_def limits_ok_def)
qed

lemma grants_valid:
  assumes "prims_ok P" "limits_ok L" "utc_timestamp P t"
  shows "validate_credential_grant P (canary_grant t) = Inr (canary_grant t)"
    "validate_credential_grant P (package_grant L t) = Inr (package_grant L t)"
proof -
  have l: "opaque_id (lit ''credential:canary'')" "opaque_id (lit ''broker:canary'')" "opaque_id (lit ''package-read'')"
    "opaque_id (lit ''credential:package-read'')" "opaque_id (lit ''broker:package-read'')" "safe_pos 1" by code_simp+
  have n: "is_ok (require_nfc P (lit s))" if "s \<in> {''package-read'', ''tripwire'', ''packages:read''}" for s
  proof -
    have "require_nfc P (lit s) = Inr (lit s)" by (rule require_nfc_lit) (use that assms(1) in \<open>auto simp: prims_ok_def\<close>)
    then show ?thesis unfolding is_ok_iff by blast
  qed
  show "validate_credential_grant P (canary_grant t) = Inr (canary_grant t)"
    using l n host_literal [OF assms(1)] assms(3) by (simp add: validate_credential_grant_def canary_grant_def)
  show "validate_credential_grant P (package_grant L t) = Inr (package_grant L t)"
    using l n host_literal [OF assms(1)] assms by (simp add: validate_credential_grant_def package_grant_def limits_ok_def)
qed

text \<open>A key published under an identifier: the record the manifest lists.\<close>

lemma public_of_ok:
  assumes "prims_ok P" "key_ok sk" "opaque_id (lit kid)"
  shows "\<exists>k. public_of P sk kid = Inr k \<and> signer P sk k \<and> key_id k = lit kid \<and> short_text (key_value k)"
proof -
  let ?k = "\<lparr> key_id = lit kid, key_value = b64url_encode (p_public P sk) \<rparr>"
  from assms have p: "length (p_public P sk) = 32" "list_all is_byte (p_public P sk)"
    by (simp_all add: prims_ok_def key_ok_def signature_ok_def)
  have d: "b64url_decode 32 (b64url_encode (p_public P sk)) = Inr (p_public P sk)"
    using p by (intro b64url_decode_encode) auto
  have "public_of P sk kid = Inr ?k" using p d assms(3) by (simp add: public_of_def public_key_from_bytes_def validate_public_key_def)
  moreover have "signer P sk ?k" using assms by (simp add: signer_def prims_ok_def key_ok_def)
  moreover have "short_text (key_value ?k)" using b64_ascii [OF d] b64_length [of "p_public P sk"] p(1) by (simp add: short_text_def)
  ultimately show ?thesis by fastforce
qed


lemma bounded_public_key:
  assumes "d \<le> 63" "nfc_fixes_ascii P" "short_text (key_id k)" "short_text (key_value k)"
  shows "bounded_json P d 4 4628 (dump_public_key k)"
proof -
  have "bounded_json P d (1 + 3) (2 + 4626) (dump_public_key k)" unfolding dump_public_key_def
    by (rule bounded_obj; (intro bm_small bm_Nil)?) (use assms in \<open>simp_all add: short_lit small_json_simps\<close>)
  then show ?thesis by simp
qed

lemma bounded_one: "d \<le> 63 \<Longrightarrow> nfc_fixes_ascii P \<Longrightarrow> short_text s \<Longrightarrow> bounded_json P d 2 773 (str_tuple [s])"
  using bounded_strs [of d P "[s]"] by simp

lemma safe_pos_nonneg: "safe_pos i \<Longrightarrow> safe_nonneg i"
  by (simp add: safe_pos_def safe_nonneg_def)

lemma bounded_rule:
  assumes "d \<le> 62" "nfc_fixes_ascii P" "safe_pos (rl_max_admitted_requests L)"
  shows "bounded_json P d 20 30000 (dump_egress_rule (package_rule L))"
proof -
  note tuple = bm_Cons [OF bounded_one [of "d + 1" P]]
  have pin: "short_text demo_spki_pin"
    using b64_length [of "replicate 32 80"] pin_valid b64_ascii [of 32 demo_spki_pin]
    by (auto simp: short_text_def demo_spki_pin_def is_ok_iff)
  have n: "safe_nonneg 443" "safe_nonneg 65536" "safe_nonneg 1048576" by code_simp+
  have "bounded_json P d (1 + 19) (2 + 29998) (dump_egress_rule (package_rule L))"
    unfolding dump_egress_rule_def package_rule_def egress_rule.simps list.map
    by (rule bounded_obj; (intro tuple bm_small bm_Nil)?)
      (use assms pin n safe_pos_nonneg [OF assms(3)] in \<open>simp_all add: short_lit small_json_simps method_name_def\<close>)
  then show ?thesis by simp
qed


lemma bounded_grants:
  assumes "d \<le> 62" "nfc_fixes_ascii P" "safe_pos (rl_max_admitted_requests L)" "short_text t"
  shows "bounded_json P d 12 20000 (dump_credential_grant (canary_grant t))"
    "bounded_json P d 12 20000 (dump_credential_grant (package_grant L t))"
proof -
  note tuple = bm_Cons [OF bounded_one [of "d + 1" P]]
  have one: "safe_nonneg 1" by code_simp
  have "bounded_json P d (1 + 11) (2 + 19998) (dump_credential_grant (canary_grant t))"
    unfolding dump_credential_grant_def canary_grant_def credential_grant.simps
    by (rule bounded_obj; (intro tuple bm_small bm_Nil)?) (use assms one in \<open>simp_all add: short_lit small_json_simps\<close>)
  then show "bounded_json P d 12 20000 (dump_credential_grant (canary_grant t))" by simp
  have "bounded_json P d (1 + 11) (2 + 19998) (dump_credential_grant (package_grant L t))"
    unfolding dump_credential_grant_def package_grant_def credential_grant.simps
    by (rule bounded_obj; (intro tuple bm_small bm_Nil)?)
      (use assms safe_pos_nonneg [OF assms(3)] in \<open>simp_all add: short_lit small_json_simps\<close>)
  then show "bounded_json P d 12 20000 (dump_credential_grant (package_grant L t))" by simp
qed

lemma bounded_criteria:
  assumes "d \<le> 62" "nfc_fixes_ascii P" "validate_kill_criteria k = Inr k"
  shows "bounded_json P d 12 20000 (dump_kill_criteria k)"
proof -
  from assms(3) have "safe_nonneg (max_runtime_ms k)" "safe_nonneg (max_total_events k)" "safe_nonneg (max_admitted_requests k)"
    "safe_nonneg (max_inflight_requests k)" "safe_nonneg (max_requests_per_window k)" "safe_nonneg (rate_window_ms k)"
    "safe_nonneg (max_queued_events k)" "safe_nonneg (max_event_payload_bytes k)" "safe_nonneg (max_total_egress_bytes k)"
    "safe_nonneg (supervisor_kill_latency_sla_ms k)"
    by (auto simp: validate_kill_criteria_def intro: safe_pos_nonneg)
  then have "bounded_json P d (1 + 11) (2 + 19998) (dump_kill_criteria k)" unfolding dump_kill_criteria_def
    by (intro bounded_obj; (intro bm_small bm_Nil)?) (use assms in \<open>simp_all add: short_lit small_json_simps\<close>)
  then show ?thesis by simp
qed

text \<open>The body \<open>build_reference_runtime\<close> signs.\<close>

definition runtime_body ::
  "runtime_limits \<Rightarrow> pystr \<Rightarrow> pystr \<Rightarrow> ed_public_key \<Rightarrow> ed_public_key \<Rightarrow> ed_public_key \<Rightarrow> manifest_body" where
  "runtime_body L issued_at expires_at g s w =
     \<lparr> mb_manifest_id = lit ''manifest:demo'', mb_run_id = lit ''run:demo'', mb_issued_at = issued_at,
       mb_not_before = issued_at, mb_expires_at = expires_at, mb_operator_key_id = lit ''operator:demo'',
       mb_gateway_key = g, mb_supervisor_key = s, mb_witness_key = w,
       mb_allowed_egress = [package_rule L], mb_credentials = [canary_grant expires_at, package_grant L expires_at],
       mb_second_hops = [], mb_kill_criteria = runtime_criteria L \<rparr>"

lemma bounded_body_dump:
  assumes "nfc_fixes_ascii P" "limits_ok L" "short_text i" "short_text e"
    "short_text (key_id g)" "short_text (key_value g)" "short_text (key_id s)" "short_text (key_value s)"
    "short_text (key_id w)" "short_text (key_value w)" "d \<le> 60"
  shows "bounded_json P d 91 150000 (dump_manifest_body (runtime_body L i e g s w))"
proof -
  note L = assms(2) [unfolded limits_ok_def]
  have rules: "bounded_json P (d + 1) 21 30003 (PSeq (map dump_egress_rule [package_rule L]))"
    using bounded_list [of "d + 1" 20 30000 P "[dump_egress_rule (package_rule L)]"] bounded_rule [of "d + 1 + 1" P L] assms(1,11) L by simp
  have gr: "bounded_json P (d + 1) 25 40004 (PSeq (map dump_credential_grant [canary_grant e, package_grant L e]))"
    using bounded_list [of "d + 1" 12 20000 P "map dump_credential_grant [canary_grant e, package_grant L e]"]
      bounded_grants [of "d + 1 + 1" P L e] assms(1,4,11) L by simp
  have hops: "bounded_json P (d + 1) 1 2 (PSeq (map dump_second_hop []))"
    using bounded_list [of "d + 1" 0 0 P "[]"] assms(11) by simp
  note crit = bounded_criteria [of "d + 1" P "runtime_criteria L", OF _ assms(1) criteria_valid [OF assms(2)]]
  note keys = bounded_public_key [of "d + 1" P, OF _ assms(1)]
  have "bounded_json P d (1 + 90) (2 + 149998) (dump_manifest_body (runtime_body L i e g s w))"
    unfolding dump_manifest_body_def runtime_body_def manifest_body.simps
    by (rule bounded_obj; (intro bm_Cons [OF keys] bm_Cons [OF rules] bm_Cons [OF gr] bm_Cons [OF hops] bm_Cons [OF crit] bm_small bm_Nil)?)
      (use assms short_protocol in \<open>simp_all add: short_lit small_json_simps\<close>)
  then show ?thesis by simp
qed

lemma body_valid:
  assumes "prims_ok P" "limits_ok L" "utc_timestamp P i" "utc_timestamp P e" "i < e"
    "key_id g = lit ''gateway:demo''" "key_id s = lit ''supervisor:demo''" "key_id w = lit ''witness:demo''"
  shows "validate_manifest_body P (runtime_body L i e g s w) = Inr (runtime_body L i e g s w)"
proof -
  have "opaque_id (lit ''manifest:demo'')" "opaque_id (lit ''run:demo'')" "opaque_id (lit ''operator:demo'')"
    "lit ''credential:canary'' < lit ''credential:package-read''" by code_simp+
  with assms show ?thesis
    by (simp add: validate_manifest_body_def runtime_body_def grant_matches_rules_def find_rule_def package_rule_def
        canary_grant_def package_grant_def)
qed


lemma sign_manifest_ok:
  assumes "prims_ok P" "key_ok sk" "opaque_id (mb_operator_key_id b)" "mb_second_hops b = []"
    "bounded_json P 0 n c (dump_manifest_body b)" "n \<le> 100000" "c \<le> 4194304"
  shows "\<exists>m. sign_manifest P b sk = Inr m \<and> m_body m = b \<and> sha256_hex_text (m_hash m) \<and> verify_manifest P (p_public P sk) m = Inr ()"
proof -
  let ?k = "\<lparr> key_id = mb_operator_key_id b, key_value = b64url_encode (p_public P sk) \<rparr>"
  have "signer P sk ?k" using assms(1-3) by (simp add: signer_def prims_ok_def key_ok_def)
  from sign_digest_total [OF this assms(5-7), of "''MANIFEST-HASH''" "''MANIFEST-SIGNATURE''"] obtain h s where
    h: "domain_hash P ''MANIFEST-HASH'' (dump_manifest_body b) = Inr h" "sha256_hex_text h"
      "sign_digest P ''MANIFEST-SIGNATURE'' (mb_operator_key_id b) sk h = Inr s" "sig_key_id s = mb_operator_key_id b"
      "verify_digest P ''MANIFEST-SIGNATURE'' ?k s h = Inr ()" by auto
  have p: "b64url_decode 32 (b64url_encode (p_public P sk)) = Inr (p_public P sk)"
  proof -
    have "length (p_public P sk) = 32" "list_all is_byte (p_public P sk)"
      using assms(1,2) by (simp_all add: prims_ok_def key_ok_def signature_ok_def)
    then show ?thesis by (intro b64url_decode_encode) auto
  qed
  let ?m = "\<lparr> m_body = b, m_hash = h, m_signature = s \<rparr>"
  have "sign_manifest P b sk = Inr ?m" using h assms(4) by (simp add: sign_manifest_def validate_manifest_def)
  moreover have "verify_manifest P (p_public P sk) ?m = Inr ()"
    using h(5) p assms(4) by (auto simp: verify_manifest_def verify_digest_def)
  ultimately show ?thesis using h(2) by fastforce
qed

lemma runtime_manifest_ok:
  assumes P: "prims_ok P" and K: "keys_ok K" and L: "limits_ok L"
    and now: "good_time now" "1001 \<le> dt_year now" "dt_year now \<le> 9998"
  shows "\<exists>m i e g s w. runtime_manifest P now K L = Inr m \<and> m_body m = runtime_body L i e g s w \<and> sha256_hex_text (m_hash m) \<and>
    verify_manifest P (p_public P (kb_operator K)) m = Inr () \<and>
    validate_manifest_body P (m_body m) = Inr (m_body m) \<and> utc_timestamp P e \<and>
    bind_result (minus_second now) format_utc_timestamp = Inr i \<and> bind_result (plus_hour now) format_utc_timestamp = Inr e \<and>
    signer P (kb_gateway K) g \<and> signer P (kb_supervisor K) s \<and> signer P (kb_witness K) w"
proof -
  have nfc: "nfc_fixes_ascii P" using P by (simp add: prims_ok_def)
  obtain i where i: "minus_second now = Inr i" "good_time i" "instant i < instant now" using minus_second_ok [OF now(1,2)] by blast
  obtain e where e: "plus_hour now = Inr e" "good_time e" "instant now < instant e" using plus_hour_ok [OF now(1,3)] by blast
  obtain ti te where t: "format_utc_timestamp i = Inr ti" "utc_timestamp P ti" "format_utc_timestamp e = Inr te" "utc_timestamp P te"
    using format_good_time [OF i(2) nfc] format_good_time [OF e(2) nfc] by blast
  have lt: "ti < te" using good_time_order [OF i(2) e(2)] i(2,3) e(2,3) t by (simp add: format_utc_timestamp_def good_time_def)
  have o: "opaque_id (lit ''gateway:demo'')" "opaque_id (lit ''supervisor:demo'')" "opaque_id (lit ''witness:demo'')"
    "opaque_id (lit ''operator:demo'')" by code_simp+
  from K have k: "key_ok (kb_operator K)" "key_ok (kb_gateway K)" "key_ok (kb_supervisor K)" "key_ok (kb_witness K)" by (simp_all add: keys_ok_def)
  obtain g s w where key:
    "public_of P (kb_gateway K) ''gateway:demo'' = Inr g" "signer P (kb_gateway K) g" "key_id g = lit ''gateway:demo''" "short_text (key_value g)"
    "public_of P (kb_supervisor K) ''supervisor:demo'' = Inr s" "signer P (kb_supervisor K) s" "key_id s = lit ''supervisor:demo''" "short_text (key_value s)"
    "public_of P (kb_witness K) ''witness:demo'' = Inr w" "signer P (kb_witness K) w" "key_id w = lit ''witness:demo''" "short_text (key_value w)"
    using public_of_ok [OF P k(2) o(1)] public_of_ok [OF P k(3) o(2)] public_of_ok [OF P k(4) o(3)] by blast
  let ?b = "runtime_body L ti te g s w"
  have v: "validate_manifest_body P ?b = Inr ?b" by (rule body_valid [OF P L t(2,4) lt key(3,7,11)])
  have "bounded_json P 0 91 150000 (dump_manifest_body ?b)"
    by (rule bounded_body_dump [OF nfc L, of _ _ _ _ _ 0]) (use key t short_timestamp in \<open>auto simp: short_lit\<close>)
  moreover have "opaque_id (mb_operator_key_id ?b)" "mb_second_hops ?b = []" using o(4) by (simp_all add: runtime_body_def)
  ultimately obtain m where m: "sign_manifest P ?b (kb_operator K) = Inr m" "m_body m = ?b" "sha256_hex_text (m_hash m)"
    "verify_manifest P (p_public P (kb_operator K)) m = Inr ()"
    using sign_manifest_ok [OF P k(1), of ?b 91 150000] by auto
  have "runtime_manifest P now K L = Inr m"
    unfolding runtime_manifest_def i(1) e(1) t(1,3) key(1,5,9) rule_valid [OF P L] criteria_valid [OF L] grants_valid [OF P L t(4)] bind_result.simps
    using v m(1) unfolding runtime_body_def bind_result.simps by simp
  moreover have "bind_result (minus_second now) format_utc_timestamp = Inr ti" "bind_result (plus_hour now) format_utc_timestamp = Inr te"
    using i(1) e(1) t by simp_all
  ultimately show ?thesis using m v t key by metis
qed


section \<open>The runtime starts in the states the theorems speak about\<close>

lemma init_recorded: "recorded P m (init_mirror m) []"
  using mirror_of_init chain_Nil by (simp add: recorded_def MAX_SAFE_INTEGER_def)

text \<open>The parts of a built runtime.\<close>

lemma runtime_built:
  assumes "prims_ok P" "keys_ok K" "limits_ok L" "good_time now" "1001 \<le> dt_year now" "dt_year now \<le> 9998"
  obtains C w m i e g s k where "build_reference_runtime P now K L started_at started_ns = Inr (C, w)"
    "cf_manifest C = m" "m_body m = runtime_body L i e g s k" "sha256_hex_text (m_hash m)"
    "verify_manifest P (p_public P (kb_operator K)) m = Inr ()" "validate_manifest_body P (m_body m) = Inr (m_body m)" "utc_timestamp P e"
    "bind_result (minus_second now) format_utc_timestamp = Inr i" "bind_result (plus_hour now) format_utc_timestamp = Inr e"
    "signer P (kb_gateway K) g" "signer P (kb_supervisor K) s" "signer P (kb_witness K) k"
    "cf_gateway_private_key C = kb_gateway K" "cf_gateway_instance_id C = lit ''gateway-instance:demo''" "cf_authorization_ttl_ns C = 1000000000"
    "cf_supervisor_private_key C = kb_supervisor K" "cf_supervisor_instance_id C = lit ''supervisor-instance:demo''"
    "cf_secrets C = [lit ''broker:package-read'' \<mapsto> package_secret, lit ''broker:canary'' \<mapsto> lit ''never-release-canary'']"
    "w_state w = init_state (runtime_criteria L)"
    "w_ledger w = \<lparr> ld_manifest = m, ld_producer_instance_id = lit ''gateway-instance:demo'', ld_max_events = rl_max_total_events L,
       ld_max_pending_commits = rl_max_queued_events L, ld_pending = 0, ld_wal = None, ld_events = [], ld_sealed = False \<rparr>"
    "w_mirror w = init_mirror m"
    "w_witness w = \<lparr> wt_key = kb_witness K, wt_key_id = key_id k, wt_roots = (\<lambda>_. None) \<rparr>"
    "w_policy w = init_policy m" "w_registry w = init_registry" "w_supervisor w = init_supervisor started_at started_ns" "w_sent w = []"
proof -
  obtain m i e g s k where m: "runtime_manifest P now K L = Inr m" "m_body m = runtime_body L i e g s k" "sha256_hex_text (m_hash m)"
    "verify_manifest P (p_public P (kb_operator K)) m = Inr ()" "validate_manifest_body P (m_body m) = Inr (m_body m)" "utc_timestamp P e"
    "bind_result (minus_second now) format_utc_timestamp = Inr i" "bind_result (plus_hour now) format_utc_timestamp = Inr e"
    "signer P (kb_gateway K) g" "signer P (kb_supervisor K) s" "signer P (kb_witness K) k"
    using runtime_manifest_ok [OF assms] by (elim exE conjE)
  have q: "mb_kill_criteria (m_body m) = runtime_criteria L" "mb_witness_key (m_body m) = k" "max_queued_events (runtime_criteria L) = rl_max_queued_events L"
    by (simp_all add: m(2) runtime_body_def runtime_criteria_def)
  have nz: "rl_max_queued_events L \<noteq> 0" using assms(3) by (auto simp: limits_ok_def safe_pos_def)
  obtain C w where b: "build_reference_runtime P now K L started_at started_ns = Inr (C, w)"
    by (simp add: build_reference_runtime_def m(1) init_ledger_def)
  show thesis by (rule that [OF b _ m(2-11)]) (use b nz in \<open>auto simp: build_reference_runtime_def m(1) init_ledger_def q\<close>)
qed

lemma reference_ready:
  assumes "prims_ok P" "keys_ok K" "limits_ok L" "good_time now" "1001 \<le> dt_year now" "dt_year now \<le> 9998"
  shows "\<exists>C w. build_reference_runtime P now K L started_at started_ns = Inr (C, w) \<and>
    verify_manifest P (p_public P (kb_operator K)) (cf_manifest C) = Inr () \<and>
    world_ok P w \<and> engine_of P C (w_policy w) \<and> ld_manifest (w_ledger w) = cf_manifest C \<and>
    w_state w = init_state (mb_kill_criteria (m_body (cf_manifest C))) \<and> rs_inv (w_state w) \<and>
    ld_events (w_ledger w) = [] \<and> w_sent w = [] \<and>
    (\<forall>E. calm E \<and> clocks_sound E (w_supervisor w) \<longrightarrow> fresh_run P C E w)"
proof -
  obtain C w m i e g s k where b: "build_reference_runtime P now K L started_at started_ns = Inr (C, w)"
    and w: "cf_manifest C = m" "w_state w = init_state (runtime_criteria L)"
      "w_ledger w = \<lparr> ld_manifest = m, ld_producer_instance_id = lit ''gateway-instance:demo'', ld_max_events = rl_max_total_events L,
         ld_max_pending_commits = rl_max_queued_events L, ld_pending = 0, ld_wal = None, ld_events = [], ld_sealed = False \<rparr>"
      "w_mirror w = init_mirror m" "w_witness w = \<lparr> wt_key = kb_witness K, wt_key_id = key_id k, wt_roots = (\<lambda>_. None) \<rparr>"
      "w_policy w = init_policy m" "w_registry w = init_registry" "w_supervisor w = init_supervisor started_at started_ns" "w_sent w = []"
      "cf_supervisor_private_key C = kb_supervisor K" "cf_supervisor_instance_id C = lit ''supervisor-instance:demo''"
    and m: "m_body m = runtime_body L i e g s k" "sha256_hex_text (m_hash m)"
      "verify_manifest P (p_public P (kb_operator K)) m = Inr ()" "validate_manifest_body P (m_body m) = Inr (m_body m)" "utc_timestamp P e"
      "signer P (kb_supervisor K) s" "signer P (kb_witness K) k"
    by (rule runtime_built [OF assms]) blast
  have ok: "world_ok P w" by (simp add: world_ok_def w init_supervisor_def init_registry_def)
  have eng: "engine_of P C (w_policy w)"
    using m(4) rule_valid [OF assms(1,3)] grants_valid [OF assms(1,3) m(5)]
    by (simp add: engine_of_def policy_wf_def w init_policy_def m(1) runtime_body_def)
  have inv: "rs_inv (w_state w)" unfolding w
    by (rule rs_inv_init) (use assms(3) in \<open>simp_all add: runtime_criteria_def limits_ok_def safe_pos_def\<close>)
  have ids: "opaque_id (lit ''run:demo'')" "opaque_id (lit ''supervisor-instance:demo'')" by code_simp+
  have fresh: "fresh_run P C E w" if "calm E" "clocks_sound E (w_supervisor w)" for E
  proof -
    have "keys_sound P C (w_witness w)" using m(2,6,7) ids by (simp add: keys_sound_def w m(1) runtime_body_def)
    moreover have "counters_fit (w_state w)" by (simp add: counters_fit_def w init_state_def MAX_SAFE_INTEGER_def)
    moreover have "mi_first_hash (w_mirror w) = None" by (simp add: w init_mirror_def)
    ultimately have "issuable P C E [] w" using that inv init_recorded [of P m] by (simp add: issuable_def w init_supervisor_def)
    then show ?thesis by (auto simp: fresh_run_def w init_supervisor_def)
  qed
  show ?thesis using b m(3) ok eng w inv fresh by (intro exI [of _ C] exI [of _ w]) (simp add: m(1) runtime_body_def)
qed

text \<open>
  C24. The factory builds what the other theorems assume. With lawful primitives, four 32-byte keys, limits the models
  accept and a present time, \<open>build_reference_runtime\<close> does not raise. Its manifest is signed by the operator key;
  world, policy engine and ledger satisfy the hypotheses of the safety theorems for this configuration; the run is
  running with no event and no transport call; and under undisturbed sound clocks it is a fresh run of the audit theorem.
\<close>

theorem reference_runtime_ready:
  assumes "prims_ok P" "keys_ok K" "limits_ok L" "good_time now" "1001 \<le> dt_year now" "dt_year now \<le> 9998"
  shows "\<exists>C w. build_reference_runtime P now K L started_at started_ns = Inr (C, w) \<and>
    verify_manifest P (p_public P (kb_operator K)) (cf_manifest C) = Inr () \<and>
    world_ok P w \<and> engine_of P C (w_policy w) \<and> ld_manifest (w_ledger w) = cf_manifest C \<and>
    w_state w = init_state (mb_kill_criteria (m_body (cf_manifest C))) \<and> rs_inv (w_state w) \<and>
    ld_events (w_ledger w) = [] \<and> w_sent w = [] \<and>
    (\<forall>E. calm E \<and> clocks_sound E (w_supervisor w) \<longrightarrow> fresh_run P C E w)"
  by (rule reference_ready [OF assms])

section \<open>A request to the reference runtime\<close>

text \<open>
  An undisturbed environment for one request on a runtime with this manifest: sound clocks inside the window of the
  manifest and the run time of the limits, fresh tokens, and the transport of the factory.
\<close>

definition steady :: "prims \<Rightarrow> manifest \<Rightarrow> env \<Rightarrow> action \<Rightarrow> int \<Rightarrow> bool" where
  "steady P m E a started_ns \<longleftrightarrow>
     calm E \<and> (\<forall>i j. i \<le> j \<longrightarrow> e_mono E i \<le> e_mono E j) \<and> (\<forall>i j. e_mono E j \<le> e_mono E i + 1000000000) \<and>
     (\<forall>n. good_time (e_wall E n) \<and> mb_not_before (m_body m) \<le> strftime_utc (e_wall E n) \<and>
        strftime_utc (e_wall E n) \<le> mb_expires_at (m_body m) \<and>
        safe_nonneg (e_mono E n) \<and> safe_nonneg (e_mono E n + 1000000000) \<and>
        e_mono E n - started_ns \<le> max_runtime_ms (mb_kill_criteria (m_body m)) * 1000000 \<and>
        opaque_id (lit ''auth:'' @ e_token E n) \<and>
        e_transport E n = reference_transport P False a (Some package_secret) 1048576)"

text \<open>A well-formed request for a package with the brokered credential.\<close>

definition package_request :: "prims \<Rightarrow> action \<Rightarrow> bool" where
  "package_request P a \<longleftrightarrow>
     validate_action P a = Inr a \<and> moderate P (dump_action a) \<and> a_credential_id a = Some (lit ''credential:package-read'') \<and>
     (\<forall>L. covers a (package_rule L))"

definition demo_response :: "prims \<Rightarrow> transport_result" where
  "demo_response P =
     \<lparr> tr_status_code = 200, tr_response_bytes = 11,
       tr_response_sha256 = sha256_hex P [123, 34, 111, 107, 34, 58, 116, 114, 117, 101, 125] \<rparr>"

lemma reference_transport_answers:
  "11 \<le> bound \<Longrightarrow> reference_transport P False a (Some package_secret) bound = Inr (demo_response P)"
  by (auto simp: reference_transport_def demo_response_def Let_def lit_def)

lemma package_permitted:
  assumes "limits_ok L" "package_request P a" "m_body m = runtime_body L i e g s k" "i \<le> now" "now \<le> e" "pe_manifest pe = m"
    "uses (pe_rule_uses pe) (lit ''package-read'') < rl_max_admitted_requests L"
    "uses (pe_credential_uses pe) (lit ''credential:package-read'') < rl_max_admitted_requests L"
  shows "permitted pe a now (package_rule L)"
proof -
  have "lit ''credential:canary'' \<noteq> lit ''credential:package-read''" by code_simp
  moreover have cov: "covers a (package_rule L)" "a_credential_id a = Some (lit ''credential:package-read'')" "a_host a = lit ''packages.example.test''"
    using assms(2) by (auto simp: package_request_def covers_def package_rule_def)
  ultimately have "credential_permits pe a (package_rule L) now"
    using assms(5-8) by (simp add: credential_permits_def assms(3) runtime_body_def package_rule_def package_grant_def canary_grant_def)
  then show ?thesis using assms(4-7) cov(1)
    by (simp add: permitted_def assms(3) runtime_body_def) (simp add: package_rule_def)
qed

lemma reference_servable_room:
  assumes P: "prims_ok P" "nonzero_digests P" and K: "keys_ok K" and L: "limits_ok L" "int n + 4 \<le> rl_max_total_events L" "1048576 \<le> rl_max_total_egress_bytes L"
    and now: "good_time now" "1001 \<le> dt_year now" "dt_year now \<le> 9998"
    and b: "build_reference_runtime P now K L started_at started_ns = Inr (C, w)"
    and E: "steady P (cf_manifest C) E a started_ns" and a: "package_request P a"
    and raw: "from_wire P (InBytes raw) = Inr a" "int (length raw) \<le> 262144"
  shows "servable P C E n raw a (package_rule L) (Some package_secret) (demo_response P) w \<and> w_sent w = [] \<and> ld_events (w_ledger w) = []"
proof -
  obtain C' w' m i e g s k where b': "build_reference_runtime P now K L started_at started_ns = Inr (C', w')"
    and w': "cf_manifest C' = m" "w_state w' = init_state (runtime_criteria L)"
      "w_ledger w' = \<lparr> ld_manifest = m, ld_producer_instance_id = lit ''gateway-instance:demo'', ld_max_events = rl_max_total_events L,
         ld_max_pending_commits = rl_max_queued_events L, ld_pending = 0, ld_wal = None, ld_events = [], ld_sealed = False \<rparr>"
      "w_mirror w' = init_mirror m" "w_policy w' = init_policy m" "w_registry w' = init_registry"
      "w_supervisor w' = init_supervisor started_at started_ns" "w_sent w' = []"
      "cf_gateway_private_key C' = kb_gateway K" "cf_gateway_instance_id C' = lit ''gateway-instance:demo''" "cf_authorization_ttl_ns C' = 1000000000"
      "cf_secrets C' = [lit ''broker:package-read'' \<mapsto> package_secret, lit ''broker:canary'' \<mapsto> lit ''never-release-canary'']"
    and m: "m_body m = runtime_body L i e g s k" "sha256_hex_text (m_hash m)" "validate_manifest_body P (m_body m) = Inr (m_body m)" "utc_timestamp P e"
      "signer P (kb_gateway K) g"
    by (rule runtime_built [OF P(1) K L(1) now]) blast
  from b b' have eq: "C' = C" "w' = w" by simp_all
  note w = w' [unfolded eq]
  have E': "calm E" "\<And>i j. i \<le> j \<Longrightarrow> e_mono E i \<le> e_mono E j" "\<And>i j. e_mono E j \<le> e_mono E i + 1000000000"
    "good_time (e_wall E n)" "mb_not_before (m_body m) \<le> strftime_utc (e_wall E n)" "strftime_utc (e_wall E n) \<le> mb_expires_at (m_body m)"
    "safe_nonneg (e_mono E n)" "safe_nonneg (e_mono E n + 1000000000)"
    "e_mono E n - started_ns \<le> max_runtime_ms (mb_kill_criteria (m_body m)) * 1000000" "opaque_id (lit ''auth:'' @ e_token E n)"
    "e_transport E n = Inr (demo_response P)" for n
    using E reference_transport_answers [of 1048576 P a] unfolding steady_def w(1) by simp_all
  have ids: "opaque_id (lit ''run:demo'')" "opaque_id (lit ''gateway-instance:demo'')" "safe_nonneg 0" "0 < (1000000000 :: int)"
    "lit ''credential:canary'' \<noteq> lit ''credential:package-read''" by code_simp+
  have room: "room P E (n + 4) w"
    using P L(1,2) E'(1,2,4,7) init_recorded [of P m] m(2) ids
    by (simp add: room_def prims_ok_def w ledger_sound_def m(1) runtime_body_def last_le_def limits_ok_def safe_pos_def)
  have host: "a_host a = lit ''packages.example.test''" using a by (simp add: package_request_def covers_def package_rule_def)
  have cov: "covers a (package_rule L)" "a_credential_id a = Some (lit ''credential:package-read'')"
    using a by (simp_all add: package_request_def)
  have perm: "permitted (init_policy m) a (strftime_utc (e_wall E n)) (package_rule L)" for n
    by (rule package_permitted [OF L(1) a m(1)])
      (use E'(5,6) [of n] L(1) in \<open>simp_all add: m(1) runtime_body_def init_policy_def uses_def limits_ok_def safe_pos_def\<close>)
  have eng: "engine_of P C (w_policy w)"
    using m(3) rule_valid [OF P(1) L(1)] grants_valid [OF P(1) L(1) m(4)]
    by (simp add: engine_of_def policy_wf_def w init_policy_def m(1) runtime_body_def)
  have acc: "acceptable P C E a (package_rule L) w"
    using a perm eng m(2,5) ids E'(8,10)
    by (simp add: acceptable_def package_request_def w m(1) runtime_body_def init_state_def)
  have adm: "admissible C E raw w"
    using L(1) raw(2) E'(9)
    by (simp add: admissible_def w admit_def roll_window_def would_overload_def init_state_def init_supervisor_def Let_def
        runtime_criteria_def limits_ok_def safe_pos_def)
  have "release C a = Inr (Some package_secret)"
    using cov(2) host ids(5)
    by (simp add: release_def w m(1) runtime_body_def canary_grant_def package_grant_def)
  moreover have "sha256_hex_text (sha256_hex P b)" for b using P(1) sha256_hex_ok by (simp add: prims_ok_def)
  ultimately have dv: "deliverable P C E a (package_rule L) (Some package_secret) (demo_response P)"
    using E'(11) by (simp add: deliverable_def demo_response_def package_rule_def safe_nonneg_def MAX_SAFE_INTEGER_def)
  have "\<not> budget_blocked (max_response_bytes (package_rule L)) (w_state w)"
    using L(3) by (simp add: w budget_blocked_def package_rule_def init_state_def runtime_criteria_def)
  moreover have "rs_consumed (w_state w) = {}" "rg_events (w_registry w) = []" by (simp_all add: w init_state_def init_registry_def)
  ultimately show ?thesis
    using room acc adm dv raw(1) E'(3) w(1,3,8,11) by (simp add: servable_def)
qed

lemma reference_servable:
  assumes "prims_ok P" "nonzero_digests P" "keys_ok K" "limits_ok L" "4 \<le> rl_max_total_events L" "1048576 \<le> rl_max_total_egress_bytes L"
    "good_time now" "1001 \<le> dt_year now" "dt_year now \<le> 9998" "build_reference_runtime P now K L started_at started_ns = Inr (C, w)"
    "steady P (cf_manifest C) E a started_ns" "package_request P a" "from_wire P (InBytes raw) = Inr a" "int (length raw) \<le> 262144"
  shows "servable P C E 0 raw a (package_rule L) (Some package_secret) (demo_response P) w \<and> w_sent w = [] \<and> ld_events (w_ledger w) = []"
  using reference_servable_room [of P K L 0] assms by simp

text \<open>
  C8. The composed system answers. The runtime the factory builds, with its own transport and broker, given in an
  undisturbed environment an HTTP request whose body is a package request with the brokered credential: the endpoint
  answers 200 with the canonical JSON of the demonstration response, the transport was called exactly once, with the
  brokered secret, and the ledger holds exactly the four events of the request.
\<close>

theorem reference_request_served:
  assumes "prims_ok P" "nonzero_digests P" "keys_ok K" "limits_ok L" "4 \<le> rl_max_total_events L" "1048576 \<le> rl_max_total_egress_bytes L"
    "good_time now" "1001 \<le> dt_year now" "dt_year now \<le> 9998"
    "build_reference_runtime P now K L started_at started_ns = Inr (C, w)"
    "steady P (cf_manifest C) E a started_ns" "package_request P a"
    "media_type q = lit ''application/json''" "bounded_body C q = Inr raw" "from_wire P (InBytes raw) = Inr a"
  shows "\<exists>d c w'. dispatch_endpoint P C E q w = (Inr \<lparr> hr_status = 200, hr_content = c \<rparr>, w') \<and>
    canonical_json P (accepted_value d (demo_response P)) = Inr c \<and>
    w_sent w' = [(a, Some package_secret, 1048576)] \<and> length (ld_events (w_ledger w')) = 4"
proof -
  have "max_event_payload_bytes (mb_kill_criteria (m_body (cf_manifest C))) = 262144"
    by (rule runtime_built [OF assms(1,3,4,7-9), of started_at started_ns]) (use assms(10) in \<open>simp add: runtime_body_def runtime_criteria_def\<close>)
  then have "int (length raw) \<le> 262144" using assms(14) by (auto simp: bounded_body_iff)
  from reference_servable [OF assms(1-12,15) this] have sv: "servable P C E 0 raw a (package_rule L) (Some package_secret) (demo_response P) w"
    "w_sent w = []" "ld_events (w_ledger w) = []" by simp_all
  have "carries C q raw" using assms(13,14) by (simp add: carries_def)
  from endpoint_serves [OF sv(1) this] show ?thesis unfolding sv(2,3) by (auto simp: package_rule_def)
qed

definition sample_keys_bundle :: key_bundle where
  "sample_keys_bundle =
     \<lparr> kb_operator = replicate 32 4, kb_gateway = replicate 32 1, kb_supervisor = replicate 32 2, kb_witness = replicate 32 3 \<rparr>"

lemma sample_prims_lawful: "prims_ok sample_prims"
proof -
  have "lower_fixes_ascii sample_prims" unfolding lower_fixes_ascii_def sample_prims_def
    by (auto simp: list_all_iff intro!: map_idI)
  then show ?thesis using sample_prims_ok by (simp add: prims_ok_def)
qed

lemma sample_setup:
  "keys_ok sample_keys_bundle" "limits_ok default_limits" "good_time (sample_time 5)" "1001 \<le> dt_year (sample_time 5)"
  "dt_year (sample_time 5) \<le> 9998"
proof -
  show "limits_ok default_limits" by code_simp
qed (auto simp: good_time_def sample_time_def real_time_def days_in_month_def keys_ok_def key_ok_def sample_keys_bundle_def is_byte_def list_all_iff)

theorem reference_runtime_ready_witness:
  "\<exists>C w. build_reference_runtime sample_prims (sample_time 5) sample_keys_bundle default_limits (sample_time 5) 7 = Inr (C, w) \<and>
    world_ok sample_prims w \<and> engine_of sample_prims C (w_policy w) \<and> rs_phase (w_state w) = PhRunning"
proof -
  have "\<exists>C w. build_reference_runtime sample_prims (sample_time 5) sample_keys_bundle default_limits (sample_time 5) 7 = Inr (C, w) \<and>
    world_ok sample_prims w \<and> engine_of sample_prims C (w_policy w) \<and> w_state w = init_state (mb_kill_criteria (m_body (cf_manifest C)))"
    using reference_runtime_ready [OF sample_prims_lawful sample_setup, of "sample_time 5" 7] by blast
  then show ?thesis by (auto simp: init_state_def)
qed

section \<open>A sample request to a built runtime\<close>

definition package_action :: action where
  "package_action =
     \<lparr> a_request_id = lit ''request:1'', a_method = POST, a_host = lit ''packages.example.test'', a_port = 443,
       a_path = lit ''/v1/packages/resolve'', a_resolved_ip = lit ''203.0.113.17'', a_tls_spki_sha256 = demo_spki_pin,
       a_body_canonical_json = lit ''{}'', a_body_sha256 = sha256_hex sample_prims (lit ''{}''), a_body_bytes = 2,
       a_credential_id = Some (lit ''credential:package-read'') \<rparr>"

definition package_bytes :: bytes where
  "package_bytes = (case canonical_json_bytes sample_prims (dump_action package_action) of Inr b \<Rightarrow> b | Inl _ \<Rightarrow> [])"

definition package_http :: http_request where
  "package_http =
     \<lparr> hq_content_type = Some (lit ''application/json''), hq_content_length = Some (lit ''407''), hq_authorization = None,
       hq_chunks = [package_bytes], hq_stream_end = Inr () \<rparr>"

definition steady_env :: env where
  "steady_env = reference_callbacks sample_prims package_action (Some package_secret) 1048576 still_env"

lemma package_valid: "validate_action sample_prims package_action = Inr package_action"
  by code_simp

lemma package_bounded:
  assumes "d \<le> 62"
  shows "bounded_json sample_prims d 14 20048 (dump_action package_action)"
proof -
  let ?a = package_action
  have "short_text (a_request_id ?a)" "short_text (method_name (a_method ?a))" "short_text (a_host ?a)"
    "short_text (a_path ?a)" "short_text (a_resolved_ip ?a)" "short_text (a_tls_spki_sha256 ?a)"
    "short_text (a_body_canonical_json ?a)" "short_text (a_body_sha256 ?a)" "opt_all short_text (a_credential_id ?a)"
    "safe_nonneg (a_port ?a)" "safe_nonneg (a_body_bytes ?a)" by code_simp+
  from short_action_bounded [OF assms sample_prims_ok(3) this] show ?thesis .
qed

lemma package_covered: "covers package_action (package_rule L)"
proof -
  have u: "under_prefix (lit ''/v1/packages/resolve'') (lit ''/v1/packages'')" by code_simp
  have "(case (ip_address (lit ''203.0.113.17''), ip_network (lit ''203.0.113.0/24'')) of
      (Some a, Some n) \<Rightarrow> ip_version a = ip_version (net_address n) \<and> ip_int (net_address n) \<le> ip_int a \<and>
        ip_int a < ip_int (net_address n) + host_span (ip_version a) (net_prefixlen n)
    | _ \<Rightarrow> False)" by code_simp
  then have "in_network (lit ''203.0.113.17'') (lit ''203.0.113.0/24'')" by (auto simp: in_network_def split: option.splits)
  with u show ?thesis by (simp add: covers_def package_action_def package_rule_def)
qed


lemma package_sample: "package_request sample_prims package_action"
proof -
  have "moderate sample_prims (dump_action package_action)" unfolding moderate_def
    by (intro exI [of _ 14] exI [of _ 20048] conjI package_bounded) simp_all
  moreover have "a_credential_id package_action = Some (lit ''credential:package-read'')" by (simp add: package_action_def)
  ultimately show ?thesis using package_valid package_covered by (simp add: package_request_def)
qed

lemma package_wire: "from_wire sample_prims (InBytes package_bytes) = Inr package_action"
proof -
  have "json_value sample_prims (dump_action package_action)" by (rule bounded_total [OF package_bounded]) simp_all
  from canonical_json_total [OF this] obtain b where b: "canonical_json_bytes sample_prims (dump_action package_action) = Inr b" by blast
  then have "package_bytes = b" by (simp add: package_bytes_def)
  with action_read_back [OF package_valid b] show ?thesis by simp
qed

lemma sample_reference:
  obtains C w where "build_reference_runtime sample_prims (sample_time 5) sample_keys_bundle default_limits (sample_time 5) 7 = Inr (C, w)"
    "steady sample_prims (cf_manifest C) steady_env package_action 7"
    "max_event_payload_bytes (mb_kill_criteria (m_body (cf_manifest C))) = 262144"
proof -
  obtain C w m i e g s k where b: "build_reference_runtime sample_prims (sample_time 5) sample_keys_bundle default_limits (sample_time 5) 7 = Inr (C, w)"
    "cf_manifest C = m" "m_body m = runtime_body default_limits i e g s k"
    "bind_result (minus_second (sample_time 5)) format_utc_timestamp = Inr i" "bind_result (plus_hour (sample_time 5)) format_utc_timestamp = Inr e"
    by (rule runtime_built [OF sample_prims_lawful sample_setup, of "sample_time 5" 7]) blast
  have "(case bind_result (minus_second (sample_time 5)) format_utc_timestamp of Inl _ \<Rightarrow> False | Inr t \<Rightarrow> t \<le> strftime_utc (sample_time 5))"
    "(case bind_result (plus_hour (sample_time 5)) format_utc_timestamp of Inl _ \<Rightarrow> False | Inr t \<Rightarrow> strftime_utc (sample_time 5) \<le> t)"
    by code_simp+
  then have t: "i \<le> strftime_utc (sample_time 5)" "strftime_utc (sample_time 5) \<le> e" unfolding b(4,5) by simp_all
  have "opaque_id (lit ''auth:'' @ replicate 32 97)" "max_runtime_ms (runtime_criteria default_limits) = 3600000" by code_simp+
  then have "steady sample_prims (cf_manifest C) steady_env package_action 7"
    using t still_calm sample_setup(3)
    by (simp add: steady_def b runtime_body_def steady_env_def reference_callbacks_def still_env_def sample_env_def calm_def safe_nonneg_def MAX_SAFE_INTEGER_def)
  with b show thesis by (intro that [of C w]) (simp_all add: runtime_body_def runtime_criteria_def)
qed

theorem reference_request_served_witness:
  "\<exists>C w d c w'. build_reference_runtime sample_prims (sample_time 5) sample_keys_bundle default_limits (sample_time 5) 7 = Inr (C, w) \<and>
    dispatch_endpoint sample_prims C steady_env package_http w = (Inr \<lparr> hr_status = 200, hr_content = c \<rparr>, w') \<and>
    canonical_json sample_prims (accepted_value d (demo_response sample_prims)) = Inr c \<and> length (w_sent w') = 1 \<and>
    length (ld_events (w_ledger w')) = 4"
proof -
  obtain C w where b: "build_reference_runtime sample_prims (sample_time 5) sample_keys_bundle default_limits (sample_time 5) 7 = Inr (C, w)"
    "steady sample_prims (cf_manifest C) steady_env package_action 7"
    "max_event_payload_bytes (mb_kill_criteria (m_body (cf_manifest C))) = 262144" by (rule sample_reference)
  have n: "length package_bytes = 407" "py_int (lit ''407'') = Inr 407" "media_type package_http = lit ''application/json''" by code_simp+
  have body: "bounded_body C package_http = Inr package_bytes"
    by (simp add: bounded_body_iff package_http_def b(3) n)
  have lim: "4 \<le> rl_max_total_events default_limits" "1048576 \<le> rl_max_total_egress_bytes default_limits" by code_simp+
  from reference_request_served [OF sample_prims_lawful sample_nonzero sample_setup(1,2) lim sample_setup(3-5) b(1,2) package_sample n(3) body package_wire]
  obtain d c w' where "dispatch_endpoint sample_prims C steady_env package_http w = (Inr \<lparr> hr_status = 200, hr_content = c \<rparr>, w')"
    "canonical_json sample_prims (accepted_value d (demo_response sample_prims)) = Inr c"
    "w_sent w' = [(package_action, Some package_secret, 1048576)]" "length (ld_events (w_ledger w')) = 4" by blast
  with b(1) show ?thesis by (intro exI [of _ C] exI [of _ w] exI [of _ d] exI [of _ c] exI [of _ w']) simp
qed

section \<open>The same request twice\<close>

text \<open>A steady environment in which the token of the first request does not come back.\<close>

definition fresh_env :: env where
  "fresh_env = steady_env\<lparr> e_token := \<lambda>n. replicate 32 (if n = 9 then 97 else 98) \<rparr>"

lemma package_admitted_again:
  assumes "s = served_state aid 1048576 11 ((snd (admit sz t (init_state (runtime_criteria default_limits))))
      \<lparr> rs_allowed := rs_allowed (snd (admit sz t (init_state (runtime_criteria default_limits)))) + 1 \<rparr>)" "sz \<le> 262144"
  shows "fst (admit sz u s) = Inr ADMITTED \<and> \<not> budget_blocked 1048576 s"
  using assms
  by (auto simp: admit_def roll_window_def would_overload_def Let_def init_state_def runtime_criteria_def default_limits_def
      served_state_def complete_dispatch_def reserve_dispatch_def budget_blocked_def split: option.splits)

lemma package_permitted_again:
  assumes "m_body m = runtime_body default_limits i e g s k" "i \<le> now" "now \<le> e"
  shows "permitted (count_use package_action (package_rule default_limits) (init_policy m)) package_action now (package_rule default_limits)"
proof -
  have "uses (pe_rule_uses (init_policy m)) x = 0" "uses (pe_credential_uses (init_policy m)) x = 0" "pe_manifest (init_policy m) = m" for x
    by (simp_all add: init_policy_def uses_def)
  moreover have "rl_max_admitted_requests default_limits = 10000" by (simp add: default_limits_def)
  ultimately show ?thesis by (intro package_permitted [OF sample_setup(2) package_sample assms]) simp_all
qed

lemma reference_served_once:
  obtains C w d w1 w2 q where "build_reference_runtime sample_prims (sample_time 5) sample_keys_bundle default_limits (sample_time 5) 7 = Inr (C, w)"
    "submit_raw sample_prims C fresh_env package_bytes w =
      (Inr \<lparr> gr_accepted = True, gr_reason_code = lit ''policy.allowed'', gr_action = Some package_action, gr_decision = Some d \<rparr>, w1)"
    "dispatch sample_prims C fresh_env package_action d 1000 w1 = (Inr (demo_response sample_prims), w2)"
    "servable sample_prims C fresh_env 0 package_bytes package_action (package_rule default_limits) (Some package_secret) (demo_response sample_prims) w2"
    "q \<in> set (ld_events (w_ledger w2))" "of_request REQUEST (a_request_id package_action) q"
proof -
  note su = sample_prims_lawful sample_setup
  obtain C w where b: "build_reference_runtime sample_prims (sample_time 5) sample_keys_bundle default_limits (sample_time 5) 7 = Inr (C, w)"
    "steady sample_prims (cf_manifest C) steady_env package_action 7" by (rule sample_reference)
  have "opaque_id (lit ''auth:'' @ replicate 32 97)" "opaque_id (lit ''auth:'' @ replicate 32 98)" by code_simp+
  then have st: "steady sample_prims (cf_manifest C) fresh_env package_action 7"
    using b(2) by (simp add: steady_def fresh_env_def calm_def)
  have lim: "int 4 + 4 \<le> rl_max_total_events default_limits" "1048576 \<le> rl_max_total_egress_bytes default_limits" "int (length package_bytes) \<le> 262144"
    by code_simp+
  have sv: "servable sample_prims C fresh_env (0 + 4) package_bytes package_action (package_rule default_limits) (Some package_secret) (demo_response sample_prims) w"
    using reference_servable_room [OF su(1) sample_nonzero su(2,3) lim(1,2) su(4-6) b(1) st package_sample package_wire lim(3)] by simp
  obtain m i e g s k where m: "cf_manifest C = m" "m_body m = runtime_body default_limits i e g s k"
    "w_state w = init_state (runtime_criteria default_limits)" "w_policy w = init_policy m"
    by (rule runtime_built [OF su, of "sample_time 5" 7]) (use b(1) in simp)
  have ticks: "w_ticks w = 0" using b(1) by (auto simp: build_reference_runtime_def)
  have tok: "e_token fresh_env i \<noteq> e_token fresh_env (w_ticks w + 9)" if "w_ticks w + 9 < i" for i
    using that by (simp add: ticks fresh_env_def)
  have pol: "permitted (count_use package_action (package_rule default_limits) (w_policy w)) package_action
      (strftime_utc (e_wall fresh_env n)) (package_rule default_limits)" for n
    unfolding m(4) by (rule package_permitted_again [OF m(2)]) (use st m(1,2) in \<open>simp_all add: steady_def runtime_body_def\<close>)
  have adm: "fst (admit (int (length package_bytes)) (e_mono fresh_env n) s) = Inr ADMITTED \<and> \<not> budget_blocked (max_response_bytes (package_rule default_limits)) s"
    if "s = served_state aid (max_response_bytes (package_rule default_limits)) (tr_response_bytes (demo_response sample_prims))
        ((snd (admit (int (length package_bytes)) (e_mono fresh_env (w_ticks w)) (w_state w)))
          \<lparr> rs_allowed := rs_allowed (snd (admit (int (length package_bytes)) (e_mono fresh_env (w_ticks w)) (w_state w))) + 1 \<rparr>)" for aid s n
    using package_admitted_again [OF _ lim(3), of s aid "e_mono fresh_env (w_ticks w)"] that
    by (simp add: m(3) package_rule_def demo_response_def)
  have t: "e_mono fresh_env 0 = 1000" by (simp add: fresh_env_def steady_env_def reference_callbacks_def still_env_def)
  have "\<exists>d w1 w2 q. submit_raw sample_prims C fresh_env package_bytes w =
      (Inr \<lparr> gr_accepted = True, gr_reason_code = lit ''policy.allowed'', gr_action = Some package_action, gr_decision = Some d \<rparr>, w1) \<and>
    dispatch sample_prims C fresh_env package_action d (e_mono fresh_env 0) w1 = (Inr (demo_response sample_prims), w2) \<and>
    servable sample_prims C fresh_env 0 package_bytes package_action (package_rule default_limits) (Some package_secret) (demo_response sample_prims) w2 \<and>
    q \<in> set (ld_events (w_ledger w2)) \<and> of_request REQUEST (a_request_id package_action) q"
    by (rule served_again [OF sv]) (erule tok, rule pol, erule adm)
  then show thesis unfolding t by (elim exE conjE) (rule that [OF b(1)])
qed

theorem duplicate_request_rejected_witness:
  "\<exists>C w d w1 w2 d' w3 w4 b. build_reference_runtime sample_prims (sample_time 5) sample_keys_bundle default_limits (sample_time 5) 7 = Inr (C, w) \<and>
     submit_raw sample_prims C fresh_env package_bytes w =
      (Inr \<lparr> gr_accepted = True, gr_reason_code = lit ''policy.allowed'', gr_action = Some package_action, gr_decision = Some d \<rparr>, w1) \<and>
     dispatch sample_prims C fresh_env package_action d 1000 w1 = (Inr (demo_response sample_prims), w2) \<and>
     submit_raw sample_prims C fresh_env package_bytes w2 =
      (Inr \<lparr> gr_accepted = True, gr_reason_code = lit ''policy.allowed'', gr_action = Some package_action, gr_decision = Some d' \<rparr>, w3) \<and>
     dispatch sample_prims C fresh_env package_action d' 1000 w3 = (Inr (demo_response sample_prims), w4) \<and>
     canonical_jsonl_bytes sample_prims (ld_events (w_ledger w4)) = Inr b \<and>
     (\<forall>m r key. \<exists>x. verify_bundle sample_prims m r (map InBytes (file_lines b)) key = Inl x)"
proof -
  obtain C w d w1 w2 q where f: "build_reference_runtime sample_prims (sample_time 5) sample_keys_bundle default_limits (sample_time 5) 7 = Inr (C, w)"
    "submit_raw sample_prims C fresh_env package_bytes w =
      (Inr \<lparr> gr_accepted = True, gr_reason_code = lit ''policy.allowed'', gr_action = Some package_action, gr_decision = Some d \<rparr>, w1)"
    "dispatch sample_prims C fresh_env package_action d 1000 w1 = (Inr (demo_response sample_prims), w2)"
    "servable sample_prims C fresh_env 0 package_bytes package_action (package_rule default_limits) (Some package_secret) (demo_response sample_prims) w2"
    "q \<in> set (ld_events (w_ledger w2))" "of_request REQUEST (a_request_id package_action) q"
    by (rule reference_served_once)
  have t: "e_mono fresh_env 0 = 1000" by (simp add: fresh_env_def steady_env_def reference_callbacks_def still_env_def)
  obtain d' w3 w4 b where r:
    "submit_raw sample_prims C fresh_env package_bytes w2 =
      (Inr \<lparr> gr_accepted = True, gr_reason_code = lit ''policy.allowed'', gr_action = Some package_action, gr_decision = Some d' \<rparr>, w3)"
    "dispatch sample_prims C fresh_env package_action d' 1000 w3 = (Inr (demo_response sample_prims), w4)"
    "canonical_jsonl_bytes sample_prims (ld_events (w_ledger w4)) = Inr b"
    "iter_canonical_jsonl sample_prims (map InBytes (file_lines b)) = (ld_events (w_ledger w4), Inr ())"
    "\<And>lines later m r key. iter_canonical_jsonl sample_prims lines = (ld_events (w_ledger w4) @ later, Inr ()) \<Longrightarrow>
       \<exists>x. verify_bundle sample_prims m r lines key = Inl x"
    using duplicate_request_rejected [OF f(4-6), of 0] unfolding t by blast
  have "\<forall>m r key. \<exists>x. verify_bundle sample_prims m r (map InBytes (file_lines b)) key = Inl x"
    using r(5) [of "map InBytes (file_lines b)" "[]"] r(4) by simp
  with f(1-3) r(1-3) show ?thesis
    by (intro exI [of _ C] exI [of _ w] exI [of _ d] exI [of _ w1] exI [of _ w2] exI [of _ d'] exI [of _ w3] exI [of _ w4] exI [of _ b] conjI)
qed

end
