(* ===== verification/BCP_Bundle.thy ===== *)
theory BCP_Bundle
  imports BCP_Factory
begin

text \<open>
  The files of an evidence bundle and the auditor's command (\<^verbatim>\<open>auditor/verify.py\<close>: \<open>_load_exact_model\<close>, \<open>main\<close>):
  the readers of the manifest, the receipt and the operator's key, as further instances of the contract of a reader, what the
  command answers for given files, and that the bundle a served run publishes passes it.
\<close>

section \<open>Readers of the manifest\<close>

definition read_list :: "(json \<Rightarrow> 'a option) \<Rightarrow> json \<Rightarrow> 'a list option" where
  "read_list rd j = (case j of JArr js \<Rightarrow> those (map rd js) | _ \<Rightarrow> None)"

definition read_public_key :: "(pystr \<times> json) list \<Rightarrow> ed_public_key option" where
  "read_public_key kvs =
     do { kid \<leftarrow> req_field kvs ''key_id'' read_str;
          def_field kvs ''algorithm'' (read_literal (JStr (lit ''Ed25519''))) ();
          v \<leftarrow> req_field kvs ''value'' read_str;
          Some \<lparr> key_id = kid, key_value = v \<rparr> }"

definition public_key_of_json :: "json \<Rightarrow> ed_public_key result" where
  "public_key_of_json = of_object [''key_id'', ''algorithm'', ''value''] read_public_key validate_public_key"

definition egress_rule_fields :: "string list" where
  "egress_rule_fields =
     [''rule_id'', ''scheme'', ''host'', ''port'', ''methods'', ''path_prefixes'', ''resolved_ip_cidrs'', ''tls_spki_sha256'',
      ''max_requests'', ''max_request_bytes'', ''max_response_bytes'']"

definition read_egress_rule :: "(pystr \<times> json) list \<Rightarrow> egress_rule option" where
  "read_egress_rule kvs =
     do { i \<leftarrow> req_field kvs ''rule_id'' read_str;
          def_field kvs ''scheme'' (read_literal (JStr (lit ''https''))) ();
          h \<leftarrow> req_field kvs ''host'' read_str;
          p \<leftarrow> req_field kvs ''port'' read_int;
          ms \<leftarrow> req_field kvs ''methods'' (read_list (read_enum http_methods));
          ps \<leftarrow> req_field kvs ''path_prefixes'' read_strs;
          cs \<leftarrow> req_field kvs ''resolved_ip_cidrs'' read_strs;
          ts \<leftarrow> def_field kvs ''tls_spki_sha256'' read_strs [];
          mr \<leftarrow> req_field kvs ''max_requests'' read_int;
          mq \<leftarrow> req_field kvs ''max_request_bytes'' read_int;
          mp \<leftarrow> req_field kvs ''max_response_bytes'' read_int;
          Some \<lparr> rule_id = i, rule_host = h, rule_port = p, rule_methods = ms, path_prefixes = ps, resolved_ip_cidrs = cs,
                 rule_tls_spki_sha256 = ts, max_requests = mr, max_request_bytes = mq, max_response_bytes = mp \<rparr> }"

definition egress_rule_of_json :: "prims \<Rightarrow> json \<Rightarrow> egress_rule result" where
  "egress_rule_of_json P = of_object egress_rule_fields read_egress_rule (validate_egress_rule P)"

definition credential_grant_fields :: "string list" where
  "credential_grant_fields =
     [''credential_id'', ''broker_ref'', ''audience'', ''allowed_rule_ids'', ''scopes'', ''expires_at'', ''max_uses'', ''is_canary'']"

definition read_credential_grant :: "(pystr \<times> json) list \<Rightarrow> credential_grant option" where
  "read_credential_grant kvs =
     do { i \<leftarrow> req_field kvs ''credential_id'' read_str;
          b \<leftarrow> req_field kvs ''broker_ref'' read_str;
          a \<leftarrow> req_field kvs ''audience'' read_str;
          rs \<leftarrow> req_field kvs ''allowed_rule_ids'' read_strs;
          ss \<leftarrow> def_field kvs ''scopes'' read_strs [];
          x \<leftarrow> req_field kvs ''expires_at'' read_str;
          mu \<leftarrow> req_field kvs ''max_uses'' read_int;
          c \<leftarrow> def_field kvs ''is_canary'' read_bool False;
          Some \<lparr> credential_id = i, broker_ref = b, audience = a, allowed_rule_ids = rs, scopes = ss, grant_expires_at = x,
                 max_uses = mu, is_canary = c \<rparr> }"

definition credential_grant_of_json :: "prims \<Rightarrow> json \<Rightarrow> credential_grant result" where
  "credential_grant_of_json P = of_object credential_grant_fields read_credential_grant (validate_credential_grant P)"

definition kill_criteria_fields :: "string list" where
  "kill_criteria_fields =
     [''deny_is_kill'', ''max_runtime_ms'', ''max_total_events'', ''max_admitted_requests'', ''max_inflight_requests'',
      ''max_requests_per_window'', ''rate_window_ms'', ''max_queued_events'', ''max_event_payload_bytes'',
      ''max_total_egress_bytes'', ''supervisor_kill_latency_sla_ms'']"

definition read_kill_criteria :: "(pystr \<times> json) list \<Rightarrow> kill_criteria option" where
  "read_kill_criteria kvs =
     do { d \<leftarrow> def_field kvs ''deny_is_kill'' read_bool True;
          rt \<leftarrow> req_field kvs ''max_runtime_ms'' read_int;
          te \<leftarrow> req_field kvs ''max_total_events'' read_int;
          ar \<leftarrow> req_field kvs ''max_admitted_requests'' read_int;
          ir \<leftarrow> req_field kvs ''max_inflight_requests'' read_int;
          rw \<leftarrow> req_field kvs ''max_requests_per_window'' read_int;
          wm \<leftarrow> req_field kvs ''rate_window_ms'' read_int;
          qe \<leftarrow> req_field kvs ''max_queued_events'' read_int;
          pb \<leftarrow> req_field kvs ''max_event_payload_bytes'' read_int;
          eb \<leftarrow> req_field kvs ''max_total_egress_bytes'' read_int;
          sl \<leftarrow> req_field kvs ''supervisor_kill_latency_sla_ms'' read_int;
          Some \<lparr> deny_is_kill = d, max_runtime_ms = rt, max_total_events = te, max_admitted_requests = ar,
                 max_inflight_requests = ir, max_requests_per_window = rw, rate_window_ms = wm, max_queued_events = qe,
                 max_event_payload_bytes = pb, max_total_egress_bytes = eb, supervisor_kill_latency_sla_ms = sl \<rparr> }"

definition kill_criteria_of_json :: "json \<Rightarrow> kill_criteria result" where
  "kill_criteria_of_json = of_object kill_criteria_fields read_kill_criteria validate_kill_criteria"

definition second_hop_body_fields :: "string list" where
  "second_hop_body_fields =
     [''run_id'', ''provider_id'', ''provider_key_id'', ''endpoint_host'', ''accountable_org'', ''responsible_operator'',
      ''security_contact'', ''issued_at'', ''expires_at'', ''evidence_sha256'', ''authenticated'', ''non_root_workload'',
      ''tenant_isolation'', ''default_deny_egress'', ''no_ambient_secrets'', ''bounded_requests'', ''abuse_monitoring'',
      ''automatic_containment_authorized'', ''evidence_exchange_required'']"

definition read_second_hop_body :: "(pystr \<times> json) list \<Rightarrow> second_hop_body option" where
  "read_second_hop_body kvs =
     do { run \<leftarrow> req_field kvs ''run_id'' read_str;
          pid \<leftarrow> req_field kvs ''provider_id'' read_str;
          pk \<leftarrow> req_field kvs ''provider_key_id'' read_str;
          h \<leftarrow> req_field kvs ''endpoint_host'' read_str;
          ao \<leftarrow> req_field kvs ''accountable_org'' read_str;
          ro \<leftarrow> req_field kvs ''responsible_operator'' read_str;
          sc \<leftarrow> req_field kvs ''security_contact'' read_str;
          ia \<leftarrow> req_field kvs ''issued_at'' read_str;
          xa \<leftarrow> req_field kvs ''expires_at'' read_str;
          ev \<leftarrow> req_field kvs ''evidence_sha256'' read_strs;
          b1 \<leftarrow> req_field kvs ''authenticated'' read_bool;
          b2 \<leftarrow> req_field kvs ''non_root_workload'' read_bool;
          b3 \<leftarrow> req_field kvs ''tenant_isolation'' read_bool;
          b4 \<leftarrow> req_field kvs ''default_deny_egress'' read_bool;
          b5 \<leftarrow> req_field kvs ''no_ambient_secrets'' read_bool;
          b6 \<leftarrow> req_field kvs ''bounded_requests'' read_bool;
          b7 \<leftarrow> req_field kvs ''abuse_monitoring'' read_bool;
          b8 \<leftarrow> req_field kvs ''automatic_containment_authorized'' read_bool;
          b9 \<leftarrow> req_field kvs ''evidence_exchange_required'' read_bool;
          Some \<lparr> sh_run_id = run, sh_provider_id = pid, sh_provider_key_id = pk, sh_endpoint_host = h, sh_accountable_org = ao,
                 sh_responsible_operator = ro, sh_security_contact = sc, sh_issued_at = ia, sh_expires_at = xa,
                 sh_evidence_sha256 = ev, sh_authenticated = b1, sh_non_root_workload = b2, sh_tenant_isolation = b3,
                 sh_default_deny_egress = b4, sh_no_ambient_secrets = b5, sh_bounded_requests = b6, sh_abuse_monitoring = b7,
                 sh_automatic_containment_authorized = b8, sh_evidence_exchange_required = b9 \<rparr> }"

definition second_hop_body_of_json :: "prims \<Rightarrow> json \<Rightarrow> second_hop_body result" where
  "second_hop_body_of_json P = of_object second_hop_body_fields read_second_hop_body (validate_second_hop_body P)"

definition read_second_hop :: "prims \<Rightarrow> (pystr \<times> json) list \<Rightarrow> second_hop option" where
  "read_second_hop P kvs =
     do { b \<leftarrow> req_field kvs ''body'' (read_model (second_hop_body_of_json P));
          k \<leftarrow> req_field kvs ''provider_key'' (read_model public_key_of_json);
          h \<leftarrow> req_field kvs ''attestation_hash'' read_str;
          s \<leftarrow> req_field kvs ''provider_signature'' (read_model signature_of_json);
          Some \<lparr> hop_body = b, hop_provider_key = k, hop_attestation_hash = h, hop_provider_signature = s \<rparr> }"

definition second_hop_of_json :: "prims \<Rightarrow> json \<Rightarrow> second_hop result" where
  "second_hop_of_json P =
     of_object [''body'', ''provider_key'', ''attestation_hash'', ''provider_signature''] (read_second_hop P) (validate_second_hop P)"

definition manifest_body_fields :: "string list" where
  "manifest_body_fields =
     [''protocol'', ''schema_version'', ''manifest_id'', ''run_id'', ''issued_at'', ''not_before'', ''expires_at'',
      ''operator_key_id'', ''gateway_key'', ''supervisor_key'', ''witness_key'', ''allowed_egress'', ''credentials'',
      ''second_hops'', ''kill_criteria'']"

definition read_manifest_body :: "prims \<Rightarrow> (pystr \<times> json) list \<Rightarrow> manifest_body option" where
  "read_manifest_body P kvs =
     do { protocol_fields kvs;
          i \<leftarrow> req_field kvs ''manifest_id'' read_str;
          run \<leftarrow> req_field kvs ''run_id'' read_str;
          ia \<leftarrow> req_field kvs ''issued_at'' read_str;
          nb \<leftarrow> req_field kvs ''not_before'' read_str;
          xa \<leftarrow> req_field kvs ''expires_at'' read_str;
          ok \<leftarrow> req_field kvs ''operator_key_id'' read_str;
          gk \<leftarrow> req_field kvs ''gateway_key'' (read_model public_key_of_json);
          sk \<leftarrow> req_field kvs ''supervisor_key'' (read_model public_key_of_json);
          wk \<leftarrow> req_field kvs ''witness_key'' (read_model public_key_of_json);
          rs \<leftarrow> def_field kvs ''allowed_egress'' (read_list (read_model (egress_rule_of_json P))) [];
          gs \<leftarrow> def_field kvs ''credentials'' (read_list (read_model (credential_grant_of_json P))) [];
          hs \<leftarrow> def_field kvs ''second_hops'' (read_list (read_model (second_hop_of_json P))) [];
          kc \<leftarrow> req_field kvs ''kill_criteria'' (read_model kill_criteria_of_json);
          Some \<lparr> mb_manifest_id = i, mb_run_id = run, mb_issued_at = ia, mb_not_before = nb, mb_expires_at = xa,
                 mb_operator_key_id = ok, mb_gateway_key = gk, mb_supervisor_key = sk, mb_witness_key = wk,
                 mb_allowed_egress = rs, mb_credentials = gs, mb_second_hops = hs, mb_kill_criteria = kc \<rparr> }"

definition manifest_body_of_json :: "prims \<Rightarrow> json \<Rightarrow> manifest_body result" where
  "manifest_body_of_json P = of_object manifest_body_fields (read_manifest_body P) (validate_manifest_body P)"

definition read_manifest :: "prims \<Rightarrow> (pystr \<times> json) list \<Rightarrow> manifest option" where
  "read_manifest P kvs =
     do { b \<leftarrow> req_field kvs ''body'' (read_model (manifest_body_of_json P));
          h \<leftarrow> req_field kvs ''manifest_hash'' read_str;
          s \<leftarrow> req_field kvs ''operator_signature'' (read_model signature_of_json);
          Some \<lparr> m_body = b, m_hash = h, m_signature = s \<rparr> }"

definition manifest_of_json :: "prims \<Rightarrow> json \<Rightarrow> manifest result" where
  "manifest_of_json P = of_object [''body'', ''manifest_hash'', ''operator_signature''] (read_manifest P) (validate_manifest P)"

definition dump_manifest :: "manifest \<Rightarrow> pyval" where
  "dump_manifest m =
     obj [(''body'', dump_manifest_body (m_body m)), (''manifest_hash'', PStr (m_hash m)),
          (''operator_signature'', dump_signature (m_signature m))]"

section \<open>Readers of the receipt\<close>

definition checkpoint_body_fields :: "string list" where
  "checkpoint_body_fields =
     [''protocol'', ''schema_version'', ''run_id'', ''manifest_hash'', ''witness_key_id'', ''witnessed_at'', ''event_count'',
      ''final_event_hash'', ''evidence_file_sha256'']"

definition read_checkpoint_body :: "(pystr \<times> json) list \<Rightarrow> checkpoint_body option" where
  "read_checkpoint_body kvs =
     do { protocol_fields kvs;
          run \<leftarrow> req_field kvs ''run_id'' read_str;
          mh \<leftarrow> req_field kvs ''manifest_hash'' read_str;
          wk \<leftarrow> req_field kvs ''witness_key_id'' read_str;
          at \<leftarrow> req_field kvs ''witnessed_at'' read_str;
          n \<leftarrow> req_field kvs ''event_count'' read_int;
          fh \<leftarrow> req_field kvs ''final_event_hash'' (read_optional read_str);
          eh \<leftarrow> req_field kvs ''evidence_file_sha256'' read_str;
          Some \<lparr> wc_run_id = run, wc_manifest_hash = mh, wc_witness_key_id = wk, wc_witnessed_at = at, wc_event_count = n,
                 wc_final_event_hash = fh, wc_evidence_file_sha256 = eh \<rparr> }"

definition checkpoint_body_of_json :: "prims \<Rightarrow> json \<Rightarrow> checkpoint_body result" where
  "checkpoint_body_of_json P = of_object checkpoint_body_fields read_checkpoint_body (validate_checkpoint_body P)"

definition read_checkpoint :: "prims \<Rightarrow> (pystr \<times> json) list \<Rightarrow> checkpoint option" where
  "read_checkpoint P kvs =
     do { b \<leftarrow> req_field kvs ''body'' (read_model (checkpoint_body_of_json P));
          h \<leftarrow> req_field kvs ''checkpoint_hash'' read_str;
          s \<leftarrow> req_field kvs ''witness_signature'' (read_model signature_of_json);
          Some \<lparr> c_body = b, c_hash = h, c_signature = s \<rparr> }"

definition checkpoint_of_json :: "prims \<Rightarrow> json \<Rightarrow> checkpoint result" where
  "checkpoint_of_json P =
     of_object [''body'', ''checkpoint_hash'', ''witness_signature''] (read_checkpoint P) (validate_checkpoint P)"

definition run_statuses :: "(pystr \<times> run_status) list" where
  "run_statuses = map (\<lambda>s. (run_status_name s, s)) [COMPLETED, FAILED, KILLED, SUPERVISOR_FAILURE]"

definition receipt_body_fields :: "string list" where
  "receipt_body_fields =
     [''protocol'', ''schema_version'', ''run_id'', ''manifest_hash'', ''supervisor_key_id'', ''supervisor_instance_id'',
      ''status'', ''started_at'', ''finished_at'', ''started_monotonic_ns'', ''finished_monotonic_ns'', ''event_count'',
      ''first_event_hash'', ''final_event_hash'', ''evidence_format'', ''evidence_file_sha256'', ''observed_request_count'',
      ''admitted_request_count'', ''allowed_request_count'', ''denied_request_count'', ''dispatched_request_count'',
      ''completed_request_count'', ''rejected_overload_count'', ''dropped_after_kill_count'', ''total_egress_bytes'',
      ''kill_acknowledgement'', ''witness_checkpoint'']"

definition read_receipt_body :: "prims \<Rightarrow> (pystr \<times> json) list \<Rightarrow> receipt_body option" where
  "read_receipt_body P kvs =
     do { protocol_fields kvs;
          run \<leftarrow> req_field kvs ''run_id'' read_str;
          mh \<leftarrow> req_field kvs ''manifest_hash'' read_str;
          sk \<leftarrow> req_field kvs ''supervisor_key_id'' read_str;
          si \<leftarrow> req_field kvs ''supervisor_instance_id'' read_str;
          st \<leftarrow> req_field kvs ''status'' (read_enum run_statuses);
          sa \<leftarrow> req_field kvs ''started_at'' read_str;
          fa \<leftarrow> req_field kvs ''finished_at'' read_str;
          sn \<leftarrow> req_field kvs ''started_monotonic_ns'' read_int;
          fn \<leftarrow> req_field kvs ''finished_monotonic_ns'' read_int;
          n \<leftarrow> req_field kvs ''event_count'' read_int;
          h1 \<leftarrow> req_field kvs ''first_event_hash'' (read_optional read_str);
          hn \<leftarrow> req_field kvs ''final_event_hash'' (read_optional read_str);
          def_field kvs ''evidence_format'' (read_literal (JStr (lit ''canonical-jsonl-v1''))) ();
          eh \<leftarrow> req_field kvs ''evidence_file_sha256'' read_str;
          c1 \<leftarrow> req_field kvs ''observed_request_count'' read_int;
          c2 \<leftarrow> req_field kvs ''admitted_request_count'' read_int;
          c3 \<leftarrow> req_field kvs ''allowed_request_count'' read_int;
          c4 \<leftarrow> req_field kvs ''denied_request_count'' read_int;
          c5 \<leftarrow> req_field kvs ''dispatched_request_count'' read_int;
          c6 \<leftarrow> req_field kvs ''completed_request_count'' read_int;
          c7 \<leftarrow> req_field kvs ''rejected_overload_count'' read_int;
          c8 \<leftarrow> req_field kvs ''dropped_after_kill_count'' read_int;
          c9 \<leftarrow> req_field kvs ''total_egress_bytes'' read_int;
          ka \<leftarrow> def_field kvs ''kill_acknowledgement'' (read_optional (read_model (kill_ack_of_json P))) None;
          wc \<leftarrow> req_field kvs ''witness_checkpoint'' (read_model (checkpoint_of_json P));
          Some \<lparr> rb_run_id = run, rb_manifest_hash = mh, rb_supervisor_key_id = sk, rb_supervisor_instance_id = si,
                 rb_status = st, rb_started_at = sa, rb_finished_at = fa, rb_started_monotonic_ns = sn,
                 rb_finished_monotonic_ns = fn, rb_event_count = n, rb_first_event_hash = h1, rb_final_event_hash = hn,
                 rb_evidence_file_sha256 = eh, rb_observed_request_count = c1, rb_admitted_request_count = c2,
                 rb_allowed_request_count = c3, rb_denied_request_count = c4, rb_dispatched_request_count = c5,
                 rb_completed_request_count = c6, rb_rejected_overload_count = c7, rb_dropped_after_kill_count = c8,
                 rb_total_egress_bytes = c9, rb_kill_acknowledgement = ka, rb_witness_checkpoint = wc \<rparr> }"

definition receipt_body_of_json :: "prims \<Rightarrow> json \<Rightarrow> receipt_body result" where
  "receipt_body_of_json P = of_object receipt_body_fields (read_receipt_body P) (validate_receipt_body P)"

definition read_receipt :: "prims \<Rightarrow> (pystr \<times> json) list \<Rightarrow> receipt option" where
  "read_receipt P kvs =
     do { b \<leftarrow> req_field kvs ''body'' (read_model (receipt_body_of_json P));
          h \<leftarrow> req_field kvs ''receipt_hash'' read_str;
          s \<leftarrow> req_field kvs ''supervisor_signature'' (read_model signature_of_json);
          Some \<lparr> r_body = b, r_hash = h, r_signature = s \<rparr> }"

definition receipt_of_json :: "prims \<Rightarrow> json \<Rightarrow> receipt result" where
  "receipt_of_json P = of_object [''body'', ''receipt_hash'', ''supervisor_signature''] (read_receipt P) (validate_receipt P)"

section \<open>The command\<close>

text \<open>\<open>_load_exact_model\<close>: \<open>read\<close> is the outcome of \<open>path.read_bytes()\<close>.\<close>

definition load_exact_model :: "prims \<Rightarrow> (json \<Rightarrow> 'a result) \<Rightarrow> ('a \<Rightarrow> pyval) \<Rightarrow> bytes result \<Rightarrow> 'a result" where
  "load_exact_model P of_json dump read =
     bind_result read (\<lambda>raw.
     bind_result (model_validate_json P of_json (InBytes raw)) (\<lambda>value.
     bind_result (canonical_json_bytes P (dump value)) (\<lambda>b.
       if b \<noteq> raw then Inl (ValueError ''file is not canonical JSON'') else Inr value)))"

text \<open>What the four paths of the command line hold; reading or opening one of them may fail.\<close>

record bundle_files =
  bf_manifest :: "bytes result"
  bf_receipt :: "bytes result"
  bf_evidence :: "bytes result"
  bf_operator_key :: "bytes result"

definition load_bundle :: "prims \<Rightarrow> bundle_files \<Rightarrow> verification_report result" where
  "load_bundle P F =
     bind_result (load_exact_model P (manifest_of_json P) dump_manifest (bf_manifest F)) (\<lambda>manifest.
     bind_result (load_exact_model P (receipt_of_json P) dump_receipt (bf_receipt F)) (\<lambda>receipt.
     bind_result (load_exact_model P public_key_of_json dump_public_key (bf_operator_key F)) (\<lambda>operator_key.
     bind_result (bf_evidence F) (\<lambda>evidence.
       verify_bundle P manifest receipt (map InBytes (file_lines evidence)) operator_key))))"

text \<open>\<open>main\<close>: the exit code and what is printed, the report or the exception.\<close>

definition audit_main :: "prims \<Rightarrow> bundle_files \<Rightarrow> int \<times> verification_report result" where
  "audit_main P F = (case load_bundle P F of Inl exc \<Rightarrow> (1, Inl exc) | Inr report \<Rightarrow> (0, Inr report))"

section \<open>Nested records\<close>

lemma read_list_Some: "read_list rd j = Some xs \<longleftrightarrow> (\<exists>js. j = JArr js \<and> map rd js = map Some xs)"
proof -
  have "those ys = Some xs \<longleftrightarrow> ys = map Some xs" for ys :: "'a option list"
    by (induction ys arbitrary: xs) (auto split: option.splits)
  then show ?thesis by (auto simp: read_list_def split: json.splits)
qed

lemma read_methods [simp]: "read_list (read_enum http_methods) (order_for_jcs (json_of_py (str_tuple (map method_name ms)))) = Some ms"
proof -
  have "read_enum http_methods (JStr (method_name m)) = Some m" for m
    by (cases m) (simp_all add: read_enum_def http_methods_def method_name_def lit_inj)
  then show ?thesis by (auto simp: read_list_Some str_tuple_def)
qed

lemma read_status [simp]: "read_enum run_statuses (JStr (run_status_name s)) = Some s"
  by (cases s) (simp_all add: read_enum_def run_statuses_def run_status_name_def lit_inj)

context contract_model
begin

lemma read_seq: "list_all (valid P) xs \<Longrightarrow> read_list (read_model (of_json P)) (JArr (map (order_for_jcs \<circ> (json_of_py \<circ> dump)) xs)) = Some xs"
  by (auto simp: read_list_Some list_all_iff)

lemma read_seq_valid: "read_list (read_model (of_json P)) j = Some xs \<Longrightarrow> list_all (valid P) xs"
proof -
  assume "read_list (read_model (of_json P)) j = Some xs"
  then obtain js where "map (read_model (of_json P)) js = map Some xs" by (auto simp: read_list_Some)
  then have "Some ` set xs = read_model (of_json P) ` set js" by (metis list.set_map)
  then have "\<exists>y. of_json P y = Inr x" if "x \<in> set xs" for x using that by (metis image_iff read_Some(1))
  then show ?thesis using read_valid by (auto simp: list_all_iff)
qed

lemma read_opt:
  "opt_all (valid P) v \<Longrightarrow>
     read_optional (read_model (of_json P)) (order_for_jcs (json_of_py (case v of None \<Rightarrow> PNone | Some x \<Rightarrow> dump x))) = Some v"
proof (cases v)
  case (Some x)
  assume "opt_all (valid P) v"
  moreover obtain kvs where "order_for_jcs (json_of_py (dump x)) = JObj kvs" using ordered_obj [OF names_distinct, of x] dump_eq by metis
  ultimately show ?thesis using Some read_nested [of P x] by (simp add: read_optional_def)
qed (simp add: read_optional_def)

lemma read_opt_valid: "read_optional (read_model (of_json P)) j = Some v \<Longrightarrow> opt_all (valid P) v"
  using read_valid by (cases v) (auto simp: read_optional_def read_Some split: if_splits)

end

section \<open>Validity of a bundle's records\<close>

definition valid_second_hop :: "prims \<Rightarrow> second_hop \<Rightarrow> bool" where
  "valid_second_hop P h \<longleftrightarrow> validate_second_hop_body P (hop_body h) = Inr (hop_body h) \<and>
     validate_public_key (hop_provider_key h) = Inr (hop_provider_key h) \<and>
     validate_signature (hop_provider_signature h) = Inr (hop_provider_signature h) \<and> validate_second_hop P h = Inr h"

definition valid_manifest_body :: "prims \<Rightarrow> manifest_body \<Rightarrow> bool" where
  "valid_manifest_body P m \<longleftrightarrow>
     list_all (\<lambda>k. validate_public_key k = Inr k) [mb_gateway_key m, mb_supervisor_key m, mb_witness_key m] \<and>
     list_all (\<lambda>r. validate_egress_rule P r = Inr r) (mb_allowed_egress m) \<and>
     list_all (\<lambda>g. validate_credential_grant P g = Inr g) (mb_credentials m) \<and>
     list_all (valid_second_hop P) (mb_second_hops m) \<and>
     validate_kill_criteria (mb_kill_criteria m) = Inr (mb_kill_criteria m) \<and> validate_manifest_body P m = Inr m"

definition valid_manifest :: "prims \<Rightarrow> manifest \<Rightarrow> bool" where
  "valid_manifest P m \<longleftrightarrow> valid_manifest_body P (m_body m) \<and> validate_signature (m_signature m) = Inr (m_signature m) \<and>
     validate_manifest P m = Inr m"

definition valid_checkpoint :: "prims \<Rightarrow> checkpoint \<Rightarrow> bool" where
  "valid_checkpoint P c \<longleftrightarrow> validate_checkpoint_body P (c_body c) = Inr (c_body c) \<and>
     validate_signature (c_signature c) = Inr (c_signature c) \<and> validate_checkpoint P c = Inr c"

definition valid_kill_ack :: "prims \<Rightarrow> kill_ack \<Rightarrow> bool" where
  "valid_kill_ack P k \<longleftrightarrow> validate_kill_ack_body P (k_body k) = Inr (k_body k) \<and>
     validate_signature (k_signature k) = Inr (k_signature k) \<and> validate_kill_ack P k = Inr k"

definition valid_receipt_body :: "prims \<Rightarrow> receipt_body \<Rightarrow> bool" where
  "valid_receipt_body P b \<longleftrightarrow> opt_all (valid_kill_ack P) (rb_kill_acknowledgement b) \<and>
     valid_checkpoint P (rb_witness_checkpoint b) \<and> validate_receipt_body P b = Inr b"

definition valid_receipt :: "prims \<Rightarrow> receipt \<Rightarrow> bool" where
  "valid_receipt P r \<longleftrightarrow> valid_receipt_body P (r_body r) \<and> validate_signature (r_signature r) = Inr (r_signature r) \<and>
     validate_receipt P r = Inr r"

section \<open>Every reader keeps the contract\<close>

interpretation public_key_wire: contract_model dump_public_key
  "\<lambda>k. [(''key_id'', PStr (key_id k)), (''algorithm'', PStr (lit ''Ed25519'')), (''value'', PStr (key_value k))]"
  "\<lambda>_. public_key_of_json" "\<lambda>_ k. validate_public_key k = Inr k"
proof (unfold_locales, goal_cases)
  case (3 P x kvs)
  have "read_public_key kvs = Some x" by (simp add: read_public_key_def read_fields [OF 3(2)])
  with 3 show ?case unfolding public_key_of_json_def by (intro of_object_back) simp_all
next
  case (4 P j x)
  then show ?case by (auto simp: public_key_of_json_def of_object_Inr validate_public_key_def)
qed (simp_all add: dump_public_key_def)

interpretation egress_rule_wire: contract_model dump_egress_rule
  "\<lambda>r. [(''rule_id'', PStr (rule_id r)), (''scheme'', PStr (lit ''https'')), (''host'', PStr (rule_host r)),
          (''port'', PInt (rule_port r)), (''methods'', str_tuple (map method_name (rule_methods r))),
          (''path_prefixes'', str_tuple (path_prefixes r)),
          (''resolved_ip_cidrs'', str_tuple (resolved_ip_cidrs r)),
          (''tls_spki_sha256'', str_tuple (rule_tls_spki_sha256 r)),
          (''max_requests'', PInt (max_requests r)),
          (''max_request_bytes'', PInt (max_request_bytes r)),
          (''max_response_bytes'', PInt (max_response_bytes r))]"
  egress_rule_of_json "\<lambda>P r. validate_egress_rule P r = Inr r"
proof (unfold_locales, goal_cases)
  case (3 P x kvs)
  have "read_egress_rule kvs = Some x" by (simp add: read_egress_rule_def read_fields [OF 3(2)])
  with 3 show ?case unfolding egress_rule_of_json_def egress_rule_fields_def by (intro of_object_back) simp_all
next
  case (4 P j x)
  then show ?case by (auto simp: egress_rule_of_json_def of_object_Inr validate_egress_rule_def)
qed (simp_all add: dump_egress_rule_def)

interpretation credential_grant_wire: contract_model dump_credential_grant
  "\<lambda>g. [(''credential_id'', PStr (credential_id g)), (''broker_ref'', PStr (broker_ref g)),
          (''audience'', PStr (audience g)), (''allowed_rule_ids'', str_tuple (allowed_rule_ids g)),
          (''scopes'', str_tuple (scopes g)), (''expires_at'', PStr (grant_expires_at g)),
          (''max_uses'', PInt (max_uses g)), (''is_canary'', PBool (is_canary g))]"
  credential_grant_of_json "\<lambda>P g. validate_credential_grant P g = Inr g"
proof (unfold_locales, goal_cases)
  case (3 P x kvs)
  have "read_credential_grant kvs = Some x" by (simp add: read_credential_grant_def read_fields [OF 3(2)])
  with 3 show ?case unfolding credential_grant_of_json_def credential_grant_fields_def by (intro of_object_back) simp_all
next
  case (4 P j x)
  then show ?case by (auto simp: credential_grant_of_json_def of_object_Inr validate_credential_grant_def)
qed (simp_all add: dump_credential_grant_def)

interpretation kill_criteria_wire: contract_model dump_kill_criteria
  "\<lambda>k. [(''deny_is_kill'', PBool (deny_is_kill k)), (''max_runtime_ms'', PInt (max_runtime_ms k)),
          (''max_total_events'', PInt (max_total_events k)),
          (''max_admitted_requests'', PInt (max_admitted_requests k)),
          (''max_inflight_requests'', PInt (max_inflight_requests k)),
          (''max_requests_per_window'', PInt (max_requests_per_window k)),
          (''rate_window_ms'', PInt (rate_window_ms k)),
          (''max_queued_events'', PInt (max_queued_events k)),
          (''max_event_payload_bytes'', PInt (max_event_payload_bytes k)),
          (''max_total_egress_bytes'', PInt (max_total_egress_bytes k)),
          (''supervisor_kill_latency_sla_ms'', PInt (supervisor_kill_latency_sla_ms k))]"
  "\<lambda>_. kill_criteria_of_json" "\<lambda>_ k. validate_kill_criteria k = Inr k"
proof (unfold_locales, goal_cases)
  case (3 P x kvs)
  have "read_kill_criteria kvs = Some x" by (simp add: read_kill_criteria_def read_fields [OF 3(2)])
  with 3 show ?case unfolding kill_criteria_of_json_def kill_criteria_fields_def by (intro of_object_back) simp_all
next
  case (4 P j x)
  then show ?case by (auto simp: kill_criteria_of_json_def of_object_Inr validate_kill_criteria_def)
qed (simp_all add: dump_kill_criteria_def)

interpretation second_hop_body_wire: contract_model dump_second_hop_body
  "\<lambda>b. [(''run_id'', PStr (sh_run_id b)), (''provider_id'', PStr (sh_provider_id b)),
          (''provider_key_id'', PStr (sh_provider_key_id b)), (''endpoint_host'', PStr (sh_endpoint_host b)),
          (''accountable_org'', PStr (sh_accountable_org b)),
          (''responsible_operator'', PStr (sh_responsible_operator b)),
          (''security_contact'', PStr (sh_security_contact b)), (''issued_at'', PStr (sh_issued_at b)),
          (''expires_at'', PStr (sh_expires_at b)), (''evidence_sha256'', str_tuple (sh_evidence_sha256 b)),
          (''authenticated'', PBool (sh_authenticated b)),
          (''non_root_workload'', PBool (sh_non_root_workload b)),
          (''tenant_isolation'', PBool (sh_tenant_isolation b)),
          (''default_deny_egress'', PBool (sh_default_deny_egress b)),
          (''no_ambient_secrets'', PBool (sh_no_ambient_secrets b)),
          (''bounded_requests'', PBool (sh_bounded_requests b)),
          (''abuse_monitoring'', PBool (sh_abuse_monitoring b)),
          (''automatic_containment_authorized'', PBool (sh_automatic_containment_authorized b)),
          (''evidence_exchange_required'', PBool (sh_evidence_exchange_required b))]"
  second_hop_body_of_json "\<lambda>P b. validate_second_hop_body P b = Inr b"
proof (unfold_locales, goal_cases)
  case (3 P x kvs)
  have "read_second_hop_body kvs = Some x" by (simp add: read_second_hop_body_def read_fields [OF 3(2)])
  with 3 show ?case unfolding second_hop_body_of_json_def second_hop_body_fields_def by (intro of_object_back) simp_all
next
  case (4 P j x)
  then show ?case by (auto simp: second_hop_body_of_json_def of_object_Inr validate_second_hop_body_def)
qed (simp_all add: dump_second_hop_body_def)

interpretation second_hop_wire: contract_model dump_second_hop
  "\<lambda>h. [(''body'', dump_second_hop_body (hop_body h)), (''provider_key'', dump_public_key (hop_provider_key h)),
          (''attestation_hash'', PStr (hop_attestation_hash h)),
          (''provider_signature'', dump_signature (hop_provider_signature h))]"
  second_hop_of_json valid_second_hop
proof (unfold_locales, goal_cases)
  case (3 P x kvs)
  have "read_second_hop P kvs = Some x"
    using 3(1) by (simp add: valid_second_hop_def second_hop_body_wire.read_nested public_key_wire.read_nested signature_wire.read_nested read_second_hop_def read_fields [OF 3(2)])
  with 3 show ?case unfolding second_hop_of_json_def valid_second_hop_def by (intro of_object_back) simp_all
next
  case (4 P j x)
  then show ?case by (auto simp: valid_second_hop_def second_hop_of_json_def of_object_Inr read_second_hop_def read_Some Option.bind_eq_Some_conv validate_second_hop_def
      dest: second_hop_body_wire.read_valid public_key_wire.read_valid signature_wire.read_valid)
qed (simp_all add: dump_second_hop_def)

interpretation checkpoint_body_wire: contract_model dump_checkpoint_body
  "\<lambda>b. [(''protocol'', PStr PROTOCOL), (''schema_version'', PStr SCHEMA_VERSION),
          (''run_id'', PStr (wc_run_id b)), (''manifest_hash'', PStr (wc_manifest_hash b)),
          (''witness_key_id'', PStr (wc_witness_key_id b)), (''witnessed_at'', PStr (wc_witnessed_at b)),
          (''event_count'', PInt (wc_event_count b)), (''final_event_hash'', opt_str (wc_final_event_hash b)),
          (''evidence_file_sha256'', PStr (wc_evidence_file_sha256 b))]"
  checkpoint_body_of_json "\<lambda>P b. validate_checkpoint_body P b = Inr b"
proof (unfold_locales, goal_cases)
  case (3 P x kvs)
  have "read_checkpoint_body kvs = Some x" by (simp add: read_checkpoint_body_def protocol_fields_def read_fields [OF 3(2)])
  with 3 show ?case unfolding checkpoint_body_of_json_def checkpoint_body_fields_def by (intro of_object_back) simp_all
next
  case (4 P j x)
  then show ?case by (auto simp: checkpoint_body_of_json_def of_object_Inr validate_checkpoint_body_def)
qed (simp_all add: dump_checkpoint_body_def)

interpretation checkpoint_wire: contract_model dump_checkpoint
  "\<lambda>c. [(''body'', dump_checkpoint_body (c_body c)), (''checkpoint_hash'', PStr (c_hash c)),
          (''witness_signature'', dump_signature (c_signature c))]"
  checkpoint_of_json valid_checkpoint
proof (unfold_locales, goal_cases)
  case (3 P x kvs)
  have "read_checkpoint P kvs = Some x"
    using 3(1) by (simp add: valid_checkpoint_def checkpoint_body_wire.read_nested signature_wire.read_nested read_checkpoint_def read_fields [OF 3(2)])
  with 3 show ?case unfolding checkpoint_of_json_def valid_checkpoint_def by (intro of_object_back) simp_all
next
  case (4 P j x)
  then show ?case by (auto simp: valid_checkpoint_def checkpoint_of_json_def of_object_Inr read_checkpoint_def read_Some Option.bind_eq_Some_conv validate_checkpoint_def
      dest: checkpoint_body_wire.read_valid signature_wire.read_valid)
qed (simp_all add: dump_checkpoint_def)

interpretation manifest_body_wire: contract_model dump_manifest_body
  "\<lambda>m. [(''protocol'', PStr PROTOCOL), (''schema_version'', PStr SCHEMA_VERSION),
          (''manifest_id'', PStr (mb_manifest_id m)), (''run_id'', PStr (mb_run_id m)),
          (''issued_at'', PStr (mb_issued_at m)), (''not_before'', PStr (mb_not_before m)),
          (''expires_at'', PStr (mb_expires_at m)), (''operator_key_id'', PStr (mb_operator_key_id m)),
          (''gateway_key'', dump_public_key (mb_gateway_key m)),
          (''supervisor_key'', dump_public_key (mb_supervisor_key m)),
          (''witness_key'', dump_public_key (mb_witness_key m)),
          (''allowed_egress'', PSeq (map dump_egress_rule (mb_allowed_egress m))),
          (''credentials'', PSeq (map dump_credential_grant (mb_credentials m))),
          (''second_hops'', PSeq (map dump_second_hop (mb_second_hops m))),
          (''kill_criteria'', dump_kill_criteria (mb_kill_criteria m))]"
  manifest_body_of_json valid_manifest_body
proof (unfold_locales, goal_cases)
  case (3 P x kvs)
  have "read_manifest_body P kvs = Some x"
    using 3(1) by (simp add: valid_manifest_body_def read_manifest_body_def protocol_fields_def read_fields [OF 3(2)]
        public_key_wire.read_nested kill_criteria_wire.read_nested egress_rule_wire.read_seq credential_grant_wire.read_seq
        second_hop_wire.read_seq)
  with 3 show ?case unfolding manifest_body_of_json_def manifest_body_fields_def valid_manifest_body_def
    by (intro of_object_back) simp_all
next
  case (4 P j x)
  then obtain kvs where r: "read_manifest_body P kvs = Some x" "validate_manifest_body P x = Inr x"
    by (auto simp: manifest_body_of_json_def of_object_Inr validate_manifest_body_def)
  have d: "list_all (valid P) xs" if "def_field kvs n (read_list (read_model (f P))) [] = Some xs"
    "\<And>j xs. read_list (read_model (f P)) j = Some xs \<Longrightarrow> list_all (valid P) xs"
    for n xs and f :: "prims \<Rightarrow> json \<Rightarrow> 'b result" and valid using that by (auto simp: def_field_def split: option.splits)
  from r show ?case
    by (auto simp: valid_manifest_body_def read_manifest_body_def read_Some Option.bind_eq_Some_conv
        dest: public_key_wire.read_valid kill_criteria_wire.read_valid
          d [OF _ egress_rule_wire.read_seq_valid] d [OF _ credential_grant_wire.read_seq_valid] d [OF _ second_hop_wire.read_seq_valid])
qed (simp_all add: dump_manifest_body_def)

interpretation receipt_body_wire: contract_model dump_receipt_body
  "\<lambda>b. [(''protocol'', PStr PROTOCOL), (''schema_version'', PStr SCHEMA_VERSION),
          (''run_id'', PStr (rb_run_id b)), (''manifest_hash'', PStr (rb_manifest_hash b)),
          (''supervisor_key_id'', PStr (rb_supervisor_key_id b)),
          (''supervisor_instance_id'', PStr (rb_supervisor_instance_id b)),
          (''status'', PStr (run_status_name (rb_status b))), (''started_at'', PStr (rb_started_at b)),
          (''finished_at'', PStr (rb_finished_at b)), (''started_monotonic_ns'', PInt (rb_started_monotonic_ns b)),
          (''finished_monotonic_ns'', PInt (rb_finished_monotonic_ns b)), (''event_count'', PInt (rb_event_count b)),
          (''first_event_hash'', opt_str (rb_first_event_hash b)), (''final_event_hash'', opt_str (rb_final_event_hash b)),
          (''evidence_format'', PStr (lit ''canonical-jsonl-v1'')),
          (''evidence_file_sha256'', PStr (rb_evidence_file_sha256 b)),
          (''observed_request_count'', PInt (rb_observed_request_count b)),
          (''admitted_request_count'', PInt (rb_admitted_request_count b)),
          (''allowed_request_count'', PInt (rb_allowed_request_count b)),
          (''denied_request_count'', PInt (rb_denied_request_count b)),
          (''dispatched_request_count'', PInt (rb_dispatched_request_count b)),
          (''completed_request_count'', PInt (rb_completed_request_count b)),
          (''rejected_overload_count'', PInt (rb_rejected_overload_count b)),
          (''dropped_after_kill_count'', PInt (rb_dropped_after_kill_count b)),
          (''total_egress_bytes'', PInt (rb_total_egress_bytes b)),
          (''kill_acknowledgement'', case rb_kill_acknowledgement b of None \<Rightarrow> PNone | Some k \<Rightarrow> dump_kill_ack k),
          (''witness_checkpoint'', dump_checkpoint (rb_witness_checkpoint b))]"
  receipt_body_of_json valid_receipt_body
proof (unfold_locales, goal_cases)
  case (3 P x kvs)
  have "opt_all (\<lambda>k. validate_kill_ack_body P (k_body k) = Inr (k_body k) \<and> validate_signature (k_signature k) = Inr (k_signature k) \<and>
      validate_kill_ack P k = Inr k) (rb_kill_acknowledgement x)"
    using 3(1) by (simp add: valid_receipt_body_def valid_kill_ack_def [abs_def])
  then have "read_receipt_body P kvs = Some x"
    using 3(1) by (simp add: valid_receipt_body_def read_receipt_body_def protocol_fields_def read_fields [OF 3(2)]
        kill_ack_wire.read_opt checkpoint_wire.read_nested)
  with 3 show ?case unfolding receipt_body_of_json_def receipt_body_fields_def valid_receipt_body_def
    by (intro of_object_back) simp_all
next
  case (4 P j x)
  then obtain kvs where r: "read_receipt_body P kvs = Some x" "validate_receipt_body P x = Inr x"
    by (auto simp: receipt_body_of_json_def of_object_Inr validate_receipt_body_def)
  have k: "opt_all (valid_kill_ack P) v" if "def_field kvs n (read_optional (read_model (kill_ack_of_json P))) None = Some v" for n v
    using that kill_ack_wire.read_opt_valid [of P] by (auto simp: def_field_def valid_kill_ack_def [abs_def] split: option.splits)
  from r show ?case
    by (auto simp: valid_receipt_body_def read_receipt_body_def read_Some Option.bind_eq_Some_conv
        dest: k checkpoint_wire.read_valid)
qed (simp_all add: dump_receipt_body_def)

interpretation manifest_wire: contract_model dump_manifest
  "\<lambda>m. [(''body'', dump_manifest_body (m_body m)), (''manifest_hash'', PStr (m_hash m)),
          (''operator_signature'', dump_signature (m_signature m))]"
  manifest_of_json valid_manifest
proof (unfold_locales, goal_cases)
  case (3 P x kvs)
  have "read_manifest P kvs = Some x"
    using 3(1) by (simp add: valid_manifest_def manifest_body_wire.read_nested signature_wire.read_nested read_manifest_def read_fields [OF 3(2)])
  with 3 show ?case unfolding manifest_of_json_def valid_manifest_def by (intro of_object_back) simp_all
next
  case (4 P j x)
  then show ?case by (auto simp: valid_manifest_def manifest_of_json_def of_object_Inr read_manifest_def read_Some Option.bind_eq_Some_conv validate_manifest_def
      dest: manifest_body_wire.read_valid signature_wire.read_valid)
qed (simp_all add: dump_manifest_def)

interpretation receipt_wire: contract_model dump_receipt
  "\<lambda>r. [(''body'', dump_receipt_body (r_body r)), (''receipt_hash'', PStr (r_hash r)),
          (''supervisor_signature'', dump_signature (r_signature r))]"
  receipt_of_json valid_receipt
proof (unfold_locales, goal_cases)
  case (3 P x kvs)
  have "read_receipt P kvs = Some x"
    using 3(1) by (simp add: valid_receipt_def receipt_body_wire.read_nested signature_wire.read_nested read_receipt_def read_fields [OF 3(2)])
  with 3 show ?case unfolding receipt_of_json_def valid_receipt_def by (intro of_object_back) simp_all
next
  case (4 P j x)
  then show ?case by (auto simp: valid_receipt_def receipt_of_json_def of_object_Inr read_receipt_def read_Some Option.bind_eq_Some_conv validate_receipt_def
      dest: receipt_body_wire.read_valid signature_wire.read_valid)
qed (simp_all add: dump_receipt_def)

section \<open>What the command answers\<close>

context contract_model
begin

lemma load_exact:
  "load_exact_model P (of_json P) dump f = Inr x \<longleftrightarrow> valid P x \<and> (\<exists>b. f = Inr b \<and> canonical_json_bytes P (dump x) = Inr b)"
proof (cases f)
  case (Inr b)
  show ?thesis
  proof
    assume "load_exact_model P (of_json P) dump f = Inr x"
    then show "valid P x \<and> (\<exists>b. f = Inr b \<and> canonical_json_bytes P (dump x) = Inr b)"
      using Inr reads_valid by (auto simp: load_exact_model_def split: if_splits)
  next
    assume "valid P x \<and> (\<exists>b. f = Inr b \<and> canonical_json_bytes P (dump x) = Inr b)"
    then show "load_exact_model P (of_json P) dump f = Inr x"
      using Inr wire_roundtrip by (auto simp: load_exact_model_def)
  qed
qed (simp add: load_exact_model_def)

end

lemma audit_main_0:
  "audit_main P F = (0, Inr report) \<longleftrightarrow>
     (\<exists>m r k e. load_exact_model P (manifest_of_json P) dump_manifest (bf_manifest F) = Inr m \<and>
        load_exact_model P (receipt_of_json P) dump_receipt (bf_receipt F) = Inr r \<and>
        load_exact_model P public_key_of_json dump_public_key (bf_operator_key F) = Inr k \<and> bf_evidence F = Inr e \<and>
        verify_bundle P m r (map InBytes (file_lines e)) k = Inr report)"
  by (auto simp: audit_main_def load_bundle_def split: sum.splits)

text \<open>
  C16. The auditor's command accepts exactly the exact bundles. It exits with 0 and prints a report if and only if every file
  can be read, the manifest, receipt and key files are byte for byte the canonical JSON of a valid manifest, a valid receipt
  and a valid key, and \<open>verify_bundle\<close> gives this report for them and the lines of the evidence file. In every other case
  it exits with 1 and prints the exception.
\<close>

theorem audit_command_exact:
  "(audit_main P F = (0, Inr report) \<longleftrightarrow>
     (\<exists>m r k bm br be bk.
        F = \<lparr> bf_manifest = Inr bm, bf_receipt = Inr br, bf_evidence = Inr be, bf_operator_key = Inr bk \<rparr> \<and>
        valid_manifest P m \<and> canonical_json_bytes P (dump_manifest m) = Inr bm \<and>
        valid_receipt P r \<and> canonical_json_bytes P (dump_receipt r) = Inr br \<and>
        validate_public_key k = Inr k \<and> canonical_json_bytes P (dump_public_key k) = Inr bk \<and>
        verify_bundle P m r (map InBytes (file_lines be)) k = Inr report)) \<and>
   ((\<exists>report. audit_main P F = (0, Inr report)) \<or> (\<exists>exc. audit_main P F = (1, Inl exc)))"
proof (intro conjI, goal_cases)
  case 1
  show ?case
    unfolding audit_main_0 manifest_wire.load_exact receipt_wire.load_exact public_key_wire.load_exact
    by (cases F; clarsimp; blast)
next
  case 2
  show ?case by (auto simp: audit_main_def split: sum.splits)
qed

section \<open>A served run publishes such a bundle\<close>

lemma short_public_key: "validate_public_key k = Inr k \<Longrightarrow> short_text (key_id k) \<and> short_text (key_value k)"
proof -
  assume "validate_public_key k = Inr k"
  then obtain b where b: "opaque_id (key_id k)" "b64url_decode 32 (key_value k) = Inr b"
    by (auto simp: validate_public_key_def is_ok_iff)
  have "short_text (key_value k)"
    using b64url_decode_Inr [OF b(2)] b64_length [of b] b64_ascii [OF b(2)] by (auto simp: short_text_def)
  with short_opaque [OF b(1)] show ?thesis by blast
qed

text \<open>An envelope around a bounded body has canonical bytes.\<close>

lemma envelope_bytes:
  assumes "nfc_fixes_ascii P" "bounded_json P 1 n c body" "n \<le> 1000" "c \<le> 1000000" "sha256_hex_text h"
    "validate_signature s = Inr s" "list_all (\<lambda>c. \<not> digit7 c) name" "length name \<le> 128" "list_all (\<lambda>c. \<not> digit7 c) signed" "length signed \<le> 128"
    "distinct [''body'', name, signed]"
  shows "\<exists>b. canonical_json_bytes P (obj [(''body'', body), (name, PStr h), (signed, dump_signature s)]) = Inr b"
proof -
  note body = bm_Cons [OF assms(2)] and sg = bm_Cons [OF bounded_signature [OF _ assms(1,6), of 1]]
  have "bounded_members P (0 + 1) (n + 5) (c + 10000) [(''body'', body), (name, PStr h), (signed, dump_signature s)]"
    by (simp only: add_0; (intro body sg bm_small bm_Nil)?)
      (use assms short_sha256 [OF assms(5)] in \<open>simp_all add: short_lit small_json_simps\<close>)
  then have "bounded_json P 0 (1 + (n + 5)) (2 + (c + 10000)) (obj [(''body'', body), (name, PStr h), (signed, dump_signature s)])"
    by (rule bounded_obj [rotated 3]) (use assms(1,11) in simp_all)
  from canonical_json_total [OF bounded_total [OF this]] assms(3,4) show ?thesis by force
qed

lemma receipt_bytes:
  assumes "nfc_fixes_ascii P" "sound_receipt P r"
  shows "valid_receipt P r" "\<exists>b. canonical_json_bytes P (dump_receipt r) = Inr b"
proof -
  show "valid_receipt P r"
    using assms(2) by (cases "rb_kill_acknowledgement (r_body r)")
      (simp_all add: sound_receipt_def sound_checkpoint_def sound_ack_def valid_receipt_def valid_receipt_body_def valid_checkpoint_def valid_kill_ack_def)
  have "bounded_json P 1 570 487908 (dump_receipt_body (r_body r))"
    using assms by (intro bounded_receipt_body) (simp_all add: sound_receipt_def)
  from envelope_bytes [OF assms(1) this] show "\<exists>b. canonical_json_bytes P (dump_receipt r) = Inr b" unfolding dump_receipt_def
    using assms(2) by (simp add: sound_receipt_def validate_receipt_def)
qed

lemma key_bytes:
  assumes "nfc_fixes_ascii P" "validate_public_key k = Inr k"
  shows "\<exists>b. canonical_json_bytes P (dump_public_key k) = Inr b"
  using canonical_json_total [OF bounded_total [OF bounded_public_key [OF _ assms(1)]]] short_public_key [OF assms(2)] by force

text \<open>
  C7. The published bundle of a served run passes the auditor's command. Start from a fresh run with sound keys and clocks
  and a valid manifest, serve any number of permitted requests with identifiers of their own, and complete the run:
  \<open>complete\<close> returns a receipt; the receipt, the operator's key and the ledger's events have canonical bytes; and the
  command, given the files with these bytes and the manifest's, exits with 0 and reports as many dispatches and results as
  the run dispatched and completed. The whole run takes place in one undisturbed environment: all its clock readings lie
  within one lifetime of an authorization, and the backend gives the same answer every time.
\<close>

theorem published_bundle_passes:
  assumes "fresh_run P C E w0" "served_run P C E w0 w"
    "rs_observed (w_state w) \<le> MAX_SAFE_INTEGER" "rs_egress_bytes (w_state w) \<le> MAX_SAFE_INTEGER"
    "key_id okey = mb_operator_key_id (m_body (cf_manifest C))" "b64url_decode 32 (key_value okey) = Inr kb"
    "verify_manifest P kb (cf_manifest C) = Inr ()"
    "valid_manifest P (cf_manifest C)" "canonical_json_bytes P (dump_manifest (cf_manifest C)) = Inr bm"
  shows "\<exists>r w' br be bk report. complete P C E w = (Inr r, w') \<and> rb_status (r_body r) = COMPLETED \<and>
    canonical_json_bytes P (dump_receipt r) = Inr br \<and> canonical_jsonl_bytes P (ld_events (w_ledger w')) = Inr be \<and>
    canonical_json_bytes P (dump_public_key okey) = Inr bk \<and>
    audit_main P \<lparr> bf_manifest = Inr bm, bf_receipt = Inr br, bf_evidence = Inr be, bf_operator_key = Inr bk \<rparr> = (0, Inr report) \<and>
    vr_valid report \<and> vr_dispatch_count report = rs_dispatched (w_state w) \<and> vr_result_count report = rs_completed (w_state w) \<and>
    \<not> vr_killed report"
proof -
  obtain r w' be report where r: "complete P C E w = (Inr r, w')" "rb_status (r_body r) = COMPLETED"
      "canonical_jsonl_bytes P (ld_events (w_ledger w')) = Inr be"
      "verify_bundle P (cf_manifest C) r (map InBytes (file_lines be)) okey = Inr report"
      "vr_valid report" "vr_dispatch_count report = rs_dispatched (w_state w)" "vr_result_count report = rs_completed (w_state w)"
      "\<not> vr_killed report" "sound_receipt P r"
    using audit_accepts [OF assms(1-7)] by blast
  have nfc: "nfc_fixes_ascii P" using assms(1) by (simp add: fresh_run_def issuable_def keys_sound_def signer_def)
  have key: "validate_public_key okey = Inr okey"
    using assms(5,6,8) by (simp add: validate_public_key_def valid_manifest_def valid_manifest_body_def validate_manifest_body_def)
  obtain br bk where b: "canonical_json_bytes P (dump_receipt r) = Inr br" "canonical_json_bytes P (dump_public_key okey) = Inr bk"
    using receipt_bytes(2) [OF nfc r(9)] key_bytes [OF nfc key] by blast
  have "audit_main P \<lparr> bf_manifest = Inr bm, bf_receipt = Inr br, bf_evidence = Inr be, bf_operator_key = Inr bk \<rparr> = (0, Inr report)"
    unfolding audit_main_0 manifest_wire.load_exact receipt_wire.load_exact public_key_wire.load_exact
    using assms(8,9) b key receipt_bytes(1) [OF nfc r(9)] r(4) by auto
  with r b show ?thesis by blast
qed

section \<open>The bundle of the reference runtime\<close>

lemma public_of_valid: "public_of P sk kid = Inr k \<Longrightarrow> validate_public_key k = Inr k"
  by (auto simp: public_of_def public_key_from_bytes_def validate_public_key_def split: if_splits)

lemma sign_digest_valid: "sign_digest P domain kid sk digest = Inr s \<Longrightarrow> validate_signature s = Inr s"
  by (auto simp: sign_digest_def signature_from_bytes_def validate_signature_def split: if_splits)

lemma validated_kept:
  "validate_egress_rule P r = Inr r' \<Longrightarrow> r' = r" "validate_kill_criteria k = Inr k' \<Longrightarrow> k' = k"
  "validate_credential_grant P g = Inr g' \<Longrightarrow> g' = g" "validate_manifest_body P b = Inr b' \<Longrightarrow> b' = b"
  by (simp_all add: validate_egress_rule_def validate_kill_criteria_def validate_credential_grant_def validate_manifest_body_def)

lemma runtime_manifest_valid:
  assumes "runtime_manifest P now K L = Inr m"
  shows "valid_manifest P m"
proof -
  from assms obtain rule criteria i e g s k canary grant body where
    v: "validate_egress_rule P (package_rule L) = Inr rule" "validate_kill_criteria (runtime_criteria L) = Inr criteria"
      "public_of P (kb_gateway K) ''gateway:demo'' = Inr g" "public_of P (kb_supervisor K) ''supervisor:demo'' = Inr s"
      "public_of P (kb_witness K) ''witness:demo'' = Inr k"
      "validate_credential_grant P (canary_grant e) = Inr canary" "validate_credential_grant P (package_grant L e) = Inr grant"
    and b: "validate_manifest_body P
       \<lparr> mb_manifest_id = lit ''manifest:demo'', mb_run_id = lit ''run:demo'', mb_issued_at = i, mb_not_before = i, mb_expires_at = e,
         mb_operator_key_id = lit ''operator:demo'', mb_gateway_key = g, mb_supervisor_key = s, mb_witness_key = k,
         mb_allowed_egress = [rule], mb_credentials = [canary, grant], mb_second_hops = [], mb_kill_criteria = criteria \<rparr> = Inr body"
      "sign_manifest P body (kb_operator K) = Inr m"
    unfolding runtime_manifest_def bind_result_eq_Inr by blast
  note same = validated_kept(1) [OF v(1)] validated_kept(2) [OF v(2)] validated_kept(3) [OF v(6)] validated_kept(3) [OF v(7)]
    and body = validated_kept(4) [OF b(1)]
  have "valid_manifest_body P body"
    using v b(1) public_of_valid unfolding body same by (simp add: valid_manifest_body_def)
  with b(2) show ?thesis
    by (auto simp: valid_manifest_def sign_manifest_def validate_manifest_def dest: sign_digest_valid)
qed

lemma reference_manifest:
  assumes "prims_ok P" "keys_ok K" "limits_ok L" "good_time now" "1001 \<le> dt_year now" "dt_year now \<le> 9998"
    "build_reference_runtime P now K L started_at started_ns = Inr (C, w)"
  shows "valid_manifest P (cf_manifest C)" "\<exists>b. canonical_json_bytes P (dump_manifest (cf_manifest C)) = Inr b"
proof -
  obtain m where "runtime_manifest P now K L = Inr m" "cf_manifest C = m"
    using assms(7) by (auto simp: build_reference_runtime_def)
  then show v: "valid_manifest P (cf_manifest C)" using runtime_manifest_valid by blast
  obtain i e g s k where b: "m_body (cf_manifest C) = runtime_body L i e g s k"
    by (rule runtime_built [OF assms(1-6), of started_at started_ns]) (use assms(7) in auto)
  have nfc: "nfc_fixes_ascii P" using assms(1) by (simp add: prims_ok_def)
  have "list_all (\<lambda>k. short_text (key_id k) \<and> short_text (key_value k)) [g, s, k]" "short_text i" "short_text e"
    using v short_public_key short_timestamp by (auto simp: valid_manifest_def valid_manifest_body_def b runtime_body_def validate_manifest_body_def)
  then have "bounded_json P 1 91 150000 (dump_manifest_body (m_body (cf_manifest C)))" unfolding b
    by (intro bounded_body_dump [OF nfc assms(3)]) simp_all
  from envelope_bytes [OF nfc this] v show "\<exists>b. canonical_json_bytes P (dump_manifest (cf_manifest C)) = Inr b"
    unfolding dump_manifest_def by (simp add: valid_manifest_def validate_manifest_def)
qed

theorem published_bundle_passes_witness:
  "\<exists>C w0 w r w' bm br be bk report.
    build_reference_runtime sample_prims (sample_time 5) sample_keys_bundle default_limits (sample_time 5) 7 = Inr (C, w0) \<and>
    served_run sample_prims C steady_env w0 w \<and> complete sample_prims C steady_env w = (Inr r, w') \<and>
    audit_main sample_prims \<lparr> bf_manifest = Inr bm, bf_receipt = Inr br, bf_evidence = Inr be, bf_operator_key = Inr bk \<rparr> = (0, Inr report) \<and>
    vr_valid report \<and> vr_dispatch_count report = 1"
proof -
  let ?k = "sample_key ''operator:demo'' 4"
  note su = sample_prims_lawful sample_setup
  obtain C w0 where b: "build_reference_runtime sample_prims (sample_time 5) sample_keys_bundle default_limits (sample_time 5) 7 = Inr (C, w0)"
    "steady sample_prims (cf_manifest C) steady_env package_action 7" by (rule sample_reference)
  have op: "mb_operator_key_id (m_body (cf_manifest C)) = lit ''operator:demo''" "w_supervisor w0 = init_supervisor (sample_time 5) 7"
    by (rule runtime_built [OF su, of "sample_time 5" 7]; use b(1) in \<open>simp add: runtime_body_def\<close>)+
  have k: "key_id ?k = lit ''operator:demo''" "b64url_decode 32 (key_value ?k) = Inr (replicate 32 4)"
    "p_public sample_prims (kb_operator sample_keys_bundle) = replicate 32 4" by code_simp+
  have "clocks_sound steady_env (w_supervisor w0)"
    using su(4) by (simp add: op(2) clocks_sound_def steady_env_def reference_callbacks_def still_env_def init_supervisor_def safe_nonneg_def MAX_SAFE_INTEGER_def)
  moreover have "calm steady_env" using b(2) by (simp add: steady_def)
  ultimately have r: "fresh_run sample_prims C steady_env w0" "verify_manifest sample_prims (replicate 32 4) (cf_manifest C) = Inr ()"
    "w_state w0 = init_state (mb_kill_criteria (m_body (cf_manifest C)))" "ld_events (w_ledger w0) = []"
    using reference_ready [OF su, of "sample_time 5" 7] b(1) k(3) by auto
  have lim: "4 \<le> rl_max_total_events default_limits" "1048576 \<le> rl_max_total_egress_bytes default_limits" "int (length package_bytes) \<le> 262144"
    by code_simp+
  obtain w where w: "served_run sample_prims C steady_env w0 w" "rs_observed (w_state w) = 1" "rs_egress_bytes (w_state w) = 11"
    "rs_dispatched (w_state w) = 1"
    using one_served [OF conjunct1 [OF reference_servable [OF su(1) sample_nonzero su(2,3) lim(1,2) su(4-6) b package_sample package_wire lim(3)]] r(3,4)]
    by (auto simp: demo_response_def)
  obtain bm where "canonical_json_bytes sample_prims (dump_manifest (cf_manifest C)) = Inr bm" using reference_manifest(2) [OF su b(1)] by blast
  from published_bundle_passes [OF r(1) w(1) _ _ _ k(2) r(2) reference_manifest(1) [OF su b(1)] this] w op(1) k(1) b(1)
  show ?thesis by (fastforce simp: MAX_SAFE_INTEGER_def)
qed

end
