(* ===== verification/BCP_Post_Kill.thy ===== *)
theory BCP_Post_Kill
  imports BCP_Serve
begin

text \<open>
  What requests to a stopped run cost, the subject of the flood scenario of \<^verbatim>\<open>benchmarks/ablation.py\<close>: within the
  run time each is dropped with two counters and no evidence; after the deadline \<open>submit_raw\<close> takes another branch,
  which appends an event for every request.
\<close>

section \<open>Dropped requests\<close>

definition expired :: "config \<Rightarrow> world \<Rightarrow> int \<Rightarrow> bool" where
  "expired C w t \<longleftrightarrow>
     t - sv_started_monotonic_ns (w_supervisor w) > max_runtime_ms (mb_kill_criteria (m_body (cf_manifest C))) * 1000000"

definition drop_request :: "world \<Rightarrow> world" where
  "drop_request w =
     w\<lparr> w_ticks := w_ticks w + 2,
        w_state := (w_state w)\<lparr> rs_observed := rs_observed (w_state w) + 1,
                               rs_dropped_after_kill := rs_dropped_after_kill (w_state w) + 1 \<rparr> \<rparr>"

lemma submit_dropped:
  assumes "calm E" "stopped w" "\<not> expired C w (e_mono E (w_ticks w))"
  shows "submit_raw P C E raw w = (Inr (refusal (lit ''run.not_dispatchable'')), drop_request w)"
proof -
  let ?w = "w\<lparr> w_ticks := w_ticks w + 1 \<rparr>"
  have a: "admit n t (w_state ?w) = (Inr DROPPED_AFTER_KILL, (w_state w)\<lparr> rs_observed := rs_observed (w_state w) + 1,
      rs_dropped_after_kill := rs_dropped_after_kill (w_state w) + 1 \<rparr>)" for n t
    using assms(2) by (simp add: admit_def Let_def)
  have "on_state E (admit n t) ?w = (Inr DROPPED_AFTER_KILL, drop_request w)" for n t
    using calm_on_state [where m = "admit n t", OF assms(1) a] by (simp add: drop_request_def)
  with assms(3) show ?thesis by (simp add: submit_raw_def use_env_def expired_def op_simps)
qed

lemma drop_request_stopped [simp]: "stopped (drop_request w) = stopped w" "expired C (drop_request w) = expired C w"
  by (simp_all add: drop_request_def expired_def fun_eq_iff)

text \<open>
  C19. A flood after the kill costs two counters. On a stopped run, before its deadline and undisturbed, any sequence
  of requests, however long and whatever the bytes, is answered \<open>run.not_dispatchable\<close> one by one; afterwards the
  observed and dropped counters have grown by the number of requests and everything else of the world but the clock
  ticks is as before: evidence, mirror, policy, supervisor and transport log.
\<close>

theorem flood_after_kill_bounded:
  assumes "calm E" "stopped w" "\<And>n. \<not> expired C w (e_mono E n)" "run_ops (submit_raw P C E) raws w = (rs, w')"
  shows "rs = map (\<lambda>raw. (raw, Inr (refusal (lit ''run.not_dispatchable'')))) raws \<and>
    w' = w\<lparr> w_ticks := w_ticks w + 2 * length raws,
            w_state := (w_state w)\<lparr> rs_observed := rs_observed (w_state w) + int (length raws),
                                   rs_dropped_after_kill := rs_dropped_after_kill (w_state w) + int (length raws) \<rparr> \<rparr>"
  using assms(2-4)
proof (induction raws arbitrary: w rs)
  case (Cons raw raws)
  obtain qs where q: "run_ops (submit_raw P C E) raws (drop_request w) = (qs, w')"
    "rs = (raw, Inr (refusal (lit ''run.not_dispatchable''))) # qs"
    using Cons.prems(3) submit_dropped [OF assms(1) Cons.prems(1,2)] by (auto split: prod.splits)
  have "stopped (drop_request w)" "\<And>n. \<not> expired C (drop_request w) (e_mono E n)" using Cons.prems(1,2) by simp_all
  from Cons.IH [OF this q(1)] q(2) show ?case by (simp add: drop_request_def algebra_simps)
qed simp

section \<open>After the deadline\<close>

definition deadline_reason :: pystr where
  "deadline_reason = lit ''runtime.budget_exhausted''"

lemma submit_expired:
  assumes r: "room P E (Suc n) w" and k: "rs_phase (w_state w) \<noteq> PhRunning" "sv_kill_acknowledgement (w_supervisor w) = Some ack"
    and x: "expired C w (e_mono E (w_ticks w))"
  shows "\<exists>e w'. submit_raw P C E raw w = (Inr (refusal deadline_reason), w') \<and> room P E n w' \<and>
    ld_events (w_ledger w') = ld_events (w_ledger w) @ [e] \<and> eb_kind (ev_body e) = VIOLATION \<and>
    w_state w' = w_state w \<and> w_supervisor w' = w_supervisor w"
proof -
  let ?t = "e_mono E (w_ticks w)" and ?w = "w\<lparr> w_ticks := w_ticks w + 2 \<rparr>" and ?p = "reason_payload deadline_reason"
  note c = room_calm [OF r]
  have r1: "room P E (Suc n) ?w" by (rule room_frame [OF r]) simp_all
  have "bounded_json P 0 (1 + 1) (2 + 1542) ?p" unfolding reason_payload_def deadline_reason_def
    by (rule bounded_obj; (intro bm_small bm_Nil)?) (use r in \<open>simp_all add: room_def short_lit small_json_simps\<close>)
  moreover have "safe_nonneg ?t" "last_le ?w ?t" "?t \<le> e_mono E (w_ticks ?w)" using r by (simp_all add: room_def last_le_def)
  ultimately obtain e l mi where e: "gateway_commit P E VIOLATION ?p None (Some ?t) ?w =
      (Inr e, ?w\<lparr> w_ticks := w_ticks ?w + 3, w_ledger := l, w_mirror := mi \<rparr>)"
    "ld_events l = ld_events (w_ledger w) @ [e]" "event_of P VIOLATION ?p None ?t e"
    "room P E n (?w\<lparr> w_ticks := w_ticks ?w + 3, w_ledger := l, w_mirror := mi \<rparr>)"
    using room_gateway_commit [where kind = VIOLATION and payload = ?p and req = None and t = ?t and i = "1 + 1" and c = "2 + 1542", OF r1] by auto
  let ?v = "?w\<lparr> w_ticks := w_ticks ?w + 3, w_ledger := l, w_mirror := mi \<rparr>"
  have latch: "on_state E latch_kill (w\<lparr> w_ticks := w_ticks w + 1 \<rparr>) = (Inr (False, rs_kill_epoch (w_state w), rs_inflight (w_state w)), ?w)"
    using calm_on_state [OF c, of latch_kill "w\<lparr> w_ticks := w_ticks w + 1 \<rparr>"] k(1) by (simp add: latch_kill_def Let_def)
  have con: "contain P C E e ?t ?v = (Inr ack, ?v\<lparr> w_ticks := w_ticks ?v + 1 \<rparr>)"
    using k(2) by (simp add: contain_def contain_locked_def calm_switch [OF c] op_simps)
  have "submit_raw P C E raw w = (Inr (refusal deadline_reason), ?v\<lparr> w_ticks := w_ticks ?v + 1 \<rparr>)"
    using x e(1) latch con
    by (simp add: submit_raw_def deadline_exceeded_def use_env_def expired_def deadline_reason_def op_simps)
  moreover have "room P E n (?v\<lparr> w_ticks := w_ticks ?v + 1 \<rparr>)" by (rule room_frame [OF e(4)]) simp_all
  moreover have "eb_kind (ev_body e) = VIOLATION" using e(3) by (simp add: event_of_def)
  ultimately show ?thesis using e(2)
    by (intro exI [of _ e] exI [of _ "?v\<lparr> w_ticks := w_ticks ?v + 1 \<rparr>"]) simp
qed

text \<open>
  C37. After the deadline the evidence keeps growing. On a killed and acknowledged run past its run time, undisturbed
  and with room in the ledger, each of any number of further requests appends one more VIOLATION event, and none of
  them is counted as observed or dropped: the branch for the deadline is taken before the one that drops requests.
\<close>

theorem expired_run_keeps_appending:
  assumes "room P E (length raws) w" "rs_phase (w_state w) = PhKilled" "sv_kill_acknowledgement (w_supervisor w) \<noteq> None"
    "\<And>n. expired C w (e_mono E n)" "run_ops (submit_raw P C E) raws w = (rs, w')"
  shows "rs = map (\<lambda>raw. (raw, Inr (refusal deadline_reason))) raws \<and>
    (\<exists>es. ld_events (w_ledger w') = ld_events (w_ledger w) @ es \<and> length es = length raws \<and>
       list_all (\<lambda>e. eb_kind (ev_body e) = VIOLATION) es) \<and>
    w_state w' = w_state w"
  using assms
proof (induction raws arbitrary: w rs)
  case (Cons raw raws)
  obtain ack where ack: "sv_kill_acknowledgement (w_supervisor w) = Some ack" using Cons.prems(3) by blast
  have "room P E (Suc (length raws)) w" "rs_phase (w_state w) \<noteq> PhRunning" using Cons.prems(1,2) by simp_all
  from submit_expired [OF this ack Cons.prems(4), of raw] obtain e v where v: "submit_raw P C E raw w = (Inr (refusal deadline_reason), v)"
    "room P E (length raws) v" "ld_events (w_ledger v) = ld_events (w_ledger w) @ [e]" "eb_kind (ev_body e) = VIOLATION"
    "w_state v = w_state w" "w_supervisor v = w_supervisor w" by blast
  obtain qs where q: "run_ops (submit_raw P C E) raws v = (qs, w')" "rs = (raw, Inr (refusal deadline_reason)) # qs"
    using Cons.prems(5) v(1) by (auto split: prod.splits)
  have ex: "expired C v (e_mono E n)" for n using Cons.prems(4) [of n] v(6) by (simp add: expired_def)
  have "rs_phase (w_state v) = PhKilled" "sv_kill_acknowledgement (w_supervisor v) \<noteq> None" using Cons.prems(2) v(5,6) ack by simp_all
  from Cons.IH [OF v(2) this ex q(1)] obtain es where
    "ld_events (w_ledger w') = ld_events (w_ledger v) @ es" "length es = length raws" "list_all (\<lambda>e. eb_kind (ev_body e) = VIOLATION) es"
    "qs = map (\<lambda>raw. (raw, Inr (refusal deadline_reason))) raws" "w_state w' = w_state v" by blast
  with q(2) v show ?case by (auto intro!: exI [of _ "e # es"])
qed simp


section \<open>A killed sample run\<close>

definition killed_sample :: "kill_ack \<Rightarrow> world" where
  "killed_sample ack =
     sample_world\<lparr> w_state := (init_state sample_criteria)\<lparr> rs_phase := PhKilled \<rparr>,
                   w_supervisor := (init_supervisor (sample_time 0) 0)\<lparr> sv_kill_acknowledgement := Some ack \<rparr> \<rparr>"

definition late_env :: env where
  "late_env = still_env\<lparr> e_mono := \<lambda>_. 2000000000 \<rparr>"

lemma sample_run_time: "max_runtime_ms (mb_kill_criteria (m_body (cf_manifest sample_config))) = 1000"
  by (simp add: sample_config_def sample_manifest_def sample_manifest_body_def sample_criteria_def)

theorem flood_after_kill_bounded_witness:
  "\<exists>ack w'. run_ops (submit_raw sample_prims sample_config still_env) [[1], [2], [3]] (killed_sample ack) =
      ([([1], Inr (refusal (lit ''run.not_dispatchable''))), ([2], Inr (refusal (lit ''run.not_dispatchable''))),
        ([3], Inr (refusal (lit ''run.not_dispatchable'')))], w') \<and>
    ld_events (w_ledger w') = [] \<and> rs_dropped_after_kill (w_state w') = 3"
proof -
  obtain ack :: kill_ack where True by blast
  obtain rs w' where r: "run_ops (submit_raw sample_prims sample_config still_env) [[1], [2], [3]] (killed_sample ack) = (rs, w')" by fastforce
  have "stopped (killed_sample ack)" "\<And>n. \<not> expired sample_config (killed_sample ack) (e_mono still_env n)"
    by (simp_all add: killed_sample_def expired_def sample_run_time still_env_def init_supervisor_def)
  from flood_after_kill_bounded [OF still_calm this r] r show ?thesis
    by (intro exI [of _ ack] exI [of _ w']) (simp add: killed_sample_def sample_ledger_def init_state_def)
qed

theorem expired_run_keeps_appending_witness:
  "\<exists>ack rs w'. run_ops (submit_raw sample_prims sample_config late_env) [[1], [2], [3]] (killed_sample ack) = (rs, w') \<and>
    length (ld_events (w_ledger w')) = 3 \<and> rs_observed (w_state w') = 0"
proof -
  obtain ack :: kill_ack where True by blast
  obtain rs w' where r: "run_ops (submit_raw sample_prims sample_config late_env) [[1], [2], [3]] (killed_sample ack) = (rs, w')" by fastforce
  have "room sample_prims late_env (length [[1], [2], [3 :: int]]) (killed_sample ack)"
    using sample_room by (auto simp: room_def late_env_def still_env_def calm_def killed_sample_def last_le_def sample_ledger_def
        safe_nonneg_def MAX_SAFE_INTEGER_def)
  moreover have "rs_phase (w_state (killed_sample ack)) = PhKilled" "sv_kill_acknowledgement (w_supervisor (killed_sample ack)) \<noteq> None"
    "\<And>n. expired sample_config (killed_sample ack) (e_mono late_env n)"
    by (simp_all add: killed_sample_def expired_def sample_run_time late_env_def init_supervisor_def)
  ultimately have "\<exists>es. ld_events (w_ledger w') = ld_events (w_ledger (killed_sample ack)) @ es \<and> length es = 3"
    "w_state w' = w_state (killed_sample ack)"
    using expired_run_keeps_appending [OF _ _ _ _ r] by auto
  with r show ?thesis
    by (intro exI [of _ ack] exI [of _ rs] exI [of _ w']) (auto simp: killed_sample_def sample_ledger_def init_state_def)
qed

end
