(* ===== verification/Spec2Isabelle.thy ===== *)
theory Spec2Isabelle
  imports BCP_Bundle BCP_Post_Kill
begin

text \<open>
  \<^bold>\<open>Verification of the BCP-1 containment runtime.\<close>

  \<^bold>\<open>The program.\<close> An agent sends actions (HTTP requests it wants made) to a gateway. The gateway
  (\<^verbatim>\<open>app/gateway.py\<close>) admits the raw bytes, reads the action, asks the policy engine (\<^verbatim>\<open>app/policy.py\<close>) whether the signed
  manifest permits it, signs a decision and records request and decision in a hash-chained evidence ledger
  (\<^verbatim>\<open>app/evidence.py\<close>). The executor (\<^verbatim>\<open>app/executor.py\<close>) consumes a decision once, under the lock of the run state
  (\<^verbatim>\<open>app/state.py\<close>), records the dispatch, releases the credential and calls the transport. Every commit is observed by a
  constant-size mirror in the supervisor (\<^verbatim>\<open>app/supervisor.py\<close>), which also stops the run (latch, isolate, acknowledge),
  completes it, and issues the signed receipt with a checkpoint of the transparency witness. The offline auditor
  (\<^verbatim>\<open>auditor/verify.py\<close>) checks manifest, receipt and evidence file afterwards. \<^verbatim>\<open>app/main.py\<close> puts the runtime
  behind HTTP and \<^verbatim>\<open>app/factory.py\<close> builds it. \<^verbatim>\<open>app/models.py\<close> and \<^verbatim>\<open>app/action.py\<close> hold the records, their
  validation, the canonical JSON profile, hashing and signing.

  \<^bold>\<open>The theories\<close>, in the order of their imports, with the code they model.

  \<^item> \<^verbatim>\<open>BCP_Prelude\<close>: Python text and bytes as lists of code points, exceptions as values, operations
    \<open>'s \<Rightarrow> 'a result \<times> 's\<close> that keep the mutations made before an exception; \<open>guarantees\<close> and \<open>spec\<close> with the locale
    \<open>run_order\<close>, whose rules for sequencing, handlers and branches carry the proofs about handlers.
  \<^item> \<^verbatim>\<open>BCP_Utf8\<close>, \<^verbatim>\<open>BCP_Json\<close>, \<^verbatim>\<open>BCP_Json_Canon\<close>, \<^verbatim>\<open>BCP_Json_Parse\<close>, \<^verbatim>\<open>BCP_Json_Roundtrip\<close>,
    \<^verbatim>\<open>BCP_Json_Size\<close>: the canonical JSON profile of \<^verbatim>\<open>models.py\<close> (validation, key order by UTF-16 units, serialization, strict
    parser), canonical form up to member order, round trip, size bounds.
  \<^item> \<^verbatim>\<open>BCP_Encoding\<close>, \<^verbatim>\<open>BCP_Net\<close>: hex, base64url, timestamps, hosts, networks, paths, identifiers.
  \<^item> \<^verbatim>\<open>BCP_Contract\<close>, \<^verbatim>\<open>BCP_Records\<close>: manifest, events, decisions, acknowledgements, checkpoints and receipts with
    their validators, \<open>model_dump\<close>, \<open>sign\<close>, \<open>verify\<close> and \<open>verify_against\<close>.
  \<^item> \<^verbatim>\<open>BCP_Action\<close>, \<^verbatim>\<open>BCP_Policy\<close>: the action and the policy engine, with the declarative policy \<open>permitted\<close> it refines.
  \<^item> \<^verbatim>\<open>BCP_State\<close>: the run state, its invariant, and arbitrary interleavings of its calls (\<open>rs_run\<close>).
  \<^item> \<^verbatim>\<open>BCP_Evidence\<close>, \<^verbatim>\<open>BCP_Progress\<close>, \<^verbatim>\<open>BCP_Mirror\<close>: ledger with write-ahead file, the observer interface
    (locale \<open>commit_observer\<close>), the contract of signed envelopes (locale \<open>envelope\<close>, interpreted for four records), mirror
    and witness (locale \<open>write_once\<close>).
  \<^item> \<^verbatim>\<open>BCP_World\<close>: the shared world, the configuration and the environment; \<open>evolves\<close>, what every handler guarantees and
    what other threads may do between two calls of a handler.
  \<^item> \<^verbatim>\<open>BCP_Supervisor\<close>, \<^verbatim>\<open>BCP_Receipt\<close>, \<^verbatim>\<open>BCP_Kill\<close>: containment, emergency isolation, receipts, completion, watchdog;
    completed and killed runs produce receipts that verify; an emergency that prevents a receipt.
  \<^item> \<^verbatim>\<open>BCP_Gateway\<close>, \<^verbatim>\<open>BCP_Executor\<close>, \<^verbatim>\<open>BCP_Serve\<close>, \<^verbatim>\<open>BCP_Post_Kill\<close>: \<open>submit_raw\<close>, \<open>fail_closed\<close>,
    \<open>dispatch\<close>; mediation, justification of every transport call, failure paths; a permitted request is served; the
    cost of requests to a stopped run.
  \<^item> \<^verbatim>\<open>BCP_Wire\<close>, \<^verbatim>\<open>BCP_Readers\<close>: reading actions and records from JSON (locale \<open>contract_model\<close>: what is
    written is read back).
  \<^item> \<^verbatim>\<open>BCP_Auditor\<close>, \<^verbatim>\<open>BCP_Audit_Sound\<close>, \<^verbatim>\<open>BCP_Audit_File\<close>, \<^verbatim>\<open>BCP_Audited\<close>: the auditor as a fold over the
    evidence lines; what acceptance implies; runs of the model pass it; a receipt requested too early and a repeated request
    identifier, after which nothing is accepted.
  \<^item> \<^verbatim>\<open>BCP_Adapter\<close>, \<^verbatim>\<open>BCP_Factory\<close>: the HTTP endpoints and the reference runtime; the runtime the factory builds
    satisfies the hypotheses of the theorems above and answers a request. The factory's transport and isolation backend reach
    the components as answers of the environment (\<open>reference_callbacks\<close>).
  \<^item> \<^verbatim>\<open>BCP_Bundle\<close>: the readers of manifest, receipt and key files (twelve further instances of \<open>contract_model\<close>) and
    the auditor's command; which files it accepts, and that the bundle of a served run is among them.

  \<^bold>\<open>State and operations.\<close> Each class is a \<open>record\<close> of its mutable attributes, each method a definition on it, or, where
  a method calls other objects, an operation on \<open>world\<close>, which holds one field per shared object. \<open>config\<close> holds what is
  fixed at construction. Names follow the source; a handler split into several definitions (one per branch or callback)
  has each part mapped to its own lines.

  \<^bold>\<open>Parameters.\<close> \<open>prims\<close>: Unicode normalization and lower-casing, SHA-256, Ed25519. What the code relies on is stated as
  \<open>digest_ok\<close>, \<open>signature_ok\<close>, \<open>nfc_fixes_ascii\<close>, \<open>lower_fixes_ascii\<close>; \<open>sample_prims\<close> satisfies them. No collision
  resistance or unforgeability is assumed: where a theorem needs it, it concludes with an explicit
  collision instead. \<open>env\<close>: clocks, random tokens, outcomes of file writes, isolation backend, transport,
  and the steps of other threads. A file write is complete, short without an error, or failed. Safety theorems hold for every \<open>env\<close> with \<open>fair_env\<close>; theorems that a result is
  produced name what must not fail.

  \<^bold>\<open>Bounds and fuel.\<close> Loops over input are structural recursions. Only the JSON parser has a counter, twice the length of
  the text plus two; \<open>parser_fuel_enough\<close> shows that it never runs out. The limits of the code (depth, nodes,
  bytes, safe integers, digits of \<open>int\<close>) are its own constants.

  \<^bold>\<open>What is shown.\<close> Safety under interleaving: no transport call without a signed, recorded, unexpired, single-use ALLOW
  for exactly that action; after a stop nothing is admitted, dispatched or sent; budgets hold; a failure in gateway,
  executor or endpoint leaves the run stopped, except for what the executor refuses before it begins a dispatch and for a
  client that disconnects. Evidence: append-only chain, the mirror agrees with it, and so does the write-ahead file as long
  as every write is complete; witness never equivocates, receipts are final. Audit: an accepted bundle traces every dispatch
  back to its request and its decision; altering the evidence is detected or exhibits a collision; completed and killed runs verify,
  and the files a run of served requests publishes pass the auditor's command. Liveness: permitted requests are answered, up to the composed reference
  runtime. Errors: several behaviours that contradict the documentation or block a receipt are proved as theorems
  and listed as findings.

  \<^bold>\<open>Not modelled.\<close> Parsing the auditor's command line and the text it prints (the report or the exception is the
  result of the model); routing and sending of the web framework; key generation. The benchmarks \<^verbatim>\<open>benchmarks/ablation.py\<close> and
  \<^verbatim>\<open>benchmarks/auditability.py\<close>, the demonstrations and probes and the release scripts are drivers: they run the
  components above on fixed inputs, compare with small baselines and write files, and hold no protocol logic of their own.
\<close>

end
